(* ===== verification/Prelude.thy ===== *)
theory Prelude
  imports Main
begin

text \<open>
  Shared vocabulary of the development: Rust's \<open>Result\<close> together with panics, the
  state-passing operations built over it, \<open>i64\<close> arithmetic, ordered and hashed maps as
  association lists, \<open>itertools\<close>-style list functions, ASCII strings, and the decimal
  printing and parsing of machine integers as \<open>core::num\<close> does it. The collections
  \<open>res_simps\<close> and \<open>map_simps\<close> carry the lemmas the component theories rewrite with.
\<close>

named_theorems res_simps \<open>unfolding of the result and operation combinators\<close>
named_theorems map_simps \<open>laws of the association-list maps\<close>

section \<open>Results, panics and stateful operations\<close>

text \<open>
  A Rust expression of type \<open>Result<T, E>\<close> returns \<open>Ok\<close>, returns \<open>Err\<close>, or does not
  return because it panics (\<open>unwrap\<close>, \<open>expect\<close>, \<open>unreachable!\<close>, \<open>todo!\<close>, an index
  out of range). All three are values here.
\<close>

datatype ('e, 'a) res = Ok 'a | Err 'e | Panic string

fun and_then :: "('e, 'a) res \<Rightarrow> ('a \<Rightarrow> ('e, 'b) res) \<Rightarrow> ('e, 'b) res" where
  "and_then (Ok x) f = f x"
| "and_then (Err e) f = Err e"
| "and_then (Panic p) f = Panic p"

fun map_err :: "('e \<Rightarrow> 'f) \<Rightarrow> ('e, 'a) res \<Rightarrow> ('f, 'a) res" where
  "map_err g (Ok x) = Ok x"
| "map_err g (Err e) = Err (g e)"
| "map_err g (Panic p) = Panic p"

fun is_ok :: "('e, 'a) res \<Rightarrow> bool" where
  "is_ok (Ok x) = True"
| "is_ok (Err e) = False"
| "is_ok (Panic p) = False"

definition ok_or :: "'e \<Rightarrow> 'a option \<Rightarrow> ('e, 'a) res" where
  "ok_or e o' = (case o' of None \<Rightarrow> Err e | Some x \<Rightarrow> Ok x)"

definition expect :: "string \<Rightarrow> 'a option \<Rightarrow> ('e, 'a) res" where
  "expect msg o' = (case o' of None \<Rightarrow> Panic msg | Some x \<Rightarrow> Ok x)"

text \<open>\<open>iter.map(f).collect::<Result<Vec<_>, _>>()\<close>: stops at the first failure.\<close>

fun collect :: "('a \<Rightarrow> ('e, 'b) res) \<Rightarrow> 'a list \<Rightarrow> ('e, 'b list) res" where
  "collect f [] = Ok []"
| "collect f (x # xs) = and_then (f x) (\<lambda>y. and_then (collect f xs) (\<lambda>ys. Ok (y # ys)))"

text \<open>A loop that threads an accumulator and may fail, and an index into a vector.\<close>

fun fold_res :: "('a \<Rightarrow> 's \<Rightarrow> ('e, 's) res) \<Rightarrow> 'a list \<Rightarrow> 's \<Rightarrow> ('e, 's) res" where
  "fold_res f [] s = Ok s"
| "fold_res f (x # xs) s = and_then (f x s) (fold_res f xs)"

definition idx_get :: "'a list \<Rightarrow> nat \<Rightarrow> ('e, 'a) res" where
  "idx_get xs i = (if i < length xs then Ok (xs ! i) else Panic ''index out of bounds'')"

lemma fold_res_append [simp]: "fold_res f (xs @ ys) s = and_then (fold_res f xs s) (fold_res f ys)"
proof (induction xs arbitrary: s)
  case (Cons x xs)
  then show ?case by (cases "f x s") auto
qed simp

lemma fold_res_cong [fundef_cong]:
  assumes "xs = ys" "s = t" "\<And>x s. x \<in> set ys \<Longrightarrow> f x s = g x s"
  shows "fold_res f xs s = fold_res g ys t"
proof -
  have "(\<And>x s. x \<in> set ys \<Longrightarrow> f x s = g x s) \<Longrightarrow> fold_res f ys s = fold_res g ys s" for s
  proof (induction ys arbitrary: s)
    case (Cons y ys)
    then show ?case by (cases "g y s") auto
  qed simp
  with assms show ?thesis by simp
qed

lemma fold_res_Ok:
  assumes "I s" and "\<And>x s. x \<in> set xs \<Longrightarrow> I s \<Longrightarrow> \<exists>s'. f x s = Ok s' \<and> I s'"
  shows "\<exists>s'. fold_res f xs s = Ok s' \<and> I s'"
  using assms
proof (induction xs arbitrary: s)
  case (Cons x xs)
  then obtain s1 where "f x s = Ok s1" "I s1" by force
  with Cons show ?case by auto
qed simp

lemma idx_get_Ok_iff [simp]: "idx_get xs i = Ok x \<longleftrightarrow> i < length xs \<and> x = xs ! i"
  by (auto simp: idx_get_def)

lemma idx_get_in [simp]: "i < length xs \<Longrightarrow> idx_get xs i = Ok (xs ! i)"
  by simp

lemma and_then_Ok_iff [simp]: "and_then m f = Ok y \<longleftrightarrow> (\<exists>x. m = Ok x \<and> f x = Ok y)"
  by (cases m) auto

lemma and_then_Ok_right [simp]: "and_then m Ok = m"
  by (cases m) auto

lemma and_then_assoc [simp]: "and_then (and_then m f) g = and_then m (\<lambda>x. and_then (f x) g)"
  by (cases m) auto

lemma map_err_Ok_iff [simp]: "map_err g m = Ok x \<longleftrightarrow> m = Ok x"
  by (cases m) auto

lemma ok_or_simps [simp]: "ok_or e (Some x) = Ok x" "ok_or e None = Err e"
  by (simp_all add: ok_or_def)

lemma ok_or_Ok_iff [simp]: "ok_or e v = Ok x \<longleftrightarrow> v = Some x"
  by (cases v) auto

lemma expect_simps [simp]: "expect m (Some x) = Ok x" "expect m None = Panic m"
  by (simp_all add: expect_def)

lemma expect_Ok_iff [simp]: "expect e v = Ok x \<longleftrightarrow> v = Some x"
  by (cases v) auto

lemma is_ok_iff: "is_ok m \<longleftrightarrow> (\<exists>x. m = Ok x)"
  by (cases m) auto

lemma collect_Ok_map: "(\<And>x. x \<in> set xs \<Longrightarrow> f x = Ok (g x)) \<Longrightarrow> collect f xs = Ok (map g xs)"
  by (induction xs) auto

lemma collect_Ok_length: "collect f xs = Ok ys \<Longrightarrow> length ys = length xs"
  by (induction xs arbitrary: ys) auto

lemma collect_Ok_nth: "collect f xs = Ok ys \<Longrightarrow> i < length xs \<Longrightarrow> f (xs ! i) = Ok (ys ! i)"
  by (induction xs arbitrary: ys i) (auto simp: nth_Cons split: nat.splits)

lemma collect_Ok_set: "collect f xs = Ok ys \<Longrightarrow> y \<in> set ys \<Longrightarrow> \<exists>x\<in>set xs. f x = Ok y"
  by (induction xs arbitrary: ys) auto

text \<open>
  A method with \<open>&mut self\<close> is a function from the state to the new state and a result.
  The state is returned on the error branches too: Rust keeps what was written before the
  early return.
\<close>

type_synonym ('s, 'e, 'a) op = "'s \<Rightarrow> 's \<times> ('e, 'a) res"

definition ret :: "'a \<Rightarrow> ('s, 'e, 'a) op" where
  "ret x s = (s, Ok x)"

definition raise :: "'e \<Rightarrow> ('s, 'e, 'a) op" where
  "raise e s = (s, Err e)"

definition lift_res :: "('e, 'a) res \<Rightarrow> ('s, 'e, 'a) op" where
  "lift_res r s = (s, r)"

definition seq :: "('s, 'e, 'a) op \<Rightarrow> ('a \<Rightarrow> ('s, 'e, 'b) op) \<Rightarrow> ('s, 'e, 'b) op" where
  "seq m f s = (case m s of (s', Ok x) \<Rightarrow> f x s' | (s', Err e) \<Rightarrow> (s', Err e)
                 | (s', Panic p) \<Rightarrow> (s', Panic p))"

text \<open>A read of the state that may fail, and an update that cannot.\<close>

definition query :: "('s \<Rightarrow> ('e, 'a) res) \<Rightarrow> ('s, 'e, 'a) op" where
  "query f s = (s, f s)"

definition update :: "('s \<Rightarrow> 's) \<Rightarrow> ('s, 'e, unit) op" where
  "update f s = (f s, Ok ())"

lemma query_app [simp, res_simps]: "query f s = (s, f s)" by (simp add: query_def)
lemma update_app [simp, res_simps]: "update f s = (f s, Ok ())" by (simp add: update_def)

text \<open>\<open>for x in xs { f(x)?; }\<close> over a state.\<close>

fun for_each :: "('a \<Rightarrow> ('s, 'e, unit) op) \<Rightarrow> 'a list \<Rightarrow> ('s, 'e, unit) op" where
  "for_each f [] = ret ()"
| "for_each f (x # xs) = seq (f x) (\<lambda>_. for_each f xs)"

lemma ret_app [simp, res_simps]: "ret x s = (s, Ok x)" by (simp add: ret_def)
lemma raise_app [simp, res_simps]: "raise e s = (s, Err e)" by (simp add: raise_def)
lemma lift_res_app [simp, res_simps]: "lift_res r s = (s, r)" by (simp add: lift_res_def)

lemma seq_app [res_simps]:
  "seq m f s = (case snd (m s) of Ok x \<Rightarrow> f x (fst (m s)) | Err e \<Rightarrow> (fst (m s), Err e)
                 | Panic p \<Rightarrow> (fst (m s), Panic p))"
  by (auto simp: seq_def split: prod.splits res.splits)

lemma seq_OkE:
  assumes "seq m f s = (s', Ok y)"
  obtains s1 x where "m s = (s1, Ok x)" and "f x s1 = (s', Ok y)"
  using assms by (auto simp: seq_def split: prod.splits res.splits)

text \<open>An invariant every operation keeps, whatever it returns, is kept by compositions.\<close>

definition preserves :: "('s \<Rightarrow> bool) \<Rightarrow> ('s, 'e, 'a) op \<Rightarrow> bool" where
  "preserves I m \<longleftrightarrow> (\<forall>s. I s \<longrightarrow> I (fst (m s)))"

lemma preservesI: "(\<And>s. I s \<Longrightarrow> I (fst (m s))) \<Longrightarrow> preserves I m"
  by (simp add: preserves_def)

lemma preservesD: "preserves I m \<Longrightarrow> I s \<Longrightarrow> I (fst (m s))"
  by (simp add: preserves_def)

lemma preserves_seq:
  assumes "preserves I m" and "\<And>x. preserves I (f x)"
  shows "preserves I (seq m f)"
  using assms by (auto simp: preserves_def seq_app split: res.splits)

lemma preserves_basic [simp]: "preserves I (ret x)" "preserves I (raise e)" "preserves I (lift_res r)"
  by (simp_all add: preserves_def)

lemma preserves_for_each: "(\<And>x. preserves I (f x)) \<Longrightarrow> preserves I (for_each f xs)"
  by (induction xs) (auto intro!: preserves_seq)

section \<open>64-bit integers\<close>

text \<open>
  \<open>i64\<close> values are \<open>int\<close>; additions and casts wrap around modulo \<open>2 ^ 64\<close> into the
  signed range, as release builds do.
\<close>

type_synonym i64 = int
type_synonym usize = nat

definition i64_min :: int where "i64_min = - (2 ^ 63)"
definition i64_max :: int where "i64_max = 2 ^ 63 - 1"

definition in_i64 :: "int \<Rightarrow> bool" where
  "in_i64 i \<longleftrightarrow> i64_min \<le> i \<and> i \<le> i64_max"

definition wrap_i64 :: "int \<Rightarrow> i64" where
  "wrap_i64 i = (i + 2 ^ 63) mod 2 ^ 64 - 2 ^ 63"

definition i64_add :: "i64 \<Rightarrow> i64 \<Rightarrow> i64" where
  "i64_add a b = wrap_i64 (a + b)"

definition usize_as_i64 :: "usize \<Rightarrow> i64" where
  "usize_as_i64 n = wrap_i64 (int n)"

lemmas i64_defs = in_i64_def i64_min_def i64_max_def wrap_i64_def i64_add_def usize_as_i64_def

lemma wrap_i64_id [simp]: "in_i64 i \<Longrightarrow> wrap_i64 i = i"
  by (simp add: i64_defs)

lemma wrap_i64_in_range [simp]: "in_i64 (wrap_i64 i)"
proof -
  have "0 \<le> (i + 2 ^ 63) mod 2 ^ 64" and "(i + 2 ^ 63) mod 2 ^ 64 < (2 ^ 64 :: int)"
    by simp_all
  then show ?thesis by (simp add: i64_defs)
qed

lemma i64_add_id [simp]: "in_i64 (a + b) \<Longrightarrow> i64_add a b = a + b"
  by (simp add: i64_add_def)

lemma usize_as_i64_id [simp]: "n < 2 ^ 63 \<Longrightarrow> usize_as_i64 n = int n"
  by (simp add: usize_as_i64_def i64_defs)

section \<open>Maps\<close>

text \<open>
  \<open>IndexMap\<close> keeps insertion order: inserting an existing key replaces the value in place,
  a new key goes to the end. A \<open>HashMap\<close> is represented in the same way; its iteration
  order is unspecified in Rust, so no property may depend on it. Values are reached by
  \<open>map_of\<close>; keys are distinct, which every operation keeps.
\<close>

type_synonym ('k, 'v) imap = "('k \<times> 'v) list"

abbreviation im_get :: "('k, 'v) imap \<Rightarrow> 'k \<Rightarrow> 'v option" where
  "im_get \<equiv> map_of"

fun im_insert :: "'k \<Rightarrow> 'v \<Rightarrow> ('k, 'v) imap \<Rightarrow> ('k, 'v) imap" where
  "im_insert k v [] = [(k, v)]"
| "im_insert k v ((k', v') # m) = (if k = k' then (k, v) # m else (k', v') # im_insert k v m)"

definition im_remove :: "'k \<Rightarrow> ('k, 'v) imap \<Rightarrow> ('k, 'v) imap" where
  "im_remove k m = filter (\<lambda>p. fst p \<noteq> k) m"

definition im_contains :: "'k \<Rightarrow> ('k, 'v) imap \<Rightarrow> bool" where
  "im_contains k m \<longleftrightarrow> im_get m k \<noteq> None"

abbreviation im_keys :: "('k, 'v) imap \<Rightarrow> 'k list" where
  "im_keys m \<equiv> map fst m"

abbreviation im_values :: "('k, 'v) imap \<Rightarrow> 'v list" where
  "im_values m \<equiv> map snd m"

abbreviation im_wf :: "('k, 'v) imap \<Rightarrow> bool" where
  "im_wf m \<equiv> distinct (map fst m)"

text \<open>\<open>shift_remove_full\<close> followed by \<open>shift_insert\<close> at the position it returned.\<close>

fun im_rename :: "'k \<Rightarrow> 'k \<Rightarrow> 'v \<Rightarrow> ('k, 'v) imap \<Rightarrow> ('k, 'v) imap" where
  "im_rename old new v [] = []"
| "im_rename old new v ((k, w) # m) =
     (if k = old then (new, v) # m else (k, w) # im_rename old new v m)"

lemma im_get_insert [simp, map_simps]: "im_get (im_insert k v m) = (im_get m)(k \<mapsto> v)"
  by (induction k v m rule: im_insert.induct) auto

lemma im_get_remove [simp, map_simps]: "im_get (im_remove k m) = (im_get m)(k := None)"
  by (induction m) (auto simp: im_remove_def)

lemma set_keys_insert [simp]: "fst ` set (im_insert k v m) = insert k (fst ` set m)"
  by (induction k v m rule: im_insert.induct) auto

lemma im_wf_insert [simp]: "im_wf (im_insert k v m) \<longleftrightarrow> im_wf m"
  by (induction k v m rule: im_insert.induct) auto

lemma im_wf_remove [simp]: "im_wf m \<Longrightarrow> im_wf (im_remove k m)"
  by (simp add: im_remove_def distinct_map_filter)

lemma im_contains_iff [simp]: "im_contains k m \<longleftrightarrow> k \<in> fst ` set m"
  by (simp add: im_contains_def map_of_eq_None_iff)

lemma im_insert_new: "k \<notin> fst ` set m \<Longrightarrow> im_insert k v m = m @ [(k, v)]"
  by (induction k v m rule: im_insert.induct) auto

lemma im_rename_get:
  assumes "im_wf m" and "im_get m old \<noteq> None" and "im_get m new = None"
  shows "im_get (im_rename old new v m) = (im_get m)(old := None, new \<mapsto> v)"
  using assms
proof (induction old new v m rule: im_rename.induct)
  case (2 old new v k w m)
  show ?case
  proof (cases "k = old")
    case True
    with 2 have "im_get m old = None"
      by (simp add: map_of_eq_None_iff)
    with 2 True show ?thesis
      by (auto simp: fun_eq_iff)
  next
    case False
    with 2 show ?thesis
      by (auto simp: fun_upd_twist split: if_splits)
  qed
qed simp

lemma im_rename_wf:
  assumes "im_wf m" and "new \<notin> fst ` set m"
  shows "im_wf (im_rename old new v m)"
proof -
  have "fst ` set (im_rename old new v m) \<subseteq> insert new (fst ` set m)" for m
    by (induction old new v m rule: im_rename.induct) auto
  with assms show ?thesis
    by (induction old new v m rule: im_rename.induct) auto
qed

text \<open>The contract a client of a map relies on, and the maps of the model as its provider.\<close>

locale finite_map =
  fixes get :: "'m \<Rightarrow> 'k \<Rightarrow> 'v option"
    and ins :: "'k \<Rightarrow> 'v \<Rightarrow> 'm \<Rightarrow> 'm"
    and del :: "'k \<Rightarrow> 'm \<Rightarrow> 'm"
  assumes get_ins: "get (ins k v m) = (get m)(k \<mapsto> v)"
    and get_del: "get (del k m) = (get m)(k := None)"
begin

lemma get_ins_same: "get (ins k v m) k = Some v"
  by (simp add: get_ins)

lemma get_ins_other: "k' \<noteq> k \<Longrightarrow> get (ins k v m) k' = get m k'"
  by (simp add: get_ins)

lemma get_del_same: "get (del k m) k = None"
  by (simp add: get_del)

lemma get_del_other: "k' \<noteq> k \<Longrightarrow> get (del k m) k' = get m k'"
  by (simp add: get_del)

lemma ins_del: "get (del k (ins k v m)) = get (del k m)"
  by (simp add: get_ins get_del)

lemma fold_ins_get:
  "distinct (map fst kvs) \<Longrightarrow> get (fold (\<lambda>(k, v). ins k v) kvs m) = (get m ++ map_of kvs)"
proof (induction kvs arbitrary: m)
  case (Cons kv kvs)
  obtain k v where kv: "kv = (k, v)" by force
  from Cons.prems kv have "map_of kvs k = None"
    by (simp add: map_of_eq_None_iff)
  with Cons kv show ?case
    by (auto simp: get_ins map_add_def fun_eq_iff split: option.splits)
qed simp

end

interpretation imap: finite_map im_get im_insert im_remove
  by unfold_locales simp_all

section \<open>List functions of itertools\<close>

text \<open>\<open>unique_by\<close> keeps the first element of each key.\<close>

fun unique_by_from :: "('a \<Rightarrow> 'k) \<Rightarrow> 'k set \<Rightarrow> 'a list \<Rightarrow> 'a list" where
  "unique_by_from f seen [] = []"
| "unique_by_from f seen (x # xs) =
     (if f x \<in> seen then unique_by_from f seen xs
      else x # unique_by_from f (insert (f x) seen) xs)"

definition unique_by :: "('a \<Rightarrow> 'k) \<Rightarrow> 'a list \<Rightarrow> 'a list" where
  "unique_by f xs = unique_by_from f {} xs"

definition unique :: "'a list \<Rightarrow> 'a list" where
  "unique = unique_by id"

lemma unique_by_from_keys:
  "f ` set (unique_by_from f seen xs) = f ` set xs - seen"
  by (induction xs arbitrary: seen) auto

lemma unique_by_from_subset: "set (unique_by_from f seen xs) \<subseteq> set xs"
  by (induction xs arbitrary: seen) auto

lemma unique_by_from_distinct: "distinct (map f (unique_by_from f seen xs))"
proof (induction xs arbitrary: seen)
  case (Cons x xs)
  have "f x \<notin> f ` set (unique_by_from f (insert (f x) seen) xs)"
    by (simp add: unique_by_from_keys)
  with Cons show ?case by auto
qed simp

lemma unique_by_keys [simp]: "f ` set (unique_by f xs) = f ` set xs"
  by (simp add: unique_by_def unique_by_from_keys)

lemma unique_by_subset: "set (unique_by f xs) \<subseteq> set xs"
  by (simp add: unique_by_def unique_by_from_subset)

lemma unique_by_distinct [simp]: "distinct (map f (unique_by f xs))"
  by (simp add: unique_by_def unique_by_from_distinct)

lemma unique_by_from_first:
  assumes "x \<in> set (unique_by_from f seen xs)"
  shows "\<exists>ys zs. xs = ys @ x # zs \<and> f x \<notin> f ` set ys"
  using assms
proof (induction xs arbitrary: seen)
  case (Cons a xs)
  show ?case
  proof (cases "x = a \<and> f a \<notin> seen")
    case True
    then show ?thesis by force
  next
    case False
    with Cons.prems obtain seen' where x: "x \<in> set (unique_by_from f seen' xs)"
      and fx: "f a \<in> seen'"
      by (auto split: if_splits)
    from x fx have "f x \<noteq> f a"
      using unique_by_from_keys [of f seen' xs] by (metis Diff_iff image_eqI)
    moreover obtain ys zs where "xs = ys @ x # zs" and "f x \<notin> f ` set ys"
      using Cons.IH [OF x] by blast
    ultimately have "a # xs = (a # ys) @ x # zs \<and> f x \<notin> f ` set (a # ys)"
      by simp
    then show ?thesis by blast
  qed
qed simp

lemma unique_by_first:
  assumes "x \<in> set (unique_by f xs)"
  obtains ys zs where "xs = ys @ x # zs" and "f x \<notin> f ` set ys"
  using assms unique_by_from_first unfolding unique_by_def by metis

lemma unique_by_from_id: "distinct (map f xs) \<Longrightarrow> f ` set xs \<inter> seen = {} \<Longrightarrow> unique_by_from f seen xs = xs"
  by (induction xs arbitrary: seen) auto

lemma unique_by_id [simp]: "distinct (map f xs) \<Longrightarrow> unique_by f xs = xs"
  by (simp add: unique_by_def unique_by_from_id)

lemma unique_id [simp]: "distinct xs \<Longrightarrow> unique xs = xs"
  by (simp add: unique_def)

lemma set_unique [simp]: "set (unique xs) = set xs"
  using unique_by_keys [of id xs] by (simp add: unique_def)

lemma distinct_unique [simp]: "distinct (unique xs)"
  using unique_by_distinct [of id xs] by (simp add: unique_def)

end
