(* ===== verification/Strings.thy ===== *)
theory Strings
  imports Prelude
begin

text \<open>
  Rust string functions the sources use, on byte strings: splitting, joining, ASCII case,
  decimal printing (\<open>Display\<close> of integers) and \<open>str::parse\<close> for signed and unsigned
  machine integers with the error kinds of \<open>core::num::IntErrorKind\<close>.
\<close>

abbreviation dquote :: char where "dquote \<equiv> CHR 0x22"
abbreviation comma :: char where "comma \<equiv> CHR 0x2C"
abbreviation colon :: char where "colon \<equiv> CHR 0x3A"
abbreviation dot :: char where "dot \<equiv> CHR 0x2E"
abbreviation slash :: char where "slash \<equiv> CHR 0x2F"

text \<open>Text between single quotes, as messages have it.\<close>

definition sq :: "string \<Rightarrow> string" where
  "sq s = CHR 0x27 # s @ [CHR 0x27]"

section \<open>Splitting and joining\<close>

text \<open>\<open>str::split(c)\<close>: always at least one piece.\<close>

fun split_on :: "char \<Rightarrow> string \<Rightarrow> string list" where
  "split_on c [] = [[]]"
| "split_on c (x # xs) =
     (if x = c then [] # split_on c xs
      else (case split_on c xs of [] \<Rightarrow> [[x]] | p # ps \<Rightarrow> (x # p) # ps))"

text \<open>\<open>[String]::join(sep)\<close> for a one-character separator.\<close>

fun join_with :: "char \<Rightarrow> string list \<Rightarrow> string" where
  "join_with c [] = []"
| "join_with c [x] = x"
| "join_with c (x # y # zs) = x @ c # join_with c (y # zs)"

text \<open>\<open>str::splitn(2, c)\<close>: the text before the first \<open>c\<close> and, if there is one, the rest.\<close>

definition splitn2 :: "char \<Rightarrow> string \<Rightarrow> string \<times> string option" where
  "splitn2 c s =
     (takeWhile (\<lambda>x. x \<noteq> c) s,
      (case dropWhile (\<lambda>x. x \<noteq> c) s of [] \<Rightarrow> None | _ # r \<Rightarrow> Some r))"

definition ends_with :: "string \<Rightarrow> char \<Rightarrow> bool" where
  "ends_with s c \<longleftrightarrow> s \<noteq> [] \<and> last s = c"

fun strip_prefix :: "string \<Rightarrow> string \<Rightarrow> string option" where
  "strip_prefix [] s = Some s"
| "strip_prefix (p # ps) [] = None"
| "strip_prefix (p # ps) (x # xs) = (if p = x then strip_prefix ps xs else None)"

lemma split_on_nonempty [simp]: "split_on c s \<noteq> []"
  by (induction c s rule: split_on.induct) (auto split: list.splits)

lemma split_on_no_sep [simp]: "c \<notin> set s \<Longrightarrow> split_on c s = [s]"
  by (induction c s rule: split_on.induct) auto

lemma split_on_append:
  "c \<notin> set s \<Longrightarrow> split_on c (s @ c # t) = s # split_on c t"
  by (induction s) auto

lemma split_join:
  "xs \<noteq> [] \<Longrightarrow> \<forall>x\<in>set xs. c \<notin> set x \<Longrightarrow> split_on c (join_with c xs) = xs"
  by (induction c xs rule: join_with.induct) (auto simp: split_on_append)

lemma join_split [simp]: "join_with c (split_on c s) = s"
proof (induction c s rule: split_on.induct)
  case (2 c x xs)
  show ?case
  proof (cases "split_on c xs")
    case Nil
    then show ?thesis using split_on_nonempty [of c xs] by blast
  next
    case (Cons p ps)
    have "join_with c ((x # p) # ps) = x # join_with c (p # ps)"
      by (cases ps) auto
    with 2 Cons show ?thesis by auto
  qed
qed simp

lemma splitn2_append [simp]: "c \<notin> set p \<Longrightarrow> splitn2 c (p @ c # r) = (p, Some r)"
proof -
  assume "c \<notin> set p"
  then have "takeWhile (\<lambda>x. x \<noteq> c) (p @ c # r) = p" "dropWhile (\<lambda>x. x \<noteq> c) (p @ c # r) = c # r"
    by (induction p) auto
  then show ?thesis by (simp add: splitn2_def)
qed

lemma splitn2_no_sep: "c \<notin> set s \<Longrightarrow> splitn2 c s = (s, None)"
proof -
  assume "c \<notin> set s"
  then have "takeWhile (\<lambda>x. x \<noteq> c) s = s" "dropWhile (\<lambda>x. x \<noteq> c) s = []"
    by (induction s) auto
  then show ?thesis unfolding splitn2_def by (simp only: list.case)
qed

lemma strip_prefix_Some: "strip_prefix p s = Some r \<longleftrightarrow> s = p @ r"
  by (induction p s rule: strip_prefix.induct) auto

section \<open>ASCII case\<close>

definition to_lower_char :: "char \<Rightarrow> char" where
  "to_lower_char c =
     (let n = (of_char c :: nat) in if 65 \<le> n \<and> n \<le> 90 then char_of (n + 32) else c)"

definition to_ascii_lowercase :: "string \<Rightarrow> string" where
  "to_ascii_lowercase = map to_lower_char"

definition eq_ignore_ascii_case :: "string \<Rightarrow> string \<Rightarrow> bool" where
  "eq_ignore_ascii_case a b \<longleftrightarrow> to_ascii_lowercase a = to_ascii_lowercase b"

lemma to_lower_char_idem [simp]: "to_lower_char (to_lower_char c) = to_lower_char c"
  by (auto simp: to_lower_char_def Let_def)

lemma to_ascii_lowercase_idem [simp]: "to_ascii_lowercase (to_ascii_lowercase s) = to_ascii_lowercase s"
  by (simp add: to_ascii_lowercase_def)

section \<open>Decimal integers\<close>

definition digit_char :: "nat \<Rightarrow> char" where
  "digit_char d = char_of (48 + d)"

definition digit_val :: "char \<Rightarrow> int option" where
  "digit_val c = (let n = (of_char c :: nat) in if 48 \<le> n \<and> n \<le> 57 then Some (int n - 48) else None)"

fun show_nat :: "nat \<Rightarrow> string" where
  "show_nat n = (if n < 10 then [digit_char n] else show_nat (n div 10) @ [digit_char (n mod 10)])"

declare show_nat.simps [simp del]

definition show_int :: "int \<Rightarrow> string" where
  "show_int i = (if i < 0 then CHR ''-'' # show_nat (nat (- i)) else show_nat (nat i))"

datatype int_error_kind = Empty | InvalidDigit | PosOverflow | NegOverflow

fun int_error_message :: "int_error_kind \<Rightarrow> string" where
  "int_error_message Empty = ''cannot parse integer from empty string''"
| "int_error_message InvalidDigit = ''invalid digit found in string''"
| "int_error_message PosOverflow = ''number too large to fit in target type''"
| "int_error_message NegOverflow = ''number too small to fit in target type''"

text \<open>
  The digit loop of \<open>from_str_radix\<close>: an invalid digit is reported before the overflow of
  the multiplication at the same position.
\<close>

fun int_digits :: "int \<Rightarrow> int \<Rightarrow> bool \<Rightarrow> int \<Rightarrow> string \<Rightarrow> (int_error_kind, int) res" where
  "int_digits lo hi neg acc [] = Ok acc"
| "int_digits lo hi neg acc (c # cs) =
     (case digit_val c of
        None \<Rightarrow> Err InvalidDigit
      | Some d \<Rightarrow>
          (let m = acc * 10; r = (if neg then m - d else m + d) in
           if m < lo \<or> hi < m \<or> r < lo \<or> hi < r
           then Err (if neg then NegOverflow else PosOverflow)
           else int_digits lo hi neg r cs))"

definition parse_int :: "bool \<Rightarrow> int \<Rightarrow> int \<Rightarrow> string \<Rightarrow> (int_error_kind, int) res" where
  "parse_int signed lo hi s =
     (case s of
        [] \<Rightarrow> Err Empty
      | c # cs \<Rightarrow>
          (if (c = CHR ''+'' \<or> c = CHR ''-'') \<and> cs = [] then Err InvalidDigit
           else if c = CHR ''+'' then int_digits lo hi False 0 cs
           else if c = CHR ''-'' \<and> signed then int_digits lo hi True 0 cs
           else int_digits lo hi False 0 s))"

abbreviation parse_i64 :: "string \<Rightarrow> (int_error_kind, int) res" where
  "parse_i64 \<equiv> parse_int True i64_min i64_max"

abbreviation parse_uint :: "nat \<Rightarrow> string \<Rightarrow> (int_error_kind, int) res" where
  "parse_uint w \<equiv> parse_int False 0 (2 ^ w - 1)"

lemma digit_val_char [simp]: "d < 10 \<Longrightarrow> digit_val (digit_char d) = Some (int d)"
  by (simp add: digit_val_def digit_char_def)

lemma digit_char_range: "d < 10 \<Longrightarrow> 48 \<le> (of_char (digit_char d) :: nat) \<and> (of_char (digit_char d) :: nat) \<le> 57"
  by (simp add: digit_char_def)

lemma show_nat_nonempty [simp]: "show_nat n \<noteq> []"
  by (subst show_nat.simps) simp

lemma show_nat_digits: "c \<in> set (show_nat n) \<Longrightarrow> 48 \<le> (of_char c :: nat) \<and> (of_char c :: nat) \<le> 57"
proof (induction n rule: show_nat.induct)
  case (1 n)
  show ?case
  proof (cases "n < 10")
    case True
    with "1.prems" show ?thesis by (simp add: show_nat.simps [of n] digit_char_range)
  next
    case False
    with 1 show ?thesis
      by (auto simp: show_nat.simps [of n] digit_char_range)
  qed
qed

lemma show_nat_not_in: "(of_char c :: nat) < 48 \<or> 57 < (of_char c :: nat) \<Longrightarrow> c \<notin> set (show_nat n)"
  using show_nat_digits by fastforce

lemma show_int_not_in:
  "(of_char c :: nat) < 48 \<or> 57 < (of_char c :: nat) \<Longrightarrow> c \<noteq> CHR ''-'' \<Longrightarrow> c \<notin> set (show_int i)"
  using show_nat_not_in [of c] by (auto simp: show_int_def)

lemma int_digits_append:
  "int_digits lo hi neg acc (xs @ ys) =
     and_then (int_digits lo hi neg acc xs) (\<lambda>a. int_digits lo hi neg a ys)"
  by (induction lo hi neg acc xs rule: int_digits.induct) (auto split: option.splits simp: Let_def)

lemma int_digits_show_nat:
  assumes "lo \<le> 0" "0 \<le> hi" "neg \<Longrightarrow> lo \<le> - int n" "\<not> neg \<Longrightarrow> int n \<le> hi"
  shows "int_digits lo hi neg 0 (show_nat n) = Ok (if neg then - int n else int n)"
  using assms
proof (induction n rule: show_nat.induct)
  case (1 n)
  show ?case
  proof (cases "n < 10")
    case True
    with "1.prems" show ?thesis
      by (auto simp: show_nat.simps [of n] Let_def)
  next
    case False
    let ?q = "n div 10" and ?r = "n mod 10"
    have eq: "int n = int ?q * 10 + int ?r"
      by (metis div_mult_mod_eq of_nat_add of_nat_mult of_nat_numeral)
    have q: "int ?q * 10 \<le> int n" "int ?q \<le> int n"
      by (simp_all add: zdiv_int)
    have IH: "int_digits lo hi neg 0 (show_nat ?q) = Ok (if neg then - int ?q else int ?q)"
      by (rule "1.IH" [OF False]) (use "1.prems" q in linarith)+
    have "int_digits lo hi neg (if neg then - int ?q else int ?q) [digit_char ?r] =
        Ok (if neg then - int n else int n)"
    proof (cases neg)
      case True
      with "1.prems" q have "lo \<le> - int ?q * 10" "- int ?q * 10 \<le> hi" "lo \<le> - int n" "- int n \<le> hi"
        by linarith+
      moreover have "- int ?q * 10 - int ?r = - int n" using eq by linarith
      ultimately show ?thesis using True by (simp add: Let_def)
    next
      case False
      with "1.prems" q have "lo \<le> int ?q * 10" "int ?q * 10 \<le> hi" "lo \<le> int n" "int n \<le> hi"
        by linarith+
      moreover have "int ?q * 10 + int ?r = int n" using eq by linarith
      ultimately show ?thesis using False by (simp add: Let_def)
    qed
    then show ?thesis
      using False IH by (simp add: show_nat.simps [of n] int_digits_append)
  qed
qed

lemma parse_int_show:
  assumes "lo \<le> 0" "0 \<le> hi" "lo \<le> i" "i \<le> hi" "signed \<or> 0 \<le> i"
  shows "parse_int signed lo hi (show_int i) = Ok i"
proof (cases "i < 0")
  case True
  with assms have "int_digits lo hi True 0 (show_nat (nat (- i))) = Ok i"
    by (subst int_digits_show_nat) auto
  with True assms show ?thesis
    by (simp add: parse_int_def show_int_def)
next
  case False
  let ?s = "show_nat (nat i)"
  from False assms have ok: "int_digits lo hi False 0 ?s = Ok i"
    by (subst int_digits_show_nat) auto
  obtain c cs where s: "?s = c # cs"
    by (meson list.exhaust show_nat_nonempty)
  have "c \<noteq> CHR ''+''" "c \<noteq> CHR ''-''"
    using show_nat_digits [of c "nat i"] s by auto
  with False ok s show ?thesis
    by (simp add: parse_int_def show_int_def)
qed

lemma parse_i64_show [simp]: "in_i64 i \<Longrightarrow> parse_i64 (show_int i) = Ok i"
  by (rule parse_int_show) (auto simp: i64_defs)

lemma int_digits_range:
  "lo \<le> acc \<Longrightarrow> acc \<le> hi \<Longrightarrow> int_digits lo hi neg acc s = Ok i \<Longrightarrow> lo \<le> i \<and> i \<le> hi"
  by (induction lo hi neg acc s rule: int_digits.induct) (auto split: option.splits if_splits simp: Let_def)

lemma parse_int_range:
  assumes "lo \<le> 0" "0 \<le> hi" "parse_int signed lo hi s = Ok i"
  shows "lo \<le> i \<and> i \<le> hi"
proof -
  have "\<exists>neg t. int_digits lo hi neg 0 t = Ok i"
  proof (cases s)
    case Nil
    with assms(3) show ?thesis by (simp add: parse_int_def)
  next
    case (Cons c cs)
    with assms(3) show ?thesis
      unfolding parse_int_def Cons list.case by (auto simp del: int_digits.simps split: if_splits)
  qed
  with assms(1,2) show ?thesis by (metis int_digits_range)
qed

end
