(* ===== verification/Types.thy ===== *)
theory Types
  imports Strings "HOL-Library.Word"
begin

text \<open>
  The user-facing data model (\<open>typedefs/\<close>): values, data types, columns, defaults, tags,
  partitioning, sorting, macros and qualified names. Types of third-party crates that a value
  can carry (\<open>rust_decimal\<close>, \<open>chrono\<close>, \<open>uuid\<close>) are left uninterpreted; what the code
  does with them is a parameter of the functions that need it.
\<close>

unbundle bit_operations_syntax

section \<open>Opaque third-party types\<close>

typedecl decimal
typedecl naive_time
typedecl naive_date
typedecl naive_date_time
typedecl date_time_utc
typedecl fixed_offset
typedecl months
typedecl time_delta
typedecl uuid

text \<open>Equality of the opaque types, so that the types built over them are executable.\<close>

instantiation decimal :: equal
begin
definition equal_decimal :: "decimal \<Rightarrow> decimal \<Rightarrow> bool" where
  "equal_decimal x y = (x = y)"
instance by standard (simp add: equal_decimal_def)
end

instantiation naive_time :: equal
begin
definition equal_naive_time :: "naive_time \<Rightarrow> naive_time \<Rightarrow> bool" where
  "equal_naive_time x y = (x = y)"
instance by standard (simp add: equal_naive_time_def)
end

instantiation naive_date :: equal
begin
definition equal_naive_date :: "naive_date \<Rightarrow> naive_date \<Rightarrow> bool" where
  "equal_naive_date x y = (x = y)"
instance by standard (simp add: equal_naive_date_def)
end

instantiation naive_date_time :: equal
begin
definition equal_naive_date_time :: "naive_date_time \<Rightarrow> naive_date_time \<Rightarrow> bool" where
  "equal_naive_date_time x y = (x = y)"
instance by standard (simp add: equal_naive_date_time_def)
end

instantiation date_time_utc :: equal
begin
definition equal_date_time_utc :: "date_time_utc \<Rightarrow> date_time_utc \<Rightarrow> bool" where
  "equal_date_time_utc x y = (x = y)"
instance by standard (simp add: equal_date_time_utc_def)
end

instantiation fixed_offset :: equal
begin
definition equal_fixed_offset :: "fixed_offset \<Rightarrow> fixed_offset \<Rightarrow> bool" where
  "equal_fixed_offset x y = (x = y)"
instance by standard (simp add: equal_fixed_offset_def)
end

instantiation months :: equal
begin
definition equal_months :: "months \<Rightarrow> months \<Rightarrow> bool" where
  "equal_months x y = (x = y)"
instance by standard (simp add: equal_months_def)
end

instantiation time_delta :: equal
begin
definition equal_time_delta :: "time_delta \<Rightarrow> time_delta \<Rightarrow> bool" where
  "equal_time_delta x y = (x = y)"
instance by standard (simp add: equal_time_delta_def)
end

instantiation uuid :: equal
begin
definition equal_uuid :: "uuid \<Rightarrow> uuid \<Rightarrow> bool" where
  "equal_uuid x y = (x = y)"
instance by standard (simp add: equal_uuid_def)
end

datatype ordering = Less | Equal | Greater

record ext_cmp =
  cmp_decimal :: "decimal \<Rightarrow> decimal \<Rightarrow> ordering"
  cmp_time :: "naive_time \<Rightarrow> naive_time \<Rightarrow> ordering"
  cmp_date :: "naive_date \<Rightarrow> naive_date \<Rightarrow> ordering"
  cmp_date_time :: "naive_date_time \<Rightarrow> naive_date_time \<Rightarrow> ordering"
  cmp_date_time_utc :: "date_time_utc \<Rightarrow> date_time_utc \<Rightarrow> ordering"
  cmp_uuid :: "uuid \<Rightarrow> uuid \<Rightarrow> ordering"

record time_with_timezone =
  tz_time :: naive_time
  tz_offset :: fixed_offset

record interval =
  iv_months :: months
  iv_delta :: time_delta

section \<open>Values\<close>

text \<open>Floats are their IEEE 754 bit patterns.\<close>

type_synonym f32 = "32 word"
type_synonym f64 = "64 word"

datatype (plugins only: code size) "value" =
    VBoolean bool
  | VInt8 int | VInt16 int | VInt32 int | VInt64 int | VInt128 int
  | VUInt8 int | VUInt16 int | VUInt32 int | VUInt64 int | VUInt128 int
  | VFloat32 f32 | VFloat64 f64
  | VDecimal decimal
  | VTime naive_time
  | VTimeTz time_with_timezone
  | VDate naive_date
  | VTimestamp naive_date_time
  | VTimestampTz date_time_utc
  | VInterval interval
  | VVarchar string
  | VBlob "8 word list"
  | VJson string
  | VUuid uuid
  | VList "value option list"
  | VStruct "(string \<times> value option) list"
  | VMap "(value \<times> value option) list"

subsection \<open>Comparison (\<open>PartialOrd for Value\<close>)\<close>

definition cmp_int :: "int \<Rightarrow> int \<Rightarrow> ordering" where
  "cmp_int a b = (if a < b then Less else if a = b then Equal else Greater)"

definition f32_is_nan :: "f32 \<Rightarrow> bool" where
  "f32_is_nan w \<longleftrightarrow> uint (w AND 0x7FFFFFFF) > 0x7F800000"

definition f64_is_nan :: "f64 \<Rightarrow> bool" where
  "f64_is_nan w \<longleftrightarrow> uint (w AND 0x7FFFFFFFFFFFFFFF) > 0x7FF0000000000000"

definition f32_key :: "f32 \<Rightarrow> int" where
  "f32_key w = (if bit w 31 then - uint (w AND 0x7FFFFFFF) else uint (w AND 0x7FFFFFFF))"

definition f64_key :: "f64 \<Rightarrow> int" where
  "f64_key w = (if bit w 63 then - uint (w AND 0x7FFFFFFFFFFFFFFF) else uint (w AND 0x7FFFFFFFFFFFFFFF))"

definition f32_cmp :: "f32 \<Rightarrow> f32 \<Rightarrow> ordering option" where
  "f32_cmp a b = (if f32_is_nan a \<or> f32_is_nan b then None else Some (cmp_int (f32_key a) (f32_key b)))"

definition f64_cmp :: "f64 \<Rightarrow> f64 \<Rightarrow> ordering option" where
  "f64_cmp a b = (if f64_is_nan a \<or> f64_is_nan b then None else Some (cmp_int (f64_key a) (f64_key b)))"

text \<open>Lexicographic order on byte sequences (\<open>String\<close>, \<open>Vec<u8>\<close>).\<close>

fun cmp_ints :: "int list \<Rightarrow> int list \<Rightarrow> ordering" where
  "cmp_ints [] [] = Equal"
| "cmp_ints [] (y # ys) = Less"
| "cmp_ints (x # xs) [] = Greater"
| "cmp_ints (x # xs) (y # ys) = (case cmp_int x y of Equal \<Rightarrow> cmp_ints xs ys | r \<Rightarrow> r)"

definition cmp_string :: "string \<Rightarrow> string \<Rightarrow> ordering" where
  "cmp_string a b = cmp_ints (map of_char a) (map of_char b)"

definition cmp_bytes :: "8 word list \<Rightarrow> 8 word list \<Rightarrow> ordering" where
  "cmp_bytes a b = cmp_ints (map uint a) (map uint b)"

definition cmp_bool :: "bool \<Rightarrow> bool \<Rightarrow> ordering" where
  "cmp_bool a b = (if a = b then Equal else if b then Less else Greater)"

fun then_cmp :: "ordering option \<Rightarrow> ordering option \<Rightarrow> ordering option" where
  "then_cmp (Some Equal) r = r"
| "then_cmp o' r = o'"

text \<open>Values without components; different variants, intervals and nested values are incomparable.\<close>

fun leaf_cmp :: "ext_cmp \<Rightarrow> value \<Rightarrow> value \<Rightarrow> ordering option" where
  "leaf_cmp X (VBoolean a) w = (case w of VBoolean b \<Rightarrow> Some (cmp_bool a b) | _ \<Rightarrow> None)"
| "leaf_cmp X (VInt8 a) w = (case w of VInt8 b \<Rightarrow> Some (cmp_int a b) | _ \<Rightarrow> None)"
| "leaf_cmp X (VInt16 a) w = (case w of VInt16 b \<Rightarrow> Some (cmp_int a b) | _ \<Rightarrow> None)"
| "leaf_cmp X (VInt32 a) w = (case w of VInt32 b \<Rightarrow> Some (cmp_int a b) | _ \<Rightarrow> None)"
| "leaf_cmp X (VInt64 a) w = (case w of VInt64 b \<Rightarrow> Some (cmp_int a b) | _ \<Rightarrow> None)"
| "leaf_cmp X (VInt128 a) w = (case w of VInt128 b \<Rightarrow> Some (cmp_int a b) | _ \<Rightarrow> None)"
| "leaf_cmp X (VUInt8 a) w = (case w of VUInt8 b \<Rightarrow> Some (cmp_int a b) | _ \<Rightarrow> None)"
| "leaf_cmp X (VUInt16 a) w = (case w of VUInt16 b \<Rightarrow> Some (cmp_int a b) | _ \<Rightarrow> None)"
| "leaf_cmp X (VUInt32 a) w = (case w of VUInt32 b \<Rightarrow> Some (cmp_int a b) | _ \<Rightarrow> None)"
| "leaf_cmp X (VUInt64 a) w = (case w of VUInt64 b \<Rightarrow> Some (cmp_int a b) | _ \<Rightarrow> None)"
| "leaf_cmp X (VUInt128 a) w = (case w of VUInt128 b \<Rightarrow> Some (cmp_int a b) | _ \<Rightarrow> None)"
| "leaf_cmp X (VFloat32 a) w = (case w of VFloat32 b \<Rightarrow> f32_cmp a b | _ \<Rightarrow> None)"
| "leaf_cmp X (VFloat64 a) w = (case w of VFloat64 b \<Rightarrow> f64_cmp a b | _ \<Rightarrow> None)"
| "leaf_cmp X (VDecimal a) w = (case w of VDecimal b \<Rightarrow> Some (cmp_decimal X a b) | _ \<Rightarrow> None)"
| "leaf_cmp X (VTime a) w = (case w of VTime b \<Rightarrow> Some (cmp_time X a b) | _ \<Rightarrow> None)"
| "leaf_cmp X (VTimeTz a) w = (case w of VTimeTz b \<Rightarrow> Some (cmp_time X (tz_time a) (tz_time b)) | _ \<Rightarrow> None)"
| "leaf_cmp X (VDate a) w = (case w of VDate b \<Rightarrow> Some (cmp_date X a b) | _ \<Rightarrow> None)"
| "leaf_cmp X (VTimestamp a) w = (case w of VTimestamp b \<Rightarrow> Some (cmp_date_time X a b) | _ \<Rightarrow> None)"
| "leaf_cmp X (VTimestampTz a) w = (case w of VTimestampTz b \<Rightarrow> Some (cmp_date_time_utc X a b) | _ \<Rightarrow> None)"
| "leaf_cmp X (VVarchar a) w = (case w of VVarchar b \<Rightarrow> Some (cmp_string a b) | _ \<Rightarrow> None)"
| "leaf_cmp X (VBlob a) w = (case w of VBlob b \<Rightarrow> Some (cmp_bytes a b) | _ \<Rightarrow> None)"
| "leaf_cmp X (VJson a) w = (case w of VJson b \<Rightarrow> Some (cmp_string a b) | _ \<Rightarrow> None)"
| "leaf_cmp X (VUuid a) w = (case w of VUuid b \<Rightarrow> Some (cmp_uuid X a b) | _ \<Rightarrow> None)"
| "leaf_cmp X (VInterval a) w = None"
| "leaf_cmp X (VList a) w = None"
| "leaf_cmp X (VStruct a) w = None"
| "leaf_cmp X (VMap a) w = None"

text \<open>
  \<open>partial_cmp\<close> of slices and of options, given the comparison of the elements.
\<close>

fun lex_cmp :: "('a \<Rightarrow> 'a \<Rightarrow> ordering option) \<Rightarrow> 'a list \<Rightarrow> 'a list \<Rightarrow> ordering option" where
  "lex_cmp f [] [] = Some Equal"
| "lex_cmp f [] (y # ys) = Some Less"
| "lex_cmp f (x # xs) [] = Some Greater"
| "lex_cmp f (x # xs) (y # ys) = then_cmp (f x y) (lex_cmp f xs ys)"

fun opt_cmp :: "('a \<Rightarrow> 'a \<Rightarrow> ordering option) \<Rightarrow> 'a option \<Rightarrow> 'a option \<Rightarrow> ordering option" where
  "opt_cmp f None None = Some Equal"
| "opt_cmp f None (Some y) = Some Less"
| "opt_cmp f (Some x) None = Some Greater"
| "opt_cmp f (Some x) (Some y) = f x y"

lemma lex_cmp_cong [fundef_cong]:
  assumes "xs = xs'" "ys = ys'" "\<And>x y. x \<in> set xs' \<Longrightarrow> y \<in> set ys' \<Longrightarrow> f x y = g x y"
  shows "lex_cmp f xs ys = lex_cmp g xs' ys'"
proof -
  have "(\<And>x y. x \<in> set xs \<Longrightarrow> y \<in> set ys \<Longrightarrow> f x y = g x y) \<Longrightarrow> lex_cmp f xs ys = lex_cmp g xs ys"
    by (induction f xs ys rule: lex_cmp.induct) auto
  with assms show ?thesis by simp
qed

lemma opt_cmp_cong [fundef_cong]:
  assumes "a = a'" "b = b'" "\<And>x y. a' = Some x \<Longrightarrow> b' = Some y \<Longrightarrow> f x y = g x y"
  shows "opt_cmp f a b = opt_cmp g a' b'"
  using assms by (cases a'; cases b') auto

fun value_cmp :: "ext_cmp \<Rightarrow> value \<Rightarrow> value \<Rightarrow> ordering option" where
  "value_cmp X v w =
     (case v of
        VList a \<Rightarrow> (case w of VList b \<Rightarrow> lex_cmp (\<lambda>x y. opt_cmp (\<lambda>s t. value_cmp X s t) x y) a b | _ \<Rightarrow> None)
      | VStruct a \<Rightarrow> (case w of
            VStruct b \<Rightarrow> lex_cmp (\<lambda>x y. then_cmp (Some (cmp_string (fst x) (fst y)))
                                       (opt_cmp (\<lambda>s t. value_cmp X s t) (snd x) (snd y))) a b
          | _ \<Rightarrow> None)
      | VMap a \<Rightarrow> (case w of
            VMap b \<Rightarrow> lex_cmp (\<lambda>x y. then_cmp (value_cmp X (fst x) (fst y))
                                       (opt_cmp (\<lambda>s t. value_cmp X s t) (snd x) (snd y))) a b
          | _ \<Rightarrow> None)
      | _ \<Rightarrow> leaf_cmp X v w)"

section \<open>Tags\<close>

type_synonym tags = "(string, string) imap"

record tag =
  tag_key :: string
  tag_value :: string

definition tags_get :: "tags \<Rightarrow> string \<Rightarrow> string option" where
  "tags_get t k = im_get t k"

definition tags_insert :: "tag \<Rightarrow> tags \<Rightarrow> tags" where
  "tags_insert tg t = im_insert (tag_key tg) (tag_value tg) t"

definition tags_remove :: "string \<Rightarrow> tags \<Rightarrow> string option \<times> tags" where
  "tags_remove k t = (im_get t k, im_remove k t)"

definition tags_from_list :: "tag list \<Rightarrow> tags" where
  "tags_from_list ts = fold tags_insert ts []"

definition tags_eq :: "tags \<Rightarrow> tags \<Rightarrow> bool" where
  "tags_eq a b \<longleftrightarrow> (\<forall>k \<in> set (im_keys a) \<union> set (im_keys b). im_get a k = im_get b k)"

section \<open>Data types and columns\<close>

datatype timestamp_precision = Seconds | Milliseconds | Microseconds | Nanoseconds

datatype column_default =
    Literal "value option"
  | Expression string string

datatype (plugins only: code size) data_type =
    DBoolean
  | DInt8 | DInt16 | DInt32 | DInt64 | DInt128
  | DUInt8 | DUInt16 | DUInt32 | DUInt64 | DUInt128
  | DFloat32 | DFloat64
  | DDecimal int int
  | DTime | DTimeTz | DDate
  | DTimestamp timestamp_precision
  | DTimestampTz | DInterval
  | DVarchar | DBlob | DJson | DVariant | DGeometry | DUuid
  | DList column
  | DStruct "column list"
  | DMap column column
and column =
  Column (col_name: string) (col_dtype: data_type) (col_nullable: bool) (col_tags: tags)
    (col_initial_default: "value option") (col_default: column_default) (col_field_id: "i64 option")

definition new_column :: "string \<Rightarrow> data_type \<Rightarrow> column" where
  "new_column n t = Column n t True [] None (Literal None) None"

section \<open>Partitioning, sorting, macros, names\<close>

datatype partition_transform = Identity | Bucket int | Year | Month | Day | Hour

record partition_column =
  pc_column :: string
  pc_transform :: partition_transform

datatype sort_direction = Ascending | Descending

datatype null_order = NullsFirst | NullsLast

record sort_expression =
  se_expression :: string
  se_dialect :: string
  se_direction :: sort_direction
  se_null_order :: null_order

datatype macro_type = Scalar | Table

record macro_parameter =
  mp_name :: string
  mp_data_type :: string
  mp_default_value :: "string option"
  mp_default_value_type :: string

record macro_implementation =
  mi_dialect :: string
  mi_sql :: string
  mi_parameters :: "macro_parameter list"

record qualified_name =
  qn_schema :: string
  qn_name :: string

type_synonym column_name = "string list"

end
