(* ===== verification/Regex.thy ===== *)
theory Regex
  imports Strings
begin

text \<open>
  The regular expressions the sources use through the \<open>regex\<close> crate, on byte strings, with
  capture groups and the crate's leftmost-first semantics: \<open>rmatch r s\<close> lists the ways \<open>r\<close>
  matches a prefix of \<open>s\<close> in the order of preference (first alternative first, repetitions
  greedy), each with the text that is left and the captures, newest first. \<open>lang\<close> is the
  usual language, and \<open>rmatch_lang\<close> relates the two.
\<close>

datatype regex =
    Cls "char \<Rightarrow> bool"
  | Eps
  | Cat regex regex
  | Alt regex regex
  | Star regex
  | Grp nat regex

type_synonym captures = "(nat \<times> string) list"

definition Plus :: "regex \<Rightarrow> regex" where
  "Plus r = Cat r (Star r)"

abbreviation Chr :: "char \<Rightarrow> regex" where
  "Chr c \<equiv> Cls (\<lambda>x. x = c)"

fun Lit :: "string \<Rightarrow> regex" where
  "Lit [] = Eps"
| "Lit (c # cs) = Cat (Chr c) (Lit cs)"

definition cls_range :: "nat \<Rightarrow> nat \<Rightarrow> char \<Rightarrow> bool" where
  "cls_range lo hi c \<longleftrightarrow> lo \<le> of_char c \<and> of_char c \<le> hi"

definition is_digit :: "char \<Rightarrow> bool" where
  "is_digit = cls_range 48 57"

text \<open>\<open>\s\<close>: the Unicode white space characters in their UTF-8 encoding.\<close>

definition Space :: regex where
  "Space =
     Alt (Cls (\<lambda>c. cls_range 9 13 c \<or> c = CHR 0x20))
     (Alt (Cat (Chr (CHR 0xC2)) (Cls (\<lambda>c. c = CHR 0x85 \<or> c = CHR 0xA0)))
     (Alt (Lit [CHR 0xE1, CHR 0x9A, CHR 0x80])
     (Alt (Cat (Lit [CHR 0xE2, CHR 0x80])
              (Cls (\<lambda>c. cls_range 0x80 0x8A c \<or> c = CHR 0xA8 \<or> c = CHR 0xA9 \<or> c = CHR 0xAF)))
     (Alt (Lit [CHR 0xE2, CHR 0x81, CHR 0x9F])
          (Lit [CHR 0xE3, CHR 0x80, CHR 0x80])))))"

function rmatch :: "regex \<Rightarrow> string \<Rightarrow> (string \<times> captures) list" where
  "rmatch (Cls p) s = (case s of [] \<Rightarrow> [] | c # cs \<Rightarrow> if p c then [(cs, [])] else [])"
| "rmatch Eps s = [(s, [])]"
| "rmatch (Cat r1 r2) s =
     concat (map (\<lambda>(t, c). map (\<lambda>(u, d). (u, d @ c)) (rmatch r2 t)) (rmatch r1 s))"
| "rmatch (Alt r1 r2) s = rmatch r1 s @ rmatch r2 s"
| "rmatch (Star r) s =
     concat (map (\<lambda>(t, c). if length t < length s
                           then map (\<lambda>(u, d). (u, d @ c)) (rmatch (Star r) t) else [])
                 (rmatch r s)) @ [(s, [])]"
| "rmatch (Grp n r) s = map (\<lambda>(t, c). (t, (n, take (length s - length t) s) # c)) (rmatch r s)"
  by pat_completeness auto
termination
  by (relation "measures [\<lambda>(r, s). size r, \<lambda>(r, s). length s]") auto

declare rmatch.simps(5) [simp del]
lemmas rmatch_Star = rmatch.simps(5)

definition is_match :: "regex \<Rightarrow> string \<Rightarrow> bool" where
  "is_match r s \<longleftrightarrow> (\<exists>(t, c) \<in> set (rmatch r s). t = [])"

text \<open>\<open>^r$\<close>: the captures of the preferred match of the whole text.\<close>

definition full_captures :: "regex \<Rightarrow> string \<Rightarrow> captures option" where
  "full_captures r s = map_option snd (List.find (\<lambda>(t, c). t = []) (rmatch r s))"

definition cap :: "captures \<Rightarrow> nat \<Rightarrow> string" where
  "cap c n = (case map_of c n of None \<Rightarrow> [] | Some s \<Rightarrow> s)"

text \<open>
  \<open>captures_iter\<close>: the non-overlapping leftmost matches from left to right, each as the
  matched text with its captures. None of the expressions iterated over matches the empty
  text; an empty match would be skipped.
\<close>

fun captures_iter :: "regex \<Rightarrow> string \<Rightarrow> (string \<times> captures) list" where
  "captures_iter r [] = []"
| "captures_iter r (x # xs) =
     (case rmatch r (x # xs) of
        (t, c) # _ \<Rightarrow>
          (if length t < length (x # xs)
           then (take (length (x # xs) - length t) (x # xs), c) # captures_iter r t
           else captures_iter r xs)
      | [] \<Rightarrow> captures_iter r xs)"

lemma rmatch_Star_set:
  "(t, c) \<in> set (rmatch (Star r) s) \<longleftrightarrow>
     t = s \<and> c = [] \<or>
     (\<exists>t' c' d. (t', c') \<in> set (rmatch r s) \<and> length t' < length s
        \<and> (t, d) \<in> set (rmatch (Star r) t') \<and> c = d @ c')"
  by (subst rmatch_Star) (force split: if_splits)

section \<open>Languages\<close>

inductive lang :: "regex \<Rightarrow> string \<Rightarrow> bool" where
  lang_Cls: "p c \<Longrightarrow> lang (Cls p) [c]"
| lang_Eps: "lang Eps []"
| lang_Cat: "lang r1 u \<Longrightarrow> lang r2 v \<Longrightarrow> lang (Cat r1 r2) (u @ v)"
| lang_AltL: "lang r1 u \<Longrightarrow> lang (Alt r1 r2) u"
| lang_AltR: "lang r2 u \<Longrightarrow> lang (Alt r1 r2) u"
| lang_Star0: "lang (Star r) []"
| lang_StarS: "lang r u \<Longrightarrow> lang (Star r) v \<Longrightarrow> lang (Star r) (u @ v)"
| lang_Grp: "lang r u \<Longrightarrow> lang (Grp n r) u"

inductive_cases lang_ClsE: "lang (Cls p) u"
inductive_cases lang_EpsE: "lang Eps u"
inductive_cases lang_CatE: "lang (Cat r1 r2) u"
inductive_cases lang_AltE: "lang (Alt r1 r2) u"
inductive_cases lang_GrpE: "lang (Grp n r) u"

lemma lang_Plus: "lang r u \<Longrightarrow> lang (Star r) v \<Longrightarrow> lang (Plus r) (u @ v)"
  by (simp add: Plus_def lang_Cat)

lemma lang_Star_concat: "(\<And>u. u \<in> set us \<Longrightarrow> lang r u) \<Longrightarrow> lang (Star r) (concat us)"
  by (induction us) (auto intro: lang_Star0 lang_StarS)

lemma lang_Lit: "lang (Lit s) s"
proof (induction s)
  case (Cons c s)
  have "lang (Cat (Chr c) (Lit s)) ([c] @ s)"
    by (rule lang_Cat) (auto intro: lang_Cls Cons)
  then show ?case by simp
qed (simp add: lang_Eps)

lemma rmatch_sound: "(t, c) \<in> set (rmatch r s) \<Longrightarrow> \<exists>u. s = u @ t \<and> lang r u"
proof (induction r s arbitrary: t c rule: rmatch.induct)
  case (1 p s)
  then show ?case
    by (auto split: list.splits if_splits intro: lang_Cls)
next
  case (3 r1 r2 s)
  from "3.prems" obtain t' c' d where 1: "(t', c') \<in> set (rmatch r1 s)" and 2: "(t, d) \<in> set (rmatch r2 t')"
    by auto
  from "3.IH"(1) [OF 1] obtain u1 where u1: "s = u1 @ t'" "lang r1 u1"
    by auto
  from "3.IH"(2) [OF 1 refl 2] obtain u2 where u2: "t' = u2 @ t" "lang r2 u2"
    by auto
  with u1 have "s = (u1 @ u2) @ t \<and> lang (Cat r1 r2) (u1 @ u2)"
    by (simp add: lang_Cat)
  then show ?case by blast
next
  case (4 r1 r2 s)
  then show ?case by simp (meson lang_AltL lang_AltR)
next
  case (5 r s)
  from iffD1 [OF rmatch_Star_set "5.prems"] show ?case
  proof (elim disjE exE conjE)
    assume "t = s"
    then show ?thesis by (auto intro: lang_Star0)
  next
    fix t' c' d
    assume 1: "(t', c') \<in> set (rmatch r s)" and 2: "length t' < length s"
      and 3: "(t, d) \<in> set (rmatch (Star r) t')"
    from "5.IH"(1) [OF 1] obtain u1 where u1: "s = u1 @ t'" "lang r u1"
      by auto
    from "5.IH"(2) [OF 1 refl 2 3] obtain u2 where u2: "t' = u2 @ t" "lang (Star r) u2"
      by auto
    with u1 have "s = (u1 @ u2) @ t \<and> lang (Star r) (u1 @ u2)"
      by (simp add: lang_StarS)
    then show ?thesis by blast
  qed
next
  case (6 n r s)
  then show ?case by (fastforce intro: lang_Grp)
qed (auto intro: lang_Eps)

lemma rmatch_complete: "lang r u \<Longrightarrow> \<exists>c. (t, c) \<in> set (rmatch r (u @ t))"
proof (induction r u arbitrary: t rule: lang.induct)
  case (lang_Cat r1 u r2 v)
  obtain c1 where "(v @ t, c1) \<in> set (rmatch r1 (u @ v @ t))"
    using lang_Cat.IH(1) by blast
  moreover obtain c2 where "(t, c2) \<in> set (rmatch r2 (v @ t))"
    using lang_Cat.IH(2) by blast
  ultimately have "(t, c2 @ c1) \<in> set (rmatch (Cat r1 r2) ((u @ v) @ t))"
    by force
  then show ?case by blast
next
  case (lang_StarS r u v)
  show ?case
  proof (cases "u = []")
    case True
    then show ?thesis using lang_StarS.IH(2) by simp
  next
    case False
    obtain c1 where 1: "(v @ t, c1) \<in> set (rmatch r (u @ v @ t))"
      using lang_StarS.IH(1) by blast
    moreover obtain c2 where 2: "(t, c2) \<in> set (rmatch (Star r) (v @ t))"
      using lang_StarS.IH(2) by blast
    moreover have 3: "length (v @ t) < length (u @ v @ t)" using False by simp
    ultimately have "(t, c2 @ c1) \<in> set (rmatch (Star r) (u @ v @ t))"
      by (intro iffD2 [OF rmatch_Star_set]) blast
    then show ?thesis by auto
  qed
next
  case (lang_Grp r u n)
  then obtain c where "(t, c) \<in> set (rmatch r (u @ t))" by blast
  then show ?case by force
next
  case (lang_AltL r1 u r2)
  then show ?case by fastforce
next
  case (lang_AltR r2 u r1)
  then show ?case by fastforce
next
  case (lang_Star0 r)
  have "(t, []) \<in> set (rmatch (Star r) ([] @ t))"
    by (intro iffD2 [OF rmatch_Star_set]) simp
  then show ?case by blast
qed auto

lemma is_match_lang: "is_match r s \<longleftrightarrow> lang r s"
proof
  assume "is_match r s"
  then show "lang r s"
    unfolding is_match_def using rmatch_sound by fastforce
next
  assume "lang r s"
  from rmatch_complete [OF this, of "[]"] show "is_match r s"
    unfolding is_match_def by force
qed

lemma full_captures_Some_lang: "full_captures r s = Some c \<Longrightarrow> lang r s"
proof -
  assume "full_captures r s = Some c"
  then obtain i where "i < length (rmatch r s)" "rmatch r s ! i = ([], c)"
    by (auto simp: full_captures_def find_Some_iff)
  then have "([], c) \<in> set (rmatch r s)"
    by (metis nth_mem)
  from rmatch_sound [OF this] show ?thesis by simp
qed

lemma full_captures_None_lang: "full_captures r s = None \<longleftrightarrow> \<not> lang r s"
proof -
  have "full_captures r s = None \<longleftrightarrow> \<not> is_match r s"
    by (auto simp: full_captures_def find_None_iff is_match_def)
  then show ?thesis by (simp add: is_match_lang)
qed

section \<open>Preferred matches\<close>

text \<open>\<open>rfirst r s t c\<close>: the preferred match of \<open>r\<close> on \<open>s\<close> leaves \<open>t\<close> and captures \<open>c\<close>.\<close>

definition rfirst :: "regex \<Rightarrow> string \<Rightarrow> string \<Rightarrow> captures \<Rightarrow> bool" where
  "rfirst r s t c \<longleftrightarrow> (\<exists>z. rmatch r s = (t, c) # z)"

lemma rfirst_Cat: "rfirst r1 s t c \<Longrightarrow> rfirst r2 t u d \<Longrightarrow> rfirst (Cat r1 r2) s u (d @ c)"
  by (auto simp: rfirst_def)

lemma rfirst_Cls: "p x \<Longrightarrow> rfirst (Cls p) (x # s) s []"
  by (simp add: rfirst_def)

lemma rfirst_Grp: "rfirst r (u @ t) t c \<Longrightarrow> rfirst (Grp n r) (u @ t) t ((n, u) # c)"
  by (auto simp: rfirst_def)

lemma rfirst_AltL: "rfirst r1 s t c \<Longrightarrow> rfirst (Alt r1 r2) s t c"
  by (auto simp: rfirst_def)

lemma rfirst_Lit: "rfirst (Lit p) (p @ s) s []"
  unfolding rfirst_def by (induction p) auto

lemma rfirst_Star_step:
  "rfirst r s t c \<Longrightarrow> length t < length s \<Longrightarrow> rfirst (Star r) t u d \<Longrightarrow> rfirst (Star r) s u (d @ c)"
  unfolding rfirst_def by (subst rmatch_Star) auto

lemma rfirst_Star_stop: "rmatch r s = [] \<Longrightarrow> rfirst (Star r) s s []"
  unfolding rfirst_def by (subst rmatch_Star) simp

lemma rfirst_Star_Cls:
  assumes "\<forall>x\<in>set u. p x" and "t = [] \<or> \<not> p (hd t)"
  shows "rfirst (Star (Cls p)) (u @ t) t []"
  using assms
proof (induction u)
  case Nil
  then have "rmatch (Cls p) t = []" by (cases t) auto
  then show ?case by (simp add: rfirst_Star_stop)
next
  case (Cons x u)
  then show ?case
    using rfirst_Star_step [OF rfirst_Cls, of p x "u @ t" t "[]"] by simp
qed

lemma rfirst_Plus_Cls:
  assumes "u \<noteq> []" and "\<forall>x\<in>set u. p x" and "t = [] \<or> \<not> p (hd t)"
  shows "rfirst (Plus (Cls p)) (u @ t) t []"
proof -
  obtain x v where u: "u = x # v" using assms(1) by (cases u) auto
  have "rfirst (Cls p) (x # v @ t) (v @ t) []" using assms u by (simp add: rfirst_Cls)
  moreover have "rfirst (Star (Cls p)) (v @ t) t []" using assms u by (simp add: rfirst_Star_Cls)
  ultimately show ?thesis using rfirst_Cat u by (fastforce simp: Plus_def)
qed

lemma full_captures_first: "rfirst r s [] c \<Longrightarrow> full_captures r s = Some c"
  by (auto simp: rfirst_def full_captures_def)

lemma captures_iter_match:
  assumes "rfirst r (u @ t) t c" and "u \<noteq> []"
  shows "captures_iter r (u @ t) = (u, c) # captures_iter r t"
proof -
  obtain z where z: "rmatch r (u @ t) = (t, c) # z" using assms(1) by (auto simp: rfirst_def)
  obtain x xs where x: "u @ t = x # xs" using assms(2) by (cases u) auto
  have "length t < length (x # xs)" unfolding x [symmetric] using assms(2) by simp
  then have "captures_iter r (x # xs) = (take (length (x # xs) - length t) (x # xs), c) # captures_iter r t"
    by (simp only: captures_iter.simps z [unfolded x] list.case prod.case if_True)
  then show ?thesis unfolding x [symmetric] by simp
qed

lemma captures_iter_skip: "rmatch r (x # xs) = [] \<Longrightarrow> captures_iter r (x # xs) = captures_iter r xs"
  by simp

end
