(* ===== verification/Identifiers.thy ===== *)
theory Identifiers
  imports Regex
begin

text \<open>
  \<open>utils/identifier.rs\<close>: parsing and printing of dot-separated and comma-separated SQL
  identifiers. The expressions are those of the source, spliced together as the source
  splices their texts.
\<close>

section \<open>The regular expressions\<close>

definition is_ident_start :: "char \<Rightarrow> bool" where
  "is_ident_start c \<longleftrightarrow> cls_range 97 122 c \<or> cls_range 65 90 c \<or> c = CHR ''_''"

definition is_ident_char :: "char \<Rightarrow> bool" where
  "is_ident_char c \<longleftrightarrow> cls_range 97 122 c \<or> cls_range 65 90 c \<or> cls_range 48 57 c \<or> c = CHR ''_''"

definition UNQUOTED_IDENTIFIER :: regex where
  "UNQUOTED_IDENTIFIER = Grp 1 (Cat (Cls is_ident_start) (Star (Cls is_ident_char)))"

definition QUOTED_CHAR :: regex where
  "QUOTED_CHAR = Alt (Cls (\<lambda>c. c \<noteq> dquote)) (Lit [dquote, dquote])"

definition QUOTED_IDENTIFIER :: regex where
  "QUOTED_IDENTIFIER = Cat (Chr dquote) (Cat (Grp 1 (Plus QUOTED_CHAR)) (Chr dquote))"

definition IDENTIFIER :: regex where
  "IDENTIFIER =
     Alt (Grp 1 (Cat (Cls is_ident_start) (Star (Cls is_ident_char))))
         (Cat (Chr dquote) (Cat (Grp 2 (Plus QUOTED_CHAR)) (Chr dquote)))"

definition DOT_SEPARATED_UNQUOTED_IDENTIFIERS :: regex where
  "DOT_SEPARATED_UNQUOTED_IDENTIFIERS =
     Cat UNQUOTED_IDENTIFIER (Star (Grp 2 (Cat (Chr dot) (Plus UNQUOTED_IDENTIFIER))))"

text \<open>The \<open>+\<close> the source appends binds to the closing quote only.\<close>

definition DOT_SEPARATED_QUOTED_IDENTIFIERS :: regex where
  "DOT_SEPARATED_QUOTED_IDENTIFIERS =
     Cat QUOTED_IDENTIFIER
       (Star (Grp 2 (Cat (Chr dot)
          (Cat (Chr dquote) (Cat (Grp 3 (Plus QUOTED_CHAR)) (Plus (Chr dquote)))))))"

definition COMMA_SEPARATED_IDENTIFIERS :: regex where
  "COMMA_SEPARATED_IDENTIFIERS = Cat IDENTIFIER (Star (Grp 3 (Cat (Chr comma) IDENTIFIER)))"

section \<open>Operations\<close>

fun quote :: "string \<Rightarrow> string" where
  "quote [] = []"
| "quote (c # cs) = (if c = dquote then [dquote, dquote] else [c]) @ quote cs"

fun unquote :: "string \<Rightarrow> string" where
  "unquote (a # b # s) =
     (if a = dquote \<and> b = dquote then dquote # unquote s else a # unquote (b # s))"
| "unquote s = s"

definition parse_identifier :: "string \<Rightarrow> string list option" where
  "parse_identifier s =
     (if is_match DOT_SEPARATED_UNQUOTED_IDENTIFIERS s then Some (split_on dot s)
      else if is_match DOT_SEPARATED_QUOTED_IDENTIFIERS s
      then Some (map (\<lambda>(m, c). unquote (cap c 1)) (captures_iter QUOTED_IDENTIFIER s))
      else None)"

definition quoted :: "string \<Rightarrow> string" where
  "quoted s = dquote # quote s @ [dquote]"

definition format_identifier :: "string list \<Rightarrow> string" where
  "format_identifier components = join_with dot (map quoted components)"

fun collect_options :: "'a option list \<Rightarrow> 'a list option" where
  "collect_options [] = Some []"
| "collect_options (None # xs) = None"
| "collect_options (Some x # xs) = map_option ((#) x) (collect_options xs)"

definition parse_identifier_list :: "string \<Rightarrow> string list option" where
  "parse_identifier_list s =
     (if s = [] then Some []
      else if \<not> is_match COMMA_SEPARATED_IDENTIFIERS s then None
      else collect_options
        (map (\<lambda>(m, c). case parse_identifier m of
                Some (x # _) \<Rightarrow> Some x | _ \<Rightarrow> None) (captures_iter IDENTIFIER s)))"

definition format_identifier_list :: "string list \<Rightarrow> string" where
  "format_identifier_list identifiers = join_with comma (map (\<lambda>i. format_identifier [i]) identifiers)"

section \<open>Quoting\<close>

lemma unquote_quote [simp]: "unquote (quote s) = s"
proof (induction s)
  case (Cons c s)
  show ?case
  proof (cases "c = dquote")
    case False
    with Cons show ?thesis by (cases "quote s") auto
  qed (use Cons in auto)
qed simp

lemma quote_eq_Nil [simp]: "quote s = [] \<longleftrightarrow> s = []"
  by (cases s) auto

lemma quote_inject [simp]: "quote s = quote t \<longleftrightarrow> s = t"
  by (metis unquote_quote)

lemma unquote_nonempty: "s \<noteq> [] \<Longrightarrow> unquote s \<noteq> []"
  by (induction s rule: unquote.induct) auto

lemma quote_id: "dquote \<notin> set s \<Longrightarrow> quote s = s"
  by (induction s) auto

lemma set_quote: "c \<in> set (quote s) \<longleftrightarrow> c \<in> set s"
  by (induction s) auto

lemma lang_quote: "lang (Star QUOTED_CHAR) (quote s)"
proof (induction s)
  case (Cons c s)
  have "lang QUOTED_CHAR (if c = dquote then [dquote, dquote] else [c])"
    unfolding QUOTED_CHAR_def using lang_Lit [of "[dquote, dquote]"]
    by (auto intro: lang_AltL lang_AltR lang_Cls)
  from lang_StarS [OF this Cons] show ?case by (simp split: if_splits)
qed (simp add: lang_Star0)

lemma lang_Plus_quote: "s \<noteq> [] \<Longrightarrow> lang (Plus QUOTED_CHAR) (quote s)"
proof (cases s)
  case (Cons c s')
  have "lang QUOTED_CHAR (if c = dquote then [dquote, dquote] else [c])"
    unfolding QUOTED_CHAR_def using lang_Lit [of "[dquote, dquote]"]
    by (auto intro: lang_AltL lang_AltR lang_Cls)
  from lang_Plus [OF this lang_quote] Cons show ?thesis by (simp split: if_splits)
qed simp

lemma lang_Chr: "lang (Chr c) [c]"
  by (simp add: lang_Cls)

lemma lang_Cat_Chr: "lang r u \<Longrightarrow> lang (Cat (Chr c) r) (c # u)"
  using lang_Cat [OF lang_Chr] by fastforce

lemma lang_quoted: "s \<noteq> [] \<Longrightarrow> lang (Cat (Chr dquote) (Cat (Grp n (Plus QUOTED_CHAR)) (Chr dquote))) (quoted s)"
  unfolding quoted_def by (intro lang_Cat_Chr lang_Cat lang_Grp lang_Plus_quote lang_Chr)

lemma rmatch_QUOTED_CHAR:
  "rmatch QUOTED_CHAR s =
     (case s of [] \<Rightarrow> []
      | c # cs \<Rightarrow> if c \<noteq> dquote then [(cs, [])]
                 else (case cs of [] \<Rightarrow> [] | d # ds \<Rightarrow> if d = dquote then [(ds, [])] else []))"
  by (auto simp: QUOTED_CHAR_def split: list.splits)

text \<open>The greedy repetition consumes exactly the quoted text.\<close>

lemma rfirst_QUOTED_CHAR: "rfirst QUOTED_CHAR (quote (c # s) @ t) (quote s @ t) []"
  by (simp add: rfirst_def rmatch_QUOTED_CHAR)

lemma rfirst_quote:
  assumes "t = [] \<or> hd t \<noteq> dquote"
  shows "rfirst (Star QUOTED_CHAR) (quote s @ dquote # t) (dquote # t) []"
proof (induction s)
  case Nil
  from assms have "rmatch QUOTED_CHAR (dquote # t) = []"
    by (cases t) (auto simp: rmatch_QUOTED_CHAR)
  then show ?case by (simp add: rfirst_Star_stop)
next
  case (Cons c s)
  from rfirst_Star_step [OF rfirst_QUOTED_CHAR _ this, of c] show ?case by simp
qed

lemma rfirst_Plus_quote:
  assumes "t = [] \<or> hd t \<noteq> dquote" and "s \<noteq> []"
  shows "rfirst (Plus QUOTED_CHAR) (quote s @ dquote # t) (dquote # t) []"
proof -
  obtain c s' where s: "s = c # s'" using assms(2) by (cases s) auto
  from rfirst_Cat [OF rfirst_QUOTED_CHAR rfirst_quote [OF assms(1), of s'], of c]
  show ?thesis by (simp add: Plus_def s)
qed

lemma rfirst_quoted:
  assumes "t = [] \<or> hd t \<noteq> dquote" and "s \<noteq> []"
  shows "rfirst (Cat (Chr dquote) (Cat (Grp n (Plus QUOTED_CHAR)) (Chr dquote))) (quoted s @ t)
           t [(n, quote s)]"
proof -
  have "rfirst (Cat (Grp n (Plus QUOTED_CHAR)) (Chr dquote)) (quote s @ dquote # t) t ([] @ [(n, quote s)])"
    by (rule rfirst_Cat [OF rfirst_Grp [OF rfirst_Plus_quote [OF assms]] rfirst_Cls]) simp
  from rfirst_Cat [OF rfirst_Cls this, of "\<lambda>x. x = dquote" dquote] show ?thesis
    by (simp add: quoted_def)
qed

section \<open>Round trips\<close>

lemma ident_classes:
  "\<not> is_ident_start dquote" "\<not> is_ident_start dot" "\<not> is_ident_char dot" "\<not> is_ident_start comma"
  "is_ident_start c \<Longrightarrow> is_ident_char c"
  by (auto simp: is_ident_start_def is_ident_char_def cls_range_def)

lemma captures_iter_QUOTED:
  assumes "t = [] \<or> hd t \<noteq> dquote" and "s \<noteq> []"
  shows "captures_iter QUOTED_IDENTIFIER (quoted s @ t) =
           (quoted s, [(1, quote s)]) # captures_iter QUOTED_IDENTIFIER t"
  by (rule captures_iter_match) (use rfirst_quoted [OF assms, of 1] in \<open>simp_all add: QUOTED_IDENTIFIER_def quoted_def\<close>)

lemma captures_iter_IDENTIFIER:
  assumes "t = [] \<or> hd t \<noteq> dquote" and "s \<noteq> []"
  shows "captures_iter IDENTIFIER (quoted s @ t) =
           (quoted s, [(2, quote s)]) # captures_iter IDENTIFIER t"
proof -
  have "rmatch IDENTIFIER (quoted s @ t) =
      rmatch (Cat (Chr dquote) (Cat (Grp 2 (Plus QUOTED_CHAR)) (Chr dquote))) (quoted s @ t)"
    by (simp add: IDENTIFIER_def quoted_def ident_classes)
  then have "rfirst IDENTIFIER (quoted s @ t) t [(2, quote s)]"
    using rfirst_quoted [OF assms, of 2] by (simp add: rfirst_def)
  then show ?thesis by (rule captures_iter_match) (simp add: quoted_def)
qed

text \<open>Text that starts with a quote is never a list of unquoted identifiers.\<close>

lemma lang_unquoted_Cons:
  assumes "lang DOT_SEPARATED_UNQUOTED_IDENTIFIERS (c # s)"
  shows "is_ident_start c"
proof -
  obtain u v where "c # s = u @ v" and "lang UNQUOTED_IDENTIFIER u"
    using assms unfolding DOT_SEPARATED_UNQUOTED_IDENTIFIERS_def by (rule lang_CatE) metis
  then show ?thesis
    by (auto simp: UNQUOTED_IDENTIFIER_def elim!: lang_GrpE lang_CatE lang_ClsE)
qed

lemma join_quoted_Cons:
  "join_with c (map quoted (x # y # zs)) = quoted x @ c # join_with c (map quoted (y # zs))"
  by simp

lemma lang_format_identifier:
  assumes "xs \<noteq> []" and "[] \<notin> set xs"
  shows "lang DOT_SEPARATED_QUOTED_IDENTIFIERS (format_identifier xs)"
proof -
  let ?item = "Grp 2 (Cat (Chr dot) (Cat (Chr dquote) (Cat (Grp 3 (Plus QUOTED_CHAR)) (Plus (Chr dquote)))))"
  obtain x ys where xs: "xs = x # ys" using assms(1) by (cases xs) auto
  have join: "join_with dot (map quoted (x # ys)) = quoted x @ concat (map (\<lambda>y. dot # quoted y) ys)"
    for x ys by (induction ys arbitrary: x) auto
  have item: "lang ?item (dot # quoted y)" if "y \<noteq> []" for y
  proof -
    have "lang (Plus (Chr dquote)) [dquote]"
      using lang_Plus [OF lang_Chr lang_Star0] by simp
    then have "lang (Cat (Grp 3 (Plus QUOTED_CHAR)) (Plus (Chr dquote))) (quote y @ [dquote])"
      by (rule lang_Cat [OF lang_Grp [OF lang_Plus_quote [OF that]]])
    then show ?thesis unfolding quoted_def by (intro lang_Grp lang_Cat_Chr)
  qed
  have "lang (Star ?item) (concat (map (\<lambda>y. dot # quoted y) ys))"
  proof (rule lang_Star_concat)
    fix u assume "u \<in> set (map (\<lambda>y. dot # quoted y) ys)"
    then obtain y where "y \<in> set ys" "u = dot # quoted y" by auto
    moreover with assms(2) xs have "y \<noteq> []" by auto
    ultimately show "lang ?item u" using item by simp
  qed
  moreover have "lang QUOTED_IDENTIFIER (quoted x)"
    unfolding QUOTED_IDENTIFIER_def using assms xs by (intro lang_quoted) auto
  ultimately show ?thesis
    unfolding DOT_SEPARATED_QUOTED_IDENTIFIERS_def format_identifier_def xs join
    by (intro lang_Cat)
qed

lemma captures_iter_format:
  assumes "[] \<notin> set xs"
  shows "map (\<lambda>(m, c). unquote (cap c 1)) (captures_iter QUOTED_IDENTIFIER (format_identifier xs)) = xs"
  using assms
proof (induction xs rule: induct_list012)
  case (2 x)
  then show ?case
    using captures_iter_QUOTED [of "[]" x] by (simp add: format_identifier_def cap_def)
next
  case (3 x y zs)
  have "rmatch QUOTED_IDENTIFIER (dot # t) = []" for t
    by (simp add: QUOTED_IDENTIFIER_def)
  then have "captures_iter QUOTED_IDENTIFIER (dot # t) = captures_iter QUOTED_IDENTIFIER t" for t
    by (rule captures_iter_skip)
  moreover have "captures_iter QUOTED_IDENTIFIER (quoted x @ dot # t) =
      (quoted x, [(1, quote x)]) # captures_iter QUOTED_IDENTIFIER (dot # t)" for t
    using 3 by (intro captures_iter_QUOTED) auto
  ultimately show ?case using 3 by (simp add: format_identifier_def cap_def)
qed (simp add: format_identifier_def)

lemma format_identifier_not_unquoted:
  "xs \<noteq> [] \<Longrightarrow> \<not> lang DOT_SEPARATED_UNQUOTED_IDENTIFIERS (format_identifier xs)"
proof -
  assume "xs \<noteq> []"
  then obtain s where "format_identifier xs = dquote # s"
    by (induction xs rule: induct_list012) (auto simp: quoted_def format_identifier_def)
  then show ?thesis using lang_unquoted_Cons ident_classes by metis
qed

lemma parse_format_identifier:
  assumes "xs \<noteq> []" and "[] \<notin> set xs"
  shows "parse_identifier (format_identifier xs) = Some xs"
  using assms by (simp add: parse_identifier_def is_match_lang lang_format_identifier
      captures_iter_format format_identifier_not_unquoted del: One_nat_def)

lemma parse_quoted [simp]: "x \<noteq> [] \<Longrightarrow> parse_identifier (quoted x) = Some [x]"
  using parse_format_identifier [of "[x]"] by (simp add: format_identifier_def)

lemma lang_format_list:
  assumes "xs \<noteq> []" and "[] \<notin> set xs"
  shows "lang COMMA_SEPARATED_IDENTIFIERS (format_identifier_list xs)"
proof -
  obtain x ys where xs: "xs = x # ys" using assms(1) by (cases xs) auto
  have join: "join_with comma (map quoted (x # ys)) = quoted x @ concat (map (\<lambda>y. comma # quoted y) ys)"
    for x ys by (induction ys arbitrary: x) auto
  have ident: "lang IDENTIFIER (quoted y)" if "y \<noteq> []" for y
    unfolding IDENTIFIER_def by (rule lang_AltR, rule lang_quoted [OF that])
  have "lang (Star (Grp 3 (Cat (Chr comma) IDENTIFIER))) (concat (map (\<lambda>y. comma # quoted y) ys))"
  proof (rule lang_Star_concat)
    fix u assume "u \<in> set (map (\<lambda>y. comma # quoted y) ys)"
    then obtain y where "y \<in> set ys" "u = comma # quoted y" by auto
    moreover with assms(2) xs have "y \<noteq> []" by auto
    ultimately show "lang (Grp 3 (Cat (Chr comma) IDENTIFIER)) u"
      using ident by (simp add: lang_Grp lang_Cat_Chr)
  qed
  moreover have "lang IDENTIFIER (quoted x)" using ident assms xs by auto
  ultimately show ?thesis
    unfolding COMMA_SEPARATED_IDENTIFIERS_def format_identifier_list_def xs
    using join by (simp add: format_identifier_def lang_Cat)
qed

lemma captures_iter_format_list:
  assumes "[] \<notin> set xs"
  shows "map fst (captures_iter IDENTIFIER (join_with comma (map quoted xs))) = map quoted xs"
  using assms
proof (induction xs rule: induct_list012)
  case (2 x)
  then show ?case using captures_iter_IDENTIFIER [of "[]" x] by simp
next
  case (3 x y zs)
  have "rmatch IDENTIFIER (comma # t) = []" for t
    by (simp add: IDENTIFIER_def ident_classes)
  then have "captures_iter IDENTIFIER (comma # t) = captures_iter IDENTIFIER t" for t
    by (rule captures_iter_skip)
  moreover have "captures_iter IDENTIFIER (quoted x @ comma # t) =
      (quoted x, [(2, quote x)]) # captures_iter IDENTIFIER (comma # t)" for t
    using 3 by (intro captures_iter_IDENTIFIER) auto
  ultimately show ?case using 3 by simp
qed simp

lemma collect_options_Some: "collect_options (map (\<lambda>x. Some (f x)) xs) = Some (map f xs)"
  by (induction xs) auto

lemma parse_format_identifier_list:
  assumes "[] \<notin> set xs"
  shows "parse_identifier_list (format_identifier_list xs) = Some xs"
proof (cases "xs = []")
  case False
  let ?s = "format_identifier_list xs"
  let ?first = "\<lambda>m. case parse_identifier m of Some (x # _) \<Rightarrow> Some x | _ \<Rightarrow> None"
  have s: "?s = join_with comma (map quoted xs)"
    by (simp add: format_identifier_list_def format_identifier_def)
  have "?s \<noteq> []"
    using False unfolding s by (cases xs; cases "tl xs") (auto simp: quoted_def)
  moreover have "is_match COMMA_SEPARATED_IDENTIFIERS ?s"
    using False assms by (simp add: is_match_lang lang_format_list)
  moreover have "map (\<lambda>(m, c). ?first m) (captures_iter IDENTIFIER ?s) =
      map ?first (map fst (captures_iter IDENTIFIER ?s))"
    by (simp add: case_prod_unfold)
  moreover have "map ?first (map quoted xs) = map Some xs"
    using assms by (induction xs) auto
  moreover have "collect_options (map Some xs) = Some xs"
    using collect_options_Some [of "\<lambda>x. x" xs] by simp
  ultimately show ?thesis
    unfolding parse_identifier_list_def s captures_iter_format_list [OF assms] by (simp del: map_map map_eq_conv)
qed (simp add: parse_identifier_list_def format_identifier_list_def)

section \<open>Unquoted identifiers\<close>

definition is_unquoted :: "string \<Rightarrow> bool" where
  "is_unquoted s \<longleftrightarrow> (case s of [] \<Rightarrow> False | c # cs \<Rightarrow> is_ident_start c \<and> list_all is_ident_char cs)"

lemma lang_Star_Cls: "list_all p s \<Longrightarrow> lang (Star (Cls p)) s"
proof (induction s)
  case (Cons c s)
  then have "lang (Star (Cls p)) ([c] @ s)"
    by (intro lang_StarS lang_Cls) auto
  then show ?case by simp
qed (simp add: lang_Star0)

lemma lang_unquoted: "is_unquoted s \<Longrightarrow> lang UNQUOTED_IDENTIFIER s"
proof (cases s)
  case (Cons c cs)
  assume "is_unquoted s"
  with Cons have "lang (Cat (Cls is_ident_start) (Star (Cls is_ident_char))) ([c] @ cs)"
    by (intro lang_Cat lang_Cls lang_Star_Cls) (auto simp: is_unquoted_def)
  with Cons show ?thesis by (simp add: UNQUOTED_IDENTIFIER_def lang_Grp)
qed (simp add: is_unquoted_def)

lemma parse_unquoted_identifiers:
  assumes "xs \<noteq> []" and "list_all is_unquoted xs"
  shows "parse_identifier (join_with dot xs) = Some xs"
proof -
  obtain x ys where xs: "xs = x # ys" using assms(1) by (cases xs) auto
  have join: "join_with dot (x # ys) = x @ concat (map ((#) dot) ys)" for x ys
    by (induction ys arbitrary: x) auto
  have "lang (Star (Grp 2 (Cat (Chr dot) (Plus UNQUOTED_IDENTIFIER)))) (concat (map ((#) dot) ys))"
  proof (rule lang_Star_concat)
    fix u assume "u \<in> set (map ((#) dot) ys)"
    then obtain y where y: "y \<in> set ys" "u = dot # y" by auto
    with assms(2) xs have "is_unquoted y" by (auto simp: list_all_iff)
    from lang_Plus [OF lang_unquoted [OF this] lang_Star0] y
    show "lang (Grp 2 (Cat (Chr dot) (Plus UNQUOTED_IDENTIFIER))) u"
      by (simp add: lang_Grp lang_Cat_Chr)
  qed
  moreover have "lang UNQUOTED_IDENTIFIER x" using assms(2) xs by (simp add: lang_unquoted)
  ultimately have "lang DOT_SEPARATED_UNQUOTED_IDENTIFIERS (join_with dot xs)"
    unfolding DOT_SEPARATED_UNQUOTED_IDENTIFIERS_def xs join by (rule lang_Cat [rotated])
  moreover have "dot \<notin> set x" if "x \<in> set xs" for x
  proof -
    from assms(2) that have "is_unquoted x" by (simp add: list_all_iff)
    then show ?thesis
      using ident_classes by (cases x) (auto simp: list_all_iff is_unquoted_def)
  qed
  ultimately show ?thesis
    using assms(1) by (simp add: parse_identifier_def is_match_lang split_join)
qed

end
