(* ===== verification/Codec.thy ===== *)
theory Codec
  imports Strings
begin

text \<open>
  The contract between a \<open>Display\<close> and a \<open>FromStr\<close> implementation: what is printed parses
  back. The lemmas every pair inherits are proved once here; each printer and parser of the
  model is an interpretation.
\<close>

locale codec =
  fixes print :: "'a \<Rightarrow> string"
    and parse :: "string \<Rightarrow> ('e, 'a) res"
    and ok :: "'a \<Rightarrow> bool"
  assumes parse_print: "ok x \<Longrightarrow> parse (print x) = Ok x"
begin

lemma print_inject: "ok x \<Longrightarrow> ok y \<Longrightarrow> print x = print y \<longleftrightarrow> x = y"
  by (metis parse_print res.inject(1))

lemma collect_print: "\<forall>x\<in>set xs. ok x \<Longrightarrow> collect parse (map print xs) = Ok xs"
  by (induction xs) (simp_all add: parse_print)

text \<open>A printed list comes back if no element prints the separator.\<close>

lemma parse_separated:
  assumes "xs \<noteq> []" and "\<forall>x\<in>set xs. ok x \<and> c \<notin> set (print x)"
  shows "collect parse (split_on c (join_with c (map print xs))) = Ok xs"
proof -
  have "split_on c (join_with c (map print xs)) = map print xs"
    using assms by (intro split_join) auto
  with assms show ?thesis by (simp add: collect_print)
qed

end

text \<open>Two codecs for the same text agree wherever both accept the value.\<close>

locale codec_total = codec print parse "\<lambda>_. True"
  for print :: "'a \<Rightarrow> string" and parse :: "string \<Rightarrow> ('e, 'a) res"
begin

lemma inj_print: "inj print"
  by (rule injI) (simp add: print_inject)

end

end
