(* ===== verification/Errors.thy ===== *)
theory Errors
  imports Types Identifiers Codec
begin

text \<open>
  \<open>error.rs\<close>: the error type of the library and its constructors. Errors of third-party
  crates carry their message; of a database error the code also observes the two properties
  of \<open>db_error\<close>.
\<close>

record db_error =
  de_unique_violation :: bool
  de_table_already_exists :: bool
  de_message :: string

datatype (plugins only: code size) ducklake_error =
    UnsupportedVersion string
  | OutdatedVersion string string
  | AlreadyExists string string
  | NotFound string string
  | EntityNotFound i64
  | ColumnNotFound i64
  | InvalidChanges string
  | InvalidDataType string
  | InvalidPartitions string
  | InvalidTimeZone string
  | InvalidDatabaseOptions string
  | InvalidPartitionTransform string
  | InvalidSortDirection string
  | InvalidNullOrder string
  | InvalidSchemaName string string
  | InvalidQualifiedName string string
  | InvalidView string
  | InvalidMacro string
  | InvalidColumnName string string
  | InvalidCast data_type data_type
  | DuplicateColumnName string
  | CatalogNotInitialized
  | CatalogAlreadyInitialized
  | UnknownVersion
  | TransactionConflict string
  | UnsupportedDatabase string
  | RetriesExceeded
  | Database db_error
  | Arrow string
  | Parsing string
  | InvalidVersion string
  | InvalidPath string string
  | ReadOnlyMetadata string
  | InvalidDefault string string
  | InvalidNullabilityChange string
  | InvalidNullValue string
  | UnsupportedUrlScheme string
  | UnsupportedArrowDataType string
  | InvalidEncryptionKey
  | Parquet string
  | ObjectStore string
  | ReadonlyDucklake
  | SnapshotPinned
  | InvalidTableTransfer string
  | TableChangedDuringTransfer
  | SchemaError string

type_synonym 'a result = "(ducklake_error, 'a) res"

text \<open>\<open>From<ParseIntError>\<close>.\<close>

definition from_parse_int_error :: "int_error_kind \<Rightarrow> ducklake_error" where
  "from_parse_int_error e = Parsing (int_error_message e)"

definition qn_to_string :: "qualified_name \<Rightarrow> string" where
  "qn_to_string n = format_identifier [qn_schema n, qn_name n]"

definition schema_already_exists :: "string \<Rightarrow> ducklake_error" where
  "schema_already_exists n = AlreadyExists ''schema'' n"

definition schema_not_found :: "string \<Rightarrow> ducklake_error" where
  "schema_not_found n = NotFound ''schema'' n"

definition table_already_exists :: "qualified_name \<Rightarrow> ducklake_error" where
  "table_already_exists n = AlreadyExists ''table'' (qn_to_string n)"

definition table_not_found :: "qualified_name \<Rightarrow> ducklake_error" where
  "table_not_found n = NotFound ''table'' (qn_to_string n)"

definition view_already_exists :: "qualified_name \<Rightarrow> ducklake_error" where
  "view_already_exists n = AlreadyExists ''view'' (qn_to_string n)"

definition view_not_found :: "qualified_name \<Rightarrow> ducklake_error" where
  "view_not_found n = NotFound ''view'' (qn_to_string n)"

definition macro_already_exists :: "qualified_name \<Rightarrow> ducklake_error" where
  "macro_already_exists n = AlreadyExists ''macro'' (qn_to_string n)"

definition macro_not_found :: "qualified_name \<Rightarrow> ducklake_error" where
  "macro_not_found n = NotFound ''macro'' (qn_to_string n)"

definition column_already_exists :: "string \<Rightarrow> ducklake_error" where
  "column_already_exists n = AlreadyExists ''column'' n"

definition column_path_not_found :: "string list \<Rightarrow> ducklake_error" where
  "column_path_not_found path = NotFound ''column'' (format_identifier path)"

section \<open>Qualified names and column names (\<open>typedefs/name.rs\<close>)\<close>

definition qn_reason :: string where
  "qn_reason = ''expected format '' @ sq ''name'' @ '' or '' @ sq ''schema.name''
     @ '' (potentially escaped via '' @ [dquote] @ '')''"

definition column_name_reason :: string where
  "column_name_reason = ''expected format '' @ sq ''column'' @ '' or '' @ sq ''struct_column.nested_column''
     @ '' (with arbitrary nesting and potentially escaped via '' @ [dquote] @ '')''"

definition parse_qualified_name :: "string \<Rightarrow> qualified_name result" where
  "parse_qualified_name s =
     (case parse_identifier s of
        Some [a] \<Rightarrow> Ok \<lparr>qn_schema = ''main'', qn_name = a\<rparr>
      | Some [a, b] \<Rightarrow> Ok \<lparr>qn_schema = a, qn_name = b\<rparr>
      | _ \<Rightarrow> Err (InvalidQualifiedName s qn_reason))"

text \<open>
  \<open>QualifiedName::from_object_name\<close>: the parts of a SQL object name, each with its
  identifier if it is one (\<open>as_ident\<close>).
\<close>

fun from_object_name :: "string option list \<Rightarrow> string \<Rightarrow> qualified_name option" where
  "from_object_name [n] default_schema =
     (case n of None \<Rightarrow> None | Some v \<Rightarrow> Some \<lparr>qn_schema = default_schema, qn_name = v\<rparr>)"
| "from_object_name [s, n] default_schema =
     (case s of None \<Rightarrow> None | Some sv \<Rightarrow>
       (case n of None \<Rightarrow> None | Some v \<Rightarrow> Some \<lparr>qn_schema = sv, qn_name = v\<rparr>))"
| "from_object_name _ default_schema = None"

definition column_name_named :: "string \<Rightarrow> column_name" where
  "column_name_named n = [n]"

definition column_name_add_component :: "column_name \<Rightarrow> string \<Rightarrow> column_name" where
  "column_name_add_component c n = c @ [n]"

definition parse_column_name :: "string \<Rightarrow> column_name result" where
  "parse_column_name s =
     (case parse_identifier s of
        Some (c # cs) \<Rightarrow> Ok (c # cs)
      | _ \<Rightarrow> Err (InvalidColumnName s column_name_reason))"

definition column_name_to_string :: "column_name \<Rightarrow> string" where
  "column_name_to_string c = format_identifier c"

definition qn_ok :: "qualified_name \<Rightarrow> bool" where
  "qn_ok n \<longleftrightarrow> qn_schema n \<noteq> [] \<and> qn_name n \<noteq> []"

definition column_name_ok :: "column_name \<Rightarrow> bool" where
  "column_name_ok c \<longleftrightarrow> c \<noteq> [] \<and> [] \<notin> set c"

lemma parse_qn_to_string: "qn_ok n \<Longrightarrow> parse_qualified_name (qn_to_string n) = Ok n"
  using parse_format_identifier [of "[qn_schema n, qn_name n]"]
  by (auto simp: qn_ok_def parse_qualified_name_def qn_to_string_def)

lemma parse_column_name_to_string:
  "column_name_ok c \<Longrightarrow> parse_column_name (column_name_to_string c) = Ok c"
  using parse_format_identifier [of c]
  by (cases c) (auto simp: column_name_ok_def parse_column_name_def column_name_to_string_def)

interpretation qn_codec: codec qn_to_string parse_qualified_name qn_ok
  by unfold_locales (rule parse_qn_to_string)

interpretation column_name_codec: codec column_name_to_string parse_column_name column_name_ok
  by unfold_locales (rule parse_column_name_to_string)

end
