(* ===== verification/Datatypes.thy ===== *)
theory Datatypes
  imports Errors
begin

text \<open>
  The operations of \<open>typedefs/\<close>: names of data types and their parser
  (\<open>schema/dtype.rs\<close>), type promotion, flattening of nested columns (\<open>schema/column.rs\<close>),
  schemas (\<open>schema/mod.rs\<close>), and the printers and parsers of partition transforms, sort
  orders and macro types. The round trips are interpretations of \<open>codec\<close>.
\<close>

section \<open>Data types\<close>

lemma size_col_dtype [termination_simp]:
  "size (col_dtype c) < Suc (size c)" "size (col_dtype c) < Suc (size c + n)"
  "size (col_dtype c) < Suc (n + size c)"
  by (cases c; simp)+

lemma size_col_dtype_list [termination_simp]:
  "c \<in> set cs \<Longrightarrow> size (col_dtype c) < Suc (size_list size cs)"
  using size_list_estimation' [of c cs "size c" size] size_col_dtype(1) [of c] by simp

definition dtype_list :: "data_type \<Rightarrow> data_type" where
  "dtype_list inner = DList (new_column ''element'' inner)"

definition dtype_map :: "data_type \<Rightarrow> data_type \<Rightarrow> data_type" where
  "dtype_map k v = DMap (new_column ''key'' k) (new_column ''value'' v)"

definition can_promote_to :: "data_type \<Rightarrow> data_type \<Rightarrow> bool" where
  "can_promote_to s t =
     (case s of
        DInt8 \<Rightarrow> t \<in> {DInt16, DInt32, DInt64}
      | DInt16 \<Rightarrow> t \<in> {DInt32, DInt64}
      | DInt32 \<Rightarrow> t = DInt64
      | DUInt8 \<Rightarrow> t \<in> {DUInt16, DUInt32, DUInt64}
      | DUInt16 \<Rightarrow> t \<in> {DUInt32, DUInt64}
      | DUInt32 \<Rightarrow> t = DUInt64
      | DFloat32 \<Rightarrow> t = DFloat64
      | _ \<Rightarrow> False)"

fun is_nested :: "data_type \<Rightarrow> bool" where
  "is_nested (DList c) = True"
| "is_nested (DStruct fs) = True"
| "is_nested (DMap k v) = True"
| "is_nested t = False"

fun supports_data_inlining :: "data_type \<Rightarrow> bool" where
  "supports_data_inlining t =
     (case t of
        DVariant \<Rightarrow> False
      | DGeometry \<Rightarrow> False
      | DList c \<Rightarrow> supports_data_inlining (col_dtype c)
      | DStruct fs \<Rightarrow> list_all (\<lambda>c. supports_data_inlining (col_dtype c)) fs
      | DMap k v \<Rightarrow> supports_data_inlining (col_dtype k) \<and> supports_data_inlining (col_dtype v)
      | _ \<Rightarrow> True)"

declare supports_data_inlining.simps [simp del]

definition primitive_types :: "(string \<times> data_type) list" where
  "primitive_types =
     [(''boolean'', DBoolean), (''int8'', DInt8), (''int16'', DInt16), (''int32'', DInt32),
      (''int64'', DInt64), (''int128'', DInt128), (''uint8'', DUInt8), (''uint16'', DUInt16),
      (''uint32'', DUInt32), (''uint64'', DUInt64), (''uint128'', DUInt128),
      (''float32'', DFloat32), (''float64'', DFloat64), (''time'', DTime), (''timetz'', DTimeTz),
      (''date'', DDate), (''timestamp'', DTimestamp Microseconds),
      (''timestamp_s'', DTimestamp Seconds), (''timestamp_ms'', DTimestamp Milliseconds),
      (''timestamp_ns'', DTimestamp Nanoseconds), (''timestamptz'', DTimestampTz),
      (''interval'', DInterval), (''varchar'', DVarchar), (''blob'', DBlob), (''json'', DJson),
      (''variant'', DVariant), (''geometry'', DGeometry), (''uuid'', DUuid)]"

definition RE_DECIMAL :: regex where
  "RE_DECIMAL =
     Cat (Lit ''decimal('') (Cat (Grp 1 (Plus (Cls is_digit))) (Cat (Chr comma) (Cat (Star Space)
       (Cat (Grp 2 (Plus (Cls is_digit))) (Chr (CHR '')''))))))"

definition parse_primitive :: "string \<Rightarrow> data_type result" where
  "parse_primitive s =
     (case map_of primitive_types s of
        Some t \<Rightarrow> Ok t
      | None \<Rightarrow>
          (case full_captures RE_DECIMAL s of
             Some caps \<Rightarrow>
               (case (parse_uint 8 (cap caps 1), parse_uint 8 (cap caps 2)) of
                  (Ok precision, Ok scale) \<Rightarrow> Ok (DDecimal precision scale)
                | _ \<Rightarrow> Err (InvalidDataType s))
           | None \<Rightarrow> Err (InvalidDataType s)))"

fun dtype_to_string :: "data_type \<Rightarrow> string" where
  "dtype_to_string DBoolean = ''boolean''"
| "dtype_to_string DInt8 = ''int8''"
| "dtype_to_string DInt16 = ''int16''"
| "dtype_to_string DInt32 = ''int32''"
| "dtype_to_string DInt64 = ''int64''"
| "dtype_to_string DInt128 = ''int128''"
| "dtype_to_string DUInt8 = ''uint8''"
| "dtype_to_string DUInt16 = ''uint16''"
| "dtype_to_string DUInt32 = ''uint32''"
| "dtype_to_string DUInt64 = ''uint64''"
| "dtype_to_string DUInt128 = ''uint128''"
| "dtype_to_string DFloat32 = ''float32''"
| "dtype_to_string DFloat64 = ''float64''"
| "dtype_to_string (DDecimal p s) = ''decimal('' @ show_int p @ '', '' @ show_int s @ '')''"
| "dtype_to_string DTime = ''time''"
| "dtype_to_string DTimeTz = ''timetz''"
| "dtype_to_string DDate = ''date''"
| "dtype_to_string (DTimestamp p) =
     (case p of Seconds \<Rightarrow> ''timestamp_s'' | Milliseconds \<Rightarrow> ''timestamp_ms''
      | Microseconds \<Rightarrow> ''timestamp'' | Nanoseconds \<Rightarrow> ''timestamp_ns'')"
| "dtype_to_string DTimestampTz = ''timestamptz''"
| "dtype_to_string DInterval = ''interval''"
| "dtype_to_string DVarchar = ''varchar''"
| "dtype_to_string DBlob = ''blob''"
| "dtype_to_string DJson = ''json''"
| "dtype_to_string DVariant = ''variant''"
| "dtype_to_string DGeometry = ''geometry''"
| "dtype_to_string DUuid = ''uuid''"
| "dtype_to_string (DList c) = ''list''"
| "dtype_to_string (DStruct fs) = ''struct''"
| "dtype_to_string (DMap k v) = ''map''"

text \<open>Types that have a name of their own: no nested type, \<open>u8\<close> parameters in range.\<close>

fun dtype_ok :: "data_type \<Rightarrow> bool" where
  "dtype_ok (DDecimal p s) = (0 \<le> p \<and> p \<le> 255 \<and> 0 \<le> s \<and> s \<le> 255)"
| "dtype_ok t = (\<not> is_nested t)"

lemma is_digit_show_nat: "\<forall>c\<in>set (show_nat n). is_digit c"
  using show_nat_digits by (auto simp: is_digit_def cls_range_def)

lemma show_int_nonneg: "0 \<le> i \<Longrightarrow> show_int i = show_nat (nat i)"
  by (simp add: show_int_def)

lemma rmatch_Space_digit: "is_digit c \<Longrightarrow> rmatch Space (c # s) = []"
  by (auto simp: Space_def is_digit_def cls_range_def)

lemma rfirst_Star_Space:
  assumes "is_digit c"
  shows "rfirst (Star Space) (CHR '' '' # c # s) (c # s) []"
proof -
  have "rfirst Space (CHR '' '' # c # s) (c # s) []"
    unfolding Space_def by (intro rfirst_AltL rfirst_Cls) simp
  from rfirst_Star_step [OF this _ rfirst_Star_stop [OF rmatch_Space_digit [OF assms]]]
  show ?thesis by simp
qed

lemma full_captures_decimal:
  fixes p s :: nat
  defines "txt \<equiv> ''decimal('' @ show_nat p @ '', '' @ show_nat s @ '')''"
  shows "full_captures RE_DECIMAL txt = Some [(2, show_nat s), (1, show_nat p)]"
proof -
  let ?close = "[CHR '')'']"
  obtain d ds where d: "show_nat s = d # ds" "is_digit d"
    using is_digit_show_nat [of s] by (cases "show_nat s") auto
  have nd: "\<not> is_digit (CHR '')'')" "\<not> is_digit comma"
    by (simp_all add: is_digit_def cls_range_def)
  have "rfirst (Cat (Grp 2 (Plus (Cls is_digit))) (Chr (CHR '')''))) (show_nat s @ ?close) [] ([] @ [(2, show_nat s)])"
    by (rule rfirst_Cat [OF rfirst_Grp [OF rfirst_Plus_Cls] rfirst_Cls])
       (use is_digit_show_nat nd in auto)
  moreover have "rfirst (Star Space) (CHR '' '' # show_nat s @ ?close) (show_nat s @ ?close) []"
    using rfirst_Star_Space [OF d(2)] d(1) by simp
  ultimately have "rfirst (Cat (Star Space) (Cat (Grp 2 (Plus (Cls is_digit))) (Chr (CHR '')''))))
      (CHR '' '' # show_nat s @ ?close) [] [(2, show_nat s)]"
    using rfirst_Cat by fastforce
  from rfirst_Cat [OF rfirst_Cls this, of "\<lambda>x. x = comma" comma]
  have tail: "rfirst (Cat (Chr comma) (Cat (Star Space) (Cat (Grp 2 (Plus (Cls is_digit))) (Chr (CHR '')'')))))
      (comma # CHR '' '' # show_nat s @ ?close) [] [(2, show_nat s)]" by simp
  have "rfirst (Grp 1 (Plus (Cls is_digit))) (show_nat p @ comma # CHR '' '' # show_nat s @ ?close)
      (comma # CHR '' '' # show_nat s @ ?close) [(1, show_nat p)]"
    by (rule rfirst_Grp [OF rfirst_Plus_Cls]) (use is_digit_show_nat nd in auto)
  from rfirst_Cat [OF rfirst_Lit [of "''decimal(''"] rfirst_Cat [OF this tail]]
  have "rfirst RE_DECIMAL txt [] [(2, show_nat s), (1, show_nat p)]"
    by (simp add: RE_DECIMAL_def txt_def)
  then show ?thesis by (rule full_captures_first)
qed

lemma parse_uint_show:
  "0 \<le> i \<Longrightarrow> i \<le> hi \<Longrightarrow> parse_int False 0 hi (show_nat (nat i)) = Ok i"
  using parse_int_show [of 0 hi i False] by (simp add: show_int_nonneg)

lemma parse_primitive_decimal:
  assumes "0 \<le> p" "p \<le> 255" "0 \<le> s" "s \<le> 255"
  shows "parse_primitive (dtype_to_string (DDecimal p s)) = Ok (DDecimal p s)"
proof -
  let ?t = "''decimal('' @ show_nat (nat p) @ '', '' @ show_nat (nat s) @ '')''"
  have "map_of primitive_types ?t = None"
    by (simp add: primitive_types_def)
  moreover have "parse_uint 8 (show_nat (nat p)) = Ok p" "parse_uint 8 (show_nat (nat s)) = Ok s"
    using assms by (simp_all add: parse_uint_show)
  ultimately have "parse_primitive ?t = Ok (DDecimal p s)"
    by (simp only: parse_primitive_def full_captures_decimal option.case cap_def map_of.simps) simp
  with assms show ?thesis by (simp add: show_int_nonneg)
qed

lemma parse_primitive_to_string: "dtype_ok t \<Longrightarrow> parse_primitive (dtype_to_string t) = Ok t"
proof (cases t)
  case (DDecimal p s)
  then show "dtype_ok t \<Longrightarrow> ?thesis" using parse_primitive_decimal by simp
next
  case (DTimestamp p)
  then show ?thesis by (cases p) (simp_all add: parse_primitive_def primitive_types_def)
qed (simp_all add: parse_primitive_def primitive_types_def)

interpretation dtype_codec: codec dtype_to_string parse_primitive dtype_ok
  by unfold_locales (rule parse_primitive_to_string)

section \<open>Promotion\<close>

text \<open>The values of the integer types.\<close>

fun int_range :: "data_type \<Rightarrow> (int \<times> int) option" where
  "int_range DInt8 = Some (- (2 ^ 7), 2 ^ 7 - 1)"
| "int_range DInt16 = Some (- (2 ^ 15), 2 ^ 15 - 1)"
| "int_range DInt32 = Some (- (2 ^ 31), 2 ^ 31 - 1)"
| "int_range DInt64 = Some (- (2 ^ 63), 2 ^ 63 - 1)"
| "int_range DInt128 = Some (- (2 ^ 127), 2 ^ 127 - 1)"
| "int_range DUInt8 = Some (0, 2 ^ 8 - 1)"
| "int_range DUInt16 = Some (0, 2 ^ 16 - 1)"
| "int_range DUInt32 = Some (0, 2 ^ 32 - 1)"
| "int_range DUInt64 = Some (0, 2 ^ 64 - 1)"
| "int_range DUInt128 = Some (0, 2 ^ 128 - 1)"
| "int_range _ = None"

lemma promote_cases:
  assumes "can_promote_to s t"
  obtains "s = DInt8" "t = DInt16" | "s = DInt8" "t = DInt32" | "s = DInt8" "t = DInt64"
  | "s = DInt16" "t = DInt32" | "s = DInt16" "t = DInt64" | "s = DInt32" "t = DInt64"
  | "s = DUInt8" "t = DUInt16" | "s = DUInt8" "t = DUInt32" | "s = DUInt8" "t = DUInt64"
  | "s = DUInt16" "t = DUInt32" | "s = DUInt16" "t = DUInt64" | "s = DUInt32" "t = DUInt64"
  | "s = DFloat32" "t = DFloat64"
  using assms by (cases s) (auto simp: can_promote_to_def)

lemma promote_trans: "can_promote_to s t \<Longrightarrow> can_promote_to t u \<Longrightarrow> can_promote_to s u"
  by (erule promote_cases; erule promote_cases) (auto simp: can_promote_to_def)

lemma promote_irrefl: "\<not> can_promote_to t t"
  by (auto elim: promote_cases)

section \<open>Flattening of nested columns\<close>

record flattened_column =
  fc_column :: column
  fc_parent_index :: "usize option"

lemma size_children:
  "col_dtype c = DList i \<Longrightarrow> size i < size c"
  "col_dtype c = DStruct fs \<Longrightarrow> f \<in> set fs \<Longrightarrow> size f < size c"
  "col_dtype c = DMap k v \<Longrightarrow> size k < size c"
  "col_dtype c = DMap k v \<Longrightarrow> size v < size c"
  using size_list_estimation' [of f fs "size f" size] by (cases c; simp)+

function flatten_into ::
  "column \<Rightarrow> usize option \<Rightarrow> flattened_column list \<Rightarrow> flattened_column list"
where
  "flatten_into c p fl =
     (let fl1 = fl @ [\<lparr>fc_column = c, fc_parent_index = p\<rparr>]; parent = length fl1 - 1 in
      case col_dtype c of
        DList inner \<Rightarrow> flatten_into inner (Some parent) fl1
      | DStruct fs \<Rightarrow> fold (\<lambda>f acc. flatten_into f (Some parent) acc) fs fl1
      | DMap k v \<Rightarrow> flatten_into v (Some parent) (flatten_into k (Some parent) fl1)
      | _ \<Rightarrow> fl1)"
  by pat_completeness auto
termination
  by (relation "measure (\<lambda>(c, p, fl). size c)") (auto dest: size_children)

declare flatten_into.simps [simp del]

definition flatten :: "column \<Rightarrow> flattened_column list" where
  "flatten c = flatten_into c None []"

text \<open>The specification: the columns in preorder, each entry pointing back to its parent.\<close>

definition col_children :: "column \<Rightarrow> column list" where
  "col_children c =
     (case col_dtype c of DList i \<Rightarrow> [i] | DStruct fs \<Rightarrow> fs | DMap k v \<Rightarrow> [k, v] | _ \<Rightarrow> [])"

lemma size_col_children: "f \<in> set (col_children c) \<Longrightarrow> size f < size c"
  by (auto simp: col_children_def size_children split: data_type.splits)

function preorder :: "column \<Rightarrow> column list" where
  "preorder c = c # concat (map preorder (col_children c))"
  by pat_completeness auto
termination
  by (relation "measure size") (auto simp: size_col_children)

declare preorder.simps [simp del]

lemma flatten_into_children:
  "flatten_into c p fl =
     fold (\<lambda>f. flatten_into f (Some (length fl))) (col_children c)
       (fl @ [\<lparr>fc_column = c, fc_parent_index = p\<rparr>])"
  by (subst flatten_into.simps) (simp add: Let_def col_children_def split: data_type.splits)

definition parents_ok :: "flattened_column list \<Rightarrow> bool" where
  "parents_ok fl \<longleftrightarrow>
     (\<forall>i < length fl. \<forall>q. fc_parent_index (fl ! i) = Some q \<longrightarrow>
        q < i \<and> fc_column (fl ! i) \<in> set (col_children (fc_column (fl ! q))))"

lemma parents_ok_snoc:
  assumes "parents_ok fl"
    and "\<And>q. fc_parent_index e = Some q \<Longrightarrow>
           q < length fl \<and> fc_column e \<in> set (col_children (fc_column (fl ! q)))"
  shows "parents_ok (fl @ [e])"
  using assms by (fastforce simp: parents_ok_def nth_append less_Suc_eq)

lemma flatten_into_spec:
  assumes "parents_ok fl"
    and "\<And>q. p = Some q \<Longrightarrow> q < length fl \<and> c \<in> set (col_children (fc_column (fl ! q)))"
  shows "\<exists>ext. flatten_into c p fl = fl @ \<lparr>fc_column = c, fc_parent_index = p\<rparr> # ext
     \<and> c # map fc_column ext = preorder c
     \<and> parents_ok (flatten_into c p fl) \<and> (\<forall>e\<in>set ext. fc_parent_index e \<noteq> None)"
  using assms
proof (induction c arbitrary: p fl rule: measure_induct_rule [of size])
  case (less c)
  let ?e = "\<lparr>fc_column = c, fc_parent_index = p\<rparr>"
  have start: "parents_ok (fl @ [?e])"
    using less.prems by (intro parents_ok_snoc) auto
  have "\<exists>ext. fold (\<lambda>f. flatten_into f (Some (length fl))) fs acc = acc @ ext
       \<and> map fc_column ext = concat (map preorder fs)
       \<and> parents_ok (acc @ ext) \<and> (\<forall>e\<in>set ext. fc_parent_index e \<noteq> None)"
    if "set fs \<subseteq> set (col_children c)" "parents_ok acc" "\<exists>r. acc = fl @ ?e # r" for fs acc
    using that
  proof (induction fs arbitrary: acc)
    case (Cons f fs)
    from Cons.prems(3) obtain r where acc: "acc = fl @ ?e # r" by blast
    have "size f < size c" using Cons.prems by (simp add: size_col_children)
    moreover have "length fl < length acc \<and> f \<in> set (col_children (fc_column (acc ! length fl)))"
      using Cons.prems acc by simp
    ultimately obtain ext where ext:
      "flatten_into f (Some (length fl)) acc = acc @ \<lparr>fc_column = f, fc_parent_index = Some (length fl)\<rparr> # ext"
      "f # map fc_column ext = preorder f"
      "parents_ok (flatten_into f (Some (length fl)) acc)" "\<forall>e\<in>set ext. fc_parent_index e \<noteq> None"
      using less.IH [of f acc "Some (length fl)"] Cons.prems(2) by blast
    let ?acc' = "acc @ \<lparr>fc_column = f, fc_parent_index = Some (length fl)\<rparr> # ext"
    have "\<exists>ext'. fold (\<lambda>f. flatten_into f (Some (length fl))) fs ?acc' = ?acc' @ ext'
       \<and> map fc_column ext' = concat (map preorder fs)
       \<and> parents_ok (?acc' @ ext') \<and> (\<forall>e\<in>set ext'. fc_parent_index e \<noteq> None)"
      using Cons.prems(1) ext acc by (intro Cons.IH) auto
    with ext show ?case by (auto simp flip: ext(2))
  qed simp
  from this [of "col_children c" "fl @ [?e]"] start obtain ext where
    "fold (\<lambda>f. flatten_into f (Some (length fl))) (col_children c) (fl @ [?e]) = (fl @ [?e]) @ ext"
    "map fc_column ext = concat (map preorder (col_children c))"
    "parents_ok ((fl @ [?e]) @ ext)" "\<forall>e\<in>set ext. fc_parent_index e \<noteq> None"
    by blast
  then show ?case
    by (intro exI [of _ ext]) (simp add: flatten_into_children preorder.simps [of c])
qed

lemma flatten_spec:
  "\<exists>ext. flatten c = \<lparr>fc_column = c, fc_parent_index = None\<rparr> # ext
     \<and> map fc_column (flatten c) = preorder c
     \<and> parents_ok (flatten c) \<and> (\<forall>e\<in>set ext. fc_parent_index e \<noteq> None)"
  using flatten_into_spec [of "[]" None c] by (auto simp: flatten_def parents_ok_def)

section \<open>Schemas (\<open>schema/mod.rs\<close>)\<close>

type_synonym schema = "(string, column) imap"

function walk :: "column \<Rightarrow> (i64, column) imap \<Rightarrow> (i64, column) imap" where
  "walk c m =
     (let m1 = (case col_field_id c of None \<Rightarrow> m | Some id' \<Rightarrow> im_insert id' c m) in
      case col_dtype c of
        DList inner \<Rightarrow> walk inner m1
      | DStruct fs \<Rightarrow> fold (\<lambda>f acc. walk f acc) fs m1
      | DMap k v \<Rightarrow> walk v (walk k m1)
      | _ \<Rightarrow> m1)"
  by pat_completeness auto
termination
  by (relation "measure (\<lambda>(c, m). size c)") (auto dest: size_children)

declare walk.simps [simp del]

definition columns_by_id :: "schema \<Rightarrow> (i64, column) imap" where
  "columns_by_id sch = fold walk (im_values sch) []"

fun schema_try_from_loop :: "column list \<Rightarrow> schema \<Rightarrow> schema result" where
  "schema_try_from_loop [] acc = Ok acc"
| "schema_try_from_loop (c # cs) acc =
     (if im_contains (col_name c) acc then Err (DuplicateColumnName (col_name c))
      else schema_try_from_loop cs (im_insert (col_name c) c acc))"

definition schema_try_from :: "column list \<Rightarrow> schema result" where
  "schema_try_from cs = schema_try_from_loop cs []"

lemma schema_try_from_loop_Ok:
  "distinct (map col_name cs) \<Longrightarrow> col_name ` set cs \<inter> fst ` set acc = {} \<Longrightarrow>
     schema_try_from_loop cs acc = Ok (acc @ map (\<lambda>c. (col_name c, c)) cs)"
proof (induction cs arbitrary: acc)
  case (Cons c cs)
  then have "im_insert (col_name c) c acc = acc @ [(col_name c, c)]"
    by (intro im_insert_new) auto
  with Cons show ?case by auto
qed simp

lemma schema_try_from_loop_Err:
  assumes "distinct (map col_name cs)" "col_name ` set cs \<inter> fst ` set acc = {}"
    and "col_name c \<in> col_name ` set cs \<union> fst ` set acc"
  shows "schema_try_from_loop (cs @ c # rest) acc = Err (DuplicateColumnName (col_name c))"
  using assms
proof (induction cs arbitrary: acc)
  case (Cons d cs)
  have "schema_try_from_loop (cs @ c # rest) (im_insert (col_name d) d acc) =
      Err (DuplicateColumnName (col_name c))"
    using Cons.prems by (intro Cons.IH) auto
  with Cons.prems show ?case by auto
qed auto

text \<open>\<open>walk\<close> inserts the columns of the preorder one after the other.\<close>

definition insert_by_id :: "column \<Rightarrow> (i64, column) imap \<Rightarrow> (i64, column) imap" where
  "insert_by_id c m = (case col_field_id c of None \<Rightarrow> m | Some id' \<Rightarrow> im_insert id' c m)"

lemma walk_children: "walk c m = fold walk (col_children c) (insert_by_id c m)"
  by (subst walk.simps) (simp add: Let_def col_children_def insert_by_id_def split: data_type.splits)

lemma walk_preorder: "walk c m = fold insert_by_id (preorder c) m"
proof (induction c arbitrary: m rule: measure_induct_rule [of size])
  case (less c)
  have "fold walk fs m = fold insert_by_id (concat (map preorder fs)) m"
    if "set fs \<subseteq> set (col_children c)" for fs m
    using that by (induction fs arbitrary: m) (auto simp: less.IH size_col_children)
  then show ?case by (simp add: walk_children [of c] preorder.simps [of c])
qed

lemma fold_walk_preorder: "fold walk cs m = fold insert_by_id (concat (map preorder cs)) m"
  by (induction cs arbitrary: m) (auto simp: walk_preorder)

lemma fold_insert_by_id_get:
  assumes "distinct (map col_field_id (filter (\<lambda>c. col_field_id c \<noteq> None) cs))"
  shows "im_get (fold insert_by_id cs m) i =
     (case find (\<lambda>c. col_field_id c = Some i) cs of Some c \<Rightarrow> Some c | None \<Rightarrow> im_get m i)"
  using assms
proof (induction cs arbitrary: m)
  case (Cons c cs)
  show ?case
  proof (cases "col_field_id c = Some i")
    case True
    with Cons.prems have "find (\<lambda>c. col_field_id c = Some i) cs = None"
      by (auto simp: find_None_iff image_iff)
    with Cons True show ?thesis by (simp add: insert_by_id_def)
  next
    case False
    with Cons show ?thesis by (auto simp: insert_by_id_def split: option.splits)
  qed
qed simp

section \<open>Partition transforms, sort orders, macro types\<close>

definition RE_BUCKET :: regex where
  "RE_BUCKET = Cat (Lit ''bucket('') (Cat (Grp 1 (Plus (Cls is_digit))) (Chr (CHR '')'')))"

definition parse_partition_transform :: "string \<Rightarrow> partition_transform result" where
  "parse_partition_transform s =
     (if s = ''identity'' then Ok Identity
      else if s = ''year'' then Ok Year
      else if s = ''month'' then Ok Month
      else if s = ''day'' then Ok Day
      else if s = ''hour'' then Ok Hour
      else (case full_captures RE_BUCKET s of
              Some caps \<Rightarrow>
                and_then (map_err (\<lambda>_. InvalidPartitionTransform s) (parse_uint 32 (cap caps 1)))
                  (\<lambda>n. Ok (Bucket n))
            | None \<Rightarrow> Err (InvalidPartitionTransform s)))"

fun partition_transform_to_string :: "partition_transform \<Rightarrow> string" where
  "partition_transform_to_string Identity = ''identity''"
| "partition_transform_to_string (Bucket n) = ''bucket('' @ show_int n @ '')''"
| "partition_transform_to_string Year = ''year''"
| "partition_transform_to_string Month = ''month''"
| "partition_transform_to_string Day = ''day''"
| "partition_transform_to_string Hour = ''hour''"

fun partition_transform_ok :: "partition_transform \<Rightarrow> bool" where
  "partition_transform_ok (Bucket n) = (0 \<le> n \<and> n < 2 ^ 32)"
| "partition_transform_ok _ = True"

definition parse_sort_direction :: "string \<Rightarrow> sort_direction result" where
  "parse_sort_direction s =
     (if s = ''ASC'' then Ok Ascending else if s = ''DESC'' then Ok Descending
      else Err (InvalidSortDirection s))"

fun sort_direction_to_string :: "sort_direction \<Rightarrow> string" where
  "sort_direction_to_string Ascending = ''ASC''"
| "sort_direction_to_string Descending = ''DESC''"

definition parse_null_order :: "string \<Rightarrow> null_order result" where
  "parse_null_order s =
     (if s = ''NULLS_FIRST'' then Ok NullsFirst else if s = ''NULLS_LAST'' then Ok NullsLast
      else Err (InvalidNullOrder s))"

fun null_order_to_string :: "null_order \<Rightarrow> string" where
  "null_order_to_string NullsFirst = ''NULLS_FIRST''"
| "null_order_to_string NullsLast = ''NULLS_LAST''"

definition parse_macro_type :: "string \<Rightarrow> macro_type result" where
  "parse_macro_type s =
     (if s = ''scalar'' then Ok Scalar else if s = ''table'' then Ok Table
      else Err (InvalidMacro (''unknown macro type '' @ sq s)))"

fun macro_type_to_string :: "macro_type \<Rightarrow> string" where
  "macro_type_to_string Scalar = ''scalar''"
| "macro_type_to_string Table = ''table''"

definition sort_column :: "string \<Rightarrow> sort_expression" where
  "sort_column n = \<lparr>se_expression = n, se_dialect = ''duckdb'', se_direction = Ascending,
     se_null_order = NullsLast\<rparr>"

definition macro_parameter_new :: "string \<Rightarrow> macro_parameter" where
  "macro_parameter_new n = \<lparr>mp_name = n, mp_data_type = ''unknown'', mp_default_value = None,
     mp_default_value_type = ''unknown''\<rparr>"

definition macro_parameter_with_type :: "string \<Rightarrow> macro_parameter \<Rightarrow> macro_parameter" where
  "macro_parameter_with_type t m = m\<lparr>mp_data_type := t\<rparr>"

definition macro_parameter_with_default :: "string \<Rightarrow> string \<Rightarrow> macro_parameter \<Rightarrow> macro_parameter" where
  "macro_parameter_with_default v t m = m\<lparr>mp_default_value := Some v, mp_default_value_type := t\<rparr>"

definition macro_implementation_new :: "string \<Rightarrow> macro_parameter list \<Rightarrow> macro_implementation" where
  "macro_implementation_new sql ps = \<lparr>mi_dialect = ''duckdb'', mi_sql = sql, mi_parameters = ps\<rparr>"

lemma full_captures_bucket: "full_captures RE_BUCKET (''bucket('' @ show_nat n @ '')'') = Some [(1, show_nat n)]"
proof -
  have "\<not> is_digit (CHR '')'')" by (simp add: is_digit_def cls_range_def)
  then have "rfirst (Grp 1 (Plus (Cls is_digit))) (show_nat n @ [CHR '')'']) [CHR '')''] [(1, show_nat n)]"
    by (intro rfirst_Grp rfirst_Plus_Cls) (use is_digit_show_nat in auto)
  from rfirst_Cat [OF rfirst_Lit [of "''bucket(''"] rfirst_Cat [OF this rfirst_Cls, of "\<lambda>x. x = CHR '')''"]]
  have "rfirst RE_BUCKET (''bucket('' @ show_nat n @ '')'') [] [(1, show_nat n)]"
    by (simp add: RE_BUCKET_def)
  then show ?thesis by (rule full_captures_first)
qed

lemma parse_bucket:
  assumes "0 \<le> n" "n < 2 ^ 32"
  shows "parse_partition_transform (partition_transform_to_string (Bucket n)) = Ok (Bucket n)"
proof -
  let ?t = "''bucket('' @ show_nat (nat n) @ '')''"
  have "parse_uint 32 (show_nat (nat n)) = Ok n"
    using assms by (simp add: parse_uint_show)
  then have "parse_partition_transform ?t = Ok (Bucket n)"
    unfolding parse_partition_transform_def full_captures_bucket by (simp add: cap_def)
  with assms show ?thesis by (simp add: show_int_nonneg)
qed

lemma parse_partition_transform_to_string:
  "partition_transform_ok t \<Longrightarrow> parse_partition_transform (partition_transform_to_string t) = Ok t"
proof (cases t)
  case (Bucket n)
  then show "partition_transform_ok t \<Longrightarrow> ?thesis" using parse_bucket by simp
qed (simp_all add: parse_partition_transform_def)

interpretation partition_codec: codec partition_transform_to_string parse_partition_transform partition_transform_ok
  by unfold_locales (rule parse_partition_transform_to_string)

interpretation sort_direction_codec: codec_total sort_direction_to_string parse_sort_direction
  by unfold_locales (case_tac x; simp add: parse_sort_direction_def)

interpretation null_order_codec: codec_total null_order_to_string parse_null_order
  by unfold_locales (case_tac x; simp add: parse_null_order_def)

interpretation macro_type_codec: codec_total macro_type_to_string parse_macro_type
  by unfold_locales (case_tac x; simp add: parse_macro_type_def)

text \<open>
  A type is only promoted to one that holds all of its values, and promotions compose without ever
  leading back.
\<close>

lemma promotion_widens:
  assumes "can_promote_to s t"
  shows "case int_range s of None \<Rightarrow> s = DFloat32 \<and> t = DFloat64
      | Some (lo, hi) \<Rightarrow> \<exists>lo' hi'. int_range t = Some (lo', hi') \<and> lo' \<le> lo \<and> hi \<le> hi'"
    and "can_promote_to t u \<Longrightarrow> can_promote_to s u" and "\<not> can_promote_to t s"
proof -
  show "case int_range s of None \<Rightarrow> s = DFloat32 \<and> t = DFloat64
      | Some (lo, hi) \<Rightarrow> \<exists>lo' hi'. int_range t = Some (lo', hi') \<and> lo' \<le> lo \<and> hi \<le> hi'"
    using assms by (rule promote_cases) simp_all
  show "can_promote_to t u \<Longrightarrow> can_promote_to s u" using assms by (rule promote_trans)
  show "\<not> can_promote_to t s" using promote_trans [OF assms] promote_irrefl by blast
qed

end
