(* ===== verification/Columns.thy ===== *)
theory Columns
  imports Datatypes
begin

text \<open>
  \<open>catalog/typedefs/columns.rs\<close>: the columns of a table in the catalog, an append-only arena
  of flat column entries with a lookup by ID and the ordered map of the root columns.
  Traversals of the arena recurse along child indices; a recursion depth of the arena's size
  is enough for every arena the operations build (\<open>columns_wf\<close>), and running out of it
  stands for the stack overflow of a cyclic arena.
\<close>

section \<open>State\<close>

datatype catalog_data_type =
    CPrimitive data_type
  | CList usize
  | CStruct "(string, usize) imap"
  | CMap usize usize

record catalog_column =
  cc_id :: i64
  cc_name :: string
  cc_dtype :: catalog_data_type
  cc_parent_column :: "usize option"
  cc_nullable :: bool
  cc_tags :: tags
  cc_initial_default :: "value option"
  cc_default_value :: column_default

record catalog_columns =
  cs_arena :: "catalog_column list"
  cs_by_id :: "(i64, usize) imap"
  cs_root_columns :: "(string, usize) imap"
  cs_next_column_id :: "i64 option"

text \<open>The indices the three nested variants recurse into, in the order of the source.\<close>

fun cdt_children :: "catalog_data_type \<Rightarrow> usize list" where
  "cdt_children (CPrimitive t) = []"
| "cdt_children (CList i) = [i]"
| "cdt_children (CStruct fs) = im_values fs"
| "cdt_children (CMap k v) = [k, v]"

section \<open>Lookups\<close>

fun aggregate_column_indices :: "nat \<Rightarrow> catalog_columns \<Rightarrow> usize \<Rightarrow> usize list \<Rightarrow> usize list result" where
  "aggregate_column_indices 0 cs idx result = Panic ''stack overflow''"
| "aggregate_column_indices (Suc n) cs idx result =
     and_then (idx_get (cs_arena cs) idx) (\<lambda>col.
       fold_res (aggregate_column_indices n cs) (cdt_children (cc_dtype col)) (result @ [idx]))"

abbreviation arena_fuel :: "catalog_columns \<Rightarrow> nat" where
  "arena_fuel cs \<equiv> Suc (length (cs_arena cs))"

definition root_column_indices :: "catalog_columns \<Rightarrow> usize list list result" where
  "root_column_indices cs =
     collect (\<lambda>idx. aggregate_column_indices (arena_fuel cs) cs idx []) (im_values (cs_root_columns cs))"

fun arena_idx_by_path_loop :: "catalog_columns \<Rightarrow> string list \<Rightarrow> string list \<Rightarrow> usize \<Rightarrow> usize result" where
  "arena_idx_by_path_loop cs path [] idx = Ok idx"
| "arena_idx_by_path_loop cs path (part # parts) idx =
     and_then (idx_get (cs_arena cs) idx) (\<lambda>col.
       let next = arena_idx_by_path_loop cs path parts in
       case cc_dtype col of
         CStruct fs \<Rightarrow> and_then (ok_or (column_path_not_found path) (im_get fs part)) next
       | CList i \<Rightarrow> if part = ''element'' then next i else Err (column_path_not_found path)
       | CMap k v \<Rightarrow> if part = ''key'' then next k else if part = ''value'' then next v
                    else Err (column_path_not_found path)
       | CPrimitive t \<Rightarrow> Err (column_path_not_found path))"

definition arena_idx_by_path :: "catalog_columns \<Rightarrow> string list \<Rightarrow> usize result" where
  "arena_idx_by_path cs path =
     (case path of
        [] \<Rightarrow> Panic ''index out of bounds''
      | root # parts \<Rightarrow>
          and_then (ok_or (column_path_not_found path) (im_get (cs_root_columns cs) root))
            (arena_idx_by_path_loop cs path parts))"

section \<open>Changes\<close>

definition ensure_column_unique_at_parent :: "catalog_columns \<Rightarrow> usize option \<Rightarrow> string \<Rightarrow> unit result" where
  "ensure_column_unique_at_parent cs parent name =
     and_then
       (case parent of
          None \<Rightarrow> Ok (im_contains name (cs_root_columns cs))
        | Some idx \<Rightarrow> and_then (idx_get (cs_arena cs) idx) (\<lambda>p.
            case cc_dtype p of
              CStruct fs \<Rightarrow> Ok (im_contains name fs)
            | _ \<Rightarrow> Panic ''internal error: entered unreachable code''))
       (\<lambda>exists. if exists then Err (column_already_exists name) else Ok ())"

text \<open>Writing one entry of the arena.\<close>

definition arena_update :: "usize \<Rightarrow> (catalog_column \<Rightarrow> catalog_column) \<Rightarrow> catalog_columns \<Rightarrow> catalog_columns" where
  "arena_update idx f cs = cs\<lparr>cs_arena := (cs_arena cs)[idx := f (cs_arena cs ! idx)]\<rparr>"

definition rename_column :: "usize \<Rightarrow> string \<Rightarrow> (catalog_columns, ducklake_error, usize) op" where
  "rename_column idx new_name cs =
     (case idx_get (cs_arena cs) idx of
        Ok col \<Rightarrow>
          (case ensure_column_unique_at_parent cs (cc_parent_column col) new_name of
             Ok _ \<Rightarrow>
               (let old_name = cc_name col;
                    finish = arena_update idx (\<lambda>c. c\<lparr>cc_name := new_name\<rparr>) in
                case cc_parent_column col of
                  None \<Rightarrow>
                    (if im_contains old_name (cs_root_columns cs)
                     then (finish (cs\<lparr>cs_root_columns := im_rename old_name new_name idx (cs_root_columns cs)\<rparr>), Ok idx)
                     else (cs, Panic ''unwrap on None''))
                | Some parent \<Rightarrow>
                    (case cc_dtype (cs_arena cs ! parent) of
                       CStruct fs \<Rightarrow>
                         (if im_contains old_name fs
                          then (finish (arena_update parent
                                  (\<lambda>p. p\<lparr>cc_dtype := CStruct (im_rename old_name new_name idx fs)\<rparr>) cs), Ok idx)
                          else (cs, Panic ''unwrap on None''))
                     | _ \<Rightarrow> (cs, Panic ''internal error: entered unreachable code'')))
           | Err e \<Rightarrow> (cs, Err e)
           | Panic m \<Rightarrow> (cs, Panic m))
      | Err e \<Rightarrow> (cs, Err e)
      | Panic m \<Rightarrow> (cs, Panic m))"

text \<open>The loop state is the columns together with the deletions collected so far.\<close>

fun mark_column_deleted ::
  "nat \<Rightarrow> usize \<Rightarrow> catalog_columns \<times> usize list \<Rightarrow> (catalog_columns \<times> usize list) result"
where
  "mark_column_deleted 0 idx st = Panic ''stack overflow''"
| "mark_column_deleted (Suc n) idx st =
     and_then (idx_get (cs_arena (fst st)) idx) (\<lambda>col.
       fold_res (mark_column_deleted n) (cdt_children (cc_dtype col))
         ((fst st)\<lparr>cs_by_id := im_remove (cc_id col) (cs_by_id (fst st))\<rparr>, snd st @ [idx]))"

definition remove_column :: "usize \<Rightarrow> (catalog_columns, ducklake_error, usize list) op" where
  "remove_column idx cs =
     (case mark_column_deleted (arena_fuel cs) idx (cs, []) of
        Ok (cs', deletions) \<Rightarrow> (cs', Ok deletions)
      | Err e \<Rightarrow> (cs, Err e)
      | Panic m \<Rightarrow> (cs, Panic m))"

section \<open>Adding columns\<close>

definition next_column_id :: "(catalog_columns, ducklake_error, i64) op" where
  "next_column_id cs =
     (case cs_next_column_id cs of
        None \<Rightarrow> (cs, Panic ''unwrap on None'')
      | Some i \<Rightarrow> (cs\<lparr>cs_next_column_id := Some (i64_add i 1)\<rparr>, Ok i))"

definition push_column :: "catalog_column \<Rightarrow> catalog_columns \<Rightarrow> catalog_columns \<times> usize" where
  "push_column col cs =
     (let idx = length (cs_arena cs) in
      (cs\<lparr>cs_by_id := im_insert (cc_id col) idx (cs_by_id cs), cs_arena := cs_arena cs @ [col]\<rparr>, idx))"

text \<open>\<open>children_by_parent\<close>: the arena indices of the children of each flattened column.\<close>

definition children_by_parent :: "usize \<Rightarrow> flattened_column list \<Rightarrow> (usize, usize list) imap" where
  "children_by_parent first_idx fl =
     fold (\<lambda>(i, col) m.
        case fc_parent_index col of
          None \<Rightarrow> m
        | Some p \<Rightarrow> im_insert p ((case im_get m p of None \<Rightarrow> [] | Some xs \<Rightarrow> xs) @ [first_idx + i]) m)
       (enumerate 0 fl) []"

definition flat_dtype :: "(usize, usize list) imap \<Rightarrow> usize \<Rightarrow> data_type \<Rightarrow> catalog_data_type result" where
  "flat_dtype ch idx t =
     (case t of
        DList _ \<Rightarrow> and_then (expect ''no entry found for key'' (im_get ch idx)) (\<lambda>xs.
          and_then (idx_get xs 0) (\<lambda>i. Ok (CList i)))
      | DStruct columns \<Rightarrow> and_then (expect ''no entry found for key'' (im_get ch idx)) (\<lambda>xs.
          Ok (CStruct (fold (\<lambda>(f, i). im_insert (col_name f) i) (zip columns xs) [])))
      | DMap _ _ \<Rightarrow> and_then (expect ''no entry found for key'' (im_get ch idx)) (\<lambda>xs.
          and_then (idx_get xs 0) (\<lambda>k. and_then (idx_get xs 1) (\<lambda>v. Ok (CMap k v))))
      | _ \<Rightarrow> Ok (CPrimitive t))"

definition add_flat_column ::
  "usize \<Rightarrow> (usize, usize list) imap \<Rightarrow> usize option \<Rightarrow> bool \<Rightarrow> usize \<Rightarrow> flattened_column
    \<Rightarrow> (catalog_columns, ducklake_error, usize) op"
where
  "add_flat_column first_idx ch parent preserve_column_ids idx flat =
     (let col = fc_column flat;
          parent_column = (case fc_parent_index flat of Some i \<Rightarrow> Some (first_idx + i) | None \<Rightarrow> parent) in
      seq (lift_res (flat_dtype ch idx (col_dtype col))) (\<lambda>dtype.
      seq (if preserve_column_ids
           then lift_res (expect ''transferred columns must have field IDs'' (col_field_id col))
           else next_column_id) (\<lambda>id' cs.
        let (cs', i) = push_column
              \<lparr>cc_id = id', cc_name = col_name col, cc_dtype = dtype, cc_parent_column = parent_column,
               cc_nullable = col_nullable col, cc_tags = col_tags col,
               cc_initial_default = col_initial_default col, cc_default_value = col_default col\<rparr> cs
        in (cs', Ok i))))"

fun add_flat_columns ::
  "usize \<Rightarrow> (usize, usize list) imap \<Rightarrow> usize option \<Rightarrow> bool \<Rightarrow> (usize \<times> flattened_column) list
    \<Rightarrow> (catalog_columns, ducklake_error, usize list) op"
where
  "add_flat_columns first_idx ch parent pres [] = ret []"
| "add_flat_columns first_idx ch parent pres ((idx, flat) # rest) =
     seq (add_flat_column first_idx ch parent pres idx flat) (\<lambda>i.
     seq (add_flat_columns first_idx ch parent pres rest) (\<lambda>is. ret (i # is)))"

definition add_column_to_arena ::
  "column \<Rightarrow> usize option \<Rightarrow> bool \<Rightarrow> (catalog_columns, ducklake_error, usize list) op"
where
  "add_column_to_arena col parent preserve_column_ids cs =
     (let first_idx = length (cs_arena cs); fl = flatten col in
      add_flat_columns first_idx (children_by_parent first_idx fl) parent preserve_column_ids
        (enumerate 0 fl) cs)"

definition add_column :: "usize option \<Rightarrow> column \<Rightarrow> (catalog_columns, ducklake_error, usize list) op" where
  "add_column parent_idx col =
     seq (\<lambda>cs. (cs, ensure_column_unique_at_parent cs parent_idx (col_name col))) (\<lambda>_.
     seq (add_column_to_arena col parent_idx False) (\<lambda>arena_idxs.
     seq (lift_res (idx_get arena_idxs 0)) (\<lambda>first cs.
       case parent_idx of
         Some pidx \<Rightarrow>
           (case cc_dtype (cs_arena cs ! pidx) of
              CStruct fs \<Rightarrow>
                (arena_update pidx (\<lambda>p. p\<lparr>cc_dtype := CStruct (im_insert (col_name col) first fs)\<rparr>) cs, Ok arena_idxs)
            | _ \<Rightarrow> (cs, Panic ''parent column is not a struct''))
       | None \<Rightarrow>
           (cs\<lparr>cs_root_columns := im_insert (col_name col) first (cs_root_columns cs)\<rparr>, Ok arena_idxs))))"

section \<open>Transformation from and to schemas\<close>

definition columns_new :: "i64 option \<Rightarrow> catalog_columns" where
  "columns_new next = \<lparr>cs_arena = [], cs_by_id = [], cs_root_columns = [], cs_next_column_id = next\<rparr>"

definition add_root_column :: "bool \<Rightarrow> column \<Rightarrow> (catalog_columns, ducklake_error, unit) op" where
  "add_root_column pres col =
     seq (add_column_to_arena col None pres) (\<lambda>idxs.
     seq (lift_res (idx_get idxs 0)) (\<lambda>first cs.
       (cs\<lparr>cs_root_columns := im_insert (col_name col) first (cs_root_columns cs)\<rparr>, Ok ())))"

definition columns_from_schema :: "schema \<Rightarrow> i64 option \<Rightarrow> catalog_columns result" where
  "columns_from_schema sch next_id =
     (case for_each (add_root_column (next_id \<noteq> None)) (im_values sch)
             (columns_new (Some (case next_id of None \<Rightarrow> 1 | Some i \<Rightarrow> i))) of
        (cs, Ok _) \<Rightarrow> Ok cs
      | (cs, Err e) \<Rightarrow> Err e
      | (cs, Panic m) \<Rightarrow> Panic m)"

definition schema_dtype_with :: "(usize \<Rightarrow> column result) \<Rightarrow> catalog_data_type \<Rightarrow> data_type result" where
  "schema_dtype_with f t =
     (case t of
        CPrimitive p \<Rightarrow> Ok p
      | CList i \<Rightarrow> and_then (f i) (\<lambda>c. Ok (DList c))
      | CStruct fs \<Rightarrow> and_then (collect f (im_values fs)) (\<lambda>cols. Ok (DStruct cols))
      | CMap k v \<Rightarrow> and_then (f k) (\<lambda>kc. and_then (f v) (\<lambda>vc. Ok (DMap kc vc))))"

fun schema_column_from_arena_index :: "nat \<Rightarrow> catalog_columns \<Rightarrow> usize \<Rightarrow> column result" where
  "schema_column_from_arena_index 0 cs idx = Panic ''stack overflow''"
| "schema_column_from_arena_index (Suc n) cs idx =
     and_then (idx_get (cs_arena cs) idx) (\<lambda>col.
     and_then (schema_dtype_with (schema_column_from_arena_index n cs) (cc_dtype col)) (\<lambda>t.
       Ok (Column (cc_name col) t (cc_nullable col) (cc_tags col) (cc_initial_default col)
            (cc_default_value col) (Some (cc_id col)))))"

definition schema_from_columns :: "catalog_columns \<Rightarrow> schema result" where
  "schema_from_columns cs =
     and_then (collect (\<lambda>idx. and_then (idx_get (cs_arena cs) idx) (\<lambda>col.
                 if im_contains (cc_id col) (cs_by_id cs)
                 then and_then (schema_column_from_arena_index (arena_fuel cs) cs idx) (\<lambda>c. Ok [c])
                 else Ok []))
               (im_values (cs_root_columns cs)))
       (\<lambda>colss. case schema_try_from (concat colss) of
                  Ok sch \<Rightarrow> Ok sch
                | _ \<Rightarrow> Panic ''unexpectedly found duplicate column names in catalog'')"

fun collect_existing_dtypes ::
  "nat \<Rightarrow> catalog_columns \<Rightarrow> usize \<Rightarrow> (i64, data_type) imap \<Rightarrow> (i64, data_type) imap result"
where
  "collect_existing_dtypes 0 cs idx result = Panic ''stack overflow''"
| "collect_existing_dtypes (Suc n) cs idx result =
     and_then (idx_get (cs_arena cs) idx) (\<lambda>col.
     and_then (schema_dtype_with (schema_column_from_arena_index n cs) (cc_dtype col)) (\<lambda>t.
       fold_res (collect_existing_dtypes n cs) (cdt_children (cc_dtype col))
         (im_insert (cc_id col) t result)))"

definition column_data_types :: "catalog_columns \<Rightarrow> (i64, data_type) imap result" where
  "column_data_types cs =
     fold_res (collect_existing_dtypes (arena_fuel cs) cs) (im_values (cs_root_columns cs)) []"

end
