(* ===== verification/Column_Layout.thy ===== *)
theory Column_Layout
  imports Columns
begin

text \<open>
  How a nested column is laid out in the arena: its flattened entries are consecutive, in
  preorder, and the entry of every nested type points at its children. This carries the
  refinement result that the catalog representation of a schema gives the schema back, with
  field IDs in preorder.
\<close>

section \<open>Forests in preorder\<close>

lemma size_list_children: "size_list size (col_children c) \<le> size c"
  by (cases c) (auto simp: col_children_def split: data_type.splits)

abbreviation nodes :: "column list \<Rightarrow> column list" where
  "nodes cs \<equiv> concat (map preorder cs)"

lemma length_preorder: "length (preorder c) = Suc (length (nodes (col_children c)))"
  by (simp add: preorder.simps [of c])

lemma nodes_Cons: "nodes (c # cs) = c # nodes (col_children c) @ nodes cs"
  by (simp add: preorder.simps [of c])

text \<open>The flattened entries of a forest placed at offset \<open>n\<close> under parent \<open>p\<close>.\<close>

function flat_list :: "column list \<Rightarrow> usize option \<Rightarrow> usize \<Rightarrow> flattened_column list" where
  "flat_list [] p n = []"
| "flat_list (c # cs) p n =
     \<lparr>fc_column = c, fc_parent_index = p\<rparr> # flat_list (col_children c) (Some n) (Suc n)
       @ flat_list cs p (n + length (preorder c))"
  by pat_completeness auto
termination
  by (relation "measure (\<lambda>(cs, p, n). size_list size cs)")
     (auto intro: le_less_trans [OF size_list_children])

lemma map_flat_list: "map fc_column (flat_list cs p n) = nodes cs"
proof (induction cs p n rule: flat_list.induct)
  case (2 c cs p n)
  then show ?case by (simp add: preorder.simps [of c])
qed simp

lemma length_flat_list: "length (flat_list cs p n) = length (nodes cs)"
  using map_flat_list [of cs p n] by (metis length_map)

lemma fold_flatten_into: "fold (\<lambda>f. flatten_into f p) cs fl = fl @ flat_list cs p (length fl)"
proof (induction cs p "length fl" arbitrary: fl rule: flat_list.induct)
  case (2 c cs p)
  have 1: "flatten_into c p fl = fl @ \<lparr>fc_column = c, fc_parent_index = p\<rparr> # flat_list (col_children c) (Some (length fl)) (Suc (length fl))"
    using 2(1) [of "fl @ [\<lparr>fc_column = c, fc_parent_index = p\<rparr>]"]
    by (simp add: flatten_into_children)
  show ?case
    using 2(2) [of "flatten_into c p fl"]
    by (simp add: 1 length_flat_list length_preorder)
qed simp

lemma flatten_flat_list: "flatten c = flat_list [c] None 0"
  using fold_flatten_into [of None "[c]" "[]"] by (simp add: flatten_def)

section \<open>Children by parent\<close>

fun child_offsets :: "column list \<Rightarrow> usize \<Rightarrow> usize list" where
  "child_offsets [] n = []"
| "child_offsets (c # cs) n = n # child_offsets cs (n + length (preorder c))"

definition kids :: "usize \<Rightarrow> flattened_column list \<Rightarrow> usize \<Rightarrow> usize list" where
  "kids n fl q = map fst (filter (\<lambda>(j, e). fc_parent_index e = Some q) (enumerate n fl))"

lemma kids_simps [simp]:
  "kids n [] q = []"
  "kids n (e # fl) q = (if fc_parent_index e = Some q then [n] else []) @ kids (Suc n) fl q"
  by (simp_all add: kids_def)

lemma kids_append: "kids n (xs @ ys) q = kids n xs q @ kids (n + length xs) ys q"
  by (simp add: kids_def enumerate_append_eq)

lemma kids_outside:
  assumes "q < n \<or> n + length (nodes cs) \<le> q" and "\<And>r. p = Some r \<Longrightarrow> r < n"
  shows "kids n (flat_list cs p n) q = (if p = Some q then child_offsets cs n else [])"
  using assms
proof (induction cs p n rule: flat_list.induct)
  case (2 c cs p n)
  have len: "length (nodes (c # cs)) = length (preorder c) + length (nodes cs)" by simp
  have "kids (Suc n) (flat_list (col_children c) (Some n) (Suc n)) q = []"
    using "2.IH"(1) "2.prems"(1) len length_preorder [of c] by auto
  moreover have "kids (n + length (preorder c)) (flat_list cs p (n + length (preorder c))) q =
      (if p = Some q then child_offsets cs (n + length (preorder c)) else [])"
    using 2(2) "2.prems" len by (intro "2.IH"(2)) (auto simp: trans_less_add1)
  ultimately show ?case
    by (simp add: kids_append length_flat_list length_preorder)
qed simp

lemma kids_inside:
  assumes "i < length (nodes cs)" and "\<And>r. p = Some r \<Longrightarrow> r < n"
  shows "kids n (flat_list cs p n) (n + i) = child_offsets (col_children (nodes cs ! i)) (Suc (n + i))"
  using assms
proof (induction cs p n arbitrary: i rule: flat_list.induct)
  case (2 c cs p n)
  let ?a = "length (nodes (col_children c))"
  have p: "p \<noteq> Some (n + i)" using "2.prems"(2) by fastforce
  have split: "kids n (flat_list (c # cs) p n) (n + i) =
      kids (Suc n) (flat_list (col_children c) (Some n) (Suc n)) (n + i)
      @ kids (Suc (n + ?a)) (flat_list cs p (Suc (n + ?a))) (n + i)"
    using p by (simp add: kids_append length_flat_list length_preorder)
  consider "i = 0" | i' where "i = Suc i'" "i' < ?a" | i' where "i = Suc (?a + i')" "i' < length (nodes cs)"
    using "2.prems"(1) by (cases i) (auto simp: length_preorder, metis add_diff_inverse_nat add_less_cancel_left not_less_eq)
  then show ?case
  proof cases
    case 1
    then show ?thesis
      using p "2.prems"(2) unfolding split nodes_Cons
      by (subst (1 2) kids_outside) auto
  next
    case (2 i')
    have "kids (Suc (n + ?a)) (flat_list cs p (Suc (n + ?a))) (n + i) = []"
      using p 2 "2.prems"(2) by (subst kids_outside) fastforce+
    moreover have "kids (Suc n) (flat_list (col_children c) (Some n) (Suc n)) (Suc n + i') =
        child_offsets (col_children (nodes (col_children c) ! i')) (Suc (Suc n + i'))"
      using 2 by (intro "2.IH"(1)) auto
    ultimately show ?thesis
      using 2 unfolding split nodes_Cons by (simp add: nth_append)
  next
    case (3 i')
    have "kids (Suc n) (flat_list (col_children c) (Some n) (Suc n)) (n + i) = []"
      using 3 by (subst kids_outside) auto
    moreover have "kids (n + length (preorder c)) (flat_list cs p (n + length (preorder c)))
        (n + length (preorder c) + i') =
        child_offsets (col_children (nodes cs ! i')) (Suc (n + length (preorder c) + i'))"
      using 3 "2.prems"(2) by (intro "2.IH"(2)) (auto simp: trans_less_add1)
    ultimately show ?thesis
      using 3 unfolding split nodes_Cons by (simp add: nth_append length_preorder add.assoc)
  qed
qed simp

lemma child_offsets_add: "map ((+) k) (child_offsets cs n) = child_offsets cs (k + n)"
  by (induction cs n rule: child_offsets.induct) (simp_all add: add.assoc)

lemma length_child_offsets [simp]: "length (child_offsets cs n) = length cs"
  by (induction cs n rule: child_offsets.induct) simp_all

lemma child_offsets_Nil_iff [simp]: "child_offsets cs n = [] \<longleftrightarrow> cs = []"
  by (cases cs) simp_all

lemma children_by_parent_get:
  "im_get (children_by_parent k fl) q =
     (if kids 0 fl q = [] then None else Some (map ((+) k) (kids 0 fl q)))"
proof (induction fl rule: rev_induct)
  case Nil
  then show ?case by (simp add: children_by_parent_def)
next
  case (snoc e fl)
  let ?m = "children_by_parent k fl"
  have "children_by_parent k (fl @ [e]) =
      (case fc_parent_index e of None \<Rightarrow> ?m
       | Some p \<Rightarrow> im_insert p ((case im_get ?m p of None \<Rightarrow> [] | Some xs \<Rightarrow> xs) @ [k + length fl]) ?m)"
    by (simp add: children_by_parent_def enumerate_append_eq split: option.split)
  then show ?case
    using snoc by (auto simp: kids_append split: option.splits)
qed

section \<open>The entries of the arena\<close>

text \<open>Columns the arena can represent: a struct has fields, with different names.\<close>

definition struct_ok :: "column \<Rightarrow> bool" where
  "struct_ok c = (case col_dtype c of DStruct fs \<Rightarrow> fs \<noteq> [] \<and> distinct (map col_name fs) | _ \<Rightarrow> True)"

definition entry_dtype :: "column \<Rightarrow> usize \<Rightarrow> catalog_data_type" where
  "entry_dtype c n =
     (let xs = child_offsets (col_children c) n in
      case col_dtype c of
        DList _ \<Rightarrow> CList (xs ! 0)
      | DStruct fs \<Rightarrow> CStruct (zip (map col_name fs) xs)
      | DMap _ _ \<Rightarrow> CMap (xs ! 0) (xs ! 1)
      | t \<Rightarrow> CPrimitive t)"

lemma fold_insert_zip:
  assumes "distinct ns" "length ns = length xs" "set ns \<inter> fst ` set m = {}"
  shows "fold (\<lambda>(n, i). im_insert n i) (zip ns xs) m = m @ zip ns xs"
  using assms
proof (induction ns xs arbitrary: m rule: list_induct2')
  case (4 n ns x xs)
  then have "im_insert n x m = m @ [(n, x)]" by (intro im_insert_new) auto
  with 4 show ?case by auto
qed auto

lemma flat_dtype_entry:
  assumes "struct_ok c" and "\<And>q. im_get ch q = (if xs q = [] then None else Some (xs q))"
    and "xs idx = child_offsets (col_children c) n"
  shows "flat_dtype ch idx (col_dtype c) = Ok (entry_dtype c n)"
proof (cases "col_dtype c")
  case (DStruct fs)
  let ?ys = "child_offsets fs n"
  have "fold (\<lambda>(f, i). im_insert (col_name f) i) (zip fs ?ys) [] =
      fold (\<lambda>(n, i). im_insert n i) (zip (map col_name fs) ?ys) []"
    by (simp add: zip_map1 fold_map comp_def case_prod_unfold)
  also have "\<dots> = zip (map col_name fs) ?ys"
    using DStruct assms(1) by (subst fold_insert_zip) (auto simp: struct_ok_def)
  finally show ?thesis
    using DStruct assms by (simp add: flat_dtype_def entry_dtype_def struct_ok_def col_children_def)
qed (use assms in \<open>simp_all add: flat_dtype_def entry_dtype_def col_children_def\<close>)

definition flat_entry ::
  "usize \<Rightarrow> usize option \<Rightarrow> i64 \<Rightarrow> usize \<Rightarrow> flattened_column \<Rightarrow> catalog_column"
where
  "flat_entry first_idx parent id' i e =
     (let col = fc_column e in
      \<lparr>cc_id = id', cc_name = col_name col, cc_dtype = entry_dtype col (Suc (first_idx + i)),
       cc_parent_column = (case fc_parent_index e of Some j \<Rightarrow> Some (first_idx + j) | None \<Rightarrow> parent),
       cc_nullable = col_nullable col, cc_tags = col_tags col,
       cc_initial_default = col_initial_default col, cc_default_value = col_default col\<rparr>)"

text \<open>Appending entries to the arena, registering their IDs.\<close>

definition push_all :: "catalog_column list \<Rightarrow> catalog_columns \<Rightarrow> catalog_columns" where
  "push_all es cs = cs\<lparr>cs_by_id := fold (\<lambda>(i, e). im_insert (cc_id e) i) (enumerate (length (cs_arena cs)) es) (cs_by_id cs),
     cs_arena := cs_arena cs @ es\<rparr>"

lemma push_all_Nil [simp]: "push_all [] cs = cs"
  by (simp add: push_all_def)

lemma push_all_Cons: "push_all (e # es) cs = push_all es (fst (push_column e cs))"
  by (simp add: push_all_def push_column_def Let_def)

lemma push_all_next: "push_all es (cs\<lparr>cs_next_column_id := n\<rparr>) = (push_all es cs)\<lparr>cs_next_column_id := n\<rparr>"
  by (simp add: push_all_def)

lemma push_all_sel [simp]:
  "cs_arena (push_all es cs) = cs_arena cs @ es"
  "cs_root_columns (push_all es cs) = cs_root_columns cs"
  "cs_next_column_id (push_all es cs) = cs_next_column_id cs"
  by (simp_all add: push_all_def)

definition next_after :: "bool \<Rightarrow> nat \<Rightarrow> catalog_columns \<Rightarrow> catalog_columns" where
  "next_after pres len cs =
     (if pres then cs else cs\<lparr>cs_next_column_id := map_option (\<lambda>n. n + int len) (cs_next_column_id cs)\<rparr>)"

text \<open>The IDs of the entries: those of the columns, or fresh ones.\<close>

definition ids_ok :: "bool \<Rightarrow> catalog_columns \<Rightarrow> column list \<Rightarrow> bool" where
  "ids_ok pres cs cols =
     (if pres then \<forall>c\<in>set cols. col_field_id c \<noteq> None
      else (case cs_next_column_id cs of None \<Rightarrow> False
            | Some n \<Rightarrow> i64_min \<le> n \<and> n + int (length cols) \<le> i64_max))"

definition entry_id :: "bool \<Rightarrow> catalog_columns \<Rightarrow> column list \<Rightarrow> nat \<Rightarrow> i64" where
  "entry_id pres cs cols i =
     (if pres then the (col_field_id (cols ! i)) else the (cs_next_column_id cs) + int i)"

lemma add_flat_column_spec:
  assumes "flat_dtype ch i (col_dtype (fc_column e)) = Ok (entry_dtype (fc_column e) (Suc (first_idx + i)))"
    and "ids_ok pres cs [fc_column e]"
  shows "add_flat_column first_idx ch parent pres i e cs =
     (next_after pres 1 (fst (push_column (flat_entry first_idx parent (entry_id pres cs [fc_column e] 0) i e) cs)),
      Ok (length (cs_arena cs)))"
proof (cases pres)
  case True
  then show ?thesis
    using assms by (auto simp: add_flat_column_def Let_def seq_def ids_ok_def push_column_def
        flat_entry_def next_after_def entry_id_def)
next
  case False
  then obtain n where n: "cs_next_column_id cs = Some n" "i64_min \<le> n" "n + 1 \<le> i64_max"
    using assms(2) by (auto simp: ids_ok_def split: option.splits)
  then have "i64_add n 1 = n + 1" by (intro i64_add_id) (simp add: in_i64_def)
  with False n assms show ?thesis
    by (simp add: add_flat_column_def Let_def seq_def next_column_id_def push_column_def
        flat_entry_def next_after_def entry_id_def)
qed

fun flat_entries :: "bool \<Rightarrow> usize \<Rightarrow> usize option \<Rightarrow> (usize \<times> flattened_column) list \<Rightarrow> catalog_columns \<Rightarrow> catalog_column list" where
  "flat_entries pres first_idx parent [] cs = []"
| "flat_entries pres first_idx parent ((i, e) # es) cs =
     flat_entry first_idx parent (entry_id pres cs [fc_column e] 0) i e
       # flat_entries pres first_idx parent es (next_after pres 1 cs)"

lemma flat_entries_next:
  "flat_entries pres k parent es (fst (push_column c cs)) = flat_entries pres k parent es cs"
  "next_after pres j (fst (push_column c cs)) = fst (push_column c (next_after pres j cs))"
proof -
  have eq: "flat_entries pres k parent es cs = flat_entries pres k parent es cs'"
    if "cs_next_column_id cs = cs_next_column_id cs'" for cs cs'
    using that
  proof (induction es arbitrary: cs cs')
    case (Cons p es)
    then have "flat_entries pres k parent es (next_after pres 1 cs) = flat_entries pres k parent es (next_after pres 1 cs')"
      by (intro Cons.IH) (simp add: next_after_def)
    with Cons.prems show ?case by (cases p) (simp add: entry_id_def)
  qed simp
  show "flat_entries pres k parent es (fst (push_column c cs)) = flat_entries pres k parent es cs"
    by (rule eq) (simp add: push_column_def Let_def)
  show "next_after pres j (fst (push_column c cs)) = fst (push_column c (next_after pres j cs))"
    by (simp add: next_after_def push_column_def Let_def)
qed

lemma add_flat_columns_spec:
  assumes "\<And>i e. (i, e) \<in> set es \<Longrightarrow>
      flat_dtype ch i (col_dtype (fc_column e)) = Ok (entry_dtype (fc_column e) (Suc (first_idx + i)))"
    and "ids_ok pres cs (map (\<lambda>p. fc_column (snd p)) es)"
  shows "add_flat_columns first_idx ch parent pres es cs =
     (next_after pres (length es) (push_all (flat_entries pres first_idx parent es cs) cs),
      Ok [length (cs_arena cs) ..< length (cs_arena cs) + length es])"
  using assms
proof (induction es arbitrary: cs)
  case Nil
  then show ?case by (simp add: next_after_def ids_ok_def split: option.splits if_splits)
next
  case (Cons p es)
  obtain i e where p: "p = (i, e)" by force
  let ?c = "flat_entry first_idx parent (entry_id pres cs [fc_column e] 0) i e"
  let ?cs = "next_after pres 1 (fst (push_column ?c cs))"
  have one: "ids_ok pres cs [fc_column e]"
    using Cons.prems(2) p by (auto simp: ids_ok_def split: if_splits option.splits)
  have "ids_ok pres ?cs (map (\<lambda>p. fc_column (snd p)) es)"
    using Cons.prems(2) p
    by (auto simp: ids_ok_def next_after_def push_column_def Let_def split: if_splits option.splits)
  then have IH: "add_flat_columns first_idx ch parent pres es ?cs =
      (next_after pres (length es) (push_all (flat_entries pres first_idx parent es ?cs) ?cs),
       Ok [length (cs_arena ?cs) ..< length (cs_arena ?cs) + length es])"
    using Cons.prems(1) by (intro Cons.IH) auto
  have step: "add_flat_column first_idx ch parent pres i e cs = (?cs, Ok (length (cs_arena cs)))"
    using Cons.prems(1) p one by (intro add_flat_column_spec) auto
  have len: "length (cs_arena ?cs) = Suc (length (cs_arena cs))"
    by (simp add: next_after_def push_column_def Let_def)
  have na: "next_after pres (length es) (push_all xs ?cs) =
      next_after pres (Suc (length es)) (push_all xs (fst (push_column ?c cs)))" for xs
    by (cases "cs_next_column_id cs")
       (simp_all add: next_after_def push_all_next push_column_def Let_def)
  have fe: "flat_entries pres first_idx parent es ?cs = flat_entries pres first_idx parent es (next_after pres 1 cs)"
    unfolding flat_entries_next(2) by (rule flat_entries_next(1))
  show ?case
    unfolding p add_flat_columns.simps seq_app [of "add_flat_column first_idx ch parent pres i e"] step
    by (simp add: seq_app IH na fe push_all_Cons len upt_conv_Cons del: One_nat_def upt_Suc)
qed

lemma length_flat_entries [simp]: "length (flat_entries pres k parent es cs) = length es"
  by (induction pres k parent es cs rule: flat_entries.induct) simp_all

lemma flat_entries_nth:
  assumes "i < length es" and "ids_ok pres cs (map fc_column es)"
  shows "flat_entries pres k parent (enumerate j es) cs ! i =
    flat_entry k parent (entry_id pres cs (map fc_column es) i) (j + i) (es ! i)"
  using assms
proof (induction es arbitrary: i j cs)
  case (Cons e es)
  show ?case
  proof (cases i)
    case 0
    then show ?thesis by (simp add: entry_id_def)
  next
    case (Suc i')
    have ids: "ids_ok pres (next_after pres 1 cs) (map fc_column es)"
      using Cons.prems(2) by (auto simp: ids_ok_def next_after_def split: if_splits option.splits)
    have "entry_id pres (next_after pres 1 cs) (map fc_column es) i' = entry_id pres cs (map fc_column (e # es)) i"
      using Cons.prems(2) Suc
      by (auto simp: entry_id_def next_after_def ids_ok_def split: if_splits option.splits)
    with Cons.IH [OF _ ids, of i' "Suc j"] Cons.prems(1) Suc show ?thesis by simp
  qed
qed simp

text \<open>The segment of the arena that holds column \<open>c\<close>.\<close>

definition col_entries :: "bool \<Rightarrow> usize option \<Rightarrow> column \<Rightarrow> catalog_columns \<Rightarrow> catalog_column list" where
  "col_entries pres parent c cs =
     flat_entries pres (length (cs_arena cs)) parent (enumerate 0 (flatten c)) cs"

lemma length_flatten: "length (flatten c) = length (preorder c)"
  using length_flat_list [of "[c]" None 0] by (simp add: flatten_flat_list del: flat_list.simps)

lemma length_col_entries [simp]: "length (col_entries pres parent c cs) = length (preorder c)"
  by (simp add: col_entries_def length_flatten)

lemma map_flatten: "map fc_column (flatten c) = preorder c"
  using map_flat_list [of "[c]" None 0] by (simp add: flatten_flat_list del: flat_list.simps)

lemma map_snd_enumerate': "map (\<lambda>p. f (snd p)) (enumerate n xs) = map f xs"
  by (induction xs arbitrary: n) simp_all

lemma flatten_nth_column: "i < length (preorder c) \<Longrightarrow> fc_column (flatten c ! i) = preorder c ! i"
  using map_flatten [of c] by (metis length_flatten nth_map)

theorem add_column_to_arena_spec:
  assumes "\<And>x. x \<in> set (preorder c) \<Longrightarrow> struct_ok x" and "ids_ok pres cs (preorder c)"
  shows "add_column_to_arena c parent pres cs =
     (next_after pres (length (preorder c)) (push_all (col_entries pres parent c cs) cs),
      Ok [length (cs_arena cs) ..< length (cs_arena cs) + length (preorder c)])"
proof -
  let ?k = "length (cs_arena cs)" and ?ch = "children_by_parent (length (cs_arena cs)) (flatten c)"
  have "flat_dtype ?ch i (col_dtype (fc_column e)) = Ok (entry_dtype (fc_column e) (Suc (?k + i)))"
    if "(i, e) \<in> set (enumerate 0 (flatten c))" for i e
  proof -
    have i: "i < length (preorder c)" "fc_column e = preorder c ! i"
      using that flatten_nth_column by (auto simp: in_set_enumerate_eq length_flatten)
    have "kids 0 (flatten c) i = child_offsets (col_children (preorder c ! i)) (Suc i)"
      using kids_inside [of i "[c]" None 0] i(1) by (simp add: flatten_flat_list del: flat_list.simps)
    then have "map ((+) ?k) (kids 0 (flatten c) i) = child_offsets (col_children (fc_column e)) (Suc (?k + i))"
      using i(2) by (simp add: child_offsets_add)
    moreover have "struct_ok (fc_column e)" using assms(1) i by simp
    ultimately show ?thesis
      by (intro flat_dtype_entry [where xs = "\<lambda>q. map ((+) ?k) (kids 0 (flatten c) q)"])
         (auto simp: children_by_parent_get)
  qed
  moreover have "map (\<lambda>p. fc_column (snd p)) (enumerate 0 (flatten c)) = preorder c"
    by (simp add: map_snd_enumerate' map_flatten)
  ultimately show ?thesis
    using assms(2) add_flat_columns_spec [of "enumerate 0 (flatten c)" ?ch ?k pres cs parent]
    by (simp add: add_column_to_arena_def Let_def col_entries_def length_flatten)
qed

end
