(* ===== verification/Column_Refinement.thy ===== *)
theory Column_Refinement
  imports Column_Layout
begin

text \<open>
  The catalog representation refines the schema it was built from: reading the arena back
  gives the same columns with the assigned field IDs.
\<close>

section \<open>Columns with field IDs in preorder\<close>

fun set_children :: "data_type \<Rightarrow> column list \<Rightarrow> data_type" where
  "set_children (DList _) ks = DList (ks ! 0)"
| "set_children (DStruct _) ks = DStruct ks"
| "set_children (DMap _ _) ks = DMap (ks ! 0) (ks ! 1)"
| "set_children t ks = t"

text \<open>The forest with field IDs \<open>ids 0, ids 1, \<dots>\<close> assigned in preorder.\<close>

function with_ids :: "column list \<Rightarrow> (nat \<Rightarrow> i64) \<Rightarrow> column list" where
  "with_ids [] ids = []"
| "with_ids (c # cs) ids =
     Column (col_name c) (set_children (col_dtype c) (with_ids (col_children c) (\<lambda>i. ids (Suc i))))
       (col_nullable c) (col_tags c) (col_initial_default c) (col_default c) (Some (ids 0))
     # with_ids cs (\<lambda>i. ids (length (preorder c) + i))"
  by pat_completeness auto
termination
  by (relation "measure (\<lambda>(cs, ids). size_list size cs)")
     (auto intro: le_less_trans [OF size_list_children])

lemma length_with_ids [simp]: "length (with_ids cs ids) = length cs"
  by (induction cs ids rule: with_ids.induct) simp_all

lemma col_children_set:
  "length ks = length (col_children c) \<Longrightarrow>
     col_children (Column n (set_children (col_dtype c) ks) nl tg i d f) = ks"
  by (cases "col_dtype c") (auto simp: col_children_def length_Suc_conv)

lemma names_with_ids [simp]: "map col_name (with_ids cs ids) = map col_name cs"
  by (induction cs ids rule: with_ids.induct) simp_all

text \<open>Assigning IDs changes nothing but the IDs.\<close>

function erase_ids :: "column list \<Rightarrow> column list" where
  "erase_ids [] = []"
| "erase_ids (c # cs) =
     Column (col_name c) (set_children (col_dtype c) (erase_ids (col_children c)))
       (col_nullable c) (col_tags c) (col_initial_default c) (col_default c) None # erase_ids cs"
  by pat_completeness auto
termination
  by (relation "measure (size_list size)") (auto intro: le_less_trans [OF size_list_children])

lemma set_children_twice: "set_children (set_children t ks) ks' = set_children t ks'"
  by (cases t) simp_all

lemma erase_with_ids: "erase_ids (with_ids cs ids) = erase_ids cs"
  by (induction cs ids rule: with_ids.induct) (simp_all add: col_children_set set_children_twice)

lemma map_upt_add: "map f [0..<m + n] = map f [0..<m] @ map (\<lambda>i. f (m + i)) [0..<n]"
  by (induction n) simp_all

lemma nodes_with_ids:
  "map col_field_id (nodes (with_ids cs ids)) = map (\<lambda>i. Some (ids i)) [0..<length (nodes cs)]"
proof (induction cs ids rule: with_ids.induct)
  case (2 c cs ids)
  let ?n = "length (nodes (col_children c))" and ?m = "length (nodes cs)"
  have "map (\<lambda>i. Some (ids i)) [0..<Suc ?n + ?m] =
      Some (ids 0) # map (\<lambda>i. Some (ids (Suc i))) [0..<?n] @ map (\<lambda>i. Some (ids (Suc ?n + i))) [0..<?m]"
    unfolding map_upt_add map_upt_Suc by simp
  then show ?case
    unfolding with_ids.simps nodes_Cons
    using 2 by (simp add: col_children_set length_preorder del: upt_Suc)
qed simp

lemma col_children_self: "set_children (col_dtype c) (col_children c) = col_dtype c"
  by (cases "col_dtype c") (auto simp: col_children_def)

lemma with_ids_self:
  assumes "\<And>i. i < length (nodes cs) \<Longrightarrow> col_field_id (nodes cs ! i) = Some (ids i)"
  shows "with_ids cs ids = cs"
  using assms
proof (induction cs ids rule: with_ids.induct)
  case (2 c cs ids)
  have "with_ids (col_children c) (\<lambda>i. ids (Suc i)) = col_children c"
  proof (rule "2.IH"(1))
    fix i assume "i < length (nodes (col_children c))"
    then show "col_field_id (nodes (col_children c) ! i) = Some (ids (Suc i))"
      using "2.prems" [of "Suc i"] unfolding nodes_Cons by (simp add: nth_append)
  qed
  moreover have "with_ids cs (\<lambda>i. ids (length (preorder c) + i)) = cs"
  proof (rule "2.IH"(2))
    fix i assume "i < length (nodes cs)"
    then show "col_field_id (nodes cs ! i) = Some (ids (length (preorder c) + i))"
      using "2.prems" [of "length (preorder c) + i"] by (simp add: nth_append)
  qed
  moreover have "Some (ids 0) = col_field_id c"
    using "2.prems" [of 0] unfolding nodes_Cons by simp
  ultimately show ?case
    by (simp only: with_ids.simps col_children_self column.collapse)
qed simp

section \<open>Reading the arena back\<close>

definition entry_is :: "catalog_column \<Rightarrow> column \<Rightarrow> usize \<Rightarrow> i64 \<Rightarrow> bool" where
  "entry_is e c n id' \<longleftrightarrow>
     cc_id e = id' \<and> cc_name e = col_name c \<and> cc_dtype e = entry_dtype c n
     \<and> cc_nullable e = col_nullable c \<and> cc_tags e = col_tags c
     \<and> cc_initial_default e = col_initial_default c \<and> cc_default_value e = col_default c"

definition laid_out :: "catalog_columns \<Rightarrow> column list \<Rightarrow> usize \<Rightarrow> (nat \<Rightarrow> i64) \<Rightarrow> bool" where
  "laid_out cs cols n ids \<longleftrightarrow>
     n + length (nodes cols) \<le> length (cs_arena cs) \<and>
     (\<forall>i < length (nodes cols). entry_is (cs_arena cs ! (n + i)) (nodes cols ! i) (Suc (n + i)) (ids i))"

lemma laid_out_append:
  "laid_out cs (a @ b) n ids \<longleftrightarrow>
     laid_out cs a n ids \<and> laid_out cs b (n + length (nodes a)) (\<lambda>i. ids (length (nodes a) + i))"
proof -
  have "(\<forall>i < m + k. P i) \<longleftrightarrow> (\<forall>i < m. P i) \<and> (\<forall>i < k. P (m + i))" for P and m k :: nat
  proof safe
    fix i assume "\<forall>i < m. P i" "\<forall>i < k. P (m + i)" "i < m + k"
    then show "P i" by (cases "i < m") (auto simp: not_less le_iff_add)
  qed auto
  note split = this [of "length (nodes a)" "length (nodes b)"]
  show ?thesis
    unfolding laid_out_def map_append concat_append length_append split
    by (auto simp: nth_append add.assoc)
qed

lemma laid_out_Cons:
  assumes "laid_out cs (c # cols) n ids"
  shows "entry_is (cs_arena cs ! n) c (Suc n) (ids 0)" "n < length (cs_arena cs)"
    and "laid_out cs (col_children c) (Suc n) (\<lambda>i. ids (Suc i))"
    and "laid_out cs cols (n + length (preorder c)) (\<lambda>i. ids (length (preorder c) + i))"
proof -
  have "laid_out cs ([c] @ cols) n ids" using assms by simp
  then have c: "laid_out cs [c] n ids"
    and r: "laid_out cs cols (n + length (nodes [c])) (\<lambda>i. ids (length (nodes [c]) + i))"
    unfolding laid_out_append by blast+
  from r show "laid_out cs cols (n + length (preorder c)) (\<lambda>i. ids (length (preorder c) + i))"
    by simp
  have nodes: "nodes [c] = c # nodes (col_children c)"
    by (simp add: preorder.simps [of c])
  show "entry_is (cs_arena cs ! n) c (Suc n) (ids 0)" "n < length (cs_arena cs)"
    and "laid_out cs (col_children c) (Suc n) (\<lambda>i. ids (Suc i))"
    using c unfolding laid_out_def nodes by (auto dest: spec [of _ 0] spec [of _ "Suc _"])
qed

lemma schema_dtype_entry:
  assumes "collect f (child_offsets (col_children c) n) = Ok ks"
  shows "schema_dtype_with f (entry_dtype c n) = Ok (set_children (col_dtype c) ks)"
  using assms by (cases "col_dtype c")
    (auto simp: schema_dtype_with_def entry_dtype_def col_children_def)

lemma collect_schema_columns:
  assumes "laid_out cs cols n ids" and "length (nodes cols) \<le> fuel"
  shows "collect (schema_column_from_arena_index fuel cs) (child_offsets cols n) = Ok (with_ids cols ids)"
  using assms
proof (induction cols ids arbitrary: n fuel rule: with_ids.induct)
  case (2 c cols ids)
  note lay = laid_out_Cons [OF "2.prems"(1)]
  obtain m where fuel: "fuel = Suc m" and m: "length (nodes (col_children c)) \<le> m"
    using "2.prems"(2) by (cases fuel) (auto simp: length_preorder)
  have kids: "collect (schema_column_from_arena_index m cs) (child_offsets (col_children c) (Suc n)) =
      Ok (with_ids (col_children c) (\<lambda>i. ids (Suc i)))"
    by (rule "2.IH"(1) [OF lay(3) m])
  have rest: "collect (schema_column_from_arena_index fuel cs) (child_offsets cols (n + length (preorder c))) =
      Ok (with_ids cols (\<lambda>i. ids (length (preorder c) + i)))"
    using "2.prems"(2) by (intro "2.IH"(2) [OF lay(4)]) simp
  have "schema_column_from_arena_index fuel cs n = Ok (hd (with_ids (c # cols) ids))"
    using lay(1,2) schema_dtype_entry [OF kids] by (simp add: fuel entry_is_def)
  with rest show ?case by (simp del: schema_column_from_arena_index.simps)
qed simp

section \<open>From a schema to the catalog and back\<close>

lemma child_offsets_append:
  "child_offsets (a @ b) n = child_offsets a n @ child_offsets b (n + length (nodes a))"
  by (induction a n rule: child_offsets.induct) (simp_all add: add.assoc)

lemma col_entries_nth:
  assumes "i < length (preorder c)" and "ids_ok pres cs (preorder c)"
  shows "entry_is (col_entries pres parent c cs ! i) (preorder c ! i)
           (Suc (length (cs_arena cs) + i)) (entry_id pres cs (preorder c) i)"
  using assms flat_entries_nth [of i "flatten c" pres cs "length (cs_arena cs)" parent 0]
    flatten_nth_column [of i c]
  by (simp add: col_entries_def entry_is_def flat_entry_def Let_def length_flatten map_flatten)

lemma laid_out_push:
  assumes "laid_out cs cols n ids"
  shows "laid_out (next_after pres k (push_all es cs)) cols n ids"
  using assms by (auto simp: laid_out_def next_after_def nth_append)

lemma laid_out_new:
  assumes "ids_ok pres cs (preorder c)"
  shows "laid_out (next_after pres k (push_all (col_entries pres parent c cs) cs)) [c]
           (length (cs_arena cs)) (entry_id pres cs (preorder c))"
  using col_entries_nth [OF _ assms, of _ parent]
  by (auto simp: laid_out_def next_after_def nth_append)

lemma push_all_ids:
  "fst ` set (cs_by_id (push_all es cs)) = cc_id ` set es \<union> fst ` set (cs_by_id cs)"
proof (induction es arbitrary: cs)
  case (Cons e es)
  show ?case
    unfolding push_all_Cons Cons.IH by (auto simp: push_column_def Let_def)
qed simp

definition root_inv :: "bool \<Rightarrow> i64 \<Rightarrow> (nat \<Rightarrow> i64) \<Rightarrow> column list \<Rightarrow> catalog_columns \<Rightarrow> bool" where
  "root_inv pres start ids cols cs \<longleftrightarrow>
     length (cs_arena cs) = length (nodes cols) \<and> laid_out cs cols 0 ids
     \<and> cs_root_columns cs = zip (map col_name cols) (child_offsets cols 0)
     \<and> (\<forall>e \<in> set (cs_arena cs). cc_id e \<in> fst ` set (cs_by_id cs))
     \<and> cs_next_column_id cs = Some (if pres then start else start + int (length (nodes cols)))"

definition ids_for :: "bool \<Rightarrow> i64 \<Rightarrow> column list \<Rightarrow> nat \<Rightarrow> i64" where
  "ids_for pres start all_nodes i = (if pres then the (col_field_id (all_nodes ! i)) else start + int i)"

definition ids_available :: "bool \<Rightarrow> i64 \<Rightarrow> column list \<Rightarrow> bool" where
  "ids_available pres start all_nodes =
     (if pres then \<forall>c\<in>set all_nodes. col_field_id c \<noteq> None
      else i64_min \<le> start \<and> start + int (length all_nodes) \<le> i64_max)"

lemma add_root_column_step:
  assumes inv: "root_inv pres start (ids_for pres start (nodes (cols @ c # rest))) cols cs"
    and avail: "ids_available pres start (nodes (cols @ c # rest))"
    and ok: "\<And>x. x \<in> set (preorder c) \<Longrightarrow> struct_ok x"
    and fresh: "col_name c \<notin> col_name ` set cols"
  shows "\<exists>cs'. add_root_column pres c cs = (cs', Ok ())
     \<and> root_inv pres start (ids_for pres start (nodes (cols @ c # rest))) (cols @ [c]) cs'"
proof -
  let ?all = "nodes (cols @ c # rest)" and ?k = "length (cs_arena cs)"
  have ids: "ids_ok pres cs (preorder c)"
    using inv avail by (auto simp: ids_ok_def root_inv_def ids_available_def)
  let ?cs = "next_after pres (length (preorder c)) (push_all (col_entries pres None c cs) cs)"
  have run: "add_root_column pres c cs =
      (?cs\<lparr>cs_root_columns := im_insert (col_name c) ?k (cs_root_columns ?cs)\<rparr>, Ok ())"
    using add_column_to_arena_spec [OF ok ids, of None]
    by (simp add: add_root_column_def seq_app length_preorder del: upt_Suc)
  have roots: "cs_root_columns ?cs = cs_root_columns cs" by (simp add: next_after_def)
  have "im_insert (col_name c) ?k (cs_root_columns cs) = cs_root_columns cs @ [(col_name c, ?k)]"
    using inv fresh by (intro im_insert_new) (auto simp: root_inv_def set_zip)
  also have "\<dots> = zip (map col_name (cols @ [c])) (child_offsets (cols @ [c]) 0)"
    using inv by (simp add: root_inv_def child_offsets_append)
  finally have new_roots: "im_insert (col_name c) ?k (cs_root_columns cs) = \<dots>" .
  have eid: "entry_id pres cs (preorder c) i = ids_for pres start ?all (?k + i)"
    if "i < length (preorder c)" for i
    using inv that by (auto simp: entry_id_def ids_for_def root_inv_def nth_append)
  have "laid_out ?cs cols 0 (ids_for pres start ?all)"
    using inv by (intro laid_out_push) (simp add: root_inv_def)
  moreover have "laid_out ?cs [c] ?k (\<lambda>i. ids_for pres start ?all (?k + i))"
    using laid_out_new [OF ids, of "length (preorder c)" None] eid by (simp add: laid_out_def)
  ultimately have lay: "laid_out ?cs (cols @ [c]) 0 (ids_for pres start ?all)"
    unfolding laid_out_append using inv by (simp add: root_inv_def)
  have reg: "\<forall>e \<in> set (cs_arena ?cs). cc_id e \<in> fst ` set (cs_by_id ?cs)"
    using inv by (auto simp: next_after_def push_all_ids root_inv_def)
  show ?thesis
    unfolding run roots
    using inv lay reg new_roots
    by (auto simp: root_inv_def laid_out_def next_after_def)
qed

lemma for_each_add_root:
  assumes "root_inv pres start (ids_for pres start (nodes (done @ cols))) done cs"
    and "ids_available pres start (nodes (done @ cols))"
    and "\<And>x. x \<in> set (nodes cols) \<Longrightarrow> struct_ok x" and "distinct (map col_name (done @ cols))"
  shows "\<exists>cs'. for_each (add_root_column pres) cols cs = (cs', Ok ())
     \<and> root_inv pres start (ids_for pres start (nodes (done @ cols))) (done @ cols) cs'"
  using assms
proof (induction cols arbitrary: "done" cs)
  case (Cons c cols)
  obtain cs1 where 1: "add_root_column pres c cs = (cs1, Ok ())"
    "root_inv pres start (ids_for pres start (nodes (done @ c # cols))) (done @ [c]) cs1"
    using add_root_column_step [OF Cons.prems(1,2)] Cons.prems(3,4) by auto
  have "\<exists>cs'. for_each (add_root_column pres) cols cs1 = (cs', Ok ())
     \<and> root_inv pres start (ids_for pres start (nodes ((done @ [c]) @ cols))) ((done @ [c]) @ cols) cs'"
    using 1(2) Cons.prems by (intro Cons.IH) auto
  with 1(1) show ?case by (simp add: seq_app)
qed simp

abbreviation schema_of :: "column list \<Rightarrow> schema" where
  "schema_of cols \<equiv> map (\<lambda>c. (col_name c, c)) cols"

lemma columns_from_schema_inv:
  assumes "distinct (map col_name cols)" and "\<And>x. x \<in> set (nodes cols) \<Longrightarrow> struct_ok x"
    and "ids_available (next_id \<noteq> None) (case next_id of None \<Rightarrow> 1 | Some i \<Rightarrow> i) (nodes cols)"
  shows "\<exists>cs. columns_from_schema (schema_of cols) next_id = Ok cs \<and>
     root_inv (next_id \<noteq> None) (case next_id of None \<Rightarrow> 1 | Some i \<Rightarrow> i)
       (ids_for (next_id \<noteq> None) (case next_id of None \<Rightarrow> 1 | Some i \<Rightarrow> i) (nodes cols)) cols cs"
proof -
  let ?p = "next_id \<noteq> None" and ?s = "case next_id of None \<Rightarrow> 1 | Some i \<Rightarrow> i"
  have "root_inv ?p ?s (ids_for ?p ?s (nodes ([] @ cols))) [] (columns_new (Some ?s))"
    by (simp add: root_inv_def columns_new_def laid_out_def)
  from for_each_add_root [OF this] assms
  obtain cs where "for_each (add_root_column ?p) cols (columns_new (Some ?s)) = (cs, Ok ())"
    "root_inv ?p ?s (ids_for ?p ?s (nodes cols)) cols cs" by auto
  moreover have "im_values (schema_of cols) = cols" by (simp add: comp_def)
  ultimately show ?thesis by (simp add: columns_from_schema_def)
qed

lemma child_offsets_in: "i \<in> set (child_offsets cols n) \<Longrightarrow> n \<le> i \<and> i < n + length (nodes cols)"
  by (induction cols n rule: child_offsets.induct) (auto simp: length_preorder)

lemma schema_from_columns_laid_out:
  assumes lay: "laid_out cs cols 0 ids" "length (cs_arena cs) = length (nodes cols)"
    and roots: "cs_root_columns cs = zip (map col_name cols) (child_offsets cols 0)"
    and known: "\<forall>e \<in> set (cs_arena cs). cc_id e \<in> fst ` set (cs_by_id cs)"
    and names: "distinct (map col_name cols)"
  shows "schema_from_columns cs = Ok (schema_of (with_ids cols ids))"
proof -
  let ?offs = "child_offsets cols 0" and ?f = "schema_column_from_arena_index (arena_fuel cs) cs"
  have offs: "im_values (cs_root_columns cs) = ?offs"
    by (simp add: roots)
  have all: "collect ?f ?offs = Ok (with_ids cols ids)"
    using lay by (intro collect_schema_columns) auto
  have present: "and_then (idx_get (cs_arena cs) i) (\<lambda>col.
       if im_contains (cc_id col) (cs_by_id cs) then and_then (?f i) (\<lambda>c. Ok [c]) else Ok [])
      = and_then (?f i) (\<lambda>c. Ok [c])" if "i \<in> set ?offs" for i
    using that lay(2) known child_offsets_in [of i cols 0] by auto
  have singles: "collect g is = Ok (map (\<lambda>c. [c]) cs')"
    if "collect ?f is = Ok cs'" "\<And>i. i \<in> set is \<Longrightarrow> g i = and_then (?f i) (\<lambda>c. Ok [c])" for g "is" cs'
    using that by (induction "is" arbitrary: cs') auto
  have "distinct (map col_name (with_ids cols ids))" using names by simp
  then have "schema_try_from (with_ids cols ids) = Ok (schema_of (with_ids cols ids))"
    unfolding schema_try_from_def by (subst schema_try_from_loop_Ok) auto
  moreover have "concat (map (\<lambda>c. [c]) xs) = xs" for xs :: "column list" by (induction xs) auto
  ultimately show ?thesis
    unfolding schema_from_columns_def offs using singles [OF all present] by simp
qed

lemma schema_from_columns_inv:
  "root_inv pres start ids cols cs \<Longrightarrow> distinct (map col_name cols) \<Longrightarrow>
    schema_from_columns cs = Ok (schema_of (with_ids cols ids))"
  by (rule schema_from_columns_laid_out) (auto simp: root_inv_def)

text \<open>With a field ID on every column, as for a transferred table, the schema reads back unchanged.\<close>

lemma transfer_keeps_field_ids:
  assumes "distinct (map col_name cols)" and "\<And>x. x \<in> set (nodes cols) \<Longrightarrow> struct_ok x"
    and "\<forall>c\<in>set (nodes cols). col_field_id c \<noteq> None"
  shows "\<exists>cs. columns_from_schema (schema_of cols) (Some next) = Ok cs
    \<and> schema_from_columns cs = Ok (schema_of cols) \<and> cs_next_column_id cs = Some next"
proof -
  have "ids_available True next (nodes cols)" using assms(3) by (simp add: ids_available_def)
  with columns_from_schema_inv [OF assms(1,2), of "Some next"]
  obtain cs where cs: "columns_from_schema (schema_of cols) (Some next) = Ok cs"
    and inv: "root_inv True next (ids_for True next (nodes cols)) cols cs" by auto
  have "with_ids cols (ids_for True next (nodes cols)) = cols"
  proof (rule with_ids_self)
    fix i assume "i < length (nodes cols)"
    then have "col_field_id (nodes cols ! i) \<noteq> None" using assms(3) nth_mem by blast
    then show "col_field_id (nodes cols ! i) = Some (ids_for True next (nodes cols) i)"
      by (simp add: ids_for_def)
  qed
  with schema_from_columns_inv [OF inv assms(1)] cs inv show ?thesis by (auto simp: root_inv_def)
qed

end
