(* ===== verification/Column_Invariants.thy ===== *)
theory Column_Invariants
  imports Column_Refinement
begin

text \<open>
  The well-formedness invariant of a table's columns: child indices point forward and their
  entries point back, the two name lookups agree with the entries, the ID lookup points at
  entries with that ID, and IDs are below the next one. Every operation keeps it, and under
  it no traversal runs out of depth or indexes out of range.
\<close>

section \<open>The invariant\<close>

definition forest_wf :: "catalog_column list \<Rightarrow> bool" where
  "forest_wf arena \<longleftrightarrow>
     (\<forall>i < length arena. \<forall>j \<in> set (cdt_children (cc_dtype (arena ! i))).
        i < j \<and> j < length arena \<and> cc_parent_column (arena ! j) = Some i) \<and>
     (\<forall>i < length arena. \<forall>p. cc_parent_column (arena ! i) = Some p \<longrightarrow>
        p < i \<and> i \<in> set (cdt_children (cc_dtype (arena ! p)))) \<and>
     (\<forall>i < length arena. \<forall>fs. cc_dtype (arena ! i) = CStruct fs \<longrightarrow>
        im_wf fs \<and> (\<forall>(n, j) \<in> set fs. cc_name (arena ! j) = n))"

definition roots_wf :: "catalog_columns \<Rightarrow> bool" where
  "roots_wf cs \<longleftrightarrow>
     im_wf (cs_root_columns cs) \<and>
     (\<forall>(n, i) \<in> set (cs_root_columns cs).
        i < length (cs_arena cs) \<and> cc_name (cs_arena cs ! i) = n \<and> cc_parent_column (cs_arena cs ! i) = None) \<and>
     (\<forall>i < length (cs_arena cs). cc_parent_column (cs_arena cs ! i) = None \<longrightarrow>
        (cc_name (cs_arena cs ! i), i) \<in> set (cs_root_columns cs))"

definition column_ids_wf :: "catalog_columns \<Rightarrow> bool" where
  "column_ids_wf cs \<longleftrightarrow>
     (\<forall>id' i. im_get (cs_by_id cs) id' = Some i \<longrightarrow> i < length (cs_arena cs) \<and> cc_id (cs_arena cs ! i) = id') \<and>
     (\<forall>n. cs_next_column_id cs = Some n \<longrightarrow> (\<forall>c \<in> set (cs_arena cs). cc_id c < n))"

definition columns_wf :: "catalog_columns \<Rightarrow> bool" where
  "columns_wf cs \<longleftrightarrow> forest_wf (cs_arena cs) \<and> roots_wf cs \<and> column_ids_wf cs"

lemma forest_wf_child:
  assumes "forest_wf arena" "i < length arena" "j \<in> set (cdt_children (cc_dtype (arena ! i)))"
  shows "i < j" "j < length arena" "cc_parent_column (arena ! j) = Some i"
  using assms unfolding forest_wf_def by blast+

section \<open>Traversals end\<close>

lemma aggregate_total:
  assumes "forest_wf (cs_arena cs)"
  shows "idx < length (cs_arena cs) \<Longrightarrow> length (cs_arena cs) - idx \<le> fuel \<Longrightarrow>
    \<exists>r. aggregate_column_indices fuel cs idx acc = Ok r"
proof (induction fuel arbitrary: idx acc)
  case (Suc n)
  have "\<exists>r. fold_res (aggregate_column_indices n cs) js a = Ok r \<and> True"
    if "set js \<subseteq> set (cdt_children (cc_dtype (cs_arena cs ! idx)))" for js a
  proof (rule fold_res_Ok)
    fix j s assume "j \<in> set js"
    then have "j \<in> set (cdt_children (cc_dtype (cs_arena cs ! idx)))" using that by blast
    from forest_wf_child [OF assms Suc.prems(1) this] Suc.prems(2)
    have "j < length (cs_arena cs)" "length (cs_arena cs) - j \<le> n" by linarith+
    from Suc.IH [OF this] show "\<exists>s'. aggregate_column_indices n cs j s = Ok s' \<and> True"
      by simp
  qed simp
  then show ?case using Suc.prems by auto
qed simp

lemma collect_total: "(\<And>x. x \<in> set xs \<Longrightarrow> \<exists>y. f x = Ok y) \<Longrightarrow> \<exists>ys. collect f xs = Ok ys"
proof (induction xs)
  case (Cons x xs)
  then obtain y ys where "f x = Ok y" "collect f xs = Ok ys" by force
  then show ?case by simp
qed simp

lemma schema_column_total:
  assumes "forest_wf (cs_arena cs)"
  shows "idx < length (cs_arena cs) \<Longrightarrow> length (cs_arena cs) - idx \<le> fuel \<Longrightarrow>
    \<exists>c. schema_column_from_arena_index fuel cs idx = Ok c"
proof (induction fuel arbitrary: idx)
  case (Suc n)
  let ?t = "cc_dtype (cs_arena cs ! idx)"
  have kids: "\<exists>c. schema_column_from_arena_index n cs j = Ok c" if "j \<in> set (cdt_children ?t)" for j
    using forest_wf_child [OF assms Suc.prems(1) that] Suc.prems(2) by (intro Suc.IH) auto
  have "\<exists>t. schema_dtype_with (schema_column_from_arena_index n cs) ?t = Ok t"
  proof (cases ?t)
    case (CStruct fs)
    have "\<exists>ys. collect (schema_column_from_arena_index n cs) (im_values fs) = Ok ys"
      by (rule collect_total, rule kids) (simp add: CStruct)
    with CStruct show ?thesis by (auto simp: schema_dtype_with_def)
  next
    case (CMap k v)
    then obtain a b where "schema_column_from_arena_index n cs k = Ok a" "schema_column_from_arena_index n cs v = Ok b"
      using kids by force
    with CMap show ?thesis by (simp add: schema_dtype_with_def)
  qed (use kids in \<open>auto simp: schema_dtype_with_def\<close>)
  then show ?case using Suc.prems by auto
qed simp

lemma root_in_range: "roots_wf cs \<Longrightarrow> i \<in> set (im_values (cs_root_columns cs)) \<Longrightarrow> i < length (cs_arena cs)"
  by (auto simp: roots_wf_def)

lemma root_column_indices_total:
  assumes "columns_wf cs"
  shows "\<exists>r. root_column_indices cs = Ok r"
  unfolding root_column_indices_def
proof (rule collect_total)
  fix i assume "i \<in> set (im_values (cs_root_columns cs))"
  then have "i < length (cs_arena cs)" using assms root_in_range by (auto simp: columns_wf_def)
  then show "\<exists>y. aggregate_column_indices (arena_fuel cs) cs i [] = Ok y"
    using aggregate_total [of cs i "arena_fuel cs" "[]"] assms
    by (simp add: columns_wf_def del: aggregate_column_indices.simps)
qed

lemma collect_existing_total:
  assumes "forest_wf (cs_arena cs)"
  shows "idx < length (cs_arena cs) \<Longrightarrow> length (cs_arena cs) - idx \<le> fuel \<Longrightarrow>
    \<exists>r. collect_existing_dtypes (Suc fuel) cs idx acc = Ok r"
proof (induction fuel arbitrary: idx acc)
  case (Suc n)
  obtain c where "schema_column_from_arena_index (Suc (Suc n)) cs idx = Ok c"
    using schema_column_total [OF assms Suc.prems(1), of "Suc (Suc n)"] Suc.prems(2) by force
  then obtain t where t: "schema_dtype_with (schema_column_from_arena_index (Suc n) cs) (cc_dtype (cs_arena cs ! idx)) = Ok t"
    unfolding schema_column_from_arena_index.simps(2) [of "Suc n"]
    by (auto simp del: schema_column_from_arena_index.simps)
  have "\<exists>r. fold_res (collect_existing_dtypes (Suc n) cs) js a = Ok r \<and> True"
    if "set js \<subseteq> set (cdt_children (cc_dtype (cs_arena cs ! idx)))" for js a
  proof (rule fold_res_Ok)
    fix j s assume "j \<in> set js"
    then have "j \<in> set (cdt_children (cc_dtype (cs_arena cs ! idx)))" using that by blast
    from forest_wf_child [OF assms Suc.prems(1) this] Suc.prems(2)
    have "j < length (cs_arena cs)" "length (cs_arena cs) - j \<le> n" by linarith+
    from Suc.IH [OF this] show "\<exists>s'. collect_existing_dtypes (Suc n) cs j s = Ok s' \<and> True"
      by (simp del: collect_existing_dtypes.simps)
  qed simp
  from this [OF subset_refl] show ?case using Suc.prems t
    unfolding collect_existing_dtypes.simps(2) [of "Suc n"]
    by (simp del: collect_existing_dtypes.simps schema_column_from_arena_index.simps)
qed simp

lemma column_data_types_total:
  assumes "columns_wf cs"
  shows "\<exists>r. column_data_types cs = Ok r"
proof -
  have "\<exists>r. fold_res (collect_existing_dtypes (arena_fuel cs) cs) (im_values (cs_root_columns cs)) [] = Ok r \<and> True"
  proof (rule fold_res_Ok)
    fix i s assume "i \<in> set (im_values (cs_root_columns cs))"
    then have "i < length (cs_arena cs)" using assms root_in_range by (auto simp: columns_wf_def)
    then show "\<exists>s'. collect_existing_dtypes (arena_fuel cs) cs i s = Ok s' \<and> True"
      using collect_existing_total [of cs i "length (cs_arena cs)"] assms
      by (simp add: columns_wf_def del: collect_existing_dtypes.simps)
  qed simp
  then show ?thesis by (simp add: column_data_types_def)
qed

section \<open>Removing a column\<close>

definition drop_ids :: "catalog_columns \<Rightarrow> usize list \<Rightarrow> (i64, usize) imap \<Rightarrow> (i64, usize) imap" where
  "drop_ids cs ds b = fold (\<lambda>i. im_remove (cc_id (cs_arena cs ! i))) ds b"

lemma drop_ids_get:
  "im_get (drop_ids cs ds b) k = (if \<exists>i\<in>set ds. cc_id (cs_arena cs ! i) = k then None else im_get b k)"
  by (induction ds arbitrary: b) (auto simp: drop_ids_def)

text \<open>Deletion visits the indices \<open>aggregate_column_indices\<close> lists.\<close>

lemma mark_deleted_aggregate:
  "aggregate_column_indices n cs idx acc = Ok r \<Longrightarrow>
     mark_column_deleted n idx (cs\<lparr>cs_by_id := drop_ids cs acc b\<rparr>, acc) = Ok (cs\<lparr>cs_by_id := drop_ids cs r b\<rparr>, r)"
proof (induction n arbitrary: idx acc r)
  case (Suc n)
  have loop: "fold_res (mark_column_deleted n) js (cs\<lparr>cs_by_id := drop_ids cs a b\<rparr>, a) =
      Ok (cs\<lparr>cs_by_id := drop_ids cs r b\<rparr>, r)"
    if "fold_res (aggregate_column_indices n cs) js a = Ok r" for js a
    using that
  proof (induction js arbitrary: a)
    case (Cons j js)
    then obtain a' where "aggregate_column_indices n cs j a = Ok a'"
      "fold_res (aggregate_column_indices n cs) js a' = Ok r" by auto
    with Cons.IH Suc.IH show ?case by simp
  qed simp
  from Suc.prems have idx: "idx < length (cs_arena cs)"
    and run: "fold_res (aggregate_column_indices n cs) (cdt_children (cc_dtype (cs_arena cs ! idx))) (acc @ [idx]) = Ok r"
    by auto
  have "drop_ids cs (acc @ [idx]) b = im_remove (cc_id (cs_arena cs ! idx)) (drop_ids cs acc b)"
    by (simp add: drop_ids_def)
  with loop [OF run] idx show ?case by simp
qed simp

lemma remove_column_spec:
  assumes "columns_wf cs" "idx < length (cs_arena cs)"
  obtains ds where "aggregate_column_indices (arena_fuel cs) cs idx [] = Ok ds"
    and "remove_column idx cs = (cs\<lparr>cs_by_id := drop_ids cs ds (cs_by_id cs)\<rparr>, Ok ds)"
proof -
  obtain ds where ds: "aggregate_column_indices (arena_fuel cs) cs idx [] = Ok ds"
    using aggregate_total [of cs idx "arena_fuel cs" "[]"] assms le_SucI [OF diff_le_self]
    by (metis columns_wf_def)
  moreover have "cs\<lparr>cs_by_id := drop_ids cs [] (cs_by_id cs)\<rparr> = cs" by (simp add: drop_ids_def)
  ultimately show ?thesis
    using mark_deleted_aggregate [OF ds, of "cs_by_id cs"] that
    by (simp add: remove_column_def del: mark_column_deleted.simps aggregate_column_indices.simps)
qed

lemma remove_column_wf:
  assumes "columns_wf cs"
  shows "columns_wf (fst (remove_column idx cs))"
proof (cases "idx < length (cs_arena cs)")
  case True
  from remove_column_spec [OF assms True] obtain ds where
    "remove_column idx cs = (cs\<lparr>cs_by_id := drop_ids cs ds (cs_by_id cs)\<rparr>, Ok ds)" by blast
  with assms show ?thesis
    by (auto simp: columns_wf_def roots_wf_def column_ids_wf_def drop_ids_get split: if_splits)
next
  case False
  with assms show ?thesis by (simp add: remove_column_def idx_get_def)
qed

section \<open>Renaming a column\<close>

lemma im_rename_set:
  assumes "im_wf m" "(old, w) \<in> set m"
  shows "set (im_rename old new v m) = insert (new, v) (set m - {(old, w)})"
  using assms
proof (induction old new v m rule: im_rename.induct)
  case (2 old new v k w' m)
  show ?case
  proof (cases "k = old")
    case True
    with 2 have "w' = w" "(old, w) \<notin> set m" by (auto simp: image_iff)
    with True show ?thesis by auto
  next
    case False
    with 2 show ?thesis by auto
  qed
qed simp

lemma im_rename_values:
  "im_wf m \<Longrightarrow> (old, v) \<in> set m \<Longrightarrow> im_values (im_rename old new v m) = im_values m"
  by (induction old new v m rule: im_rename.induct) (auto simp: image_iff)

lemma rename_lookup_ok:
  assumes "im_wf m" "(old, idx) \<in> set m" "new \<notin> fst ` set m"
  shows "im_wf (im_rename old new idx m)" "im_contains old m"
    and "set (im_rename old new idx m) = insert (new, idx) (set m - {(old, idx)})"
  using im_rename_wf [OF assms(1,3)] im_rename_set [OF assms(1,2)] assms(2)
  by (force simp: image_iff)+

definition renamable :: "catalog_columns \<Rightarrow> usize \<Rightarrow> bool" where
  "renamable cs idx \<longleftrightarrow> idx < length (cs_arena cs) \<and>
     (case cc_parent_column (cs_arena cs ! idx) of
        None \<Rightarrow> True
      | Some p \<Rightarrow> (case cc_dtype (cs_arena cs ! p) of CStruct fs \<Rightarrow> True | _ \<Rightarrow> False))"

text \<open>The names at the level of a column.\<close>

definition siblings :: "catalog_columns \<Rightarrow> usize \<Rightarrow> (string, usize) imap" where
  "siblings cs idx =
     (case cc_parent_column (cs_arena cs ! idx) of
        None \<Rightarrow> cs_root_columns cs
      | Some p \<Rightarrow> (case cc_dtype (cs_arena cs ! p) of CStruct fs \<Rightarrow> fs | _ \<Rightarrow> []))"

lemma siblings_wf:
  assumes "columns_wf cs" "renamable cs idx"
  shows "im_wf (siblings cs idx)" "(cc_name (cs_arena cs ! idx), idx) \<in> set (siblings cs idx)"
proof -
  let ?e = "cs_arena cs ! idx"
  have f: "forest_wf (cs_arena cs)" and r: "roots_wf cs" and i: "idx < length (cs_arena cs)"
    using assms by (auto simp: columns_wf_def renamable_def)
  have "im_wf (siblings cs idx) \<and> (cc_name ?e, idx) \<in> set (siblings cs idx)"
  proof (cases "cc_parent_column ?e")
    case None
    with r i show ?thesis unfolding roots_wf_def by (simp add: siblings_def)
  next
    case (Some p)
    then obtain fs where fs: "cc_dtype (cs_arena cs ! p) = CStruct fs"
      using assms(2) by (auto simp: renamable_def split: catalog_data_type.splits)
    have p: "p < idx" "idx \<in> set (cdt_children (cc_dtype (cs_arena cs ! p)))"
      using f i Some unfolding forest_wf_def by blast+
    then obtain n where n: "(n, idx) \<in> set fs" using fs by auto
    have "im_wf fs" "\<forall>(n, j) \<in> set fs. cc_name (cs_arena cs ! j) = n"
      using f p(1) i fs unfolding forest_wf_def by (meson less_trans)+
    with n fs Some show ?thesis by (auto simp: siblings_def)
  qed
  then show "im_wf (siblings cs idx)" "(cc_name ?e, idx) \<in> set (siblings cs idx)" by blast+
qed

text \<open>What a successful rename does.\<close>

definition renamed :: "usize \<Rightarrow> string \<Rightarrow> catalog_columns \<Rightarrow> catalog_columns" where
  "renamed idx new_name cs =
     (let old_name = cc_name (cs_arena cs ! idx) in
      arena_update idx (\<lambda>c. c\<lparr>cc_name := new_name\<rparr>)
        (case cc_parent_column (cs_arena cs ! idx) of
           None \<Rightarrow> cs\<lparr>cs_root_columns := im_rename old_name new_name idx (cs_root_columns cs)\<rparr>
         | Some p \<Rightarrow> arena_update p
             (\<lambda>c. c\<lparr>cc_dtype := CStruct (im_rename old_name new_name idx (siblings cs idx))\<rparr>) cs))"

lemma rename_column_cases:
  assumes "columns_wf cs" "renamable cs idx"
  shows "rename_column idx new_name cs =
    (if new_name \<in> fst ` set (siblings cs idx) then (cs, Err (column_already_exists new_name))
     else (renamed idx new_name cs, Ok idx))"
proof -
  let ?e = "cs_arena cs ! idx"
  have i: "idx < length (cs_arena cs)" using assms(2) by (simp add: renamable_def)
  have old: "cc_name ?e \<in> fst ` set (siblings cs idx)"
    using siblings_wf(2) [OF assms] by (metis fst_conv image_eqI)
  show ?thesis
  proof (cases "cc_parent_column ?e")
    case None
    with i old show ?thesis
      by (simp add: rename_column_def ensure_column_unique_at_parent_def siblings_def renamed_def Let_def)
  next
    case (Some p)
    then obtain fs where fs: "cc_dtype (cs_arena cs ! p) = CStruct fs"
      using assms(2) by (auto simp: renamable_def split: catalog_data_type.splits)
    have "p < length (cs_arena cs)"
      using assms(1) i Some unfolding columns_wf_def forest_wf_def by (meson less_trans)
    with i old Some fs show ?thesis
      by (simp add: rename_column_def ensure_column_unique_at_parent_def siblings_def renamed_def Let_def)
  qed
qed

lemma renamed_field_arena:
  assumes "cc_parent_column (cs_arena cs ! idx) = Some p" "p < idx" "idx < length (cs_arena cs)"
  shows "cs_arena (renamed idx new_name cs) =
    (cs_arena cs)[p := (cs_arena cs ! p)\<lparr>cc_dtype :=
         CStruct (im_rename (cc_name (cs_arena cs ! idx)) new_name idx (siblings cs idx))\<rparr>,
       idx := (cs_arena cs ! idx)\<lparr>cc_name := new_name\<rparr>]"
  using assms by (simp add: renamed_def arena_update_def Let_def)

lemma forest_wf_rename:
  assumes wf: "columns_wf cs" and ok: "renamable cs idx" and new: "new_name \<notin> fst ` set (siblings cs idx)"
  shows "forest_wf (cs_arena (renamed idx new_name cs))"
proof (cases "cc_parent_column (cs_arena cs ! idx)")
  case None
  let ?a = "cs_arena cs"
  have i: "idx < length ?a" and f: "forest_wf ?a"
    using wf ok by (auto simp: renamable_def columns_wf_def)
  have eq: "cs_arena (renamed idx new_name cs) = ?a[idx := (?a ! idx)\<lparr>cc_name := new_name\<rparr>]"
    using None by (simp add: renamed_def arena_update_def Let_def)
  have same: "cc_dtype (?a[idx := (?a ! idx)\<lparr>cc_name := new_name\<rparr>] ! j) = cc_dtype (?a ! j)"
    "cc_parent_column (?a[idx := (?a ! idx)\<lparr>cc_name := new_name\<rparr>] ! j) = cc_parent_column (?a ! j)" for j
    using i by (cases "j = idx"; simp)+
  have names: "cc_name (?a[idx := (?a ! idx)\<lparr>cc_name := new_name\<rparr>] ! j) = cc_name (?a ! j)"
    if "k < length ?a" "j \<in> set (cdt_children (cc_dtype (?a ! k)))" for j k
    using forest_wf_child(3) [OF f that] None by (cases "j = idx") auto
  show ?thesis
    unfolding eq forest_wf_def length_list_update same
  proof (intro conjI allI impI)
    fix k fs assume k: "k < length ?a" "cc_dtype (?a ! k) = CStruct fs"
    show "im_wf fs" using f k unfolding forest_wf_def by blast
    have "\<forall>(n, j)\<in>set fs. cc_name (?a ! j) = n" using f k unfolding forest_wf_def by blast
    then show "\<forall>(n, j)\<in>set fs. cc_name (?a[idx := (?a ! idx)\<lparr>cc_name := new_name\<rparr>] ! j) = n"
      using names [OF k(1)] k(2) by fastforce
  qed (use f in \<open>unfold forest_wf_def, blast+\<close>)
next
  case (Some p)
  let ?a = "cs_arena cs" and ?old = "cc_name (cs_arena cs ! idx)"
  have i: "idx < length ?a" and f: "forest_wf ?a"
    using wf ok by (auto simp: renamable_def columns_wf_def)
  obtain fs where fs: "cc_dtype (?a ! p) = CStruct fs"
    using ok Some by (auto simp: renamable_def split: catalog_data_type.splits)
  have sib: "siblings cs idx = fs" using Some fs by (simp add: siblings_def)
  have p: "p < idx" using f i Some unfolding forest_wf_def by blast
  let ?fs = "im_rename ?old new_name idx fs"
  let ?b = "cs_arena (renamed idx new_name cs)"
  have b: "?b = ?a[p := (?a ! p)\<lparr>cc_dtype := CStruct ?fs\<rparr>, idx := (?a ! idx)\<lparr>cc_name := new_name\<rparr>]"
    using renamed_field_arena [OF Some p i] sib by simp
  note look = rename_lookup_ok [OF siblings_wf [OF wf ok] new, unfolded sib]
  have kids: "set (cdt_children (cc_dtype (?b ! k))) = set (cdt_children (cc_dtype (?a ! k)))" for k
    using p i fs im_rename_values [OF siblings_wf [OF wf ok], unfolded sib]
    by (cases "k = p"; cases "k = idx"; simp add: b flip: set_map)
  have par: "cc_parent_column (?b ! k) = cc_parent_column (?a ! k)" for k
    using p i by (cases "k = p"; cases "k = idx") (simp_all add: b)
  have len: "length ?b = length ?a" by (simp add: b)
  have name: "cc_name (?b ! k) = (if k = idx then new_name else cc_name (?a ! k))" for k
    using p i by (cases "k = p") (simp_all add: b)
  show ?thesis
    unfolding forest_wf_def len kids par
  proof (intro conjI allI impI)
    fix k gs assume k: "k < length ?a" "cc_dtype (?b ! k) = CStruct gs"
    show "im_wf gs" and "\<forall>(n, j)\<in>set gs. cc_name (?b ! j) = n"
    proof -
      have "im_wf gs \<and> (\<forall>(n, j)\<in>set gs. cc_name (?b ! j) = n)"
      proof (cases "k = p")
        case True
        with k p i have gs: "gs = ?fs" by (simp add: b)
        have "im_wf fs \<and> (\<forall>(n, j)\<in>set fs. cc_name (?a ! j) = n)"
          using f fs p i unfolding forest_wf_def by (meson less_trans)
        then show ?thesis unfolding gs using look(1,3) by (auto simp: name)
      next
        case False
        with k p have *: "cc_dtype (?a ! k) = CStruct gs" by (cases "k = idx") (simp_all add: b)
        have w: "im_wf gs" "\<forall>(n, j)\<in>set gs. cc_name (?a ! j) = n \<and> cc_parent_column (?a ! j) = Some k"
        proof -
          show "im_wf gs" using f k(1) * unfolding forest_wf_def by blast
          have "\<forall>(n, j)\<in>set gs. cc_name (?a ! j) = n" using f k(1) * unfolding forest_wf_def by blast
          then show "\<forall>(n, j)\<in>set gs. cc_name (?a ! j) = n \<and> cc_parent_column (?a ! j) = Some k"
            using forest_wf_child(3) [OF f k(1)] * by force
        qed
        then show ?thesis using False Some by (auto simp: name)
      qed
      then show "im_wf gs" and "\<forall>(n, j)\<in>set gs. cc_name (?b ! j) = n" by blast+
    qed
  qed (use f in \<open>unfold forest_wf_def, blast+\<close>)
qed

lemma renamed_arena_nth:
  assumes "columns_wf cs" "renamable cs idx" "k < length (cs_arena cs)"
  shows "cc_name (cs_arena (renamed idx new_name cs) ! k) = (if k = idx then new_name else cc_name (cs_arena cs ! k))"
    and "cc_parent_column (cs_arena (renamed idx new_name cs) ! k) = cc_parent_column (cs_arena cs ! k)"
    and "cc_id (cs_arena (renamed idx new_name cs) ! k) = cc_id (cs_arena cs ! k)"
    and "length (cs_arena (renamed idx new_name cs)) = length (cs_arena cs)"
proof -
  let ?a = "cs_arena cs" and ?b = "cs_arena (renamed idx new_name cs)"
  have i: "idx < length ?a" using assms(2) by (simp add: renamable_def)
  have "cc_name (?b ! k) = (if k = idx then new_name else cc_name (?a ! k)) \<and>
      cc_parent_column (?b ! k) = cc_parent_column (?a ! k) \<and> cc_id (?b ! k) = cc_id (?a ! k)
      \<and> length ?b = length ?a"
  proof (cases "cc_parent_column (?a ! idx)")
    case None
    then show ?thesis using i by (cases "k = idx") (simp_all add: renamed_def arena_update_def Let_def)
  next
    case (Some p)
    then have p: "p < idx" using assms(1) i unfolding columns_wf_def forest_wf_def by blast
    from renamed_field_arena [OF Some p i] show ?thesis
      using p i by (cases "k = p"; cases "k = idx") simp_all
  qed
  then show "cc_name (?b ! k) = (if k = idx then new_name else cc_name (?a ! k))"
    "cc_parent_column (?b ! k) = cc_parent_column (?a ! k)" "cc_id (?b ! k) = cc_id (?a ! k)"
    "length ?b = length ?a" by blast+
qed

lemma roots_wf_rename:
  assumes wf: "columns_wf cs" and ok: "renamable cs idx" and new: "new_name \<notin> fst ` set (siblings cs idx)"
  shows "roots_wf (renamed idx new_name cs)"
proof -
  let ?b = "renamed idx new_name cs" and ?old = "cc_name (cs_arena cs ! idx)"
  have i: "idx < length (cs_arena cs)" and r: "roots_wf cs"
    using wf ok by (auto simp: renamable_def columns_wf_def)
  have in_range: "j < length (cs_arena cs)" "cc_name (cs_arena cs ! j) = n" "cc_parent_column (cs_arena cs ! j) = None"
    if "(n, j) \<in> set (cs_root_columns cs)" for n j
    using r that unfolding roots_wf_def by blast+
  have unroot: "(cc_name (cs_arena cs ! j), j) \<in> set (cs_root_columns cs)"
    if "j < length (cs_arena cs)" "cc_parent_column (cs_arena cs ! j) = None" for j
    using r that unfolding roots_wf_def by blast
  note nth = renamed_arena_nth [OF wf ok]
  have len: "length (cs_arena ?b) = length (cs_arena cs)" using nth(4) [OF i] .
  show ?thesis
  proof (cases "cc_parent_column (cs_arena cs ! idx)")
    case None
    then have sib: "siblings cs idx = cs_root_columns cs" by (simp add: siblings_def)
    note look = rename_lookup_ok [OF siblings_wf [OF wf ok] new, unfolded sib]
    have roots: "cs_root_columns ?b = im_rename ?old new_name idx (cs_root_columns cs)"
      using None by (simp add: renamed_def arena_update_def Let_def)
    have "j < length (cs_arena cs) \<and> cc_name (cs_arena ?b ! j) = n \<and> cc_parent_column (cs_arena ?b ! j) = None"
      if "(n, j) \<in> set (cs_root_columns ?b)" for n j
    proof (cases "(n, j) = (new_name, idx)")
      case True
      with i None nth show ?thesis by simp
    next
      case False
      with that have old: "(n, j) \<in> set (cs_root_columns cs)" "(n, j) \<noteq> (?old, idx)"
        unfolding roots look(3) by auto
      with in_range [OF old(1)] nth show ?thesis by auto
    qed
    moreover have "(cc_name (cs_arena ?b ! j), j) \<in> set (cs_root_columns ?b)"
      if "j < length (cs_arena cs)" "cc_parent_column (cs_arena ?b ! j) = None" for j
      using that nth [OF that(1)] unroot [OF that(1)] unfolding roots look(3) by auto
    ultimately show ?thesis
      unfolding roots_wf_def len using look(1) roots by auto
  next
    case (Some p)
    then have roots: "cs_root_columns ?b = cs_root_columns cs"
      by (simp add: renamed_def arena_update_def Let_def)
    have "j \<noteq> idx" if "cc_parent_column (cs_arena cs ! j) = None" for j using Some that by auto
    then show ?thesis
      using r in_range unroot nth unfolding roots_wf_def len roots by fastforce
  qed
qed

lemma rename_column_wf:
  assumes "columns_wf cs" "renamable cs idx"
  shows "columns_wf (fst (rename_column idx new_name cs))"
proof (cases "new_name \<in> fst ` set (siblings cs idx)")
  case False
  let ?b = "renamed idx new_name cs"
  have i: "idx < length (cs_arena cs)" using assms(2) by (simp add: renamable_def)
  note nth = renamed_arena_nth [OF assms]
  have "cs_by_id ?b = cs_by_id cs" "cs_next_column_id ?b = cs_next_column_id cs"
    by (auto simp: renamed_def arena_update_def Let_def split: option.splits)
  moreover have "cc_id c \<in> cc_id ` set (cs_arena cs)" if "c \<in> set (cs_arena ?b)" for c
    using that nth(3) nth(4) [OF i] by (metis (no_types, lifting) image_eqI in_set_conv_nth)
  moreover have "column_ids_wf cs" using assms(1) by (simp add: columns_wf_def)
  ultimately have "column_ids_wf ?b"
    using nth(3) nth(4) [OF i] unfolding column_ids_wf_def by fastforce
  with forest_wf_rename [OF assms False] roots_wf_rename [OF assms False] show ?thesis
    using False rename_column_cases [OF assms] by (simp add: columns_wf_def)
qed (use assms rename_column_cases in simp)

end
