(* ===== verification/Column_Growth.thy ===== *)
theory Column_Growth
  imports Column_Invariants
begin

text \<open>Adding columns keeps the invariant, and so does building the columns of a schema.\<close>

section \<open>The appended segment\<close>

lemma nodes_below:
  "i < length (nodes cols) \<Longrightarrow>
    \<exists>rest. drop (Suc i) (nodes cols) = nodes (col_children (nodes cols ! i)) @ rest"
proof (induction "size_list size cols" arbitrary: cols i rule: less_induct)
  case less
  then obtain c cs where cols: "cols = c # cs" by (cases cols) auto
  let ?k = "length (nodes (col_children c))"
  consider "i = 0" | i' where "i = Suc i'" "i' < ?k" | i' where "i = Suc (?k + i')" "i' < length (nodes cs)"
    using less.prems cols
    by (cases i) (auto simp: length_preorder, metis add_diff_inverse_nat add_less_cancel_left not_less_eq)
  then show ?case
  proof cases
    case 1
    then show ?thesis unfolding cols nodes_Cons by simp
  next
    case (2 i')
    have "size_list size (col_children c) < size_list size cols"
      using size_list_children [of c] by (simp add: cols)
    from less.hyps [OF this 2(2)] obtain rest where
      "drop (Suc i') (nodes (col_children c)) = nodes (col_children (nodes (col_children c) ! i')) @ rest" by blast
    with 2 show ?thesis unfolding cols nodes_Cons by (simp add: nth_append)
  next
    case (3 i')
    have "size_list size cs < size_list size cols" by (simp add: cols)
    from less.hyps [OF this 3(2)] 3 show ?thesis unfolding cols nodes_Cons by (simp add: nth_append)
  qed
qed

lemma nodes_child_offset:
  "t < length ks \<Longrightarrow> child_offsets ks n ! t < n + length (nodes ks) \<and> n \<le> child_offsets ks n ! t
     \<and> nodes ks ! (child_offsets ks n ! t - n) = ks ! t"
proof (induction ks n arbitrary: t rule: child_offsets.induct)
  case (2 c cs n)
  show ?case
  proof (cases t)
    case 0
    then show ?thesis unfolding nodes_Cons by (simp add: length_preorder)
  next
    case (Suc t')
    with 2 have IH: "child_offsets cs (n + length (preorder c)) ! t' < n + length (preorder c) + length (nodes cs)"
      "n + length (preorder c) \<le> child_offsets cs (n + length (preorder c)) ! t'"
      "nodes cs ! (child_offsets cs (n + length (preorder c)) ! t' - (n + length (preorder c))) = cs ! t'" by auto
    then have "\<not> child_offsets cs (n + length (preorder c)) ! t' - n < length (preorder c)" by linarith
    with IH Suc show ?thesis by (simp add: nth_append)
  qed
qed simp

lemma preorder_child:
  assumes i: "i < length (nodes cols)" and t: "t < length (col_children (nodes cols ! i))"
  shows "nodes cols ! (child_offsets (col_children (nodes cols ! i)) (Suc i) ! t) = col_children (nodes cols ! i) ! t"
proof -
  let ?ks = "col_children (nodes cols ! i)" and ?o = "child_offsets (col_children (nodes cols ! i)) (Suc i) ! t"
  obtain rest where r: "drop (Suc i) (nodes cols) = nodes ?ks @ rest" using nodes_below [OF i] by blast
  note o = nodes_child_offset [OF t, of "Suc i"]
  then have "nodes cols ! ?o = drop (Suc i) (nodes cols) ! (?o - Suc i)" using i by simp
  also have "\<dots> = ?ks ! t" unfolding r using o by (subst nth_append) auto
  finally show ?thesis .
qed

lemma cdt_children_entry: "cdt_children (entry_dtype c n) = child_offsets (col_children c) n"
  by (cases "col_dtype c") (simp_all add: entry_dtype_def col_children_def)

lemma kids_set: "j \<in> set (kids 0 fl q) \<longleftrightarrow> j < length fl \<and> fc_parent_index (fl ! j) = Some q"
  by (auto simp: kids_def in_set_enumerate_eq image_iff intro!: bexI [of _ "(j, fl ! j)"])

lemma flatten_parents:
  "fc_parent_index (flatten c ! 0) = None"
  "i < length (preorder c) \<Longrightarrow> 0 < i \<Longrightarrow> \<exists>p. fc_parent_index (flatten c ! i) = Some p \<and> p < i"
proof -
  obtain ext where fl: "flatten c = \<lparr>fc_column = c, fc_parent_index = None\<rparr> # ext"
    "parents_ok (flatten c)" "\<forall>e\<in>set ext. fc_parent_index e \<noteq> None"
    using flatten_spec by blast
  then show "fc_parent_index (flatten c ! 0) = None" by simp
  assume i: "i < length (preorder c)" "0 < i"
  then have "flatten c ! i \<in> set ext"
    using fl(1) length_flatten [of c] by (cases i) auto
  then obtain p where "fc_parent_index (flatten c ! i) = Some p" using fl(3) by auto
  with fl(2) i show "\<exists>p. fc_parent_index (flatten c ! i) = Some p \<and> p < i"
    unfolding parents_ok_def by (auto simp: length_flatten)
qed

lemma kids_flatten:
  "i < length (preorder c) \<Longrightarrow> kids 0 (flatten c) i = child_offsets (col_children (preorder c ! i)) (Suc i)"
  using kids_inside [of i "[c]" None 0] by (simp add: flatten_flat_list del: flat_list.simps)

text \<open>The segment as a list of entries placed at index \<open>k\<close> below \<open>parent\<close>.\<close>

definition segment_wf :: "usize \<Rightarrow> usize option \<Rightarrow> catalog_column list \<Rightarrow> bool" where
  "segment_wf k parent es \<longleftrightarrow> es \<noteq> [] \<and> cc_parent_column (es ! 0) = parent \<and>
     (\<forall>i < length es. \<forall>j \<in> set (cdt_children (cc_dtype (es ! i))).
        k + i < j \<and> j < k + length es \<and> cc_parent_column (es ! (j - k)) = Some (k + i)) \<and>
     (\<forall>i < length es. 0 < i \<longrightarrow> (\<exists>p < i. cc_parent_column (es ! i) = Some (k + p)
        \<and> k + i \<in> set (cdt_children (cc_dtype (es ! p))))) \<and>
     (\<forall>i < length es. \<forall>fs. cc_dtype (es ! i) = CStruct fs \<longrightarrow>
        im_wf fs \<and> (\<forall>(n, j) \<in> set fs. cc_name (es ! (j - k)) = n))"

lemma col_entries_eq:
  assumes "i < length (preorder c)" "ids_ok pres cs (preorder c)"
  shows "col_entries pres parent c cs ! i =
    flat_entry (length (cs_arena cs)) parent (entry_id pres cs (preorder c) i) i (flatten c ! i)"
  using assms flat_entries_nth [of i "flatten c" pres cs "length (cs_arena cs)" parent 0]
  by (simp add: col_entries_def length_flatten map_flatten)

lemma segment_wf_col_entries:
  assumes ids: "ids_ok pres cs (preorder c)" and ok: "\<And>x. x \<in> set (preorder c) \<Longrightarrow> struct_ok x"
  shows "segment_wf (length (cs_arena cs)) parent (col_entries pres parent c cs)"
proof -
  let ?k = "length (cs_arena cs)" and ?es = "col_entries pres parent c cs" and ?m = "length (preorder c)"
  note nth = col_entries_eq [OF _ ids, of _ parent]
  have dt: "cc_dtype (?es ! i) = entry_dtype (preorder c ! i) (Suc (?k + i))"
    and nm: "cc_name (?es ! i) = col_name (preorder c ! i)"
    and par: "cc_parent_column (?es ! i) =
      (case fc_parent_index (flatten c ! i) of Some j \<Rightarrow> Some (?k + j) | None \<Rightarrow> parent)" if "i < ?m" for i
    using nth [OF that] flatten_nth_column [OF that] by (simp_all add: flat_entry_def Let_def)
  have kids: "set (cdt_children (cc_dtype (?es ! i))) = (+) ?k ` set (kids 0 (flatten c) i)" if "i < ?m" for i
    using child_offsets_add [of ?k "col_children (preorder c ! i)" "Suc i"] kids_flatten [OF that]
    by (simp add: dt [OF that] cdt_children_entry flip: set_map)
  show ?thesis
    unfolding segment_wf_def length_col_entries
  proof (intro conjI allI impI)
    show "?es \<noteq> []" using length_col_entries [of pres parent c cs] length_preorder [of c] by (metis list.size(3) nat.distinct(1))
    show "cc_parent_column (?es ! 0) = parent"
      using par [of 0] flatten_parents(1) [of c] length_preorder [of c] by simp
  next
    fix i assume i: "i < ?m"
    show "\<forall>j \<in> set (cdt_children (cc_dtype (?es ! i))).
        ?k + i < j \<and> j < ?k + ?m \<and> cc_parent_column (?es ! (j - ?k)) = Some (?k + i)"
    proof
      fix j assume "j \<in> set (cdt_children (cc_dtype (?es ! i)))"
      then obtain j' where j': "j = ?k + j'" "j' < ?m" "fc_parent_index (flatten c ! j') = Some i"
        unfolding kids [OF i] by (auto simp: kids_set length_flatten)
      then have "i < j'"
        using flatten_parents(1) [of c] flatten_parents(2) [OF j'(2)] by (cases "j' = 0") force+
      with j' show "?k + i < j \<and> j < ?k + ?m \<and> cc_parent_column (?es ! (j - ?k)) = Some (?k + i)"
        using par [OF j'(2)] by simp
    qed
  next
    fix i assume i: "i < ?m" "0 < i"
    from flatten_parents(2) [OF this] obtain p where p: "fc_parent_index (flatten c ! i) = Some p" "p < i" by blast
    then have "i \<in> set (kids 0 (flatten c) p)" using i by (simp add: kids_set length_flatten)
    then show "\<exists>p < i. cc_parent_column (?es ! i) = Some (?k + p) \<and> ?k + i \<in> set (cdt_children (cc_dtype (?es ! p)))"
      using p i by (intro exI [of _ p]) (simp add: kids par)
  next
    fix i fs assume i: "i < ?m" and fs: "cc_dtype (?es ! i) = CStruct fs"
    then obtain cols where cols: "col_dtype (preorder c ! i) = DStruct cols"
      by (cases "col_dtype (preorder c ! i)") (auto simp: dt entry_dtype_def Let_def)
    have ch: "col_children (preorder c ! i) = cols" using cols by (simp add: col_children_def)
    let ?off = "child_offsets cols (Suc (?k + i))"
    have fs': "fs = zip (map col_name cols) ?off"
      using fs cols dt [OF i] by (simp add: entry_dtype_def col_children_def)
    have "struct_ok (preorder c ! i)" using ok i by simp
    then show "im_wf fs" using cols by (simp add: struct_ok_def fs')
    show "\<forall>(n, j) \<in> set fs. cc_name (?es ! (j - ?k)) = n"
    proof safe
      fix n j assume "(n, j) \<in> set fs"
      then obtain t where t: "t < length cols" "n = col_name (cols ! t)" "j = ?off ! t"
        by (auto simp: fs' set_zip)
      have "j = ?k + child_offsets cols (Suc i) ! t"
        using t child_offsets_add [of ?k cols "Suc i"] by (metis add_Suc_right length_child_offsets nth_map)
      moreover have "child_offsets cols (Suc i) ! t \<in> set (kids 0 (flatten c) i)"
        using kids_flatten [OF i] ch t(1) by simp
      then have "child_offsets cols (Suc i) ! t < ?m" by (simp add: kids_set length_flatten)
      moreover have "preorder c ! (child_offsets cols (Suc i) ! t) = cols ! t"
        using preorder_child [of i "[c]" t] i ch t(1) by simp
      ultimately show "cc_name (?es ! (j - ?k)) = n" using t(2) by (simp add: nm)
    qed
  qed
qed

section \<open>Extending the arena\<close>

lemma forest_wf_extend:
  assumes f: "forest_wf a" and seg: "segment_wf (length a) parent es" and len: "length a' = length a"
    and par: "\<And>i. i < length a \<Longrightarrow> cc_parent_column (a' ! i) = cc_parent_column (a ! i)"
    and kids: "\<And>i. i < length a \<Longrightarrow> set (cdt_children (cc_dtype (a' ! i))) =
        set (cdt_children (cc_dtype (a ! i))) \<union> (if parent = Some i then {length a} else {})"
    and parent: "\<And>p. parent = Some p \<Longrightarrow> p < length a"
    and structs: "\<And>i fs. i < length a \<Longrightarrow> cc_dtype (a' ! i) = CStruct fs \<Longrightarrow>
        im_wf fs \<and> (\<forall>(n, j) \<in> set fs. cc_name ((a' @ es) ! j) = n)"
  shows "forest_wf (a' @ es)"
  unfolding forest_wf_def
proof (intro conjI allI impI)
  let ?b = "a' @ es" and ?k = "length a"
  have low: "?b ! i = a' ! i" if "i < ?k" for i using that len by (simp add: nth_append)
  have high: "?b ! (?k + i) = es ! i" for i using len by (simp add: nth_append)
  have es: "es \<noteq> []" "cc_parent_column (es ! 0) = parent" using seg unfolding segment_wf_def by blast+
  have split: "i < ?k \<or> (\<exists>i'. i = ?k + i' \<and> i' < length es)" if "i < length ?b" for i
    using that len by (cases "i < ?k") (auto simp: not_less le_iff_add)
  {
    fix i assume "i < length ?b"
    show "\<forall>j \<in> set (cdt_children (cc_dtype (?b ! i))).
        i < j \<and> j < length ?b \<and> cc_parent_column (?b ! j) = Some i"
    proof (cases "i < ?k")
      case True
      have "i < j \<and> j < ?k \<and> j < ?k + length es \<and> cc_parent_column (a ! j) = Some i"
        if "j \<in> set (cdt_children (cc_dtype (a ! i)))" for j
        using forest_wf_child [OF f True that] by simp
      then show ?thesis
        using True es high [of 0] len par low by (auto simp: kids [OF True] split: if_splits)
    next
      case False
      then obtain i' where i': "i = ?k + i'" "i' < length es" using split \<open>i < length ?b\<close> by blast
      have "\<not> j < ?k \<and> ?k + i' < j \<and> j < ?k + length es \<and> cc_parent_column (es ! (j - ?k)) = Some (?k + i')"
        if "j \<in> set (cdt_children (cc_dtype (es ! i')))" for j
      proof -
        have "?k + i' < j \<and> j < ?k + length es \<and> cc_parent_column (es ! (j - ?k)) = Some (?k + i')"
          using seg i'(2) that unfolding segment_wf_def by blast
        then show ?thesis by linarith
      qed
      then show ?thesis using i' high len by (auto simp: nth_append)
    qed
  next
    fix i p assume "i < length ?b" and p: "cc_parent_column (?b ! i) = Some p"
    have "p < i \<and> i \<in> set (cdt_children (cc_dtype (?b ! p)))"
    proof (cases "i < ?k")
      case True
      then have "cc_parent_column (a ! i) = Some p" using p low par by simp
      then have "p < i \<and> i \<in> set (cdt_children (cc_dtype (a ! p)))"
        using f True unfolding forest_wf_def by blast
      with True low kids show ?thesis by auto
    next
      case False
      then obtain i' where i': "i = ?k + i'" "i' < length es" using split \<open>i < length ?b\<close> by blast
      show ?thesis
      proof (cases "i' = 0")
        case True
        with p i' es(2) high [of 0] have "parent = Some p" by simp
        with parent kids low True i' show ?thesis by auto
      next
        case False
        then obtain q where "q < i'" "cc_parent_column (es ! i') = Some (?k + q)"
          "?k + i' \<in> set (cdt_children (cc_dtype (es ! q)))"
          using seg i'(2) unfolding segment_wf_def by blast
        with p i' high [of i'] high [of q] show ?thesis by auto
      qed
    qed
    then show "p < i" "i \<in> set (cdt_children (cc_dtype (?b ! p)))" by blast+
  next
    fix i fs assume "i < length ?b" and fs: "cc_dtype (?b ! i) = CStruct fs"
    have "im_wf fs \<and> (\<forall>(n, j) \<in> set fs. cc_name (?b ! j) = n)"
    proof (cases "i < ?k")
      case True
      with fs low structs show ?thesis by simp
    next
      case False
      then obtain i' where i': "i = ?k + i'" "i' < length es" using split \<open>i < length ?b\<close> by blast
      with fs high have es_fs: "cc_dtype (es ! i') = CStruct fs" by simp
      then have w: "im_wf fs" "\<forall>(n, j) \<in> set fs. cc_name (es ! (j - ?k)) = n"
        using seg i'(2) unfolding segment_wf_def by blast+
      have "?k < j" if "(n, j) \<in> set fs" for n j
      proof -
        have "j \<in> set (cdt_children (cc_dtype (es ! i')))" using that es_fs by force
        then show ?thesis using seg i'(2) unfolding segment_wf_def by (meson add_lessD1)
      qed
      then have "cc_name (?b ! j) = n" if "(n, j) \<in> set fs" for n j
        using w(2) that len by (fastforce simp: nth_append)
      with w(1) show ?thesis by blast
    qed
    then show "im_wf fs" "\<forall>(n, j) \<in> set fs. cc_name (?b ! j) = n" by blast+
  }
qed

lemma column_ids_wf_push:
  assumes "column_ids_wf cs" "ids_ok pres cs (preorder c)"
    and "pres \<Longrightarrow> \<forall>x\<in>set (preorder c). the (col_field_id x) < the (cs_next_column_id cs)"
  shows "column_ids_wf (next_after pres (length (preorder c)) (push_all (col_entries pres parent c cs) cs))"
proof -
  let ?es = "col_entries pres parent c cs" and ?k = "length (cs_arena cs)"
  have ids: "cc_id (?es ! i) = entry_id pres cs (preorder c) i" if "i < length (preorder c)" for i
    using col_entries_eq [OF that assms(2)] by (simp add: flat_entry_def Let_def)
  have get: "i < length (cs_arena cs') + length es \<and> cc_id ((cs_arena cs' @ es) ! i) = id'"
    if "im_get (cs_by_id (push_all es cs')) id' = Some i"
      "\<And>id' i. im_get (cs_by_id cs') id' = Some i \<Longrightarrow> i < length (cs_arena cs') \<and> cc_id (cs_arena cs' ! i) = id'"
    for es cs' id' i
    using that
  proof (induction es arbitrary: cs')
    case (Cons e es)
    let ?p = "fst (push_column e cs')"
    have p: "cs_arena ?p = cs_arena cs' @ [e]" by (simp add: push_column_def Let_def)
    have "i < length (cs_arena ?p) + length es \<and> cc_id ((cs_arena ?p @ es) ! i) = id'"
    proof (rule Cons.IH)
      show "im_get (cs_by_id (push_all es ?p)) id' = Some i" using Cons.prems(1) by (simp add: push_all_Cons)
      fix id' i assume "im_get (cs_by_id ?p) id' = Some i"
      then show "i < length (cs_arena ?p) \<and> cc_id (cs_arena ?p ! i) = id'"
        using Cons.prems(2) [of id' i] by (auto simp: push_column_def Let_def nth_append split: if_splits)
    qed
    then show ?case by (simp add: p)
  qed simp
  have "cc_id x < n" if n: "cs_next_column_id (next_after pres (length (preorder c)) cs) = Some n" and "x \<in> set ?es" for x n
  proof -
    obtain i where i: "i < length (preorder c)" "x = ?es ! i"
      using \<open>x \<in> set ?es\<close> by (metis in_set_conv_nth length_col_entries)
    with n assms(3) show ?thesis
      using nth_mem [OF i(1)] by (auto simp: ids entry_id_def next_after_def split: if_splits)
  qed
  moreover have "cc_id x < n" if "cs_next_column_id (next_after pres (length (preorder c)) cs) = Some n" "x \<in> set (cs_arena cs)" for x n
    using that assms(1) by (fastforce simp: column_ids_wf_def next_after_def split: if_splits)
  ultimately show ?thesis
    using get [of ?es cs] assms(1)
    by (auto simp: column_ids_wf_def next_after_def)
qed

lemma next_after_sel [simp]:
  "cs_arena (next_after pres n cs) = cs_arena cs"
  "cs_root_columns (next_after pres n cs) = cs_root_columns cs"
  "cs_by_id (next_after pres n cs) = cs_by_id cs"
  by (simp_all add: next_after_def)

section \<open>Adding a column\<close>

definition names_at :: "catalog_columns \<Rightarrow> usize option \<Rightarrow> (string, usize) imap" where
  "names_at cs parent =
     (case parent of
        None \<Rightarrow> cs_root_columns cs
      | Some p \<Rightarrow> (case cc_dtype (cs_arena cs ! p) of CStruct fs \<Rightarrow> fs | _ \<Rightarrow> []))"

definition can_hold_columns :: "catalog_columns \<Rightarrow> usize option \<Rightarrow> bool" where
  "can_hold_columns cs parent =
     (case parent of
        None \<Rightarrow> True
      | Some p \<Rightarrow> p < length (cs_arena cs) \<and>
          (case cc_dtype (cs_arena cs ! p) of CStruct fs \<Rightarrow> True | _ \<Rightarrow> False))"

definition register_column :: "usize option \<Rightarrow> string \<Rightarrow> usize \<Rightarrow> catalog_columns \<Rightarrow> catalog_columns" where
  "register_column parent n k cs =
     (case parent of
        None \<Rightarrow> cs\<lparr>cs_root_columns := im_insert n k (cs_root_columns cs)\<rparr>
      | Some p \<Rightarrow> arena_update p (\<lambda>c. c\<lparr>cc_dtype := CStruct (im_insert n k (names_at cs parent))\<rparr>) cs)"

definition with_column :: "usize option \<Rightarrow> column \<Rightarrow> catalog_columns \<Rightarrow> catalog_columns" where
  "with_column parent c cs =
     register_column parent (col_name c) (length (cs_arena cs))
       (next_after False (length (preorder c)) (push_all (col_entries False parent c cs) cs))"

lemma add_column_cases:
  assumes "can_hold_columns cs parent" and "ids_ok False cs (preorder c)"
    and "\<And>x. x \<in> set (preorder c) \<Longrightarrow> struct_ok x"
  shows "add_column parent c cs =
    (if col_name c \<in> fst ` set (names_at cs parent) then (cs, Err (column_already_exists (col_name c)))
     else (with_column parent c cs,
           Ok [length (cs_arena cs) ..< length (cs_arena cs) + length (preorder c)]))"
proof -
  let ?cs = "next_after False (length (preorder c)) (push_all (col_entries False parent c cs) cs)"
  have unique: "ensure_column_unique_at_parent cs parent (col_name c) =
      (if col_name c \<in> fst ` set (names_at cs parent) then Err (column_already_exists (col_name c)) else Ok ())"
    using assms(1) by (cases parent)
      (auto simp: ensure_column_unique_at_parent_def names_at_def can_hold_columns_def split: catalog_data_type.splits)
  have arena: "add_column_to_arena c parent False cs =
      (?cs, Ok [length (cs_arena cs) ..< length (cs_arena cs) + length (preorder c)])"
    using assms(2,3) by (intro add_column_to_arena_spec)
  show ?thesis
  proof (cases parent)
    case None
    note run = unique [unfolded None] arena [unfolded None]
    show ?thesis
      unfolding None by (simp add: add_column_def seq_app run with_column_def register_column_def
          length_preorder del: upt_Suc)
  next
    case (Some p)
    note run = unique [unfolded Some] arena [unfolded Some]
    from Some assms(1) obtain fs where p: "p < length (cs_arena cs)" and fs: "cc_dtype (cs_arena cs ! p) = CStruct fs"
      by (auto simp: can_hold_columns_def split: catalog_data_type.splits)
    show ?thesis
      unfolding Some using p fs
      by (simp add: add_column_def seq_app run with_column_def register_column_def
          length_preorder names_at_def nth_append del: upt_Suc)
  qed
qed

lemma forest_wf_struct:
  assumes "forest_wf a" "i < length a" "cc_dtype (a ! i) = CStruct fs"
  shows "im_wf fs" "(n, j) \<in> set fs \<Longrightarrow> j < length a \<and> cc_name (a ! j) = n"
proof -
  have w: "im_wf fs" "\<forall>(n, j) \<in> set fs. cc_name (a ! j) = n"
    using assms unfolding forest_wf_def by blast+
  then show "im_wf fs" by blast
  assume j: "(n, j) \<in> set fs"
  then have "j \<in> set (cdt_children (cc_dtype (a ! i)))" using assms(3) by force
  from forest_wf_child(2) [OF assms(1,2) this] w(2) j show "j < length a \<and> cc_name (a ! j) = n" by blast
qed

lemma column_ids_wf_cong:
  assumes a: "column_ids_wf a" and by_id: "cs_by_id b = cs_by_id a"
    and nxt: "cs_next_column_id b = cs_next_column_id a"
    and ids: "map cc_id (cs_arena b) = map cc_id (cs_arena a)"
  shows "column_ids_wf b"
proof -
  have len: "length (cs_arena b) = length (cs_arena a)" using ids by (metis length_map)
  have nth: "cc_id (cs_arena b ! i) = cc_id (cs_arena a ! i)" if "i < length (cs_arena a)" for i
    using ids len that by (metis nth_map)
  have "cc_id ` set (cs_arena b) = cc_id ` set (cs_arena a)" using ids by (metis set_map)
  then have "(\<forall>c \<in> set (cs_arena b). cc_id c < n) = (\<forall>c \<in> set (cs_arena a). cc_id c < n)" for n
    by (metis (no_types, lifting) image_iff)
  with a len nth show ?thesis unfolding column_ids_wf_def by_id nxt by simp
qed

lemma names_at_wf:
  assumes "columns_wf cs" "can_hold_columns cs parent"
  shows "im_wf (names_at cs parent)"
proof (cases parent)
  case None
  then show ?thesis using assms by (simp add: names_at_def columns_wf_def roots_wf_def)
next
  case (Some p)
  with assms obtain fs where "p < length (cs_arena cs)" "cc_dtype (cs_arena cs ! p) = CStruct fs" "forest_wf (cs_arena cs)"
    by (auto simp: can_hold_columns_def columns_wf_def split: catalog_data_type.splits)
  with forest_wf_struct(1) show ?thesis unfolding names_at_def Some by simp
qed

lemma with_column_wf:
  assumes wf: "columns_wf cs" and hold: "can_hold_columns cs parent" and ids: "ids_ok False cs (preorder c)"
    and ok: "\<And>x. x \<in> set (preorder c) \<Longrightarrow> struct_ok x"
    and new: "col_name c \<notin> fst ` set (names_at cs parent)"
  shows "columns_wf (with_column parent c cs)"
proof -
  let ?k = "length (cs_arena cs)" and ?es = "col_entries False parent c cs"
  let ?cs = "next_after False (length (preorder c)) (push_all ?es cs)"
  have seg: "segment_wf ?k parent ?es" using segment_wf_col_entries [OF ids ok] .
  have f: "forest_wf (cs_arena cs)" and r: "roots_wf cs" using wf by (auto simp: columns_wf_def)
  have cids: "column_ids_wf ?cs"
    using column_ids_wf_push [OF _ ids] wf by (simp add: columns_wf_def)
  have sel: "cs_arena ?cs = cs_arena cs @ ?es" "cs_root_columns ?cs = cs_root_columns cs"
    by (simp_all add: next_after_def)
  have es: "?es \<noteq> []" "cc_parent_column (?es ! 0) = parent"
    using seg unfolding segment_wf_def by blast+
  have es_name: "cc_name (?es ! 0) = col_name c"
    using col_entries_eq [OF _ ids, of 0] flatten_nth_column [of 0 c] preorder.simps [of c]
    by (simp add: flat_entry_def Let_def)
  have inner: "\<exists>p. cc_parent_column (?es ! i) = Some p" if "i < length ?es" "0 < i" for i
    using seg that unfolding segment_wf_def by blast
  have old_roots: "im_wf (cs_root_columns cs)"
    "\<And>n i. (n, i) \<in> set (cs_root_columns cs) \<Longrightarrow> i < ?k \<and> cc_name (cs_arena cs ! i) = n \<and> cc_parent_column (cs_arena cs ! i) = None"
    "\<And>i. i < ?k \<Longrightarrow> cc_parent_column (cs_arena cs ! i) = None \<Longrightarrow> (cc_name (cs_arena cs ! i), i) \<in> set (cs_root_columns cs)"
    using r unfolding roots_wf_def by blast+
  show ?thesis
  proof (cases parent)
    case None
    have roots: "im_insert (col_name c) ?k (cs_root_columns cs) = cs_root_columns cs @ [(col_name c, ?k)]"
      using new None by (intro im_insert_new) (simp add: names_at_def)
    have eq: "with_column parent c cs = ?cs\<lparr>cs_root_columns := cs_root_columns cs @ [(col_name c, ?k)]\<rparr>"
      by (simp add: with_column_def register_column_def None roots)
    have "forest_wf (cs_arena cs @ ?es)"
    proof (rule forest_wf_extend [OF f seg])
      fix i fs assume "i < ?k" "cc_dtype (cs_arena cs ! i) = CStruct fs"
      from forest_wf_struct [OF f this] show "im_wf fs \<and> (\<forall>(n, j)\<in>set fs. cc_name ((cs_arena cs @ ?es) ! j) = n)"
        by (auto simp: nth_append)
    qed (simp_all add: None)
    moreover have "roots_wf (with_column parent c cs)"
    proof -
      have ar: "cs_arena (with_column parent c cs) = cs_arena cs @ ?es"
        and rt: "cs_root_columns (with_column parent c cs) = cs_root_columns cs @ [(col_name c, ?k)]"
        by (simp_all add: eq)
      show ?thesis
        unfolding roots_wf_def ar rt
      proof (intro conjI allI impI)
        show "im_wf (cs_root_columns cs @ [(col_name c, ?k)])"
          using old_roots(1) new None by (simp add: names_at_def)
      next
        have "i < ?k + length ?es \<and> cc_name ((cs_arena cs @ ?es) ! i) = n
            \<and> cc_parent_column ((cs_arena cs @ ?es) ! i) = None"
          if "(n, i) \<in> set (cs_root_columns cs)" for n i
          using old_roots(2) [OF that] by (simp add: nth_append)
        moreover have "?k < ?k + length ?es \<and> cc_name ((cs_arena cs @ ?es) ! ?k) = col_name c
            \<and> cc_parent_column ((cs_arena cs @ ?es) ! ?k) = None"
          using es es_name None by (simp add: nth_append del: length_col_entries)
        ultimately show "\<forall>(n, i)\<in>set (cs_root_columns cs @ [(col_name c, ?k)]). i < length (cs_arena cs @ ?es)
            \<and> cc_name ((cs_arena cs @ ?es) ! i) = n \<and> cc_parent_column ((cs_arena cs @ ?es) ! i) = None"
          by (auto simp del: length_col_entries)
      next
        fix i assume i: "i < length (cs_arena cs @ ?es)"
          and p: "cc_parent_column ((cs_arena cs @ ?es) ! i) = None"
        have "i < ?k \<or> i = ?k"
        proof (rule ccontr)
          assume n: "\<not> ?thesis"
          then have "\<exists>p. cc_parent_column (?es ! (i - ?k)) = Some p" using i by (intro inner) auto
          with p n show False by (simp add: nth_append)
        qed
        then show "(cc_name ((cs_arena cs @ ?es) ! i), i) \<in> set (cs_root_columns cs @ [(col_name c, ?k)])"
          using old_roots(3) [of i] p es_name by (auto simp: nth_append)
      qed
    qed
    moreover have "column_ids_wf (with_column parent c cs)"
      using cids by (simp add: eq column_ids_wf_def)
    ultimately show ?thesis by (simp add: columns_wf_def eq sel)
  next
    case (Some p)
    then obtain fs where p: "p < ?k" and fs: "cc_dtype (cs_arena cs ! p) = CStruct fs"
      using hold by (auto simp: can_hold_columns_def split: catalog_data_type.splits)
    have nm: "names_at cs parent = fs" using Some fs by (simp add: names_at_def)
    have ins: "im_insert (col_name c) ?k fs = fs @ [(col_name c, ?k)]"
      using new nm by (intro im_insert_new) simp
    let ?a' = "(cs_arena cs)[p := (cs_arena cs ! p)\<lparr>cc_dtype := CStruct (fs @ [(col_name c, ?k)])\<rparr>]"
    have eq: "with_column parent c cs = ?cs\<lparr>cs_arena := ?a' @ ?es\<rparr>"
      using p fs by (simp add: with_column_def register_column_def arena_update_def Some sel nth_append
          names_at_def ins list_update_append)
    have nth: "cc_name (?a' ! i) = cc_name (cs_arena cs ! i)"
      "cc_parent_column (?a' ! i) = cc_parent_column (cs_arena cs ! i)"
      "cc_id (?a' ! i) = cc_id (cs_arena cs ! i)" if "i < ?k" for i
      using that p by (cases "i = p"; simp)+
    have fsw: "im_wf fs" "\<And>n j. (n, j) \<in> set fs \<Longrightarrow> j < ?k \<and> cc_name (cs_arena cs ! j) = n"
    proof -
      show "im_wf fs" using names_at_wf [OF wf hold] nm by simp
      fix n j assume j: "(n, j) \<in> set fs"
      then have "j \<in> set (cdt_children (cc_dtype (cs_arena cs ! p)))" using fs by force
      from forest_wf_child(2) [OF f p this] show "j < ?k \<and> cc_name (cs_arena cs ! j) = n"
        using f p fs j unfolding forest_wf_def by blast
    qed
    have "forest_wf (?a' @ ?es)"
    proof (rule forest_wf_extend [OF f seg])
      fix i gs assume i: "i < ?k" and gs: "cc_dtype (?a' ! i) = CStruct gs"
      show "im_wf gs \<and> (\<forall>(n, j)\<in>set gs. cc_name ((?a' @ ?es) ! j) = n)"
      proof (cases "i = p")
        case True
        with gs p have gs': "gs = fs @ [(col_name c, ?k)]" by simp
        show ?thesis
          using fsw new nm nth(1) es_name es(1) by (auto simp: gs' nth_append)
      next
        case False
        with gs have old: "cc_dtype (cs_arena cs ! i) = CStruct gs" by simp
        have "im_wf gs" using f i old unfolding forest_wf_def by blast
        moreover have "cc_name ((?a' @ ?es) ! j) = n" if j: "(n, j) \<in> set gs" for n j
        proof -
          have "j \<in> set (cdt_children (cc_dtype (cs_arena cs ! i)))" using j old by force
          from forest_wf_child(2) [OF f i this] have jk: "j < ?k" .
          moreover have "cc_name (cs_arena cs ! j) = n" using f i old j unfolding forest_wf_def by blast
          ultimately show ?thesis using nth(1) [OF jk] by (simp add: nth_append)
        qed
        ultimately show ?thesis by blast
      qed
    next
      fix i assume "i < ?k"
      then show "set (cdt_children (cc_dtype (?a' ! i))) =
          set (cdt_children (cc_dtype (cs_arena cs ! i))) \<union> (if parent = Some i then {?k} else {})"
        using p fs Some by (cases "i = p") auto
    qed (use p Some nth in auto)
    moreover have "roots_wf (with_column parent c cs)"
    proof -
      have some: "cc_parent_column (?es ! i) \<noteq> None" if "i < length ?es" for i
        using that inner es Some by (cases "i = 0") auto
      have low: "i < ?k" if i: "i < length (?a' @ ?es)" "cc_parent_column ((?a' @ ?es) ! i) = None" for i
      proof (rule ccontr)
        assume n: "\<not> i < ?k"
        then have "cc_parent_column (?es ! (i - ?k)) \<noteq> None" using i(1) by (intro some) auto
        with i(2) n show False by (simp add: nth_append)
      qed
      have ar: "cs_arena (with_column parent c cs) = ?a' @ ?es"
        and rt: "cs_root_columns (with_column parent c cs) = cs_root_columns cs"
        by (simp_all add: eq)
      have old: "(?a' @ ?es) ! i = ?a' ! i" if "i < ?k" for i using that by (simp add: nth_append)
      show ?thesis
        unfolding roots_wf_def ar rt
      proof (intro conjI allI impI)
        have "i < length (?a' @ ?es) \<and> cc_name ((?a' @ ?es) ! i) = n
            \<and> cc_parent_column ((?a' @ ?es) ! i) = None" if "(n, i) \<in> set (cs_root_columns cs)" for n i
          using old_roots(2) [OF that] old nth by simp
        then show "\<forall>(n, i)\<in>set (cs_root_columns cs). i < length (?a' @ ?es)
            \<and> cc_name ((?a' @ ?es) ! i) = n \<and> cc_parent_column ((?a' @ ?es) ! i) = None" by blast
        fix i assume i: "i < length (?a' @ ?es)" "cc_parent_column ((?a' @ ?es) ! i) = None"
        from low [OF this] i(2) old nth old_roots(3) [of i]
        show "(cc_name ((?a' @ ?es) ! i), i) \<in> set (cs_root_columns cs)" by simp
      qed (rule old_roots(1))
    qed
    moreover have "column_ids_wf (with_column parent c cs)"
    proof -
      have "map cc_id ?a' = map cc_id (cs_arena cs)"
        using p by (simp add: map_update list_update_same_conv)
      then have "map cc_id (cs_arena (with_column parent c cs)) = map cc_id (cs_arena ?cs)"
        by (simp add: eq sel)
      from column_ids_wf_cong [OF cids _ _ this] show ?thesis by (simp add: eq)
    qed
    ultimately show ?thesis by (simp add: columns_wf_def eq)
  qed
qed

section \<open>Building the columns of a schema\<close>

lemma add_root_column_with:
  assumes "ids_ok False cs (preorder c)" "\<And>x. x \<in> set (preorder c) \<Longrightarrow> struct_ok x"
  shows "add_root_column False c cs = (with_column None c cs, Ok ())"
  using add_column_to_arena_spec [OF assms(2,1), of None]
  by (simp add: add_root_column_def seq_app with_column_def register_column_def length_preorder del: upt_Suc)

lemma with_column_roots:
  assumes "col_name c \<notin> fst ` set (cs_root_columns cs)"
  shows "fst ` set (cs_root_columns (with_column None c cs)) = insert (col_name c) (fst ` set (cs_root_columns cs))"
    and "cs_next_column_id cs = Some n \<Longrightarrow>
      cs_next_column_id (with_column None c cs) = Some (n + int (length (preorder c)))"
  using assms by (simp_all add: with_column_def register_column_def next_after_def)

lemma for_each_add_root_wf:
  assumes "columns_wf cs" "cs_next_column_id cs = Some n" "i64_min \<le> n" "n + int (length (nodes cols)) \<le> i64_max"
    and "\<And>x. x \<in> set (nodes cols) \<Longrightarrow> struct_ok x" and "distinct (map col_name cols)"
    and "col_name ` set cols \<inter> fst ` set (cs_root_columns cs) = {}"
  shows "columns_wf (fst (for_each (add_root_column False) cols cs))"
  using assms
proof (induction cols arbitrary: cs n)
  case (Cons c cols)
  have ids: "ids_ok False cs (preorder c)" using Cons.prems(2-4) by (auto simp: ids_ok_def)
  have ok: "\<And>x. x \<in> set (preorder c) \<Longrightarrow> struct_ok x" using Cons.prems(5) by auto
  have new: "col_name c \<notin> fst ` set (cs_root_columns cs)" using Cons.prems(7) by auto
  have wf: "columns_wf (with_column None c cs)"
    using with_column_wf [OF Cons.prems(1) _ ids ok] new by (simp add: can_hold_columns_def names_at_def)
  have "columns_wf (fst (for_each (add_root_column False) cols (with_column None c cs)))"
    using Cons.prems with_column_roots [OF new]
    by (intro Cons.IH [OF wf, of "n + int (length (preorder c))"]) auto
  then show ?case by (simp add: seq_app add_root_column_with [OF ids ok])
qed simp

lemma columns_new_wf: "columns_wf (columns_new n)"
  by (simp add: columns_wf_def forest_wf_def roots_wf_def column_ids_wf_def columns_new_def)

lemma columns_from_schema_wf:
  assumes "distinct (map col_name cols)" and "\<And>x. x \<in> set (nodes cols) \<Longrightarrow> struct_ok x"
    and "int (length (nodes cols)) < i64_max" and "columns_from_schema (schema_of cols) None = Ok cs"
  shows "columns_wf cs"
proof -
  have "columns_wf (fst (for_each (add_root_column False) cols (columns_new (Some 1))))"
    using assms by (intro for_each_add_root_wf [where n = 1] columns_new_wf) (auto simp: columns_new_def i64_min_def)
  moreover have "im_values (schema_of cols) = cols" by (simp add: comp_def)
  ultimately show ?thesis
    using assms(4) by (auto simp: columns_from_schema_def split: prod.splits res.splits)
qed

end
