(* ===== verification/Paths.thy ===== *)
theory Paths
  imports Errors
begin

text \<open>
  \<open>DucklakePath\<close> of \<open>io/path.rs\<close>: the paths stored in the catalog. URLs are represented by
  their serialization; the operations of the \<open>url\<close> crate and of \<open>std::path\<close> the code calls
  are the fields of \<open>url_ops\<close>, a parameter of the definitions.
\<close>

type_synonym url = string

datatype url_parse_error = RelativeUrlWithoutBase | OtherUrlParseError string

record url_ops =
  is_absolute_path :: "string \<Rightarrow> bool"
  url_from_file_path :: "string \<Rightarrow> url option"
  url_to_file_path :: "url \<Rightarrow> string option"
  url_parse :: "string \<Rightarrow> (url_parse_error, url) res"
  url_join :: "url \<Rightarrow> string \<Rightarrow> url option"
  url_path :: "url \<Rightarrow> string"
  url_set_path :: "url \<Rightarrow> string \<Rightarrow> url"
  url_scheme :: "url \<Rightarrow> string"
  url_host_str :: "url \<Rightarrow> string option"

datatype ducklake_path = Absolute url | Relative string

definition path_new :: "url_ops \<Rightarrow> string \<Rightarrow> bool \<Rightarrow> ducklake_path result" where
  "path_new U path is_relative =
     (if is_relative then Ok (Relative path)
      else if is_absolute_path U path
      then and_then (expect ''from_file_path'' (url_from_file_path U path)) (\<lambda>u. Ok (Absolute u))
      else (case url_parse U path of
              Ok u \<Rightarrow> Ok (Absolute u)
            | _ \<Rightarrow> Panic ''Invalid URL''))"

definition path_join :: "url_ops \<Rightarrow> ducklake_path \<Rightarrow> ducklake_path \<Rightarrow> ducklake_path result" where
  "path_join U self other =
     (case other of
        Absolute o' \<Rightarrow> Ok (Absolute o')
      | Relative o' \<Rightarrow>
          (case self of
             Absolute base \<Rightarrow> and_then (expect ''join'' (url_join U base o')) (\<lambda>u. Ok (Absolute u))
           | Relative base \<Rightarrow>
               (if ends_with base slash then Ok (Relative (base @ o'))
                else Panic ''assertion failed: base.ends_with'')))"

definition path_join_str :: "url_ops \<Rightarrow> ducklake_path \<Rightarrow> string \<Rightarrow> ducklake_path result" where
  "path_join_str U self other = path_join U self (Relative other)"

fun path_is_relative :: "ducklake_path \<Rightarrow> bool" where
  "path_is_relative (Relative p) = True"
| "path_is_relative (Absolute u) = False"

definition path_is_absolute :: "ducklake_path \<Rightarrow> bool" where
  "path_is_absolute p \<longleftrightarrow> \<not> path_is_relative p"

definition ensure_directory :: "url_ops \<Rightarrow> ducklake_path \<Rightarrow> ducklake_path" where
  "ensure_directory U self =
     (case self of
        Absolute u \<Rightarrow>
          Absolute (if \<not> ends_with (url_path U u) slash then url_set_path U u (url_path U u @ [slash]) else u)
      | Relative p \<Rightarrow> (if \<not> ends_with p slash then Relative (p @ [slash]) else Relative p))"

fun path_as_str :: "ducklake_path \<Rightarrow> string" where
  "path_as_str (Absolute u) = u"
| "path_as_str (Relative p) = p"

definition path_default :: ducklake_path where
  "path_default = Relative []"

definition path_from_str :: "url_ops \<Rightarrow> string \<Rightarrow> (url_parse_error, ducklake_path) res" where
  "path_from_str U s =
     (if is_absolute_path U s
      then and_then (expect ''from_file_path'' (url_from_file_path U s)) (\<lambda>u. Ok (Absolute u))
      else (case url_parse U s of
              Ok u \<Rightarrow> Ok (Absolute u)
            | Err RelativeUrlWithoutBase \<Rightarrow> Ok (Relative s)
            | Err e \<Rightarrow> Err e
            | Panic m \<Rightarrow> Panic m))"

text \<open>\<open>io::Path\<close>: the store a URL resolves to (all storage features enabled).\<close>

datatype io_path =
    Local string
  | S3 string string
  | GCS string string
  | Azure string string

definition io_path_new :: "url_ops \<Rightarrow> url \<Rightarrow> io_path result" where
  "io_path_new U u =
     (let host = expect ''host_str'' (url_host_str U u); scheme = url_scheme U u in
      if scheme = ''file''
      then and_then (expect ''to_file_path'' (url_to_file_path U u)) (\<lambda>p. Ok (Local p))
      else if scheme = ''s3'' then and_then host (\<lambda>h. Ok (S3 h (url_path U u)))
      else if scheme = ''gs'' then and_then host (\<lambda>h. Ok (GCS h (url_path U u)))
      else if scheme = ''az'' \<or> scheme = ''abfs'' then and_then host (\<lambda>h. Ok (Azure h (url_path U u)))
      else Err (UnsupportedUrlScheme scheme))"

text \<open>\<open>resolve\<close>, with the current directory as an argument.\<close>

definition path_resolve :: "url_ops \<Rightarrow> string \<Rightarrow> ducklake_path \<Rightarrow> io_path result" where
  "path_resolve U cwd self =
     (case self of
        Absolute u \<Rightarrow> io_path_new U u
      | Relative p \<Rightarrow>
          and_then (expect ''from_file_path'' (url_from_file_path U (cwd @ [slash] @ p))) (io_path_new U))"

section \<open>Properties\<close>

lemma ends_with_snoc [simp]: "ends_with (s @ [c]) d \<longleftrightarrow> c = d"
  by (simp add: ends_with_def)

lemma ends_with_append: "ends_with t c \<Longrightarrow> ends_with (s @ t) c"
  by (simp add: ends_with_def)

definition is_directory :: "url_ops \<Rightarrow> ducklake_path \<Rightarrow> bool" where
  "is_directory U p =
     (case p of Absolute u \<Rightarrow> ends_with (url_path U u) slash | Relative s \<Rightarrow> ends_with s slash)"

lemma ensure_directory_relative: "is_directory U (ensure_directory U (Relative p))"
  by (simp add: is_directory_def ensure_directory_def)

lemma ensure_directory_id: "is_directory U p \<Longrightarrow> ensure_directory U p = p"
  by (cases p) (simp_all add: is_directory_def ensure_directory_def)

lemma path_join_relative:
  "is_directory U (Relative a) \<Longrightarrow> path_join U (Relative a) (Relative b) = Ok (Relative (a @ b))"
  by (simp add: path_join_def is_directory_def)

lemma path_join_assoc:
  assumes "is_directory U (Relative a)" "is_directory U (Relative b)"
  shows "and_then (path_join U (Relative a) (Relative b)) (\<lambda>ab. path_join U ab c) =
         and_then (path_join U (Relative b) c) (path_join U (Relative a))"
  using assms ends_with_append [of b slash a]
  by (cases c) (simp_all add: path_join_def is_directory_def)

end
