(* ===== verification/Catalog.thy ===== *)
theory Catalog
  imports Column_Growth Paths
begin

text \<open>
  The catalog (\<open>catalog/\<close>): arenas of schemas, tables, views and macros, the name lookups
  from schemas to their objects, and the operations of \<open>catalog/mod.rs\<close> and of the views in
  \<open>catalog/views/\<close>. A reference (\<open>SchemaRef\<close>, \<open>TableRef\<close>, \dots) is the index into its
  arena; an operation on a view is a function of the catalog and that index.
\<close>

section \<open>State\<close>

record 'a arena =
  ar_items :: "'a list"
  ar_by_id :: "(i64, usize) imap"

definition arena_new :: "'a arena" where
  "arena_new = \<lparr>ar_items = [], ar_by_id = []\<rparr>"

definition arena_push :: "'a \<Rightarrow> i64 option \<Rightarrow> 'a arena \<Rightarrow> 'a arena \<times> usize" where
  "arena_push entity id' a =
     (let idx = length (ar_items a) in
      (\<lparr>ar_items = ar_items a @ [entity],
        ar_by_id = (case id' of None \<Rightarrow> ar_by_id a | Some i \<Rightarrow> im_insert i idx (ar_by_id a))\<rparr>, idx))"

definition arena_register_id :: "usize \<Rightarrow> i64 \<Rightarrow> 'a arena \<Rightarrow> 'a arena" where
  "arena_register_id idx id' a = a\<lparr>ar_by_id := im_insert id' idx (ar_by_id a)\<rparr>"

definition arena_map_id :: "'a arena \<Rightarrow> i64 \<Rightarrow> usize option" where
  "arena_map_id a id' = im_get (ar_by_id a) id'"

definition arena_get :: "'a arena \<Rightarrow> usize \<Rightarrow> ('e, 'a) res" where
  "arena_get a idx = idx_get (ar_items a) idx"

text \<open>Writing through \<open>get_mut\<close>.\<close>

definition arena_modify :: "usize \<Rightarrow> ('a \<Rightarrow> 'a) \<Rightarrow> 'a arena \<Rightarrow> 'a arena" where
  "arena_modify idx f a = a\<lparr>ar_items := (ar_items a)[idx := f (ar_items a ! idx)]\<rparr>"

type_synonym schema_ref = usize
type_synonym table_ref = usize
type_synonym view_ref = usize
type_synonym macro_ref = usize

record column_ref =
  cr_table_ref :: table_ref
  cr_column_idx :: usize

record catalog_schema =
  csc_id :: "i64 option"
  csc_name :: string
  csc_tables :: "(string, usize) imap"
  csc_views :: "(string, usize) imap"
  csc_macros :: "(string \<times> macro_type, usize) imap"
  csc_path :: ducklake_path

record catalog_partition_column =
  cpc_column :: usize
  cpc_transform :: partition_transform

record catalog_table_partition =
  ctp_id :: "i64 option"
  ctp_columns :: "catalog_partition_column list"

record catalog_sort_column =
  cso_column :: usize
  cso_dialect :: string
  cso_direction :: sort_direction
  cso_null_order :: null_order

record catalog_table =
  ct_id :: "i64 option"
  ct_name :: qualified_name
  ct_columns :: catalog_columns
  ct_partition :: "catalog_table_partition option"
  ct_sort_info :: "catalog_sort_column list option"
  ct_tags :: tags
  ct_path :: ducklake_path

record catalog_view =
  cv_id :: "i64 option"
  cv_name :: qualified_name
  cv_sql :: string
  cv_dialect :: string
  cv_column_aliases :: "string list option"
  cv_tags :: tags

record catalog_macro =
  cm_id :: "i64 option"
  cm_name :: qualified_name
  cm_macro_type :: macro_type
  cm_implementations :: "macro_implementation list"

record catalog =
  schema_arena :: "catalog_schema arena"
  table_arena :: "catalog_table arena"
  view_arena :: "catalog_view arena"
  macro_arena :: "catalog_macro arena"
  schemas :: "(string, usize) imap"

definition catalog_new :: catalog where
  "catalog_new = \<lparr>schema_arena = arena_new, table_arena = arena_new, view_arena = arena_new,
     macro_arena = arena_new, schemas = []\<rparr>"

record table_info =
  ti_name :: qualified_name
  ti_schema :: schema
  ti_partitioning :: "partition_column list option"
  ti_sort_info :: "sort_expression list option"
  ti_tags :: tags

record view_info =
  vi_name :: qualified_name
  vi_sql :: string
  vi_dialect :: string
  vi_column_aliases :: "string list option"
  vi_tags :: tags

record macro_info =
  mac_name :: qualified_name
  mac_macro_type :: macro_type
  mac_implementations :: "macro_implementation list"

section \<open>Partitioning and sorting of a table\<close>

definition partition_from_partition ::
  "partition_column list \<Rightarrow> catalog_columns \<Rightarrow> catalog_table_partition result"
where
  "partition_from_partition p columns =
     and_then (collect (\<lambda>col. and_then (arena_idx_by_path columns [pc_column col]) (\<lambda>idx.
                 Ok \<lparr>cpc_column = idx, cpc_transform = pc_transform col\<rparr>)) p)
       (\<lambda>cols. Ok \<lparr>ctp_id = None, ctp_columns = cols\<rparr>)"

definition into_partition :: "catalog_table_partition \<Rightarrow> catalog_columns \<Rightarrow> partition_column list result" where
  "into_partition p columns =
     collect (\<lambda>col. and_then (idx_get (cs_arena columns) (cpc_column col)) (\<lambda>c.
        Ok \<lparr>pc_column = cc_name c, pc_transform = cpc_transform col\<rparr>)) (ctp_columns p)"

definition column_by_name :: "catalog_columns \<Rightarrow> string \<Rightarrow> usize result" where
  "column_by_name columns name =
     ok_or (NotFound ''column referenced by sort expression'' name) (im_get (cs_root_columns columns) name)"

definition sort_from_sort_info ::
  "sort_expression list \<Rightarrow> catalog_columns \<Rightarrow> catalog_sort_column list result"
where
  "sort_from_sort_info sort_info columns =
     collect (\<lambda>e.
       if se_expression e = [] \<or> se_dialect e \<noteq> ''duckdb''
       then Err (InvalidChanges ''sort columns require a nonempty name and the DuckDB dialect'')
       else and_then (column_by_name columns (se_expression e)) (\<lambda>idx.
         Ok \<lparr>cso_column = idx, cso_dialect = se_dialect e, cso_direction = se_direction e,
             cso_null_order = se_null_order e\<rparr>)) sort_info"

definition into_sort_info :: "catalog_sort_column list \<Rightarrow> catalog_columns \<Rightarrow> sort_expression list result" where
  "into_sort_info srt columns =
     collect (\<lambda>s. and_then (idx_get (cs_arena columns) (cso_column s)) (\<lambda>c.
       Ok \<lparr>se_expression = cc_name c, se_dialect = cso_dialect s, se_direction = cso_direction s,
           se_null_order = cso_null_order s\<rparr>)) srt"

definition references_column :: "catalog_sort_column list \<Rightarrow> usize \<Rightarrow> bool" where
  "references_column srt idx \<longleftrightarrow> list_ex (\<lambda>s. cso_column s = idx) srt"

text \<open>\<open>Option<Result<_>>::transpose\<close> of an optional conversion.\<close>

definition opt_res :: "('a \<Rightarrow> ('e, 'b) res) \<Rightarrow> 'a option \<Rightarrow> ('e, 'b option) res" where
  "opt_res f o' = (case o' of None \<Rightarrow> Ok None | Some x \<Rightarrow> and_then (f x) (\<lambda>y. Ok (Some y)))"

section \<open>Lookups (\<open>TryIntoRef\<close>)\<close>

definition schema_by_name :: "catalog \<Rightarrow> string \<Rightarrow> schema_ref result" where
  "schema_by_name c name = ok_or (schema_not_found name) (im_get (schemas c) name)"

definition schema_by_id :: "catalog \<Rightarrow> i64 \<Rightarrow> schema_ref result" where
  "schema_by_id c id' = ok_or (EntityNotFound id') (arena_map_id (schema_arena c) id')"

definition schema_inner :: "catalog \<Rightarrow> schema_ref \<Rightarrow> catalog_schema result" where
  "schema_inner c r = arena_get (schema_arena c) r"

definition table_by_name :: "catalog \<Rightarrow> qualified_name \<Rightarrow> table_ref result" where
  "table_by_name c name =
     and_then (schema_by_name c (qn_schema name)) (\<lambda>s.
     and_then (schema_inner c s) (\<lambda>sch.
       ok_or (table_not_found name) (im_get (csc_tables sch) (qn_name name))))"

definition table_by_id :: "catalog \<Rightarrow> i64 \<Rightarrow> table_ref result" where
  "table_by_id c id' = ok_or (EntityNotFound id') (arena_map_id (table_arena c) id')"

definition table_inner :: "catalog \<Rightarrow> table_ref \<Rightarrow> catalog_table result" where
  "table_inner c r = arena_get (table_arena c) r"

definition view_by_name :: "catalog \<Rightarrow> qualified_name \<Rightarrow> view_ref result" where
  "view_by_name c name =
     and_then (schema_by_name c (qn_schema name)) (\<lambda>s.
     and_then (schema_inner c s) (\<lambda>sch.
       ok_or (view_not_found name) (im_get (csc_views sch) (qn_name name))))"

definition view_by_id :: "catalog \<Rightarrow> i64 \<Rightarrow> view_ref result" where
  "view_by_id c id' = ok_or (EntityNotFound id') (arena_map_id (view_arena c) id')"

definition view_inner :: "catalog \<Rightarrow> view_ref \<Rightarrow> catalog_view result" where
  "view_inner c r = arena_get (view_arena c) r"

definition macro_by_name :: "catalog \<Rightarrow> qualified_name \<Rightarrow> macro_type \<Rightarrow> macro_ref result" where
  "macro_by_name c name ty =
     and_then (schema_by_name c (qn_schema name)) (\<lambda>s.
     and_then (schema_inner c s) (\<lambda>sch.
       ok_or (macro_not_found name) (im_get (csc_macros sch) (to_ascii_lowercase (qn_name name), ty))))"

definition macro_by_id :: "catalog \<Rightarrow> i64 \<Rightarrow> macro_ref result" where
  "macro_by_id c id' = ok_or (EntityNotFound id') (arena_map_id (macro_arena c) id')"

definition macro_inner :: "catalog \<Rightarrow> macro_ref \<Rightarrow> catalog_macro result" where
  "macro_inner c r = arena_get (macro_arena c) r"

definition modify_schema :: "schema_ref \<Rightarrow> (catalog_schema \<Rightarrow> catalog_schema) \<Rightarrow> catalog \<Rightarrow> catalog" where
  "modify_schema r f c = c\<lparr>schema_arena := arena_modify r f (schema_arena c)\<rparr>"

definition modify_table :: "table_ref \<Rightarrow> (catalog_table \<Rightarrow> catalog_table) \<Rightarrow> catalog \<Rightarrow> catalog" where
  "modify_table r f c = c\<lparr>table_arena := arena_modify r f (table_arena c)\<rparr>"


section \<open>Operations of the catalog (\<open>catalog/mod.rs\<close>)\<close>

type_synonym 'a catalog_op = "(catalog, ducklake_error, 'a) op"

text \<open>\<open>if let Ok(existing) = self.find(..) { return Err(error(existing.name())) }\<close>\<close>

definition reject_existing ::
  "(catalog \<Rightarrow> 'r result) \<Rightarrow> (catalog \<Rightarrow> 'r \<Rightarrow> qualified_name result) \<Rightarrow> (qualified_name \<Rightarrow> ducklake_error)
    \<Rightarrow> unit catalog_op"
where
  "reject_existing lookup name_of error = query (\<lambda>c.
     case lookup c of
       Ok r \<Rightarrow> and_then (name_of c r) (\<lambda>n. Err (error n))
     | Err _ \<Rightarrow> Ok ()
     | Panic m \<Rightarrow> Panic m)"

definition table_name :: "catalog \<Rightarrow> table_ref \<Rightarrow> qualified_name result" where
  "table_name c r = and_then (table_inner c r) (\<lambda>t. Ok (ct_name t))"

definition view_name :: "catalog \<Rightarrow> view_ref \<Rightarrow> qualified_name result" where
  "view_name c r = and_then (view_inner c r) (\<lambda>v. Ok (cv_name v))"

definition macro_name :: "catalog \<Rightarrow> macro_ref \<Rightarrow> qualified_name result" where
  "macro_name c r = and_then (macro_inner c r) (\<lambda>m. Ok (cm_name m))"

text \<open>\<open>self.schema_mut(name)?\<close> followed by a change of the schema's maps.\<close>

definition update_schema_named :: "string \<Rightarrow> (catalog_schema \<Rightarrow> catalog_schema) \<Rightarrow> schema_ref catalog_op" where
  "update_schema_named name f =
     seq (query (\<lambda>c. schema_by_name c name)) (\<lambda>s.
     seq (query (\<lambda>c. schema_inner c s)) (\<lambda>_.
     seq (update (modify_schema s f)) (\<lambda>_. ret s)))"

definition add_schema :: "string \<Rightarrow> ducklake_path \<Rightarrow> schema_ref catalog_op" where
  "add_schema name path c =
     (case schema_by_name c name of
        Ok _ \<Rightarrow> (c, Err (schema_already_exists name))
      | _ \<Rightarrow>
         (let (a, idx) = arena_push \<lparr>csc_id = None, csc_name = name, csc_tables = [], csc_views = [],
                            csc_macros = [], csc_path = path\<rparr> None (schema_arena c)
          in (c\<lparr>schema_arena := a, schemas := im_insert name idx (schemas c)\<rparr>, Ok idx)))"

definition push_macro :: "catalog_macro \<Rightarrow> macro_ref catalog_op" where
  "push_macro m c = (let (a, idx) = arena_push m None (macro_arena c) in (c\<lparr>macro_arena := a\<rparr>, Ok idx))"

definition push_table :: "catalog_table \<Rightarrow> table_ref catalog_op" where
  "push_table t c = (let (a, idx) = arena_push t None (table_arena c) in (c\<lparr>table_arena := a\<rparr>, Ok idx))"

definition push_view :: "catalog_view \<Rightarrow> view_ref catalog_op" where
  "push_view v c = (let (a, idx) = arena_push v None (view_arena c) in (c\<lparr>view_arena := a\<rparr>, Ok idx))"

definition macro_key :: "string \<Rightarrow> macro_type \<Rightarrow> string \<times> macro_type" where
  "macro_key n ty = (to_ascii_lowercase n, ty)"

definition add_macro :: "macro_info \<Rightarrow> (schema_ref \<times> macro_ref) catalog_op" where
  "add_macro info =
     seq (reject_existing (\<lambda>c. macro_by_name c (mac_name info) (mac_macro_type info)) macro_name macro_already_exists) (\<lambda>_.
     seq (push_macro \<lparr>cm_id = None, cm_name = mac_name info, cm_macro_type = mac_macro_type info,
                      cm_implementations = mac_implementations info\<rparr>) (\<lambda>idx.
     seq (update_schema_named (qn_schema (mac_name info)) (\<lambda>s.
            s\<lparr>csc_macros := im_insert (macro_key (qn_name (mac_name info)) (mac_macro_type info)) idx (csc_macros s)\<rparr>))
       (\<lambda>s. ret (s, idx))))"

definition column_refs :: "table_ref \<Rightarrow> usize list \<Rightarrow> column_ref list" where
  "column_refs t is = map (\<lambda>i. \<lparr>cr_table_ref = t, cr_column_idx = i\<rparr>) is"

definition partition_refs :: "table_ref \<Rightarrow> catalog_table_partition option \<Rightarrow> column_ref list option" where
  "partition_refs t p = map_option (\<lambda>p. column_refs t (map cpc_column (ctp_columns p))) p"

definition add_table ::
  "table_info \<Rightarrow> ducklake_path \<Rightarrow> i64 option
    \<Rightarrow> (schema_ref \<times> table_ref \<times> column_ref list list \<times> column_ref list option) catalog_op"
where
  "add_table info path next_id =
     seq (reject_existing (\<lambda>c. table_by_name c (ti_name info)) table_name table_already_exists) (\<lambda>_.
     seq (reject_existing (\<lambda>c. view_by_name c (ti_name info)) view_name view_already_exists) (\<lambda>_.
     seq (lift_res (columns_from_schema (ti_schema info) next_id)) (\<lambda>columns.
     seq (lift_res (opt_res (\<lambda>p. partition_from_partition p columns) (ti_partitioning info))) (\<lambda>partition.
     seq (lift_res (opt_res (\<lambda>s. sort_from_sort_info s columns) (ti_sort_info info))) (\<lambda>sort_info.
     seq (lift_res (root_column_indices columns)) (\<lambda>column_idxs.
     seq (push_table \<lparr>ct_id = None, ct_name = ti_name info, ct_columns = columns, ct_partition = partition,
                      ct_sort_info = sort_info, ct_tags = ti_tags info, ct_path = path\<rparr>) (\<lambda>t.
     seq (update_schema_named (qn_schema (ti_name info)) (\<lambda>s.
            s\<lparr>csc_tables := im_insert (qn_name (ti_name info)) t (csc_tables s)\<rparr>)) (\<lambda>s.
     ret (s, t, map (column_refs t) column_idxs, partition_refs t partition)))))))))"

definition add_view :: "view_info \<Rightarrow> (schema_ref \<times> view_ref) catalog_op" where
  "add_view info =
     seq (reject_existing (\<lambda>c. view_by_name c (vi_name info)) view_name view_already_exists) (\<lambda>_.
     seq (reject_existing (\<lambda>c. table_by_name c (vi_name info)) table_name table_already_exists) (\<lambda>_.
     seq (push_view \<lparr>cv_id = None, cv_name = vi_name info, cv_sql = vi_sql info, cv_dialect = vi_dialect info,
                     cv_column_aliases = vi_column_aliases info, cv_tags = vi_tags info\<rparr>) (\<lambda>v.
     seq (update_schema_named (qn_schema (vi_name info)) (\<lambda>s.
            s\<lparr>csc_views := im_insert (qn_name (vi_name info)) v (csc_views s)\<rparr>)) (\<lambda>s.
     ret (s, v)))))"

section \<open>Operations of the views (\<open>catalog/views/\<close>)\<close>

definition modify_view :: "view_ref \<Rightarrow> (catalog_view \<Rightarrow> catalog_view) \<Rightarrow> catalog \<Rightarrow> catalog" where
  "modify_view r f c = c\<lparr>view_arena := arena_modify r f (view_arena c)\<rparr>"

definition modify_macro :: "macro_ref \<Rightarrow> (catalog_macro \<Rightarrow> catalog_macro) \<Rightarrow> catalog \<Rightarrow> catalog" where
  "modify_macro r f c = c\<lparr>macro_arena := arena_modify r f (macro_arena c)\<rparr>"

definition schema_resolve_id :: "schema_ref \<Rightarrow> i64 \<Rightarrow> unit catalog_op" where
  "schema_resolve_id r id' =
     seq (query (\<lambda>c. schema_inner c r)) (\<lambda>s.
       case csc_id s of
         None \<Rightarrow> update (\<lambda>c. c\<lparr>schema_arena :=
                    arena_register_id r id' (arena_modify r (\<lambda>s. s\<lparr>csc_id := Some id'\<rparr>) (schema_arena c))\<rparr>)
       | Some _ \<Rightarrow> lift_res (Panic ''schema ID must not be overwritten''))"

definition schema_delete :: "schema_ref \<Rightarrow> unit catalog_op" where
  "schema_delete r =
     seq (query (\<lambda>c. schema_inner c r)) (\<lambda>s.
       if csc_tables s \<noteq> [] \<or> csc_views s \<noteq> [] \<or> csc_macros s \<noteq> []
       then raise (InvalidChanges (''cannot delete schema '' @ csc_name s @ '' which is not empty''))
       else update (\<lambda>c. c\<lparr>schemas := im_remove (csc_name s) (schemas c)\<rparr>))"

definition table_resolve_id :: "table_ref \<Rightarrow> i64 \<Rightarrow> unit catalog_op" where
  "table_resolve_id r id' =
     seq (query (\<lambda>c. table_inner c r)) (\<lambda>t.
       case ct_id t of
         None \<Rightarrow> update (\<lambda>c. c\<lparr>table_arena :=
                    arena_register_id r id' (arena_modify r (\<lambda>t. t\<lparr>ct_id := Some id'\<rparr>) (table_arena c))\<rparr>)
       | Some _ \<Rightarrow> lift_res (Panic ''table ID must not be overwritten''))"

definition table_resolve_partition_id :: "table_ref \<Rightarrow> i64 \<Rightarrow> unit catalog_op" where
  "table_resolve_partition_id r id' =
     seq (query (\<lambda>c. table_inner c r)) (\<lambda>t.
       case ct_partition t of
         None \<Rightarrow> lift_res (Panic ''table must have partition info to resolve partition ID'')
       | Some p \<Rightarrow>
           (case ctp_id p of
              None \<Rightarrow> update (modify_table r (\<lambda>t. t\<lparr>ct_partition := Some (p\<lparr>ctp_id := Some id'\<rparr>)\<rparr>))
            | Some _ \<Rightarrow> lift_res (Panic ''partition ID must not be overwritten'')))"

text \<open>The next column ID of the table in the database is an argument.\<close>

definition ensure_next_column_id :: "(i64 \<Rightarrow> i64 result) \<Rightarrow> table_ref \<Rightarrow> unit catalog_op" where
  "ensure_next_column_id load_next_column_id r =
     seq (query (\<lambda>c. table_inner c r)) (\<lambda>t.
       if cs_next_column_id (ct_columns t) \<noteq> None then ret ()
       else seq (lift_res (expect ''unwrap on None'' (ct_id t))) (\<lambda>id'.
            seq (lift_res (load_next_column_id id')) (\<lambda>n.
              update (modify_table r (\<lambda>t. t\<lparr>ct_columns := (ct_columns t)\<lparr>cs_next_column_id := Some n\<rparr>\<rparr>)))))"

definition table_rename :: "table_ref \<Rightarrow> string \<Rightarrow> unit catalog_op" where
  "table_rename r new_name =
     seq (query (\<lambda>c. table_name c r)) (\<lambda>name.
     seq (query (\<lambda>c. schema_by_name c (qn_schema name))) (\<lambda>s.
     seq (query (\<lambda>c. schema_inner c s)) (\<lambda>sch.
       if im_contains new_name (csc_tables sch)
       then raise (table_already_exists \<lparr>qn_schema = qn_schema name, qn_name = new_name\<rparr>)
       else if im_contains new_name (csc_views sch)
       then raise (view_already_exists \<lparr>qn_schema = qn_schema name, qn_name = new_name\<rparr>)
       else seq (lift_res (expect ''unwrap on None'' (im_get (csc_tables sch) (qn_name name)))) (\<lambda>idx.
            seq (update (modify_schema s (\<lambda>s.
                   s\<lparr>csc_tables := im_insert new_name idx (im_remove (qn_name name) (csc_tables s))\<rparr>))) (\<lambda>_.
              update (modify_table r (\<lambda>t. t\<lparr>ct_name := (ct_name t)\<lparr>qn_name := new_name\<rparr>\<rparr>)))))))"

text \<open>Running an operation of the columns on the columns of a table.\<close>

definition table_columns_op ::
  "table_ref \<Rightarrow> (catalog_columns, ducklake_error, 'a) op \<Rightarrow> 'a catalog_op"
where
  "table_columns_op r m =
     seq (query (\<lambda>c. table_inner c r)) (\<lambda>t c.
       let (cs, res) = m (ct_columns t) in (modify_table r (\<lambda>t. t\<lparr>ct_columns := cs\<rparr>) c, res))"

definition table_add_column ::
  "table_ref \<Rightarrow> string list \<Rightarrow> column \<Rightarrow> (column_ref option \<times> column_ref list) catalog_op"
where
  "table_add_column r path col =
     seq (query (\<lambda>c. and_then (table_inner c r) (\<lambda>t.
            if path = [] then Ok None
            else and_then (arena_idx_by_path (ct_columns t) path) (\<lambda>i. Ok (Some i))))) (\<lambda>parent_idx.
     seq (table_columns_op r (add_column parent_idx col)) (\<lambda>is.
       ret (map_option (\<lambda>i. \<lparr>cr_table_ref = r, cr_column_idx = i\<rparr>) parent_idx, column_refs r is)))"

definition table_update_partitioning ::
  "table_ref \<Rightarrow> partition_column list option \<Rightarrow> column_ref list option catalog_op"
where
  "table_update_partitioning r partitioning =
     seq (query (\<lambda>c. table_inner c r)) (\<lambda>t.
     seq (lift_res (opt_res (\<lambda>p. partition_from_partition p (ct_columns t)) partitioning)) (\<lambda>p.
     seq (update (modify_table r (\<lambda>t. t\<lparr>ct_partition := p\<rparr>))) (\<lambda>_.
       ret (partition_refs r p))))"

definition table_update_sort_info :: "table_ref \<Rightarrow> sort_expression list option \<Rightarrow> unit catalog_op" where
  "table_update_sort_info r sort_info =
     seq (query (\<lambda>c. table_inner c r)) (\<lambda>t.
     seq (lift_res (opt_res (\<lambda>s. sort_from_sort_info s (ct_columns t)) sort_info)) (\<lambda>s.
       update (modify_table r (\<lambda>t. t\<lparr>ct_sort_info := s\<rparr>))))"

definition upsert_tag :: "tag \<Rightarrow> tags \<Rightarrow> tags" where
  "upsert_tag tg ts = tags_insert tg ts"

definition remove_tag :: "string \<Rightarrow> (tags, ducklake_error, unit) op" where
  "remove_tag key ts =
     (case tags_remove key ts of
        (None, ts') \<Rightarrow> (ts', Err (NotFound ''tag'' key))
      | (Some _, ts') \<Rightarrow> (ts', Ok ()))"

definition table_add_tag :: "table_ref \<Rightarrow> tag \<Rightarrow> unit catalog_op" where
  "table_add_tag r tg =
     seq (query (\<lambda>c. table_inner c r)) (\<lambda>_.
       update (modify_table r (\<lambda>t. t\<lparr>ct_tags := upsert_tag tg (ct_tags t)\<rparr>)))"

definition table_remove_tag :: "table_ref \<Rightarrow> string \<Rightarrow> unit catalog_op" where
  "table_remove_tag r key =
     seq (query (\<lambda>c. table_inner c r)) (\<lambda>t c.
       let (ts, res) = remove_tag key (ct_tags t) in (modify_table r (\<lambda>t. t\<lparr>ct_tags := ts\<rparr>) c, res))"

text \<open>\<open>parent_schema_mut\<close>: both lookups are unwrapped.\<close>

definition unwrap_res :: "('e, 'a) res \<Rightarrow> ('e, 'a) res" where
  "unwrap_res r = (case r of Err _ \<Rightarrow> Panic ''unwrap on an Err value'' | _ \<Rightarrow> r)"

definition update_parent_schema :: "string \<Rightarrow> (catalog_schema \<Rightarrow> catalog_schema) \<Rightarrow> unit catalog_op" where
  "update_parent_schema name f =
     seq (query (\<lambda>c. unwrap_res (schema_by_name c name))) (\<lambda>s.
     seq (query (\<lambda>c. schema_inner c s)) (\<lambda>_. update (modify_schema s f)))"

definition table_delete :: "table_ref \<Rightarrow> unit catalog_op" where
  "table_delete r =
     seq (query (\<lambda>c. table_name c r)) (\<lambda>name.
       update_parent_schema (qn_schema name) (\<lambda>s. s\<lparr>csc_tables := im_remove (qn_name name) (csc_tables s)\<rparr>))"

definition view_resolve_id :: "view_ref \<Rightarrow> i64 \<Rightarrow> unit catalog_op" where
  "view_resolve_id r id' =
     seq (query (\<lambda>c. view_inner c r)) (\<lambda>v.
       case cv_id v of
         None \<Rightarrow> update (\<lambda>c. c\<lparr>view_arena :=
                    arena_register_id r id' (arena_modify r (\<lambda>v. v\<lparr>cv_id := Some id'\<rparr>) (view_arena c))\<rparr>)
       | Some _ \<Rightarrow> lift_res (Panic ''view ID must not be overwritten''))"

definition view_delete :: "view_ref \<Rightarrow> unit catalog_op" where
  "view_delete r =
     seq (query (\<lambda>c. view_name c r)) (\<lambda>name.
       update_parent_schema (qn_schema name) (\<lambda>s. s\<lparr>csc_views := im_remove (qn_name name) (csc_views s)\<rparr>))"

definition macro_resolve_id :: "macro_ref \<Rightarrow> i64 \<Rightarrow> unit catalog_op" where
  "macro_resolve_id r id' =
     seq (query (\<lambda>c. macro_inner c r)) (\<lambda>m.
       case cm_id m of
         None \<Rightarrow> update (\<lambda>c. c\<lparr>macro_arena :=
                    arena_register_id r id' (arena_modify r (\<lambda>m. m\<lparr>cm_id := Some id'\<rparr>) (macro_arena c))\<rparr>)
       | Some _ \<Rightarrow> lift_res (Panic ''macro ID must not be overwritten''))"

definition macro_delete :: "macro_ref \<Rightarrow> unit catalog_op" where
  "macro_delete r =
     seq (query (\<lambda>c. macro_inner c r)) (\<lambda>m.
       update_parent_schema (qn_schema (cm_name m)) (\<lambda>s.
         s\<lparr>csc_macros := im_remove (macro_key (qn_name (cm_name m)) (cm_macro_type m)) (csc_macros s)\<rparr>))"

section \<open>Columns of a table (\<open>catalog/views/column.rs\<close>)\<close>

definition column_by_path :: "catalog \<Rightarrow> table_ref \<Rightarrow> string list \<Rightarrow> column_ref result" where
  "column_by_path c r path =
     and_then (table_inner c r) (\<lambda>t.
     and_then (arena_idx_by_path (ct_columns t) path) (\<lambda>i. Ok \<lparr>cr_table_ref = r, cr_column_idx = i\<rparr>))"

definition column_by_id :: "catalog \<Rightarrow> table_ref \<Rightarrow> i64 \<Rightarrow> column_ref result" where
  "column_by_id c r id' =
     and_then (table_inner c r) (\<lambda>t.
     and_then (ok_or (ColumnNotFound id') (im_get (cs_by_id (ct_columns t)) id')) (\<lambda>i.
       Ok \<lparr>cr_table_ref = r, cr_column_idx = i\<rparr>))"

definition column_inner :: "catalog \<Rightarrow> column_ref \<Rightarrow> catalog_column result" where
  "column_inner c r = and_then (table_inner c (cr_table_ref r)) (\<lambda>t. idx_get (cs_arena (ct_columns t)) (cr_column_idx r))"

definition column_info :: "catalog \<Rightarrow> column_ref \<Rightarrow> column result" where
  "column_info c r = and_then (table_inner c (cr_table_ref r)) (\<lambda>t.
     schema_column_from_arena_index (arena_fuel (ct_columns t)) (ct_columns t) (cr_column_idx r))"

definition parent_ref :: "catalog \<Rightarrow> column_ref \<Rightarrow> column_ref option result" where
  "parent_ref c r = and_then (column_inner c r) (\<lambda>col.
     Ok (map_option (\<lambda>p. \<lparr>cr_table_ref = cr_table_ref r, cr_column_idx = p\<rparr>) (cc_parent_column col)))"

definition modify_column :: "column_ref \<Rightarrow> (catalog_column \<Rightarrow> catalog_column) \<Rightarrow> unit catalog_op" where
  "modify_column r f =
     seq (query (\<lambda>c. column_inner c r)) (\<lambda>_.
       update (modify_table (cr_table_ref r) (\<lambda>t. t\<lparr>ct_columns := arena_update (cr_column_idx r) f (ct_columns t)\<rparr>)))"

definition update_primitive_data_type :: "column_ref \<Rightarrow> data_type \<Rightarrow> unit catalog_op" where
  "update_primitive_data_type r t = modify_column r (\<lambda>c. c\<lparr>cc_dtype := CPrimitive t\<rparr>)"

definition update_default_value :: "column_ref \<Rightarrow> column_default \<Rightarrow> unit catalog_op" where
  "update_default_value r d = modify_column r (\<lambda>c. c\<lparr>cc_default_value := d\<rparr>)"

definition update_nullability :: "column_ref \<Rightarrow> bool \<Rightarrow> unit catalog_op" where
  "update_nullability r b = modify_column r (\<lambda>c. c\<lparr>cc_nullable := b\<rparr>)"

definition column_rename :: "column_ref \<Rightarrow> string \<Rightarrow> unit catalog_op" where
  "column_rename r new_name =
     seq (table_columns_op (cr_table_ref r) (rename_column (cr_column_idx r) new_name)) (\<lambda>_. ret ())"

definition column_add_tag :: "column_ref \<Rightarrow> tag \<Rightarrow> unit catalog_op" where
  "column_add_tag r tg = modify_column r (\<lambda>c. c\<lparr>cc_tags := upsert_tag tg (cc_tags c)\<rparr>)"

definition column_remove_tag :: "column_ref \<Rightarrow> string \<Rightarrow> unit catalog_op" where
  "column_remove_tag r key =
     seq (query (\<lambda>c. column_inner c r)) (\<lambda>col.
     seq (modify_column r (\<lambda>c. c\<lparr>cc_tags := fst (remove_tag key (cc_tags c))\<rparr>)) (\<lambda>_.
       lift_res (snd (remove_tag key (cc_tags col)))))"

definition partitioned_by_message :: string where
  "partitioned_by_message = ''cannot remove column from table as the table is partitioned by it - reset or change the partitioning on this table in order to drop this column''"

definition sorted_by_message :: string where
  "sorted_by_message = ''cannot remove column from table as the table is sorted by it - reset or change the sort info on this table in order to drop this column''"

definition column_remove :: "column_ref \<Rightarrow> column_ref list catalog_op" where
  "column_remove r =
     seq (query (\<lambda>c. table_inner c (cr_table_ref r))) (\<lambda>t.
       if (case ct_partition t of None \<Rightarrow> False
           | Some p \<Rightarrow> list_ex (\<lambda>col. cpc_column col = cr_column_idx r) (ctp_columns p))
       then raise (InvalidChanges partitioned_by_message)
       else if (case ct_sort_info t of None \<Rightarrow> False | Some s \<Rightarrow> references_column s (cr_column_idx r))
       then raise (InvalidChanges sorted_by_message)
       else seq (table_columns_op (cr_table_ref r) (remove_column (cr_column_idx r))) (\<lambda>is.
              ret (column_refs (cr_table_ref r) is)))"

section \<open>Accessors\<close>

definition table_schema :: "catalog \<Rightarrow> table_ref \<Rightarrow> schema result" where
  "table_schema c r = and_then (table_inner c r) (\<lambda>t. schema_from_columns (ct_columns t))"

definition table_partitioning :: "catalog \<Rightarrow> table_ref \<Rightarrow> partition_column list option result" where
  "table_partitioning c r = and_then (table_inner c r) (\<lambda>t.
     opt_res (\<lambda>p. into_partition p (ct_columns t)) (ct_partition t))"

definition table_sort_info :: "catalog \<Rightarrow> table_ref \<Rightarrow> sort_expression list option result" where
  "table_sort_info c r = and_then (table_inner c r) (\<lambda>t.
     opt_res (\<lambda>s. into_sort_info s (ct_columns t)) (ct_sort_info t))"

definition get_table_info :: "catalog \<Rightarrow> table_ref \<Rightarrow> table_info result" where
  "get_table_info c r =
     and_then (table_inner c r) (\<lambda>t.
     and_then (table_schema c r) (\<lambda>sch.
     and_then (table_partitioning c r) (\<lambda>p.
     and_then (table_sort_info c r) (\<lambda>s.
       Ok \<lparr>ti_name = ct_name t, ti_schema = sch, ti_partitioning = p, ti_sort_info = s, ti_tags = ct_tags t\<rparr>))))"

definition sort_info_includes_column :: "catalog \<Rightarrow> table_ref \<Rightarrow> column_ref \<Rightarrow> bool result" where
  "sort_info_includes_column c r col = and_then (table_inner c r) (\<lambda>t.
     Ok (case ct_sort_info t of None \<Rightarrow> False | Some s \<Rightarrow> references_column s (cr_column_idx col)))"

definition partition_id :: "catalog \<Rightarrow> table_ref \<Rightarrow> i64 option result" where
  "partition_id c r = and_then (table_inner c r) (\<lambda>t. Ok (Option.bind (ct_partition t) ctp_id))"

definition data_path :: "url_ops \<Rightarrow> catalog \<Rightarrow> table_ref \<Rightarrow> ducklake_path \<Rightarrow> ducklake_path result" where
  "data_path U c r root =
     and_then (table_inner c r) (\<lambda>t.
     and_then (unwrap_res (schema_by_name c (qn_schema (ct_name t)))) (\<lambda>s.
     and_then (schema_inner c s) (\<lambda>sch.
     and_then (path_join U root (csc_path sch)) (\<lambda>p. path_join U p (ct_path t)))))"

definition list_schemas :: "catalog \<Rightarrow> schema_ref list" where
  "list_schemas c = im_values (schemas c)"

definition list_tables :: "catalog \<Rightarrow> schema_ref \<Rightarrow> table_ref list result" where
  "list_tables c r = and_then (schema_inner c r) (\<lambda>s. Ok (im_values (csc_tables s)))"

definition list_views :: "catalog \<Rightarrow> schema_ref \<Rightarrow> view_ref list result" where
  "list_views c r = and_then (schema_inner c r) (\<lambda>s. Ok (im_values (csc_views s)))"

definition list_macros :: "catalog \<Rightarrow> schema_ref \<Rightarrow> macro_ref list result" where
  "list_macros c r = and_then (schema_inner c r) (\<lambda>s. Ok (im_values (csc_macros s)))"

end
