(* ===== verification/Catalog_Names.thy ===== *)
theory Catalog_Names
  imports Catalog
begin

text \<open>
  What the catalog's nested maps mean: partial functions from names to references. The
  invariant \<open>names_wf\<close> (every registered name leads to an object that carries it, tables and
  views of a schema share one name space), and for every operation that changes the catalog
  its effect on these functions.
\<close>

section \<open>Objects of a schema by name\<close>

definition schema_entry :: "(catalog_schema \<Rightarrow> ('k, usize) imap) \<Rightarrow> catalog \<Rightarrow> string \<Rightarrow> 'k \<Rightarrow> usize option" where
  "schema_entry sel c n k =
     (case im_get (schemas c) n of
        None \<Rightarrow> None
      | Some s \<Rightarrow> im_get (sel (ar_items (schema_arena c) ! s)) k)"

definition tables_of :: "catalog \<Rightarrow> qualified_name \<Rightarrow> table_ref option" where
  "tables_of c q = schema_entry csc_tables c (qn_schema q) (qn_name q)"

definition views_of :: "catalog \<Rightarrow> qualified_name \<Rightarrow> view_ref option" where
  "views_of c q = schema_entry csc_views c (qn_schema q) (qn_name q)"

definition macros_of :: "catalog \<Rightarrow> qualified_name \<Rightarrow> macro_type \<Rightarrow> macro_ref option" where
  "macros_of c q ty = schema_entry csc_macros c (qn_schema q) (macro_key (qn_name q) ty)"

definition schemas_ok :: "catalog \<Rightarrow> bool" where
  "schemas_ok c \<longleftrightarrow> im_wf (schemas c) \<and>
     (\<forall>(n, i) \<in> set (schemas c). i < length (ar_items (schema_arena c)) \<and> csc_name (ar_items (schema_arena c) ! i) = n)"

text \<open>The schema and the key under which an object is registered.\<close>

definition table_owner :: "catalog \<Rightarrow> table_ref \<Rightarrow> (string \<times> string) option" where
  "table_owner c t =
     (if t < length (ar_items (table_arena c))
      then (let q = ct_name (ar_items (table_arena c) ! t) in Some (qn_schema q, qn_name q)) else None)"

definition view_owner :: "catalog \<Rightarrow> view_ref \<Rightarrow> (string \<times> string) option" where
  "view_owner c v =
     (if v < length (ar_items (view_arena c))
      then (let q = cv_name (ar_items (view_arena c) ! v) in Some (qn_schema q, qn_name q)) else None)"

definition macro_owner :: "catalog \<Rightarrow> macro_ref \<Rightarrow> (string \<times> string \<times> macro_type) option" where
  "macro_owner c m =
     (if m < length (ar_items (macro_arena c))
      then (let e = ar_items (macro_arena c) ! m in
            Some (qn_schema (cm_name e), macro_key (qn_name (cm_name e)) (cm_macro_type e))) else None)"

definition objects_ok ::
  "(catalog_schema \<Rightarrow> ('k, usize) imap) \<Rightarrow> (catalog \<Rightarrow> usize \<Rightarrow> (string \<times> 'k) option) \<Rightarrow> catalog \<Rightarrow> bool"
where
  "objects_ok sel owner c \<longleftrightarrow> (\<forall>n k t. schema_entry sel c n k = Some t \<longrightarrow> owner c t = Some (n, k))"

definition one_name_space :: "catalog \<Rightarrow> bool" where
  "one_name_space c \<longleftrightarrow> (\<forall>q. tables_of c q = None \<or> views_of c q = None)"

definition names_wf :: "catalog \<Rightarrow> bool" where
  "names_wf c \<longleftrightarrow> schemas_ok c \<and> objects_ok csc_tables table_owner c \<and> objects_ok csc_views view_owner c \<and>
     objects_ok csc_macros macro_owner c \<and> one_name_space c"

lemma objects_okD: "objects_ok sel owner c \<Longrightarrow> schema_entry sel c n k = Some t \<Longrightarrow> owner c t = Some (n, k)"
  by (simp add: objects_ok_def)

lemma schema_entry_schema: "schema_entry sel c n k = Some t \<Longrightarrow> im_get (schemas c) n \<noteq> None"
  by (auto simp: schema_entry_def split: option.splits)

lemma schemas_ok_get:
  assumes "schemas_ok c" "im_get (schemas c) n = Some s"
  shows "s < length (ar_items (schema_arena c))" "csc_name (ar_items (schema_arena c) ! s) = n"
  using assms by (auto simp: schemas_ok_def dest!: map_of_SomeD)

lemma schemas_ok_inj:
  "schemas_ok c \<Longrightarrow> im_get (schemas c) n = Some s \<Longrightarrow> im_get (schemas c) n' = Some s \<Longrightarrow> n' = n"
  using schemas_ok_get(2) by blast

lemma schema_by_name_eq: "schema_by_name c n = ok_or (schema_not_found n) (im_get (schemas c) n)"
  by (simp add: schema_by_name_def)

lemma table_by_name_eq:
  assumes "schemas_ok c"
  shows "table_by_name c q =
    (if im_get (schemas c) (qn_schema q) = None then Err (schema_not_found (qn_schema q))
     else ok_or (table_not_found q) (tables_of c q))"
  using schemas_ok_get [OF assms]
  by (auto simp: table_by_name_def schema_by_name_def schema_inner_def arena_get_def idx_get_def tables_of_def
      schema_entry_def split: option.splits)

lemma view_by_name_eq:
  assumes "schemas_ok c"
  shows "view_by_name c q =
    (if im_get (schemas c) (qn_schema q) = None then Err (schema_not_found (qn_schema q))
     else ok_or (view_not_found q) (views_of c q))"
  using schemas_ok_get [OF assms]
  by (auto simp: view_by_name_def schema_by_name_def schema_inner_def arena_get_def idx_get_def views_of_def
      schema_entry_def split: option.splits)

lemma macro_by_name_eq:
  assumes "schemas_ok c"
  shows "macro_by_name c q ty =
    (if im_get (schemas c) (qn_schema q) = None then Err (schema_not_found (qn_schema q))
     else ok_or (macro_not_found q) (macros_of c q ty))"
  using schemas_ok_get [OF assms]
  by (auto simp: macro_by_name_def schema_by_name_def schema_inner_def arena_get_def idx_get_def macros_of_def
      schema_entry_def macro_key_def split: option.splits)

lemmas by_name_eqs = schema_by_name_eq table_by_name_eq view_by_name_eq macro_by_name_eq

lemma nth_update_self: "xs[i := f (xs ! i)] ! j = (if i = j \<and> i < length xs then f (xs ! i) else xs ! j)"
  by (cases "i < length xs") (auto simp: nth_list_update list_update_beyond)

lemma schema_arena_modify [simp]:
  "length (ar_items (schema_arena (modify_schema s f c))) = length (ar_items (schema_arena c))"
  "ar_items (schema_arena (modify_schema s f c)) ! j =
     (if s = j \<and> s < length (ar_items (schema_arena c)) then f (ar_items (schema_arena c) ! s)
      else ar_items (schema_arena c) ! j)"
  "schemas (modify_schema s f c) = schemas c"
  "table_arena (modify_schema s f c) = table_arena c"
  "view_arena (modify_schema s f c) = view_arena c"
  "macro_arena (modify_schema s f c) = macro_arena c"
  by (auto simp: modify_schema_def arena_modify_def nth_update_self)

section \<open>Changing one map of one schema\<close>

text \<open>
  The contract of one kind of object: its map in a schema can be replaced without touching
  the schema's name. Tables, views and macros are its three providers.
\<close>

locale schema_objects =
  fixes sel :: "catalog_schema \<Rightarrow> ('k, usize) imap"
    and upd :: "(('k, usize) imap \<Rightarrow> ('k, usize) imap) \<Rightarrow> catalog_schema \<Rightarrow> catalog_schema"
  assumes sel_upd: "sel (upd g s) = g (sel s)"
    and name_upd: "csc_name (upd g s) = csc_name s"
begin

lemma schemas_ok_upd: "schemas_ok c \<Longrightarrow> schemas_ok (modify_schema s (upd g) c)"
  by (auto simp: schemas_ok_def name_upd)

lemma entry_upd:
  assumes "schemas_ok c" "im_get (schemas c) n = Some s"
  shows "schema_entry sel (modify_schema s (upd g) c) n' k =
    (if n' = n then im_get (g (sel (ar_items (schema_arena c) ! s))) k else schema_entry sel c n' k)"
proof (cases "im_get (schemas c) n'")
  case (Some s')
  then show ?thesis
    using schemas_ok_get(1) [OF assms] schemas_ok_inj [OF assms, of n'] assms(2)
    by (auto simp: schema_entry_def sel_upd)
next
  case None
  with assms(2) show ?thesis by (auto simp: schema_entry_def)
qed

lemma entry_insert:
  assumes "schemas_ok c" "im_get (schemas c) n = Some s"
  shows "schema_entry sel (modify_schema s (upd (im_insert k i)) c) n' k' =
    (if n' = n \<and> k' = k then Some i else schema_entry sel c n' k')"
  by (cases "n' = n") (simp_all add: entry_upd [OF assms], simp add: schema_entry_def assms(2))

lemma entry_remove:
  assumes "schemas_ok c" "im_get (schemas c) n = Some s"
  shows "schema_entry sel (modify_schema s (upd (im_remove k)) c) n' k' =
    (if n' = n \<and> k' = k then None else schema_entry sel c n' k')"
  by (cases "n' = n") (simp_all add: entry_upd [OF assms], simp add: schema_entry_def assms(2))

lemma entry_other:
  assumes "schemas_ok c" "im_get (schemas c) n = Some s" "\<And>e. sel' (upd g e) = sel' e"
  shows "schema_entry sel' (modify_schema s (upd g) c) = schema_entry sel' c"
  by (auto simp: schema_entry_def fun_eq_iff assms(3) split: option.splits)

lemma objects_ok_insert:
  assumes "schemas_ok c" "im_get (schemas c) n = Some s" "objects_ok sel owner c"
    and "owner c i = Some (n, k)" and "\<And>c f. owner (modify_schema s f c) = owner c"
  shows "objects_ok sel owner (modify_schema s (upd (im_insert k i)) c)"
  using assms(3-5) by (auto simp: objects_ok_def entry_insert [OF assms(1,2)])

lemma objects_ok_remove:
  assumes "schemas_ok c" "im_get (schemas c) n = Some s" "objects_ok sel owner c"
    and "\<And>c f. owner (modify_schema s f c) = owner c"
  shows "objects_ok sel owner (modify_schema s (upd (im_remove k)) c)"
  using assms(3,4) by (auto simp: objects_ok_def entry_remove [OF assms(1,2)])

end

interpretation tabs: schema_objects csc_tables csc_tables_update
  by unfold_locales simp_all

interpretation vws: schema_objects csc_views csc_views_update
  by unfold_locales simp_all

interpretation macs: schema_objects csc_macros csc_macros_update
  by unfold_locales simp_all

text \<open>The owners and the other arenas do not depend on the schemas.\<close>

lemma owner_modify_schema [simp]:
  "table_owner (modify_schema s f c) = table_owner c"
  "view_owner (modify_schema s f c) = view_owner c"
  "macro_owner (modify_schema s f c) = macro_owner c"
  by (simp_all add: fun_eq_iff table_owner_def view_owner_def macro_owner_def modify_schema_def)

lemma names_wf_schemas: "names_wf c \<Longrightarrow> schemas_ok c"
  by (simp add: names_wf_def)

lemma tables_insert_wf:
  assumes wf: "names_wf c" and s: "im_get (schemas c) (qn_schema q) = Some s"
    and t: "table_owner c t = Some (qn_schema q, qn_name q)" and v: "views_of c q = None"
  defines "c' \<equiv> modify_schema s (csc_tables_update (im_insert (qn_name q) t)) c"
  shows "names_wf c'" "tables_of c' = (tables_of c)(q \<mapsto> t)" "views_of c' = views_of c" "macros_of c' = macros_of c"
proof -
  have ok: "schemas_ok c" by (rule names_wf_schemas [OF wf])
  note other = tabs.entry_other [OF ok s, of csc_views] tabs.entry_other [OF ok s, of csc_macros]
  show t': "tables_of c' = (tables_of c)(q \<mapsto> t)"
    by (auto simp: fun_eq_iff tables_of_def c'_def tabs.entry_insert [OF ok s])
  show v': "views_of c' = views_of c" by (simp add: fun_eq_iff views_of_def c'_def other)
  show "macros_of c' = macros_of c" by (simp add: fun_eq_iff macros_of_def c'_def other)
  have "objects_ok csc_tables table_owner c'"
    unfolding c'_def by (rule tabs.objects_ok_insert [OF ok s]) (use wf t in \<open>simp_all add: names_wf_def\<close>)
  moreover have "one_name_space c'"
    using wf v by (simp add: one_name_space_def t' v' names_wf_def)
  ultimately show "names_wf c'"
    using wf by (simp add: names_wf_def c'_def tabs.schemas_ok_upd objects_ok_def other)
qed

lemma views_insert_wf:
  assumes wf: "names_wf c" and s: "im_get (schemas c) (qn_schema q) = Some s"
    and v: "view_owner c v = Some (qn_schema q, qn_name q)" and t: "tables_of c q = None"
  defines "c' \<equiv> modify_schema s (csc_views_update (im_insert (qn_name q) v)) c"
  shows "names_wf c'" "views_of c' = (views_of c)(q \<mapsto> v)" "tables_of c' = tables_of c" "macros_of c' = macros_of c"
proof -
  have ok: "schemas_ok c" by (rule names_wf_schemas [OF wf])
  note other = vws.entry_other [OF ok s, of csc_tables] vws.entry_other [OF ok s, of csc_macros]
  show v': "views_of c' = (views_of c)(q \<mapsto> v)"
    by (auto simp: fun_eq_iff views_of_def c'_def vws.entry_insert [OF ok s])
  show t': "tables_of c' = tables_of c" by (simp add: fun_eq_iff tables_of_def c'_def other)
  show "macros_of c' = macros_of c" by (simp add: fun_eq_iff macros_of_def c'_def other)
  have "objects_ok csc_views view_owner c'"
    unfolding c'_def by (rule vws.objects_ok_insert [OF ok s]) (use wf v in \<open>simp_all add: names_wf_def\<close>)
  moreover have "one_name_space c'"
    using wf t by (simp add: one_name_space_def t' v' names_wf_def)
  ultimately show "names_wf c'"
    using wf by (simp add: names_wf_def c'_def vws.schemas_ok_upd objects_ok_def other)
qed

lemma macros_insert_wf:
  assumes wf: "names_wf c" and s: "im_get (schemas c) n = Some s" and m: "macro_owner c m = Some (n, k)"
  defines "c' \<equiv> modify_schema s (csc_macros_update (im_insert k m)) c"
  shows "names_wf c'" "tables_of c' = tables_of c" "views_of c' = views_of c"
    and "macros_of c' q ty = (if qn_schema q = n \<and> macro_key (qn_name q) ty = k then Some m else macros_of c q ty)"
proof -
  have ok: "schemas_ok c" by (rule names_wf_schemas [OF wf])
  note other = macs.entry_other [OF ok s, of csc_tables] macs.entry_other [OF ok s, of csc_views]
  show t': "tables_of c' = tables_of c" by (simp add: fun_eq_iff tables_of_def c'_def other)
  show v': "views_of c' = views_of c" by (simp add: fun_eq_iff views_of_def c'_def other)
  show "macros_of c' q ty = (if qn_schema q = n \<and> macro_key (qn_name q) ty = k then Some m else macros_of c q ty)"
    by (simp add: macros_of_def c'_def macs.entry_insert [OF ok s])
  have "objects_ok csc_macros macro_owner c'"
    unfolding c'_def by (rule macs.objects_ok_insert [OF ok s]) (use wf m in \<open>simp_all add: names_wf_def\<close>)
  then show "names_wf c'"
    using wf by (simp add: names_wf_def c'_def macs.schemas_ok_upd objects_ok_def other one_name_space_def
        t' [unfolded c'_def] v' [unfolded c'_def])
qed

lemma tables_remove_wf:
  assumes wf: "names_wf c" and s: "im_get (schemas c) (qn_schema q) = Some s"
  defines "c' \<equiv> modify_schema s (csc_tables_update (im_remove (qn_name q))) c"
  shows "names_wf c'" "tables_of c' = (tables_of c)(q := None)" "views_of c' = views_of c" "macros_of c' = macros_of c"
proof -
  have ok: "schemas_ok c" by (rule names_wf_schemas [OF wf])
  note other = tabs.entry_other [OF ok s, of csc_views] tabs.entry_other [OF ok s, of csc_macros]
  show t': "tables_of c' = (tables_of c)(q := None)"
    by (auto simp: fun_eq_iff tables_of_def c'_def tabs.entry_remove [OF ok s])
  show v': "views_of c' = views_of c" by (simp add: fun_eq_iff views_of_def c'_def other)
  show "macros_of c' = macros_of c" by (simp add: fun_eq_iff macros_of_def c'_def other)
  have "objects_ok csc_tables table_owner c'"
    unfolding c'_def by (rule tabs.objects_ok_remove [OF ok s]) (use wf in \<open>simp_all add: names_wf_def\<close>)
  moreover have "one_name_space c'"
    using wf by (auto simp: one_name_space_def t' v' names_wf_def)
  ultimately show "names_wf c'"
    using wf by (simp add: names_wf_def c'_def tabs.schemas_ok_upd objects_ok_def other)
qed

lemma views_remove_wf:
  assumes wf: "names_wf c" and s: "im_get (schemas c) (qn_schema q) = Some s"
  defines "c' \<equiv> modify_schema s (csc_views_update (im_remove (qn_name q))) c"
  shows "names_wf c'" "views_of c' = (views_of c)(q := None)" "tables_of c' = tables_of c" "macros_of c' = macros_of c"
proof -
  have ok: "schemas_ok c" by (rule names_wf_schemas [OF wf])
  note other = vws.entry_other [OF ok s, of csc_tables] vws.entry_other [OF ok s, of csc_macros]
  show v': "views_of c' = (views_of c)(q := None)"
    by (auto simp: fun_eq_iff views_of_def c'_def vws.entry_remove [OF ok s])
  show t': "tables_of c' = tables_of c" by (simp add: fun_eq_iff tables_of_def c'_def other)
  show "macros_of c' = macros_of c" by (simp add: fun_eq_iff macros_of_def c'_def other)
  have "objects_ok csc_views view_owner c'"
    unfolding c'_def by (rule vws.objects_ok_remove [OF ok s]) (use wf in \<open>simp_all add: names_wf_def\<close>)
  moreover have "one_name_space c'"
    using wf by (auto simp: one_name_space_def t' v' names_wf_def)
  ultimately show "names_wf c'"
    using wf by (simp add: names_wf_def c'_def vws.schemas_ok_upd objects_ok_def other)
qed

section \<open>Changing the arenas\<close>

text \<open>
  A change that keeps the schemas and the owner of every registered object keeps the names.
\<close>

definition same_names :: "catalog \<Rightarrow> catalog \<Rightarrow> bool" where
  "same_names c c' \<longleftrightarrow> schemas c' = schemas c \<and> schema_arena c' = schema_arena c"

lemma same_names_entry:
  assumes "same_names c c'"
  shows "schema_entry sel c' = schema_entry sel c" "tables_of c' = tables_of c" "views_of c' = views_of c"
    and "macros_of c' = macros_of c" "schemas_ok c' = schemas_ok c" "im_get (schemas c') n = im_get (schemas c) n"
  using assms
  by (auto simp: same_names_def fun_eq_iff schema_entry_def tables_of_def views_of_def macros_of_def schemas_ok_def
      split: option.splits)

lemma names_wf_arenas:
  assumes "names_wf c" "same_names c c'"
    and "\<And>t o'. table_owner c t = Some o' \<Longrightarrow> table_owner c' t = Some o'"
    and "\<And>t o'. view_owner c t = Some o' \<Longrightarrow> view_owner c' t = Some o'"
    and "\<And>t o'. macro_owner c t = Some o' \<Longrightarrow> macro_owner c' t = Some o'"
  shows "names_wf c'"
  using assms by (auto simp: names_wf_def same_names_entry objects_ok_def one_name_space_def)

lemma push_table_names:
  assumes "push_table t c = (c', r)"
  shows "same_names c c'" "r = Ok (length (ar_items (table_arena c)))" "names_wf c \<Longrightarrow> names_wf c'"
    and "ar_items (table_arena c') = ar_items (table_arena c) @ [t]"
    and "view_arena c' = view_arena c" "macro_arena c' = macro_arena c"
proof -
  have c': "c' = c\<lparr>table_arena := fst (arena_push t None (table_arena c))\<rparr>"
    and r: "r = Ok (length (ar_items (table_arena c)))"
    using assms by (auto simp: push_table_def arena_push_def)
  show same: "same_names c c'" by (simp add: c' same_names_def)
  show "r = Ok (length (ar_items (table_arena c)))" by (rule r)
  show "ar_items (table_arena c') = ar_items (table_arena c) @ [t]" "view_arena c' = view_arena c"
    "macro_arena c' = macro_arena c"
    by (simp_all add: c' arena_push_def)
  show "names_wf c'" if "names_wf c"
    by (rule names_wf_arenas [OF that same])
      (auto simp: c' table_owner_def view_owner_def macro_owner_def arena_push_def nth_append Let_def split: if_splits)
qed

lemma push_view_names:
  assumes "push_view v c = (c', r)"
  shows "same_names c c'" "r = Ok (length (ar_items (view_arena c)))" "names_wf c \<Longrightarrow> names_wf c'"
    and "ar_items (view_arena c') = ar_items (view_arena c) @ [v]"
    and "table_arena c' = table_arena c" "macro_arena c' = macro_arena c"
proof -
  have c': "c' = c\<lparr>view_arena := fst (arena_push v None (view_arena c))\<rparr>"
    and r: "r = Ok (length (ar_items (view_arena c)))"
    using assms by (auto simp: push_view_def arena_push_def)
  show same: "same_names c c'" by (simp add: c' same_names_def)
  show "r = Ok (length (ar_items (view_arena c)))" by (rule r)
  show "ar_items (view_arena c') = ar_items (view_arena c) @ [v]" "table_arena c' = table_arena c"
    "macro_arena c' = macro_arena c"
    by (simp_all add: c' arena_push_def)
  show "names_wf c'" if "names_wf c"
    by (rule names_wf_arenas [OF that same])
      (auto simp: c' table_owner_def view_owner_def macro_owner_def arena_push_def nth_append Let_def split: if_splits)
qed

lemma push_macro_names:
  assumes "push_macro m c = (c', r)"
  shows "same_names c c'" "r = Ok (length (ar_items (macro_arena c)))" "names_wf c \<Longrightarrow> names_wf c'"
    and "ar_items (macro_arena c') = ar_items (macro_arena c) @ [m]"
    and "table_arena c' = table_arena c" "view_arena c' = view_arena c"
proof -
  have c': "c' = c\<lparr>macro_arena := fst (arena_push m None (macro_arena c))\<rparr>"
    and r: "r = Ok (length (ar_items (macro_arena c)))"
    using assms by (auto simp: push_macro_def arena_push_def)
  show same: "same_names c c'" by (simp add: c' same_names_def)
  show "r = Ok (length (ar_items (macro_arena c)))" by (rule r)
  show "ar_items (macro_arena c') = ar_items (macro_arena c) @ [m]" "table_arena c' = table_arena c"
    "view_arena c' = view_arena c"
    by (simp_all add: c' arena_push_def)
  show "names_wf c'" if "names_wf c"
    by (rule names_wf_arenas [OF that same])
      (auto simp: c' table_owner_def view_owner_def macro_owner_def arena_push_def nth_append Let_def split: if_splits)
qed

lemma modify_table_names:
  assumes "\<And>t. ct_name (f t) = ct_name t"
  shows "same_names c (modify_table r f c)" "names_wf c \<Longrightarrow> names_wf (modify_table r f c)"
proof -
  show same: "same_names c (modify_table r f c)" by (simp add: same_names_def modify_table_def)
  show "names_wf (modify_table r f c)" if "names_wf c"
    by (rule names_wf_arenas [OF that same])
      (simp_all add: table_owner_def view_owner_def macro_owner_def modify_table_def arena_modify_def
        nth_update_self assms Let_def split: if_splits)
qed

end
