(* ===== verification/Catalog_Effects.thy ===== *)
theory Catalog_Effects
  imports Catalog_Names
begin

text \<open>
  The operations of the catalog against the partial functions of \<open>Catalog_Names\<close>: what each
  adds, removes or renames, when it fails, and that \<open>names_wf\<close> holds afterwards.
\<close>

section \<open>Lookups under the invariant\<close>

lemma names_wf_table:
  assumes "names_wf c" "tables_of c q = Some t"
  shows "t < length (ar_items (table_arena c))" "ct_name (ar_items (table_arena c) ! t) = q"
    and "table_name c t = Ok q" "im_get (schemas c) (qn_schema q) \<noteq> None" "views_of c q = None"
proof -
  from assms have o': "table_owner c t = Some (qn_schema q, qn_name q)"
    by (auto simp: names_wf_def tables_of_def dest: objects_okD)
  then show t: "t < length (ar_items (table_arena c))"
    by (simp add: table_owner_def split: if_splits)
  with o' show n: "ct_name (ar_items (table_arena c) ! t) = q"
    by (simp add: table_owner_def Let_def)
  from t n show "table_name c t = Ok q"
    by (simp add: table_name_def table_inner_def arena_get_def)
  from assms(2) show "im_get (schemas c) (qn_schema q) \<noteq> None"
    unfolding tables_of_def by (rule schema_entry_schema)
  from assms show "views_of c q = None" unfolding names_wf_def one_name_space_def by (metis option.distinct(1))
qed

lemma names_wf_view:
  assumes "names_wf c" "views_of c q = Some v"
  shows "v < length (ar_items (view_arena c))" "cv_name (ar_items (view_arena c) ! v) = q"
    and "view_name c v = Ok q" "im_get (schemas c) (qn_schema q) \<noteq> None" "tables_of c q = None"
proof -
  from assms have o': "view_owner c v = Some (qn_schema q, qn_name q)"
    by (auto simp: names_wf_def views_of_def dest: objects_okD)
  then show t: "v < length (ar_items (view_arena c))"
    by (simp add: view_owner_def split: if_splits)
  with o' show n: "cv_name (ar_items (view_arena c) ! v) = q"
    by (simp add: view_owner_def Let_def)
  from t n show "view_name c v = Ok q"
    by (simp add: view_name_def view_inner_def arena_get_def)
  from assms(2) show "im_get (schemas c) (qn_schema q) \<noteq> None"
    unfolding views_of_def by (rule schema_entry_schema)
  from assms show "tables_of c q = None" unfolding names_wf_def one_name_space_def by (metis option.distinct(1))
qed

lemma names_wf_macro:
  assumes "names_wf c" "macros_of c q ty = Some m"
  shows "m < length (ar_items (macro_arena c))" "qn_schema (cm_name (ar_items (macro_arena c) ! m)) = qn_schema q"
    and "macro_key (qn_name (cm_name (ar_items (macro_arena c) ! m))) (cm_macro_type (ar_items (macro_arena c) ! m))
           = macro_key (qn_name q) ty"
proof -
  from assms have o': "macro_owner c m = Some (qn_schema q, macro_key (qn_name q) ty)"
    by (auto simp: names_wf_def macros_of_def dest: objects_okD)
  then show "m < length (ar_items (macro_arena c))"
    by (simp add: macro_owner_def split: if_splits)
  with o' show "qn_schema (cm_name (ar_items (macro_arena c) ! m)) = qn_schema q"
    "macro_key (qn_name (cm_name (ar_items (macro_arena c) ! m))) (cm_macro_type (ar_items (macro_arena c) ! m))
           = macro_key (qn_name q) ty"
    by (simp_all add: macro_owner_def Let_def)
qed

lemma reject_table:
  assumes "names_wf c"
  shows "reject_existing (\<lambda>c. table_by_name c q) table_name table_already_exists c =
    (c, if tables_of c q = None then Ok () else Err (table_already_exists q))"
proof (cases "im_get (schemas c) (qn_schema q)")
  case None
  then show ?thesis
    by (simp add: reject_existing_def table_by_name_eq names_wf_schemas [OF assms] tables_of_def schema_entry_def)
next
  case (Some s)
  then show ?thesis
    using names_wf_table(3) [OF assms]
    by (cases "tables_of c q") (simp_all add: reject_existing_def table_by_name_eq names_wf_schemas [OF assms])
qed

lemma reject_view:
  assumes "names_wf c"
  shows "reject_existing (\<lambda>c. view_by_name c q) view_name view_already_exists c =
    (c, if views_of c q = None then Ok () else Err (view_already_exists q))"
proof (cases "im_get (schemas c) (qn_schema q)")
  case None
  then show ?thesis
    by (simp add: reject_existing_def view_by_name_eq names_wf_schemas [OF assms] views_of_def schema_entry_def)
next
  case (Some s)
  then show ?thesis
    using names_wf_view(3) [OF assms]
    by (cases "views_of c q") (simp_all add: reject_existing_def view_by_name_eq names_wf_schemas [OF assms])
qed

lemma update_schema_named_cases:
  assumes "schemas_ok c"
  shows "update_schema_named n f c =
    (case im_get (schemas c) n of None \<Rightarrow> (c, Err (schema_not_found n)) | Some s \<Rightarrow> (modify_schema s f c, Ok s))"
  using schemas_ok_get(1) [OF assms]
  by (auto simp: update_schema_named_def seq_app schema_by_name_eq schema_inner_def arena_get_def split: option.splits)

lemma update_parent_schema_cases:
  assumes "schemas_ok c" "im_get (schemas c) n = Some s"
  shows "update_parent_schema n f c = (modify_schema s f c, Ok ())"
  using schemas_ok_get(1) [OF assms] assms(2)
  by (simp add: update_parent_schema_def seq_app schema_by_name_eq schema_inner_def arena_get_def unwrap_res_def)

section \<open>Schemas\<close>

lemma arena_grown:
  "schemas_ok c \<Longrightarrow> im_get (schemas c) n = Some s \<Longrightarrow>
     (ar_items (schema_arena c) @ [e]) ! s = ar_items (schema_arena c) ! s"
  by (simp add: nth_append schemas_ok_get(1))

lemma add_schema_new:
  assumes wf: "names_wf c" and new: "im_get (schemas c) n = None"
  shows "snd (add_schema n path c) = Ok (length (ar_items (schema_arena c)))"
    and "names_wf (fst (add_schema n path c))"
    and "im_get (schemas (fst (add_schema n path c))) = (im_get (schemas c))(n \<mapsto> length (ar_items (schema_arena c)))"
    and "tables_of (fst (add_schema n path c)) = tables_of c" "views_of (fst (add_schema n path c)) = views_of c"
    and "macros_of (fst (add_schema n path c)) = macros_of c"
proof -
  let ?e = "\<lparr>csc_id = None, csc_name = n, csc_tables = [], csc_views = [], csc_macros = [], csc_path = path\<rparr>"
  let ?a = "fst (arena_push ?e None (schema_arena c))" and ?k = "length (ar_items (schema_arena c))"
  let ?c = "c\<lparr>schema_arena := ?a, schemas := im_insert n ?k (schemas c)\<rparr>"
  have add: "add_schema n path c = (?c, Ok ?k)"
    using new by (simp add: add_schema_def schema_by_name_eq arena_push_def)
  have items: "ar_items ?a = ar_items (schema_arena c) @ [?e]" by (simp add: arena_push_def)
  have ok: "schemas_ok c" by (rule names_wf_schemas [OF wf])
  have entry: "schema_entry sel ?c = schema_entry sel c" if "sel ?e = []" for sel :: "catalog_schema \<Rightarrow> ('k, usize) imap"
    using that new arena_grown [OF ok]
    by (auto simp: fun_eq_iff schema_entry_def items split: option.splits)
  have names: "tables_of ?c = tables_of c" "views_of ?c = views_of c" "macros_of ?c = macros_of c"
    by (simp_all add: fun_eq_iff tables_of_def views_of_def macros_of_def entry)
  have owners: "table_owner ?c = table_owner c" "view_owner ?c = view_owner c" "macro_owner ?c = macro_owner c"
    by (simp_all add: fun_eq_iff table_owner_def view_owner_def macro_owner_def)
  have "schemas_ok ?c"
  proof -
    have "i < length (ar_items ?a) \<and> csc_name (ar_items ?a ! i) = m" if "(m, i) \<in> set (im_insert n ?k (schemas c))" for m i
      using that ok new by (auto simp: schemas_ok_def items nth_append im_insert_new map_of_eq_None_iff)
    then show ?thesis using ok unfolding schemas_ok_def by auto
  qed
  then have "names_wf ?c"
    using wf by (simp add: names_wf_def objects_ok_def entry one_name_space_def names owners)
  with add names show "snd (add_schema n path c) = Ok ?k" "names_wf (fst (add_schema n path c))"
    "im_get (schemas (fst (add_schema n path c))) = (im_get (schemas c))(n \<mapsto> ?k)"
    "tables_of (fst (add_schema n path c)) = tables_of c" "views_of (fst (add_schema n path c)) = views_of c"
    "macros_of (fst (add_schema n path c)) = macros_of c"
    by simp_all
qed

lemma add_schema_existing:
  "im_get (schemas c) n = Some s \<Longrightarrow> add_schema n path c = (c, Err (schema_already_exists n))"
  by (simp add: add_schema_def schema_by_name_eq)

lemma add_schema_wf: "names_wf c \<Longrightarrow> names_wf (fst (add_schema n path c))"
  using add_schema_new(2) add_schema_existing by (cases "im_get (schemas c) n") auto

section \<open>Tables\<close>

text \<open>Writing one field of a schema as the update function of that field.\<close>

lemma schema_field_updates:
  "s\<lparr>csc_tables := f (csc_tables s)\<rparr> = csc_tables_update f s"
  "s\<lparr>csc_views := g (csc_views s)\<rparr> = csc_views_update g s"
  "s\<lparr>csc_macros := h (csc_macros s)\<rparr> = csc_macros_update h s"
  by (cases s; simp)+

text \<open>The new table's columns, partitioning and sort order, and the column lists \<open>add_table\<close> returns.\<close>

definition table_parts ::
  "table_info \<Rightarrow> i64 option
    \<Rightarrow> (catalog_columns \<times> catalog_table_partition option \<times> catalog_sort_column list option \<times> usize list list) result"
where
  "table_parts info next_id =
     and_then (columns_from_schema (ti_schema info) next_id) (\<lambda>columns.
     and_then (opt_res (\<lambda>p. partition_from_partition p columns) (ti_partitioning info)) (\<lambda>partition.
     and_then (opt_res (\<lambda>s. sort_from_sort_info s columns) (ti_sort_info info)) (\<lambda>sort_info.
     and_then (root_column_indices columns) (\<lambda>idxs. Ok (columns, partition, sort_info, idxs)))))"

fun table_of_parts :: "table_info \<Rightarrow> ducklake_path \<Rightarrow>
    catalog_columns \<times> catalog_table_partition option \<times> catalog_sort_column list option \<times> usize list list \<Rightarrow> catalog_table"
where
  "table_of_parts info path (cs, p, so, idxs) =
     \<lparr>ct_id = None, ct_name = ti_name info, ct_columns = cs, ct_partition = p, ct_sort_info = so,
      ct_tags = ti_tags info, ct_path = path\<rparr>"

definition put_table :: "string \<Rightarrow> table_ref \<Rightarrow> schema_ref \<Rightarrow> catalog \<Rightarrow> catalog" where
  "put_table n t s = modify_schema s (csc_tables_update (im_insert n t))"

lemma add_table_cases:
  fixes info :: table_info
  assumes wf: "names_wf c"
  defines "q \<equiv> ti_name info"
  shows "add_table info path next_id c =
    (if tables_of c q \<noteq> None then (c, Err (table_already_exists q))
     else if views_of c q \<noteq> None then (c, Err (view_already_exists q))
     else case table_parts info next_id of
       Err e \<Rightarrow> (c, Err e)
     | Panic m \<Rightarrow> (c, Panic m)
     | Ok parts \<Rightarrow>
        (let c1 = fst (push_table (table_of_parts info path parts) c); t = length (ar_items (table_arena c)) in
         case im_get (schemas c) (qn_schema q) of
           None \<Rightarrow> (c1, Err (schema_not_found (qn_schema q)))
         | Some s \<Rightarrow> (put_table (qn_name q) t s c1,
             Ok (s, t, map (column_refs t) (snd (snd (snd parts))), partition_refs t (fst (snd parts))))))"
proof (cases "tables_of c q = None \<and> views_of c q = None")
  case False
  then show ?thesis
    by (auto simp: add_table_def seq_app q_def reject_table [OF wf] reject_view [OF wf])
next
  case True
  note guards = reject_table [OF wf, of q] reject_view [OF wf, of q]
  show ?thesis
  proof (cases "table_parts info next_id")
    case (Ok parts)
    then obtain cs p so idxs where parts: "parts = (cs, p, so, idxs)"
      and ok: "columns_from_schema (ti_schema info) next_id = Ok cs"
        "opt_res (\<lambda>p. partition_from_partition p cs) (ti_partitioning info) = Ok p"
        "opt_res (\<lambda>s. sort_from_sort_info s cs) (ti_sort_info info) = Ok so" "root_column_indices cs = Ok idxs"
      by (auto simp: table_parts_def)
    let ?t = "table_of_parts info path parts"
    obtain c1 where push: "push_table ?t c = (c1, Ok (length (ar_items (table_arena c))))"
      using push_table_names(2) by (metis surj_pair)
    have wf1: "schemas_ok c1" using push_table_names(3) [OF push wf] by (rule names_wf_schemas)
    have get: "im_get (schemas c1) n = im_get (schemas c) n" for n
      by (rule same_names_entry(6) [OF push_table_names(1) [OF push]])
    have upd: "update_schema_named (qn_schema q) f c1 =
        (case im_get (schemas c) (qn_schema q) of None \<Rightarrow> (c1, Err (schema_not_found (qn_schema q)))
         | Some s \<Rightarrow> (modify_schema s f c1, Ok s))" for f
      using update_schema_named_cases [OF wf1] by (simp add: get)
    from True guards ok push upd show ?thesis
      by (auto simp: add_table_def seq_app q_def Ok parts put_table_def Let_def schema_field_updates split: option.splits)
  qed (use True guards in \<open>auto simp: add_table_def seq_app q_def table_parts_def split: res.splits\<close>)
qed

lemma push_table_step:
  assumes wf: "names_wf c"
  shows "names_wf (fst (push_table t c))" "same_names c (fst (push_table t c))"
    and "ar_items (table_arena (fst (push_table t c))) = ar_items (table_arena c) @ [t]"
    and "table_owner (fst (push_table t c)) (length (ar_items (table_arena c)))
           = Some (qn_schema (ct_name t), qn_name (ct_name t))"
proof -
  obtain c1 r where push: "push_table t c = (c1, r)" by force
  note names = push_table_names [OF push]
  show "names_wf (fst (push_table t c))" "same_names c (fst (push_table t c))"
    "ar_items (table_arena (fst (push_table t c))) = ar_items (table_arena c) @ [t]"
    using names wf by (simp_all add: push)
  then show "table_owner (fst (push_table t c)) (length (ar_items (table_arena c)))
           = Some (qn_schema (ct_name t), qn_name (ct_name t))"
    by (simp add: table_owner_def Let_def)
qed

lemma table_of_parts_name [simp]: "ct_name (table_of_parts info path parts) = ti_name info"
  by (cases parts) simp

lemma put_new_table:
  assumes wf: "names_wf c" and s: "im_get (schemas c) (qn_schema (ct_name t)) = Some s"
    and v: "views_of c (ct_name t) = None"
  defines "k \<equiv> length (ar_items (table_arena c))"
  defines "c' \<equiv> put_table (qn_name (ct_name t)) k s (fst (push_table t c))"
  shows "names_wf c'" "tables_of c' = (tables_of c)(ct_name t \<mapsto> k)" "views_of c' = views_of c"
    and "macros_of c' = macros_of c" "schemas c' = schemas c" "ar_items (table_arena c') = ar_items (table_arena c) @ [t]"
proof -
  note st = push_table_step [OF wf, of t]
  note same = same_names_entry [OF st(2)]
  have s1: "im_get (schemas (fst (push_table t c))) (qn_schema (ct_name t)) = Some s"
    using s same(6) by simp
  have v1: "views_of (fst (push_table t c)) (ct_name t) = None" using v same(3) by simp
  note ins = tables_insert_wf [OF st(1) s1 st(4) v1]
  show "names_wf c'" "tables_of c' = (tables_of c)(ct_name t \<mapsto> k)" "views_of c' = views_of c"
    "macros_of c' = macros_of c"
    using ins by (simp_all add: c'_def k_def put_table_def same)
  show "schemas c' = schemas c" "ar_items (table_arena c') = ar_items (table_arena c) @ [t]"
    using st(2,3) by (simp_all add: c'_def put_table_def same_names_def)
qed

lemma add_table_wf:
  assumes wf: "names_wf c"
  shows "names_wf (fst (add_table info path next_id c))"
proof (cases "tables_of c (ti_name info) = None \<and> views_of c (ti_name info) = None")
  case False
  then show ?thesis using wf by (auto simp: add_table_cases [OF wf])
next
  case True
  show ?thesis
  proof (cases "table_parts info next_id")
    case (Ok parts)
    with True show ?thesis
      using push_table_step(1) [OF wf] put_new_table(1) [OF wf, of "table_of_parts info path parts"]
      by (simp add: add_table_cases [OF wf] Let_def split: option.splits)
  qed (use True wf in \<open>simp_all add: add_table_cases [OF wf]\<close>)
qed

lemma add_table_effect:
  assumes wf: "names_wf c" and add: "add_table info path next_id c = (c', Ok (s, t, cols, parts))"
  shows "tables_of c (ti_name info) = None" "views_of c (ti_name info) = None"
    and "tables_of c' = (tables_of c)(ti_name info \<mapsto> t)" "views_of c' = views_of c" "macros_of c' = macros_of c"
    and "schemas c' = schemas c" "im_get (schemas c) (qn_schema (ti_name info)) = Some s"
    and "\<exists>ps. table_parts info next_id = Ok ps \<and> t = length (ar_items (table_arena c)) \<and>
           ar_items (table_arena c') = ar_items (table_arena c) @ [table_of_parts info path ps] \<and>
           cols = map (column_refs t) (snd (snd (snd ps))) \<and> parts = partition_refs t (fst (snd ps))"
proof -
  note cases = add [unfolded add_table_cases [OF wf]]
  from cases show nt: "tables_of c (ti_name info) = None" and nv: "views_of c (ti_name info) = None"
    by (auto split: if_splits)
  from cases nt nv obtain ps where ps: "table_parts info next_id = Ok ps"
    by (auto split: res.splits)
  from cases nt nv ps have s: "im_get (schemas c) (qn_schema (ti_name info)) = Some s"
    and c': "c' = put_table (qn_name (ti_name info)) (length (ar_items (table_arena c))) s
              (fst (push_table (table_of_parts info path ps) c))"
    and t: "t = length (ar_items (table_arena c))" "cols = map (column_refs t) (snd (snd (snd ps)))"
      "parts = partition_refs t (fst (snd ps))"
    by (auto simp: Let_def split: option.splits)
  have s': "im_get (schemas c) (qn_schema (ct_name (table_of_parts info path ps))) = Some s" using s by simp
  have v': "views_of c (ct_name (table_of_parts info path ps)) = None" using nv by simp
  note put = put_new_table [OF wf s' v']
  show "tables_of c' = (tables_of c)(ti_name info \<mapsto> t)" "views_of c' = views_of c" "macros_of c' = macros_of c"
    "schemas c' = schemas c"
    using put by (simp_all add: c' t)
  show "im_get (schemas c) (qn_schema (ti_name info)) = Some s" by (rule s)
  show "\<exists>ps. table_parts info next_id = Ok ps \<and> t = length (ar_items (table_arena c)) \<and>
           ar_items (table_arena c') = ar_items (table_arena c) @ [table_of_parts info path ps] \<and>
           cols = map (column_refs t) (snd (snd (snd ps))) \<and> parts = partition_refs t (fst (snd ps))"
    using ps put(6) t by (intro exI [of _ ps]) (simp add: c')
qed

lemma table_delete_run:
  assumes wf: "names_wf c" and t: "tables_of c q = Some t" and s: "im_get (schemas c) (qn_schema q) = Some s"
  shows "table_delete t c = (modify_schema s (csc_tables_update (im_remove (qn_name q))) c, Ok ())"
  by (simp add: table_delete_def seq_app names_wf_table(3) [OF wf t] update_parent_schema_cases [OF names_wf_schemas [OF wf] s]
      schema_field_updates)

lemma table_delete_effect:
  assumes wf: "names_wf c" and t: "tables_of c q = Some t"
  shows "snd (table_delete t c) = Ok ()" "names_wf (fst (table_delete t c))"
    and "tables_of (fst (table_delete t c)) = (tables_of c)(q := None)"
    and "views_of (fst (table_delete t c)) = views_of c" "macros_of (fst (table_delete t c)) = macros_of c"
proof -
  note tab = names_wf_table [OF wf t]
  from tab(4) obtain s where s: "im_get (schemas c) (qn_schema q) = Some s" by auto
  note del = table_delete_run [OF wf t s]
  note rem = tables_remove_wf [OF wf s]
  show "snd (table_delete t c) = Ok ()" "names_wf (fst (table_delete t c))"
    "tables_of (fst (table_delete t c)) = (tables_of c)(q := None)"
    "views_of (fst (table_delete t c)) = views_of c" "macros_of (fst (table_delete t c)) = macros_of c"
    using rem by (simp_all add: del)
qed

section \<open>Renaming a table\<close>

lemma rename_table_names:
  assumes wf: "names_wf c" and t: "tables_of c q = Some t"
    and new: "tables_of c q' = None" "views_of c q' = None" and q': "q' = q\<lparr>qn_name := n\<rparr>"
    and s: "im_get (schemas c) (qn_schema q) = Some s"
  defines "c' \<equiv> modify_table t (\<lambda>t. t\<lparr>ct_name := (ct_name t)\<lparr>qn_name := n\<rparr>\<rparr>)
      (modify_schema s (\<lambda>s. s\<lparr>csc_tables := im_insert n t (im_remove (qn_name q) (csc_tables s))\<rparr>) c)"
  shows "names_wf c'" "tables_of c' = (tables_of c)(q := None, q' \<mapsto> t)"
    and "views_of c' = views_of c" "macros_of c' = macros_of c"
proof -
  let ?rem = "modify_schema s (csc_tables_update (im_remove (qn_name q))) c"
  let ?mid = "modify_table t (\<lambda>t. t\<lparr>ct_name := (ct_name t)\<lparr>qn_name := n\<rparr>\<rparr>) ?rem"
  note tab = names_wf_table [OF wf t]
  note rem = tables_remove_wf [OF wf s]
  have same: "same_names ?rem ?mid" by (simp add: same_names_def modify_table_def)
  note same' = same_names_entry [OF same]
  have owner: "table_owner ?mid x = (if x = t then Some (qn_schema q, n) else table_owner c x)" for x
    using tab(1,2) by (auto simp: table_owner_def modify_table_def arena_modify_def nth_list_update Let_def)
  have noref: "schema_entry csc_tables ?rem m k \<noteq> Some t" for m k
  proof
    assume "schema_entry csc_tables ?rem m k = Some t"
    then have r: "tables_of ?rem \<lparr>qn_schema = m, qn_name = k\<rparr> = Some t" by (simp add: tables_of_def)
    then have "tables_of c \<lparr>qn_schema = m, qn_name = k\<rparr> = Some t" and ne: "\<lparr>qn_schema = m, qn_name = k\<rparr> \<noteq> q"
      by (auto simp: rem(2) split: if_splits)
    with names_wf_table(2) [OF wf] tab(2) show False by metis
  qed
  have mid: "names_wf ?mid"
  proof -
    have "objects_ok csc_tables table_owner ?mid"
      unfolding objects_ok_def same'(1)
    proof (intro allI impI)
      fix m k x
      assume e: "schema_entry csc_tables ?rem m k = Some x"
      then have "x \<noteq> t" using noref by metis
      moreover from e rem(1) have "table_owner ?rem x = Some (m, k)"
        by (auto simp: names_wf_def dest: objects_okD)
      ultimately show "table_owner ?mid x = Some (m, k)" by (simp add: owner)
    qed
    moreover have "view_owner ?mid = view_owner ?rem" "macro_owner ?mid = macro_owner ?rem"
      by (simp_all add: fun_eq_iff view_owner_def macro_owner_def modify_table_def)
    ultimately show ?thesis
      using rem(1) by (simp add: names_wf_def objects_ok_def same' one_name_space_def)
  qed
  have s': "im_get (schemas ?mid) (qn_schema q') = Some s" using s q' by (simp add: same'(6))
  have own': "table_owner ?mid t = Some (qn_schema q', qn_name q')" using q' by (simp add: owner)
  have v': "views_of ?mid q' = None" using new rem by (simp add: same')
  note ins = tables_insert_wf [OF mid s' own' v']
  have split: "(\<lambda>s. s\<lparr>csc_tables := im_insert n t (im_remove (qn_name q) (csc_tables s))\<rparr>)
      = csc_tables_update (im_insert n t) \<circ> csc_tables_update (im_remove (qn_name q))"
    by (auto simp: fun_eq_iff)
  have "c' = modify_schema s (csc_tables_update (im_insert (qn_name q') t)) ?mid"
    using schemas_ok_get(1) [OF names_wf_schemas [OF wf] s]
    unfolding c'_def split by (simp add: modify_schema_def modify_table_def arena_modify_def q')
  with ins show "names_wf c'" "tables_of c' = (tables_of c)(q := None, q' \<mapsto> t)"
    "views_of c' = views_of c" "macros_of c' = macros_of c"
    using rem by (simp_all add: same')
qed

lemma table_rename_cases:
  fixes n :: string
  assumes wf: "names_wf c" and t: "tables_of c q = Some t"
  defines "q' \<equiv> q\<lparr>qn_name := n\<rparr>"
  shows "tables_of c q' \<noteq> None \<Longrightarrow> table_rename t n c = (c, Err (table_already_exists q'))"
    and "views_of c q' \<noteq> None \<Longrightarrow> table_rename t n c = (c, Err (view_already_exists q'))"
    and "tables_of c q' = None \<Longrightarrow> views_of c q' = None \<Longrightarrow>
      snd (table_rename t n c) = Ok () \<and> names_wf (fst (table_rename t n c)) \<and>
      tables_of (fst (table_rename t n c)) = (tables_of c)(q := None, q' \<mapsto> t) \<and>
      views_of (fst (table_rename t n c)) = views_of c \<and> macros_of (fst (table_rename t n c)) = macros_of c"
proof -
  note tab = names_wf_table [OF wf t]
  from tab(4) obtain s where s: "im_get (schemas c) (qn_schema q) = Some s" by auto
  note ok = names_wf_schemas [OF wf]
  have inner: "schema_inner c s = Ok (ar_items (schema_arena c) ! s)"
    using schemas_ok_get(1) [OF ok s] by (simp add: schema_inner_def arena_get_def)
  have tget: "im_get (csc_tables (ar_items (schema_arena c) ! s)) m = tables_of c (q\<lparr>qn_name := m\<rparr>)" for m
    using s by (simp add: tables_of_def schema_entry_def)
  have vget: "im_get (csc_views (ar_items (schema_arena c) ! s)) m = views_of c (q\<lparr>qn_name := m\<rparr>)" for m
    using s by (simp add: views_of_def schema_entry_def)
  have self: "q\<lparr>qn_name := qn_name q\<rparr> = q" by simp
  have q'_eq: "\<lparr>qn_schema = qn_schema q, qn_name = n\<rparr> = q'" by (simp add: q'_def)
  have run: "table_rename t n c =
     (if tables_of c q' \<noteq> None then (c, Err (table_already_exists q'))
      else if views_of c q' \<noteq> None then (c, Err (view_already_exists q'))
      else (modify_table t (\<lambda>t. t\<lparr>ct_name := (ct_name t)\<lparr>qn_name := n\<rparr>\<rparr>)
        (modify_schema s (\<lambda>s. s\<lparr>csc_tables := im_insert n t (im_remove (qn_name q) (csc_tables s))\<rparr>) c), Ok ()))"
    using t by (simp add: table_rename_def seq_app tab(3) schema_by_name_eq s inner im_contains_def tget vget self
        q'_eq q'_def [symmetric] del: im_contains_iff)
  from run show "tables_of c q' \<noteq> None \<Longrightarrow> table_rename t n c = (c, Err (table_already_exists q'))" by simp
  show "table_rename t n c = (c, Err (view_already_exists q'))" if v: "views_of c q' \<noteq> None"
  proof -
    from v obtain v' where "views_of c q' = Some v'" by auto
    then have "tables_of c q' = None" by (rule names_wf_view(5) [OF wf])
    with v show ?thesis by (simp add: run)
  qed
  assume new: "tables_of c q' = None" "views_of c q' = None"
  note ren = rename_table_names [OF wf t new q'_def [THEN meta_eq_to_obj_eq] s]
  from ren new show "snd (table_rename t n c) = Ok () \<and> names_wf (fst (table_rename t n c)) \<and>
      tables_of (fst (table_rename t n c)) = (tables_of c)(q := None, q' \<mapsto> t) \<and>
      views_of (fst (table_rename t n c)) = views_of c \<and> macros_of (fst (table_rename t n c)) = macros_of c"
    by (simp add: run)
qed

section \<open>Views and macros\<close>

definition view_of_info :: "view_info \<Rightarrow> catalog_view" where
  "view_of_info info = \<lparr>cv_id = None, cv_name = vi_name info, cv_sql = vi_sql info, cv_dialect = vi_dialect info,
     cv_column_aliases = vi_column_aliases info, cv_tags = vi_tags info\<rparr>"

lemma push_view_step:
  assumes wf: "names_wf c"
  shows "names_wf (fst (push_view v c))" "same_names c (fst (push_view v c))"
    and "push_view v c = (fst (push_view v c), Ok (length (ar_items (view_arena c))))"
    and "view_owner (fst (push_view v c)) (length (ar_items (view_arena c)))
           = Some (qn_schema (cv_name v), qn_name (cv_name v))"
proof -
  obtain c1 r where push: "push_view v c = (c1, r)" by force
  note names = push_view_names [OF push]
  show "names_wf (fst (push_view v c))" "same_names c (fst (push_view v c))"
    "push_view v c = (fst (push_view v c), Ok (length (ar_items (view_arena c))))"
    using names wf by (simp_all add: push)
  show "view_owner (fst (push_view v c)) (length (ar_items (view_arena c)))
           = Some (qn_schema (cv_name v), qn_name (cv_name v))"
    using names by (simp add: push view_owner_def Let_def)
qed

lemma add_view_cases:
  assumes wf: "names_wf c" and "q = vi_name info"
  shows "add_view info c =
    (if views_of c q \<noteq> None then (c, Err (view_already_exists q))
     else if tables_of c q \<noteq> None then (c, Err (table_already_exists q))
     else (let c1 = fst (push_view (view_of_info info) c); v = length (ar_items (view_arena c)) in
       case im_get (schemas c) (qn_schema q) of
         None \<Rightarrow> (c1, Err (schema_not_found (qn_schema q)))
       | Some s \<Rightarrow> (modify_schema s (csc_views_update (im_insert (qn_name q) v)) c1, Ok (s, v))))"
proof (cases "tables_of c q = None \<and> views_of c q = None")
  case False
  then show ?thesis
    by (auto simp: add_view_def seq_app assms(2) reject_table [OF wf] reject_view [OF wf])
next
  case True
  note guards = reject_table [OF wf, of q] reject_view [OF wf, of q]
  note st = push_view_step [OF wf, of "view_of_info info"]
  have "update_schema_named (qn_schema q) f (fst (push_view (view_of_info info) c)) =
      (case im_get (schemas c) (qn_schema q) of
         None \<Rightarrow> (fst (push_view (view_of_info info) c), Err (schema_not_found (qn_schema q)))
       | Some s \<Rightarrow> (modify_schema s f (fst (push_view (view_of_info info) c)), Ok s))" for f
    using update_schema_named_cases [OF names_wf_schemas [OF st(1)]] by (simp add: same_names_entry(6) [OF st(2)])
  moreover have "push_view \<lparr>cv_id = None, cv_name = vi_name info, cv_sql = vi_sql info, cv_dialect = vi_dialect info,
     cv_column_aliases = vi_column_aliases info, cv_tags = vi_tags info\<rparr> c
      = (fst (push_view (view_of_info info) c), Ok (length (ar_items (view_arena c))))"
    using st(3) by (simp add: view_of_info_def)
  ultimately show ?thesis
    using True guards
    by (auto simp: add_view_def seq_app assms(2) Let_def schema_field_updates split: option.splits)
qed

lemma add_view_effect:
  fixes info :: view_info
  assumes wf: "names_wf c" and s: "im_get (schemas c) (qn_schema (vi_name info)) = Some s"
    and free: "tables_of c (vi_name info) = None" "views_of c (vi_name info) = None"
  defines "c' \<equiv> fst (add_view info c)"
  shows "snd (add_view info c) = Ok (s, length (ar_items (view_arena c)))" "names_wf c'"
    and "views_of c' = (views_of c)(vi_name info \<mapsto> length (ar_items (view_arena c)))"
    and "tables_of c' = tables_of c" "macros_of c' = macros_of c"
proof -
  note st = push_view_step [OF wf, of "view_of_info info"]
  note same = same_names_entry [OF st(2)]
  have run: "add_view info c = (modify_schema s (csc_views_update (im_insert (qn_name (vi_name info))
      (length (ar_items (view_arena c))))) (fst (push_view (view_of_info info) c)), Ok (s, length (ar_items (view_arena c))))"
    by (simp add: add_view_cases [OF wf refl] s free Let_def)
  have nm: "cv_name (view_of_info info) = vi_name info" by (simp add: view_of_info_def)
  note ins = views_insert_wf [OF st(1) _ st(4) [unfolded nm], of s]
  show "snd (add_view info c) = Ok (s, length (ar_items (view_arena c)))" by (simp add: run)
  show "names_wf c'" "views_of c' = (views_of c)(vi_name info \<mapsto> length (ar_items (view_arena c)))"
    "tables_of c' = tables_of c" "macros_of c' = macros_of c"
    using ins by (simp_all add: c'_def run same s free)
qed

lemma add_view_wf:
  assumes wf: "names_wf c"
  shows "names_wf (fst (add_view info c))"
proof (cases "tables_of c (vi_name info) = None \<and> views_of c (vi_name info) = None
    \<and> im_get (schemas c) (qn_schema (vi_name info)) \<noteq> None")
  case True
  then show ?thesis using add_view_effect(2) [OF wf] by blast
next
  case False
  then show ?thesis
    using wf push_view_step(1) [OF wf] by (auto simp: add_view_cases [OF wf refl] Let_def)
qed

lemma view_delete_run:
  assumes wf: "names_wf c" and v: "views_of c q = Some v" and s: "im_get (schemas c) (qn_schema q) = Some s"
  shows "view_delete v c = (modify_schema s (csc_views_update (im_remove (qn_name q))) c, Ok ())"
  by (simp add: view_delete_def seq_app names_wf_view(3) [OF wf v] update_parent_schema_cases [OF names_wf_schemas [OF wf] s]
      schema_field_updates)

lemma view_delete_effect:
  assumes wf: "names_wf c" and v: "views_of c q = Some v"
  shows "snd (view_delete v c) = Ok ()" "names_wf (fst (view_delete v c))"
    and "views_of (fst (view_delete v c)) = (views_of c)(q := None)"
    and "tables_of (fst (view_delete v c)) = tables_of c" "macros_of (fst (view_delete v c)) = macros_of c"
proof -
  note vw = names_wf_view [OF wf v]
  from vw(4) obtain s where s: "im_get (schemas c) (qn_schema q) = Some s" by auto
  note del = view_delete_run [OF wf v s]
  note rem = views_remove_wf [OF wf s]
  show "snd (view_delete v c) = Ok ()" "names_wf (fst (view_delete v c))"
    "views_of (fst (view_delete v c)) = (views_of c)(q := None)"
    "tables_of (fst (view_delete v c)) = tables_of c" "macros_of (fst (view_delete v c)) = macros_of c"
    using rem by (simp_all add: del)
qed

lemma macros_remove_wf:
  fixes k :: "string \<times> macro_type"
  assumes wf: "names_wf c" and s: "im_get (schemas c) n = Some s"
  defines "c' \<equiv> modify_schema s (csc_macros_update (im_remove k)) c"
  shows "names_wf c'" "tables_of c' = tables_of c" "views_of c' = views_of c"
    and "macros_of c' q ty = (if qn_schema q = n \<and> macro_key (qn_name q) ty = k then None else macros_of c q ty)"
proof -
  have ok: "schemas_ok c" by (rule names_wf_schemas [OF wf])
  note other = macs.entry_other [OF ok s, of csc_tables] macs.entry_other [OF ok s, of csc_views]
  show t': "tables_of c' = tables_of c" by (simp add: fun_eq_iff tables_of_def c'_def other)
  show v': "views_of c' = views_of c" by (simp add: fun_eq_iff views_of_def c'_def other)
  show "macros_of c' q ty = (if qn_schema q = n \<and> macro_key (qn_name q) ty = k then None else macros_of c q ty)"
    by (simp add: macros_of_def c'_def macs.entry_remove [OF ok s])
  have "objects_ok csc_macros macro_owner c'"
    unfolding c'_def by (rule macs.objects_ok_remove [OF ok s]) (use wf in \<open>simp_all add: names_wf_def\<close>)
  then show "names_wf c'"
    using wf by (simp add: names_wf_def c'_def macs.schemas_ok_upd objects_ok_def other one_name_space_def
        t' [unfolded c'_def] v' [unfolded c'_def])
qed

lemma macro_delete_run:
  assumes wf: "names_wf c" and m: "macros_of c q ty = Some m" and s: "im_get (schemas c) (qn_schema q) = Some s"
  shows "macro_delete m c = (modify_schema s (csc_macros_update (im_remove (macro_key (qn_name q) ty))) c, Ok ())"
  using names_wf_macro [OF wf m]
  by (simp add: macro_delete_def seq_app macro_inner_def arena_get_def
      update_parent_schema_cases [OF names_wf_schemas [OF wf] s] schema_field_updates)

lemma macro_delete_effect:
  assumes wf: "names_wf c" and m: "macros_of c q ty = Some m"
  shows "snd (macro_delete m c) = Ok ()" "names_wf (fst (macro_delete m c))"
    and "macros_of (fst (macro_delete m c)) q' ty' =
      (if qn_schema q' = qn_schema q \<and> macro_key (qn_name q') ty' = macro_key (qn_name q) ty then None
       else macros_of c q' ty')"
    and "tables_of (fst (macro_delete m c)) = tables_of c" "views_of (fst (macro_delete m c)) = views_of c"
proof -
  from m have "im_get (schemas c) (qn_schema q) \<noteq> None"
    unfolding macros_of_def by (rule schema_entry_schema)
  then obtain s where s: "im_get (schemas c) (qn_schema q) = Some s" by auto
  note del = macro_delete_run [OF wf m s]
  note rem = macros_remove_wf [OF wf s, of "macro_key (qn_name q) ty"]
  show "snd (macro_delete m c) = Ok ()" "names_wf (fst (macro_delete m c))"
    "macros_of (fst (macro_delete m c)) q' ty' =
      (if qn_schema q' = qn_schema q \<and> macro_key (qn_name q') ty' = macro_key (qn_name q) ty then None
       else macros_of c q' ty')"
    "tables_of (fst (macro_delete m c)) = tables_of c" "views_of (fst (macro_delete m c)) = views_of c"
    using rem by (simp_all add: del)
qed

section \<open>Deleting a schema\<close>

definition schema_empty :: "catalog \<Rightarrow> string \<Rightarrow> bool" where
  "schema_empty c n \<longleftrightarrow> (\<forall>q. qn_schema q = n \<longrightarrow> tables_of c q = None \<and> views_of c q = None)
     \<and> (\<forall>k. schema_entry csc_macros c n k = None)"

lemma map_of_empty_iff: "(\<forall>k. map_of m k = None) \<longleftrightarrow> m = []"
proof (cases m)
  case (Cons p m')
  then have "map_of m (fst p) \<noteq> None" by simp
  with Cons show ?thesis by (metis list.distinct(1))
qed simp

lemma schema_delete_cases:
  assumes wf: "names_wf c" and s: "im_get (schemas c) n = Some s"
  shows "schema_delete s c =
    (if schema_empty c n then (c\<lparr>schemas := im_remove n (schemas c)\<rparr>, Ok ())
     else (c, Err (InvalidChanges (''cannot delete schema '' @ n @ '' which is not empty''))))"
proof -
  let ?e = "ar_items (schema_arena c) ! s"
  note get = schemas_ok_get [OF names_wf_schemas [OF wf] s]
  have t: "(\<forall>q. qn_schema q = n \<longrightarrow> tables_of c q = None) \<longleftrightarrow> (\<forall>k. im_get (csc_tables ?e) k = None)"
    by (auto simp: tables_of_def schema_entry_def s) (metis qualified_name.select_convs)
  have v: "(\<forall>q. qn_schema q = n \<longrightarrow> views_of c q = None) \<longleftrightarrow> (\<forall>k. im_get (csc_views ?e) k = None)"
    by (auto simp: views_of_def schema_entry_def s) (metis qualified_name.select_convs)
  have "schema_empty c n \<longleftrightarrow> csc_tables ?e = [] \<and> csc_views ?e = [] \<and> csc_macros ?e = []"
    unfolding map_of_empty_iff [symmetric] t [symmetric] v [symmetric]
    by (auto simp add: schema_empty_def schema_entry_def s)
  then show ?thesis
    using get by (simp add: schema_delete_def seq_app schema_inner_def arena_get_def)
qed

lemma schema_delete_effect:
  fixes n :: string
  assumes wf: "names_wf c" and s: "im_get (schemas c) n = Some s" and empty: "schema_empty c n"
  defines "c' \<equiv> fst (schema_delete s c)"
  shows "names_wf c'" "im_get (schemas c') = (im_get (schemas c))(n := None)"
    and "tables_of c' = tables_of c" "views_of c' = views_of c" "macros_of c' = macros_of c"
proof -
  let ?c = "c\<lparr>schemas := im_remove n (schemas c)\<rparr>"
  have c': "c' = ?c" by (simp add: c'_def schema_delete_cases [OF wf s] empty)
  have entry: "schema_entry sel ?c m k = (if m = n then None else schema_entry sel c m k)"
    for sel :: "catalog_schema \<Rightarrow> ('k, usize) imap" and m k
    by (cases "im_get (schemas c) m") (simp_all add: schema_entry_def)
  show t: "tables_of c' = tables_of c" and v: "views_of c' = views_of c"
    using empty by (auto simp: fun_eq_iff c' tables_of_def views_of_def entry schema_empty_def)
  show "macros_of c' = macros_of c"
    using empty by (simp add: fun_eq_iff c' macros_of_def entry schema_empty_def del: split_paired_All)
  show "im_get (schemas c') = (im_get (schemas c))(n := None)" by (simp add: c')
  have "schemas_ok ?c"
    using names_wf_schemas [OF wf] by (auto simp: schemas_ok_def im_remove_def distinct_map_filter)
  moreover have "table_owner ?c = table_owner c" "view_owner ?c = view_owner c" "macro_owner ?c = macro_owner c"
    by (simp_all add: fun_eq_iff table_owner_def view_owner_def macro_owner_def)
  ultimately show "names_wf c'"
    using wf t v by (simp add: names_wf_def objects_ok_def one_name_space_def c' entry)
qed

text \<open>A name that is taken is rejected with the error of the object that holds it.\<close>

lemma add_table_rejects:
  assumes "names_wf c"
  shows "tables_of c (ti_name info) \<noteq> None \<Longrightarrow>
      add_table info path next_id c = (c, Err (table_already_exists (ti_name info)))"
    and "views_of c (ti_name info) \<noteq> None \<Longrightarrow>
      add_table info path next_id c = (c, Err (view_already_exists (ti_name info)))"
  using names_wf_view(5) [OF assms] by (auto simp: add_table_cases [OF assms])

end
