(* ===== verification/Catalog_Tables.thy ===== *)
theory Catalog_Tables
  imports Catalog_Effects
begin

text \<open>
  Tables of the catalog: the partitioning and sort order of a table read back as they were
  given, the information of a new table, and the guard that keeps the partition and sort
  columns of a table alive when columns are removed.
\<close>

section \<open>Partitioning and sort order round trips\<close>

lemma root_lookup:
  assumes "roots_wf cs" "im_get (cs_root_columns cs) n = Some i"
  shows "i < length (cs_arena cs)" "cc_name (cs_arena cs ! i) = n" "cc_parent_column (cs_arena cs ! i) = None"
  using assms by (auto simp: roots_wf_def dest!: map_of_SomeD)

lemma collect_inverse:
  assumes "collect f xs = Ok ys" "\<And>x y. x \<in> set xs \<Longrightarrow> f x = Ok y \<Longrightarrow> g y = Ok x"
  shows "collect g ys = Ok xs"
  using assms by (induction xs arbitrary: ys) auto

lemma partition_round_trip:
  assumes wf: "roots_wf cs" and conv: "partition_from_partition p cs = Ok cp"
  shows "into_partition cp cs = Ok p" "ctp_id cp = None"
proof -
  let ?f = "\<lambda>col. and_then (arena_idx_by_path cs [pc_column col]) (\<lambda>idx.
                 (Ok \<lparr>cpc_column = idx, cpc_transform = pc_transform col\<rparr>) :: catalog_partition_column result)"
  from conv obtain cols where c: "collect ?f p = Ok cols" and cp: "cp = \<lparr>ctp_id = None, ctp_columns = cols\<rparr>"
    by (auto simp: partition_from_partition_def)
  have "collect (\<lambda>col. and_then (idx_get (cs_arena cs) (cpc_column col)) (\<lambda>c.
        (Ok \<lparr>pc_column = cc_name c, pc_transform = cpc_transform col\<rparr>) :: partition_column result)) cols = Ok p"
    using root_lookup [OF wf] by (intro collect_inverse [OF c]) (auto simp: arena_idx_by_path_def)
  then show "into_partition cp cs = Ok p" "ctp_id cp = None"
    by (simp_all add: into_partition_def cp)
qed

lemma sort_round_trip:
  assumes wf: "roots_wf cs" and conv: "sort_from_sort_info s cs = Ok cso"
  shows "into_sort_info cso cs = Ok s"
proof -
  from conv show ?thesis
    unfolding sort_from_sort_info_def into_sort_info_def
    by (rule collect_inverse) (auto simp: column_by_name_def root_lookup [OF wf] split: if_splits)
qed

lemma opt_res_inverse:
  assumes "opt_res f x = Ok y" "\<And>a b. f a = Ok b \<Longrightarrow> g b = Ok a"
  shows "opt_res g y = Ok x"
  using assms by (auto simp: opt_res_def split: option.splits)

section \<open>The information of a new table\<close>

lemma fresh_columns:
  assumes cols: "distinct (map col_name cols)" "\<And>x. x \<in> set (nodes cols) \<Longrightarrow> struct_ok x"
    and small: "int (length (nodes cols)) < i64_max" and cs: "columns_from_schema (schema_of cols) None = Ok cs"
  shows "columns_wf cs" "schema_from_columns cs = Ok (schema_of (with_ids cols (\<lambda>i. 1 + int i)))"
proof -
  show "columns_wf cs" by (rule columns_from_schema_wf [OF cols small cs])
  have "ids_available False 1 (nodes cols)" using small by (simp add: ids_available_def i64_min_def)
  with columns_from_schema_inv [OF cols, of None] cs
  have "root_inv False 1 (ids_for False 1 (nodes cols)) cols cs" by auto
  from schema_from_columns_inv [OF this cols(1)]
  show "schema_from_columns cs = Ok (schema_of (with_ids cols (\<lambda>i. 1 + int i)))"
    by (simp add: ids_for_def [abs_def])
qed

lemma new_table_info:
  assumes wf: "names_wf c" and cols: "distinct (map col_name cols)" "\<And>x. x \<in> set (nodes cols) \<Longrightarrow> struct_ok x"
    and small: "int (length (nodes cols)) < i64_max" and sch: "ti_schema info = schema_of cols"
    and add: "add_table info path None c = (c', Ok (s, t, refs, parts))"
  shows "get_table_info c' t = Ok (info\<lparr>ti_schema := schema_of (with_ids cols (\<lambda>i. 1 + int i))\<rparr>)"
proof -
  from add_table_effect(8) [OF wf add] obtain ps where ps: "table_parts info None = Ok ps"
    and t: "t = length (ar_items (table_arena c))"
    and items: "ar_items (table_arena c') = ar_items (table_arena c) @ [table_of_parts info path ps]" by blast
  from ps sch obtain cs p so idxs where parts: "ps = (cs, p, so, idxs)"
    and ok: "columns_from_schema (schema_of cols) None = Ok cs"
      "opt_res (\<lambda>p. partition_from_partition p cs) (ti_partitioning info) = Ok p"
      "opt_res (\<lambda>s. sort_from_sort_info s cs) (ti_sort_info info) = Ok so"
    by (auto simp: table_parts_def)
  note fresh = fresh_columns [OF cols small ok(1)]
  from fresh(1) have roots: "roots_wf cs" by (simp add: columns_wf_def)
  have p: "opt_res (\<lambda>p. into_partition p cs) p = Ok (ti_partitioning info)"
    using partition_round_trip(1) [OF roots] by (rule opt_res_inverse [OF ok(2)])
  have so: "opt_res (\<lambda>s. into_sort_info s cs) so = Ok (ti_sort_info info)"
    using sort_round_trip [OF roots] by (rule opt_res_inverse [OF ok(3)])
  have inner: "table_inner c' t = Ok (table_of_parts info path ps)"
    by (simp add: table_inner_def arena_get_def items t)
  have "table_schema c' t = Ok (schema_of (with_ids cols (\<lambda>i. 1 + int i)))"
    using fresh(2) by (simp add: table_schema_def inner parts)
  then show ?thesis
    by (simp add: get_table_info_def inner table_partitioning_def table_sort_info_def parts p so)
qed

section \<open>Partition and sort columns stay alive\<close>

text \<open>The columns a table is partitioned or sorted by are root columns the ID lookup knows.\<close>

definition key_columns :: "catalog_table \<Rightarrow> usize list" where
  "key_columns t =
     (case ct_partition t of None \<Rightarrow> [] | Some p \<Rightarrow> map cpc_column (ctp_columns p)) @
     (case ct_sort_info t of None \<Rightarrow> [] | Some s \<Rightarrow> map cso_column s)"

definition column_live :: "catalog_columns \<Rightarrow> usize \<Rightarrow> bool" where
  "column_live cs i \<longleftrightarrow> i < length (cs_arena cs) \<and> im_get (cs_by_id cs) (cc_id (cs_arena cs ! i)) = Some i"

definition keys_live :: "catalog_table \<Rightarrow> bool" where
  "keys_live t \<longleftrightarrow> (\<forall>i \<in> set (key_columns t).
     column_live (ct_columns t) i \<and> cc_parent_column (cs_arena (ct_columns t) ! i) = None)"

lemma aggregate_below:
  assumes "forest_wf (cs_arena cs)"
  shows "idx < length (cs_arena cs) \<Longrightarrow> aggregate_column_indices n cs idx acc = Ok ds \<Longrightarrow>
    set ds \<subseteq> set acc \<union> {idx} \<union> {j. j < length (cs_arena cs) \<and> cc_parent_column (cs_arena cs ! j) \<noteq> None}"
proof (induction n arbitrary: idx acc ds)
  case (Suc n)
  let ?kids = "cdt_children (cc_dtype (cs_arena cs ! idx))"
  let ?B = "set acc \<union> {idx} \<union> {j. j < length (cs_arena cs) \<and> cc_parent_column (cs_arena cs ! j) \<noteq> None}"
  have fold: "fold_res (aggregate_column_indices n cs) ?kids (acc @ [idx]) = Ok ds"
    using Suc.prems by simp
  have step: "set ds' \<subseteq> ?B"
    if "fold_res (aggregate_column_indices n cs) ks a = Ok ds'" "set ks \<subseteq> set ?kids" "set a \<subseteq> ?B" for ks a ds'
    using that
  proof (induction ks arbitrary: a)
    case (Cons k ks)
    then obtain a1 where a1: "aggregate_column_indices n cs k a = Ok a1"
      and rest: "fold_res (aggregate_column_indices n cs) ks a1 = Ok ds'" by auto
    have k: "k < length (cs_arena cs)" "cc_parent_column (cs_arena cs ! k) \<noteq> None"
      using forest_wf_child [OF assms Suc.prems(1), of k] Cons.prems(2) by auto
    have "set a1 \<subseteq> ?B" using Suc.IH [OF k(1) a1] k Cons.prems(3) by auto
    with rest Cons show ?case by auto
  qed simp
  show ?case by (rule step [OF fold]) auto
qed simp

lemma aggregate_grows: "aggregate_column_indices n cs idx acc = Ok ds \<Longrightarrow> insert idx (set acc) \<subseteq> set ds"
proof (induction n arbitrary: idx acc ds)
  case (Suc n)
  have grow: "set a \<subseteq> set d" if "fold_res (aggregate_column_indices n cs) ks a = Ok d" for ks a d
    using that
  proof (induction ks arbitrary: a)
    case (Cons k ks)
    then obtain a1 where a1: "aggregate_column_indices n cs k a = Ok a1"
      and rest: "fold_res (aggregate_column_indices n cs) ks a1 = Ok d" by auto
    from Suc.IH [OF a1] Cons.IH [OF rest] show ?case by auto
  qed simp
  from Suc.prems show ?case using grow by fastforce
qed simp

lemma aggregate_self: "aggregate_column_indices n cs idx acc = Ok ds \<Longrightarrow> idx \<in> set ds"
  using aggregate_grows by fastforce

lemma drop_ids_live:
  assumes "distinct (map cc_id (cs_arena cs))" "column_live cs i" "i \<notin> set ds" "\<forall>j\<in>set ds. j < length (cs_arena cs)"
  shows "im_get (drop_ids cs ds (cs_by_id cs)) (cc_id (cs_arena cs ! i)) = Some i"
proof -
  have "cc_id (cs_arena cs ! j) \<noteq> cc_id (cs_arena cs ! i)" if "j \<in> set ds" for j
    using that assms nth_eq_iff_index_eq [OF assms(1), of j i] by (auto simp: column_live_def)
  then show ?thesis using assms(2) by (auto simp: drop_ids_get column_live_def)
qed

lemma table_inner_modify:
  "r < length (ar_items (table_arena c)) \<Longrightarrow>
     ar_items (table_arena (modify_table r f c)) ! r = f (ar_items (table_arena c) ! r)"
  by (simp add: modify_table_def arena_modify_def)

lemma column_remove_effect:
  assumes r: "cr_table_ref r < length (ar_items (table_arena c))"
  defines "t \<equiv> ar_items (table_arena c) ! cr_table_ref r"
  assumes wf: "columns_wf (ct_columns t)" "distinct (map cc_id (cs_arena (ct_columns t)))" and live: "keys_live t"
    and idx: "cr_column_idx r < length (cs_arena (ct_columns t))"
  shows "cr_column_idx r \<in> set (key_columns t) \<Longrightarrow>
      \<exists>msg. column_remove r c = (c, Err (InvalidChanges msg))"
    and "cr_column_idx r \<notin> set (key_columns t) \<Longrightarrow>
      (\<exists>is. snd (column_remove r c) = Ok (column_refs (cr_table_ref r) is) \<and>
        aggregate_column_indices (arena_fuel (ct_columns t)) (ct_columns t) (cr_column_idx r) [] = Ok is)
      \<and> keys_live (ar_items (table_arena (fst (column_remove r c))) ! cr_table_ref r)
      \<and> \<not> column_live (ct_columns (ar_items (table_arena (fst (column_remove r c))) ! cr_table_ref r)) (cr_column_idx r)"
proof -
  have inner: "table_inner c (cr_table_ref r) = Ok t"
    using r by (simp add: table_inner_def arena_get_def t_def)
  note guard = list_ex_iff references_column_def key_columns_def
  show "\<exists>msg. column_remove r c = (c, Err (InvalidChanges msg))" if "cr_column_idx r \<in> set (key_columns t)"
    using that by (auto simp: column_remove_def seq_app inner guard split: option.splits)
  assume free: "cr_column_idx r \<notin> set (key_columns t)"
  obtain ds where agg: "aggregate_column_indices (arena_fuel (ct_columns t)) (ct_columns t) (cr_column_idx r) [] = Ok ds"
    and rem: "remove_column (cr_column_idx r) (ct_columns t)
       = ((ct_columns t)\<lparr>cs_by_id := drop_ids (ct_columns t) ds (cs_by_id (ct_columns t))\<rparr>, Ok ds)"
    using remove_column_spec [OF wf(1) idx] by blast
  let ?cs = "(ct_columns t)\<lparr>cs_by_id := drop_ids (ct_columns t) ds (cs_by_id (ct_columns t))\<rparr>"
  have run: "column_remove r c = (modify_table (cr_table_ref r) (\<lambda>t. t\<lparr>ct_columns := ?cs\<rparr>) c,
      Ok (column_refs (cr_table_ref r) ds))"
    using free
    by (auto simp: column_remove_def seq_app inner guard table_columns_op_def rem image_iff split: option.splits) metis+
  have t': "ar_items (table_arena (fst (column_remove r c))) ! cr_table_ref r = t\<lparr>ct_columns := ?cs\<rparr>"
    by (simp add: run table_inner_modify [OF r] t_def)
  have f: "forest_wf (cs_arena (ct_columns t))" using wf(1) by (simp add: columns_wf_def)
  have below: "set ds \<subseteq> {cr_column_idx r} \<union> {j. j < length (cs_arena (ct_columns t)) \<and>
      cc_parent_column (cs_arena (ct_columns t) ! j) \<noteq> None}"
    using aggregate_below [OF f idx agg] by simp
  have "keys_live (t\<lparr>ct_columns := ?cs\<rparr>)"
    unfolding keys_live_def
  proof (intro ballI conjI)
    fix i assume "i \<in> set (key_columns (t\<lparr>ct_columns := ?cs\<rparr>))"
    then have i: "i \<in> set (key_columns t)" by (simp add: key_columns_def)
    then have l: "column_live (ct_columns t) i" "cc_parent_column (cs_arena (ct_columns t) ! i) = None"
      using live by (auto simp: keys_live_def)
    then have "i \<notin> set ds" using below free i by auto
    then have "im_get (drop_ids (ct_columns t) ds (cs_by_id (ct_columns t))) (cc_id (cs_arena (ct_columns t) ! i)) = Some i"
      by (intro drop_ids_live [OF wf(2) l(1)]) (use below idx in auto)
    with l show "column_live (ct_columns (t\<lparr>ct_columns := ?cs\<rparr>)) i"
      "cc_parent_column (cs_arena (ct_columns (t\<lparr>ct_columns := ?cs\<rparr>)) ! i) = None"
      by (simp_all add: column_live_def)
  qed
  moreover have "cr_column_idx r \<in> set ds" by (rule aggregate_self [OF agg])
  ultimately show "(\<exists>is. snd (column_remove r c) = Ok (column_refs (cr_table_ref r) is) \<and>
        aggregate_column_indices (arena_fuel (ct_columns t)) (ct_columns t) (cr_column_idx r) [] = Ok is)
      \<and> keys_live (ar_items (table_arena (fst (column_remove r c))) ! cr_table_ref r)
      \<and> \<not> column_live (ct_columns (ar_items (table_arena (fst (column_remove r c))) ! cr_table_ref r)) (cr_column_idx r)"
    using run agg unfolding t' by (auto simp: column_live_def drop_ids_get)
qed

text \<open>Removing a column forgets exactly the IDs of the column and of the columns nested in it.\<close>

lemma remove_column_subtree:
  assumes "columns_wf cs" and "idx < length (cs_arena cs)"
  shows "\<exists>ds. aggregate_column_indices (arena_fuel cs) cs idx [] = Ok ds \<and> idx \<in> set ds
    \<and> snd (remove_column idx cs) = Ok ds
    \<and> cs_arena (fst (remove_column idx cs)) = cs_arena cs
    \<and> cs_root_columns (fst (remove_column idx cs)) = cs_root_columns cs
    \<and> (\<forall>k. im_get (cs_by_id (fst (remove_column idx cs))) k
         = (if \<exists>i\<in>set ds. cc_id (cs_arena cs ! i) = k then None else im_get (cs_by_id cs) k))"
proof -
  obtain ds where agg: "aggregate_column_indices (arena_fuel cs) cs idx [] = Ok ds"
    and rem: "remove_column idx cs = (cs\<lparr>cs_by_id := drop_ids cs ds (cs_by_id cs)\<rparr>, Ok ds)"
    by (rule remove_column_spec [OF assms])
  from agg aggregate_self [OF agg] show ?thesis
    by (intro exI [of _ ds]) (simp add: rem drop_ids_get)
qed

end
