(* ===== verification/TableStats.thy ===== *)
theory TableStats
  imports Types
begin

text \<open>
  \<open>typedefs/data/statistics.rs\<close> and the evolution of the statistics of a table in
  \<open>caches/table_stats.rs\<close>: the statistics of files and record batches, the statistics the
  catalog keeps for a table and its columns, and how a commit updates them. Loading them from
  the database is in \<open>Stats_Load\<close>. The lemmas describe the state after any number of
  updates: a row counter, a three-valued disjunction, and a bound.
\<close>

section \<open>State\<close>

record file_column_stats =
  fcs_size_bytes :: "usize option"
  fcs_min_value :: "value option"
  fcs_max_value :: "value option"
  fcs_null_count :: "usize option"
  fcs_contains_nan :: "bool option"

record data_file_statistics =
  dfs_num_rows :: usize
  dfs_file_size_bytes :: "usize option"
  dfs_footer_size_bytes :: "usize option"
  dfs_column_stats :: "(i64, file_column_stats) imap"

record array_column_stats =
  acs_min_value :: "value option"
  acs_max_value :: "value option"
  acs_null_count :: "usize option"
  acs_contains_nan :: "bool option"

record column_stats =
  cst_contains_null :: "bool option"
  cst_contains_nan :: "bool option"
  cst_min_value :: "value option"
  cst_max_value :: "value option"
  cst_is_persisted :: bool

record table_stats =
  ts_next_row_id :: i64
  ts_record_count :: "i64 option"
  ts_file_size_bytes :: "i64 option"
  ts_column_stats :: "(i64, column_stats) imap"
  ts_is_persisted :: bool

definition table_stats_default :: table_stats where
  "table_stats_default = \<lparr>ts_next_row_id = 0, ts_record_count = Some 0, ts_file_size_bytes = Some 0,
     ts_column_stats = [], ts_is_persisted = False\<rparr>"

definition column_stats_default :: column_stats where
  "column_stats_default = \<lparr>cst_contains_null = Some False, cst_contains_nan = Some False,
     cst_min_value = None, cst_max_value = None, cst_is_persisted = False\<rparr>"

section \<open>Evolution\<close>

definition advance_row_id :: "i64 \<Rightarrow> table_stats \<Rightarrow> table_stats" where
  "advance_row_id record_count s = s\<lparr>ts_next_row_id := i64_add (ts_next_row_id s) record_count\<rparr>"

definition add_record_count :: "i64 \<Rightarrow> table_stats \<Rightarrow> table_stats" where
  "add_record_count record_count s =
     s\<lparr>ts_record_count := Some (i64_add (case ts_record_count s of None \<Rightarrow> 0 | Some n \<Rightarrow> n) record_count)\<rparr>"

definition add_file_size_bytes :: "i64 option \<Rightarrow> table_stats \<Rightarrow> table_stats" where
  "add_file_size_bytes file_size_bytes s =
     s\<lparr>ts_file_size_bytes :=
        (case file_size_bytes of
           Some n \<Rightarrow> Some (i64_add (case ts_file_size_bytes s of None \<Rightarrow> 0 | Some m \<Rightarrow> m) n)
         | None \<Rightarrow> ts_file_size_bytes s)\<rparr>"

definition get_column_stats :: "i64 \<Rightarrow> table_stats \<Rightarrow> column_stats option" where
  "get_column_stats column_id s = im_get (ts_column_stats s) column_id"

text \<open>Writing through \<open>column_stats_mut\<close>, which creates the entry when it is missing.\<close>

definition update_column_stats :: "i64 \<Rightarrow> (column_stats \<Rightarrow> column_stats) \<Rightarrow> table_stats \<Rightarrow> table_stats" where
  "update_column_stats column_id f s =
     s\<lparr>ts_column_stats := im_insert column_id
        (f (case im_get (ts_column_stats s) column_id of None \<Rightarrow> column_stats_default | Some c \<Rightarrow> c))
        (ts_column_stats s)\<rparr>"

fun contains_update :: "bool option \<Rightarrow> bool option \<Rightarrow> bool option" where
  "contains_update (Some old) (Some new) = Some (old \<or> new)"
| "contains_update None (Some True) = Some True"
| "contains_update (Some True) None = Some True"
| "contains_update _ _ = None"

definition update_contains_null :: "bool option \<Rightarrow> column_stats \<Rightarrow> column_stats" where
  "update_contains_null b c = c\<lparr>cst_contains_null := contains_update (cst_contains_null c) b\<rparr>"

definition update_contains_nan :: "bool option \<Rightarrow> column_stats \<Rightarrow> column_stats" where
  "update_contains_nan b c = c\<lparr>cst_contains_nan := contains_update (cst_contains_nan c) b\<rparr>"

fun min_update :: "ext_cmp \<Rightarrow> value option \<Rightarrow> value option \<Rightarrow> value option" where
  "min_update X (Some old) (Some new) =
     map_option (\<lambda>ord. if ord = Greater then new else old) (value_cmp X old new)"
| "min_update X (Some old) None = Some old"
| "min_update X None new = new"

fun max_update :: "ext_cmp \<Rightarrow> value option \<Rightarrow> value option \<Rightarrow> value option" where
  "max_update X (Some old) (Some new) =
     map_option (\<lambda>ord. if ord = Less then new else old) (value_cmp X old new)"
| "max_update X (Some old) None = Some old"
| "max_update X None new = new"

definition update_min_value :: "ext_cmp \<Rightarrow> value option \<Rightarrow> column_stats \<Rightarrow> column_stats" where
  "update_min_value X v c = c\<lparr>cst_min_value := min_update X (cst_min_value c) v\<rparr>"

definition update_max_value :: "ext_cmp \<Rightarrow> value option \<Rightarrow> column_stats \<Rightarrow> column_stats" where
  "update_max_value X v c = c\<lparr>cst_max_value := max_update X (cst_max_value c) v\<rparr>"

section \<open>Three-valued flags\<close>

text \<open>
  A flag is \<open>Some True\<close> when some file is known to have the property, \<open>Some False\<close> when every
  file is known not to, and otherwise unknown.
\<close>

definition known_any :: "bool option list \<Rightarrow> bool option" where
  "known_any bs = (if Some True \<in> set bs then Some True else if None \<in> set bs then None else Some False)"

lemma contains_update_known_any: "contains_update (known_any bs) b = known_any (bs @ [b])"
proof (cases b)
  case None
  then show ?thesis by (auto simp: known_any_def)
next
  case (Some x)
  then show ?thesis by (cases x) (auto simp: known_any_def)
qed

lemma contains_fold: "fold (\<lambda>b acc. contains_update acc b) bs (known_any as) = known_any (as @ bs)"
proof (induction bs arbitrary: as)
  case (Cons b bs)
  show ?case
    using Cons [of "as @ [b]"] by (simp add: contains_update_known_any)
qed simp

lemma contains_fold_default: "fold (\<lambda>b acc. contains_update acc b) bs (Some False) = known_any bs"
  using contains_fold [of bs "[]"] by (simp add: known_any_def)

section \<open>Bounds\<close>

text \<open>
  On a set of values any two of which are comparable, by an order that is transitive and
  symmetric under exchange, the running minimum and maximum bound every value seen.
\<close>

definition at_most :: "ext_cmp \<Rightarrow> value \<Rightarrow> value \<Rightarrow> bool" where
  "at_most X a b \<longleftrightarrow> value_cmp X a b \<in> {Some Less, Some Equal}"

definition totally_ordered :: "ext_cmp \<Rightarrow> value set \<Rightarrow> bool" where
  "totally_ordered X S \<longleftrightarrow>
     (\<forall>a\<in>S. at_most X a a) \<and> (\<forall>a\<in>S. \<forall>b\<in>S. at_most X a b \<or> value_cmp X a b = Some Greater) \<and>
     (\<forall>a\<in>S. \<forall>b\<in>S. value_cmp X a b = Some Greater \<longrightarrow> at_most X b a) \<and>
     (\<forall>a\<in>S. \<forall>b\<in>S. value_cmp X a b = Some Less \<longrightarrow> at_most X a b) \<and>
     (\<forall>a\<in>S. \<forall>b\<in>S. at_most X a b \<and> \<not> at_most X b a \<longrightarrow> value_cmp X a b = Some Less) \<and>
     (\<forall>a\<in>S. \<forall>b\<in>S. \<forall>c\<in>S. at_most X a b \<and> at_most X b c \<longrightarrow> at_most X a c)"

lemma totally_orderedD:
  assumes "totally_ordered X S" and "a \<in> S" and "b \<in> S"
  shows "at_most X a a" and "value_cmp X a b = Some Greater \<or> at_most X a b"
    and "value_cmp X a b = Some Greater \<Longrightarrow> at_most X b a"
    and "\<And>c. c \<in> S \<Longrightarrow> at_most X a b \<Longrightarrow> at_most X b c \<Longrightarrow> at_most X a c"
    and "value_cmp X a b \<noteq> Some Less \<Longrightarrow> at_most X b a"
  using assms unfolding totally_ordered_def by blast+

text \<open>The values a bound has been computed from, and what it promises of them.\<close>

definition lower_bound :: "ext_cmp \<Rightarrow> value set \<Rightarrow> value option \<Rightarrow> bool" where
  "lower_bound X S m \<longleftrightarrow> (case m of None \<Rightarrow> S = {} | Some v \<Rightarrow> v \<in> S \<and> (\<forall>s\<in>S. at_most X v s))"

definition upper_bound :: "ext_cmp \<Rightarrow> value set \<Rightarrow> value option \<Rightarrow> bool" where
  "upper_bound X S m \<longleftrightarrow> (case m of None \<Rightarrow> S = {} | Some v \<Rightarrow> v \<in> S \<and> (\<forall>s\<in>S. at_most X s v))"

lemma min_update_bound:
  assumes ord: "totally_ordered X T" and sub: "insert v S \<subseteq> T" and m: "lower_bound X S m"
  shows "lower_bound X (insert v S) (min_update X m (Some v))"
proof (cases m)
  case None
  with m totally_orderedD(1) [OF ord, of v v] sub show ?thesis by (auto simp: lower_bound_def)
next
  case (Some w)
  with m have w: "w \<in> S" "\<forall>s\<in>S. at_most X w s" by (simp_all add: lower_bound_def)
  with sub have wT: "w \<in> T" and vT: "v \<in> T" by auto
  show ?thesis
  proof (cases "value_cmp X w v = Some Greater")
    case True
    then have "at_most X v w" using totally_orderedD(3) [OF ord wT vT] by simp
    then have "at_most X v s" if "s \<in> S" for s
      using totally_orderedD(4) [OF ord vT wT, of s] w(2) sub that by blast
    with True Some totally_orderedD(1) [OF ord vT vT] show ?thesis by (simp add: lower_bound_def)
  next
    case False
    then have le: "at_most X w v" using totally_orderedD(2) [OF ord wT vT] by simp
    then have "value_cmp X w v = Some Less \<or> value_cmp X w v = Some Equal" by (simp add: at_most_def)
    with le w Some show ?thesis by (auto simp: lower_bound_def)
  qed
qed

lemma max_update_bound:
  assumes ord: "totally_ordered X T" and sub: "insert v S \<subseteq> T" and m: "upper_bound X S m"
  shows "upper_bound X (insert v S) (max_update X m (Some v))"
proof (cases m)
  case None
  with m totally_orderedD(1) [OF ord, of v v] sub show ?thesis by (auto simp: upper_bound_def)
next
  case (Some w)
  with m have w: "w \<in> S" "\<forall>s\<in>S. at_most X s w" by (simp_all add: upper_bound_def)
  with sub have wT: "w \<in> T" and vT: "v \<in> T" by auto
  have some: "\<exists>r. value_cmp X w v = Some r"
    using totally_orderedD(2) [OF ord wT vT] by (auto simp: at_most_def)
  show ?thesis
  proof (cases "value_cmp X w v = Some Less")
    case True
    then have "at_most X w v" by (simp add: at_most_def)
    then have "at_most X s v" if "s \<in> S" for s
      using totally_orderedD(4) [OF ord, of s w v] w(2) sub that wT vT by blast
    with True Some totally_orderedD(1) [OF ord vT vT] show ?thesis by (simp add: upper_bound_def)
  next
    case False
    then have "at_most X v w" using totally_orderedD(5) [OF ord wT vT] by simp
    with False some w Some show ?thesis by (auto simp: upper_bound_def)
  qed
qed

lemma bounds_fold:
  assumes "totally_ordered X T" and "S \<union> set vs \<subseteq> T" and "lower_bound X S m" and "upper_bound X S n"
  shows "lower_bound X (S \<union> set vs) (fold (\<lambda>v acc. min_update X acc (Some v)) vs m)
    \<and> upper_bound X (S \<union> set vs) (fold (\<lambda>v acc. max_update X acc (Some v)) vs n)"
  using assms
proof (induction vs arbitrary: S m n)
  case (Cons v vs)
  have "lower_bound X (insert v S) (min_update X m (Some v))"
    using Cons.prems by (intro min_update_bound) auto
  moreover have "upper_bound X (insert v S) (max_update X n (Some v))"
    using Cons.prems by (intro max_update_bound) auto
  ultimately show ?case
    using Cons.IH [of "insert v S"] Cons.prems by auto
qed auto

text \<open>The integers of one width are totally ordered.\<close>

lemma totally_ordered_int64: "totally_ordered X (range VInt64)"
  by (auto simp: totally_ordered_def at_most_def cmp_int_def)

lemma totally_ordered_subset: "totally_ordered X T \<Longrightarrow> S \<subseteq> T \<Longrightarrow> totally_ordered X S"
  unfolding totally_ordered_def by (meson subsetD)

lemma null_flag_of_files:
  "cst_contains_null (fold update_contains_null bs column_stats_default) = known_any bs"
proof -
  have "cst_contains_null (fold update_contains_null bs c) = fold (\<lambda>b acc. contains_update acc b) bs (cst_contains_null c)" for c
    by (induction bs arbitrary: c) (simp_all add: update_contains_null_def)
  then show ?thesis by (simp add: contains_fold_default column_stats_default_def)
qed

end
