(* ===== verification/Entities.thy ===== *)
theory Entities
  imports Types
begin

text \<open>
  The rows of the DuckLake metadata tables (\<open>spec/entities.rs\<close>), one record per table with
  the fields of the source, and the predicates on snapshot ranges the queries filter by
  (\<open>spec/query_clauses.rs\<close>).
\<close>

record ducklake_column =
  dc_column_id :: i64
  dc_begin_snapshot :: i64
  dc_end_snapshot :: "i64 option"
  dc_table_id :: i64
  dc_column_order :: "i64 option"
  dc_column_name :: string
  dc_column_type :: string
  dc_initial_default :: "string option"
  dc_default_value :: "string option"
  dc_nulls_allowed :: bool
  dc_parent_column :: "i64 option"
  dc_default_value_type :: "string option"
  dc_default_value_dialect :: "string option"

record ducklake_column_tag =
  dct_table_id :: i64
  dct_column_id :: i64
  dct_begin_snapshot :: i64
  dct_end_snapshot :: "i64 option"
  dct_key :: string
  dct_value :: string

record ducklake_data_file =
  ddf_data_file_id :: i64
  ddf_table_id :: i64
  ddf_begin_snapshot :: i64
  ddf_end_snapshot :: "i64 option"
  ddf_file_order :: "i64 option"
  ddf_path :: string
  ddf_path_is_relative :: bool
  ddf_file_format :: string
  ddf_record_count :: i64
  ddf_file_size_bytes :: "i64 option"
  ddf_footer_size :: "i64 option"
  ddf_row_id_start :: "i64 option"
  ddf_partition_id :: "i64 option"
  ddf_encryption_key :: "string option"
  ddf_mapping_id :: "i64 option"
  ddf_partial_max :: "i64 option"

record ducklake_delete_file =
  ddel_delete_file_id :: i64
  ddel_table_id :: i64
  ddel_begin_snapshot :: i64
  ddel_end_snapshot :: "i64 option"
  ddel_data_file_id :: i64
  ddel_path :: string
  ddel_path_is_relative :: bool
  ddel_format :: string
  ddel_delete_count :: "i64 option"
  ddel_file_size_bytes :: "i64 option"
  ddel_footer_size :: "i64 option"
  ddel_encryption_key :: "string option"
  ddel_partial_max :: "i64 option"

record ducklake_file_column_stats =
  dfcs_data_file_id :: i64
  dfcs_table_id :: i64
  dfcs_column_id :: i64
  dfcs_column_size_bytes :: "i64 option"
  dfcs_value_count :: "i64 option"
  dfcs_null_count :: "i64 option"
  dfcs_min_value :: "string option"
  dfcs_max_value :: "string option"
  dfcs_contains_nan :: "bool option"
  dfcs_extra_stats :: "string option"

record ducklake_files_scheduled_for_deletion =
  dfsd_data_file_id :: i64
  dfsd_path :: string
  dfsd_path_is_relative :: bool
  dfsd_schedule_start :: date_time_utc

record ducklake_file_partition_value =
  dfpv_data_file_id :: i64
  dfpv_table_id :: i64
  dfpv_partition_key_index :: i64
  dfpv_partition_value :: "string option"

record ducklake_inlined_data_tables =
  didt_table_id :: i64
  didt_table_name :: string
  didt_schema_version :: i64

record ducklake_metadata =
  dmd_key :: string
  dmd_value :: string
  dmd_scope :: "string option"
  dmd_scope_id :: "i64 option"

record ducklake_partition_column =
  dpc_partition_id :: i64
  dpc_table_id :: i64
  dpc_partition_key_index :: i64
  dpc_column_id :: i64
  dpc_transform :: string

record ducklake_partition_info =
  dpi_partition_id :: i64
  dpi_table_id :: i64
  dpi_begin_snapshot :: i64
  dpi_end_snapshot :: "i64 option"

record ducklake_schema =
  dsc_schema_id :: i64
  dsc_schema_uuid :: "uuid option"
  dsc_begin_snapshot :: i64
  dsc_end_snapshot :: "i64 option"
  dsc_schema_name :: string
  dsc_path :: string
  dsc_path_is_relative :: bool

record ducklake_schema_versions =
  dsv_begin_snapshot :: i64
  dsv_schema_version :: i64
  dsv_table_id :: "i64 option"

record ducklake_snapshot =
  dsn_snapshot_id :: i64
  dsn_snapshot_time :: date_time_utc
  dsn_schema_version :: i64
  dsn_next_catalog_id :: i64
  dsn_next_file_id :: i64

record ducklake_snapshot_changes =
  dsnc_snapshot_id :: i64
  dsnc_changes_made :: string
  dsnc_author :: "string option"
  dsnc_commit_message :: "string option"
  dsnc_commit_extra_info :: "string option"

record ducklake_table =
  dt_table_id :: i64
  dt_table_uuid :: "uuid option"
  dt_begin_snapshot :: i64
  dt_end_snapshot :: "i64 option"
  dt_schema_id :: i64
  dt_table_name :: string
  dt_path :: string
  dt_path_is_relative :: bool

record ducklake_table_column_stats =
  dtcs_table_id :: i64
  dtcs_column_id :: i64
  dtcs_contains_null :: "bool option"
  dtcs_contains_nan :: "bool option"
  dtcs_min_value :: "string option"
  dtcs_max_value :: "string option"
  dtcs_extra_stats :: "string option"

record ducklake_table_stats =
  dts_table_id :: i64
  dts_record_count :: "i64 option"
  dts_next_row_id :: i64
  dts_file_size_bytes :: "i64 option"

record ducklake_tag =
  dtg_object_id :: i64
  dtg_begin_snapshot :: i64
  dtg_end_snapshot :: "i64 option"
  dtg_key :: string
  dtg_value :: string

record ducklake_macro =
  dma_schema_id :: i64
  dma_macro_id :: i64
  dma_macro_name :: string
  dma_begin_snapshot :: i64
  dma_end_snapshot :: "i64 option"

record ducklake_macro_impl =
  dmi_macro_id :: i64
  dmi_impl_id :: i64
  dmi_dialect :: string
  dmi_sql :: string
  dmi_type :: string

record ducklake_macro_parameters =
  dmp_macro_id :: i64
  dmp_impl_id :: i64
  dmp_column_id :: i64
  dmp_parameter_name :: string
  dmp_parameter_type :: string
  dmp_default_value :: "string option"
  dmp_default_value_type :: string

record ducklake_sort_info =
  dsi_sort_id :: i64
  dsi_table_id :: i64
  dsi_begin_snapshot :: i64
  dsi_end_snapshot :: "i64 option"

record ducklake_sort_expression =
  dse_sort_id :: i64
  dse_table_id :: i64
  dse_sort_key_index :: i64
  dse_expression :: "string option"
  dse_dialect :: "string option"
  dse_sort_direction :: "string option"
  dse_null_order :: "string option"

record ducklake_view =
  dv_view_id :: i64
  dv_view_uuid :: "uuid option"
  dv_begin_snapshot :: i64
  dv_end_snapshot :: "i64 option"
  dv_schema_id :: i64
  dv_view_name :: string
  dv_dialect :: string
  dv_sql :: string
  dv_column_aliases :: "string option"

record ducklake_inlined_delete =
  did_file_id :: i64
  did_row_id :: i64
  did_begin_snapshot :: i64

text \<open>
  \<open>filter_for_snapshot\<close>: a row is visible at a snapshot that is not before its begin and
  before its end.
\<close>

definition visible_at :: "i64 \<Rightarrow> i64 option \<Rightarrow> i64 \<Rightarrow> bool" where
  "visible_at begin_snapshot end_snapshot snapshot_id \<longleftrightarrow>
     begin_snapshot \<le> snapshot_id \<and>
     (case end_snapshot of None \<Rightarrow> True | Some e \<Rightarrow> e > snapshot_id)"

definition inlined_delete_table_name :: "i64 \<Rightarrow> string" where
  "inlined_delete_table_name table_id = ''ducklake_inlined_delete_'' @ show_int table_id"

definition inlined_data_table_name :: "i64 \<Rightarrow> i64 \<Rightarrow> string" where
  "inlined_data_table_name table_id schema_version =
     ''ducklake_inlined_data_'' @ show_int table_id @ ''_'' @ show_int schema_version"

end
