(* ===== verification/CommitState.thy ===== *)
theory CommitState
  imports Catalog_Tables TableStats Entities
begin

text \<open>
  \<open>transaction/commit_state.rs\<close>: the state of one commit attempt, that is a copy of the
  transaction's catalog, the counters of catalog and file IDs and the statistics. The four
  resolvers of object IDs share one contract, the locale \<open>id_resolver\<close>: the first request
  draws an ID from the counter and records it, every later one returns the recorded ID.
\<close>

section \<open>State\<close>

text \<open>The parts of a snapshot the commit starts from (\<open>caches/snapshot.rs\<close>).\<close>

record snapshot_info =
  sni_id :: i64
  sni_time :: date_time_utc
  sni_schema_version :: i64
  sni_next_catalog_id :: i64
  sni_next_file_id :: i64

record commit_state =
  st_snapshot_id :: i64
  st_schema_version :: i64
  st_next_catalog_id :: i64
  st_next_file_id :: i64
  st_catalog :: catalog
  st_table_stats :: "(i64, table_stats) imap option"
  st_original_table_stats :: "(i64, table_stats) imap option"

type_synonym 'a commit_op = "(commit_state, ducklake_error, 'a) op"

definition commit_state_new ::
  "snapshot_info \<Rightarrow> catalog \<Rightarrow> bool \<Rightarrow> (i64, table_stats) imap option \<Rightarrow> commit_state"
where
  "commit_state_new info c schema_changed stats =
     \<lparr>st_snapshot_id = i64_add (sni_id info) 1,
      st_schema_version = i64_add (sni_schema_version info) (if schema_changed then 1 else 0),
      st_next_catalog_id = sni_next_catalog_id info,
      st_next_file_id = sni_next_file_id info,
      st_catalog = c,
      st_table_stats = stats,
      st_original_table_stats = stats\<rparr>"

section \<open>Counters\<close>

definition catalog_id :: "i64 commit_op" where
  "catalog_id st = (st\<lparr>st_next_catalog_id := i64_add (st_next_catalog_id st) 1\<rparr>, Ok (st_next_catalog_id st))"

definition file_id :: "i64 commit_op" where
  "file_id st = (st\<lparr>st_next_file_id := i64_add (st_next_file_id st) 1\<rparr>, Ok (st_next_file_id st))"

definition sort_info_id :: "i64 commit_op" where
  "sort_info_id = catalog_id"

section \<open>IDs of objects\<close>

text \<open>An operation of the catalog, run on the catalog of the state.\<close>

definition on_catalog :: "'a catalog_op \<Rightarrow> 'a commit_op" where
  "on_catalog m st = (let (c, r) = m (st_catalog st) in (st\<lparr>st_catalog := c\<rparr>, r))"

definition resolve_with :: "(catalog \<Rightarrow> i64 option result) \<Rightarrow> (i64 \<Rightarrow> unit catalog_op) \<Rightarrow> i64 commit_op" where
  "resolve_with get_id resolve_id =
     seq (query (\<lambda>st. get_id (st_catalog st))) (\<lambda>found.
       case found of
         Some id' \<Rightarrow> ret id'
       | None \<Rightarrow> seq catalog_id (\<lambda>id'. seq (on_catalog (resolve_id id')) (\<lambda>_. ret id')))"

definition get_schema_id :: "schema_ref \<Rightarrow> catalog \<Rightarrow> i64 option result" where
  "get_schema_id r c = and_then (schema_inner c r) (\<lambda>s. Ok (csc_id s))"

definition get_table_id :: "table_ref \<Rightarrow> catalog \<Rightarrow> i64 option result" where
  "get_table_id r c = and_then (table_inner c r) (\<lambda>t. Ok (ct_id t))"

definition get_view_id :: "view_ref \<Rightarrow> catalog \<Rightarrow> i64 option result" where
  "get_view_id r c = and_then (view_inner c r) (\<lambda>v. Ok (cv_id v))"

definition get_macro_id :: "macro_ref \<Rightarrow> catalog \<Rightarrow> i64 option result" where
  "get_macro_id r c = and_then (macro_inner c r) (\<lambda>m. Ok (cm_id m))"

definition state_schema_id :: "schema_ref \<Rightarrow> i64 commit_op" where
  "state_schema_id r = resolve_with (get_schema_id r) (schema_resolve_id r)"

definition state_table_id :: "table_ref \<Rightarrow> i64 commit_op" where
  "state_table_id r = resolve_with (get_table_id r) (table_resolve_id r)"

definition state_view_id :: "view_ref \<Rightarrow> i64 commit_op" where
  "state_view_id r = resolve_with (get_view_id r) (view_resolve_id r)"

definition state_macro_id :: "macro_ref \<Rightarrow> i64 commit_op" where
  "state_macro_id r = resolve_with (get_macro_id r) (macro_resolve_id r)"

definition state_partition_id :: "table_ref \<Rightarrow> i64 commit_op" where
  "state_partition_id r = resolve_with (\<lambda>c. partition_id c r) (table_resolve_partition_id r)"

definition state_column_id :: "column_ref \<Rightarrow> i64 commit_op" where
  "state_column_id r = query (\<lambda>st. and_then (column_inner (st_catalog st) r) (\<lambda>c. Ok (cc_id c)))"

section \<open>Statistics\<close>

definition stats_of_column :: "(i64, table_stats) imap option \<Rightarrow> i64 \<Rightarrow> i64 \<Rightarrow> column_stats option" where
  "stats_of_column stats table_id column_id =
     Option.bind stats (\<lambda>tables. Option.bind (im_get tables table_id) (get_column_stats column_id))"

definition column_stats_changed :: "commit_state \<Rightarrow> i64 \<Rightarrow> i64 \<Rightarrow> bool" where
  "column_stats_changed st table_id column_id \<longleftrightarrow>
     stats_of_column (st_table_stats st) table_id column_id
       \<noteq> stats_of_column (st_original_table_stats st) table_id column_id"

text \<open>\<open>table_stats\<close> hands out the entry of a table, which it creates when it is missing.\<close>

definition state_table_stats :: "i64 \<Rightarrow> table_stats commit_op" where
  "state_table_stats table_id st =
     (case st_table_stats st of
        None \<Rightarrow> (st, Panic ''table stats are unset but requested'')
      | Some stats \<Rightarrow>
          (let s = (case im_get stats table_id of None \<Rightarrow> table_stats_default | Some s \<Rightarrow> s) in
           (st\<lparr>st_table_stats := Some (im_insert table_id s stats)\<rparr>, Ok s)))"

definition state_update_stats :: "i64 \<Rightarrow> (table_stats \<Rightarrow> table_stats) \<Rightarrow> unit commit_op" where
  "state_update_stats table_id f =
     seq (state_table_stats table_id) (\<lambda>s.
       update (\<lambda>st. st\<lparr>st_table_stats := map_option (im_insert table_id (f s)) (st_table_stats st)\<rparr>))"

definition state_table_schema :: "table_ref \<Rightarrow> schema commit_op" where
  "state_table_schema r = query (\<lambda>st. table_schema (st_catalog st) r)"

definition snapshot_of_state :: "date_time_utc \<Rightarrow> commit_state \<Rightarrow> ducklake_snapshot" where
  "snapshot_of_state now st =
     \<lparr>dsn_snapshot_id = st_snapshot_id st, dsn_snapshot_time = now, dsn_schema_version = st_schema_version st,
      dsn_next_catalog_id = st_next_catalog_id st, dsn_next_file_id = st_next_file_id st\<rparr>"

section \<open>The contract of the resolvers\<close>

text \<open>
  \<open>get\<close> reads the ID of an object, \<open>res\<close> records it; recording an ID changes no other
  object's.
\<close>

locale id_resolver =
  fixes get :: "nat \<Rightarrow> catalog \<Rightarrow> i64 option result"
    and res :: "nat \<Rightarrow> i64 \<Rightarrow> unit catalog_op"
  assumes res_unset: "get r c = Ok None \<Longrightarrow> \<exists>c'. res r i c = (c', Ok ()) \<and> get r c' = Ok (Some i)
        \<and> (\<forall>q. q \<noteq> r \<longrightarrow> get q c' = get q c)"
begin

lemma resolve_known: "get r (st_catalog st) = Ok (Some i) \<Longrightarrow> resolve_with (get r) (res r) st = (st, Ok i)"
  by (simp add: resolve_with_def seq_app)

lemma resolve_new:
  assumes "get r (st_catalog st) = Ok None"
  shows "\<exists>st'. resolve_with (get r) (res r) st = (st', Ok (st_next_catalog_id st))
    \<and> get r (st_catalog st') = Ok (Some (st_next_catalog_id st))
    \<and> (\<forall>q. q \<noteq> r \<longrightarrow> get q (st_catalog st') = get q (st_catalog st))
    \<and> st_next_catalog_id st' = i64_add (st_next_catalog_id st) 1"
proof -
  obtain c' where c': "res r (st_next_catalog_id st) (st_catalog st) = (c', Ok ())"
    "get r c' = Ok (Some (st_next_catalog_id st))" "\<forall>q. q \<noteq> r \<longrightarrow> get q c' = get q (st_catalog st)"
    using res_unset [OF assms] by blast
  with assms show ?thesis
    by (simp add: resolve_with_def seq_app catalog_id_def on_catalog_def)
qed

lemma resolve_total:
  assumes "get r (st_catalog st) = Ok o'"
  shows "\<exists>st' i. resolve_with (get r) (res r) st = (st', Ok i) \<and> get r (st_catalog st') = Ok (Some i)"
proof (cases o')
  case None
  with resolve_new assms show ?thesis by blast
next
  case (Some i)
  with resolve_known [of r st i] assms show ?thesis by auto
qed

lemma resolve_stable:
  assumes "get r (st_catalog st) = Ok o'" and "resolve_with (get r) (res r) st = (st', Ok i)"
  shows "resolve_with (get r) (res r) st' = (st', Ok i)"
proof -
  from resolve_total [OF assms(1)] assms(2) have "get r (st_catalog st') = Ok (Some i)" by auto
  then show ?thesis by (rule resolve_known)
qed

text \<open>IDs below the counter and without repetition stay so.\<close>

definition ids_fresh :: "commit_state \<Rightarrow> bool" where
  "ids_fresh st \<longleftrightarrow> in_i64 (st_next_catalog_id st) \<and>
     (\<forall>r i. get r (st_catalog st) = Ok (Some i) \<longrightarrow> i < st_next_catalog_id st) \<and>
     (\<forall>r q i. get r (st_catalog st) = Ok (Some i) \<and> get q (st_catalog st) = Ok (Some i) \<longrightarrow> r = q)"

lemma resolve_ids_fresh:
  assumes fresh: "ids_fresh st" and r: "get r (st_catalog st) = Ok o'" and bound: "st_next_catalog_id st < i64_max"
    and eq: "resolve_with (get r) (res r) st = (st', Ok i)"
  shows "ids_fresh st'"
proof (cases o')
  case None
  with resolve_new r eq have st': "get r (st_catalog st') = Ok (Some (st_next_catalog_id st))"
    "\<forall>q. q \<noteq> r \<longrightarrow> get q (st_catalog st') = get q (st_catalog st)"
    "st_next_catalog_id st' = i64_add (st_next_catalog_id st) 1"
    by fastforce+
  have next1: "in_i64 (st_next_catalog_id st + 1)"
    using fresh bound by (simp add: ids_fresh_def in_i64_def)
  then have next': "st_next_catalog_id st' = st_next_catalog_id st + 1" using st'(3) by simp
  have id_cases: "(q = r \<and> j = st_next_catalog_id st) \<or> (q \<noteq> r \<and> get q (st_catalog st) = Ok (Some j))"
    if "get q (st_catalog st') = Ok (Some j)" for q j
    using that st'(1,2) by (cases "q = r") auto
  have old: "j < st_next_catalog_id st" if "get q (st_catalog st) = Ok (Some j)" for q j
    using that fresh by (auto simp: ids_fresh_def)
  have "j < st_next_catalog_id st'" if "get q (st_catalog st') = Ok (Some j)" for q j
    using id_cases [OF that] old [of q j] next' by auto
  moreover have "q = p" if q: "get q (st_catalog st') = Ok (Some j)" and p: "get p (st_catalog st') = Ok (Some j)" for p q j
  proof -
    have "q = p" if "q \<noteq> r" "p \<noteq> r"
    proof -
      from that id_cases [OF q] id_cases [OF p]
      have "get q (st_catalog st) = Ok (Some j)" "get p (st_catalog st) = Ok (Some j)" by auto
      with fresh show ?thesis unfolding ids_fresh_def by blast
    qed
    moreover have "q = p" if "q = r \<or> p = r"
      using that id_cases [OF q] id_cases [OF p] old [of q j] old [of p j] by auto
    ultimately show ?thesis by blast
  qed
  ultimately show ?thesis using next1 next' by (simp add: ids_fresh_def)
next
  case (Some j)
  with resolve_known [of r st j] r eq have "st' = st" by simp
  with fresh show ?thesis by simp
qed

end

lemma arena_get_register: "arena_get (arena_register_id r i a) q = arena_get a q"
  by (simp add: arena_get_def arena_register_id_def)

lemma arena_get_modify_same: "arena_get a r = Ok x \<Longrightarrow> arena_get (arena_modify r f a) r = Ok (f x)"
  by (auto simp: arena_get_def arena_modify_def)

lemma arena_get_modify_other: "q \<noteq> r \<Longrightarrow> arena_get (arena_modify r f a) q = arena_get a q"
  by (simp add: arena_get_def arena_modify_def idx_get_def)

lemmas arena_get_simps = arena_get_register arena_get_modify_same arena_get_modify_other

interpretation table_ids: id_resolver get_table_id table_resolve_id
  by unfold_locales
    (auto simp: get_table_id_def table_inner_def table_resolve_id_def seq_app arena_get_simps)

interpretation schema_ids: id_resolver get_schema_id schema_resolve_id
  by unfold_locales
    (auto simp: get_schema_id_def schema_inner_def schema_resolve_id_def seq_app arena_get_simps)

interpretation view_ids: id_resolver get_view_id view_resolve_id
  by unfold_locales
    (auto simp: get_view_id_def view_inner_def view_resolve_id_def seq_app arena_get_simps)

interpretation macro_ids: id_resolver get_macro_id macro_resolve_id
  by unfold_locales
    (auto simp: get_macro_id_def macro_inner_def macro_resolve_id_def seq_app arena_get_simps)

end
