(* ===== verification/Changes.thy ===== *)
theory Changes
  imports CommitState "HOL-Library.Sublist"
begin

text \<open>
  \<open>transaction/changes/change.rs\<close>: the changes a transaction collects and the change set a
  commit works from. \<open>ChangeSet::new\<close> keeps the last change of each key and drops changes
  whose object does not survive the transaction; the section on its contract states it as a
  filter of the given changes. Applying a change set is in \<open>Apply\<close>.
\<close>

section \<open>Data\<close>

text \<open>Arrow record batches are left uninterpreted.\<close>

typedecl record_batch

instantiation record_batch :: equal
begin
definition equal_record_batch :: "record_batch \<Rightarrow> record_batch \<Rightarrow> bool" where
  "equal_record_batch x y = (x = y)"
instance by standard (simp add: equal_record_batch_def)
end

record commit_delete_file =
  cdel_path :: ducklake_path
  cdel_encryption_key :: "string option"
  cdel_num_deletes :: usize
  cdel_file_size_bytes :: "usize option"
  cdel_footer_size_bytes :: "usize option"

record commit_data_file =
  cdf_path :: ducklake_path
  cdf_encryption_key :: "string option"
  cdf_partition_values :: "string option list option"
  cdf_num_rows :: usize
  cdf_file_size_bytes :: "usize option"
  cdf_footer_size_bytes :: "usize option"
  cdf_column_stats :: "(column_ref, file_column_stats) imap"
  cdf_delete_files :: "commit_delete_file list"
  cdf_inline_deletes :: "i64 list"

record commit_inline_data =
  cid_record_batch :: record_batch
  cid_column_stats :: "(column_ref, array_column_stats) imap"

record create_table =
  crt_schema_ref :: schema_ref
  crt_table_ref :: table_ref
  crt_column_refs :: "column_ref list list"
  crt_partition_column_refs :: "column_ref list option"
  crt_name :: qualified_name
  crt_columns :: "column list"
  crt_retired_columns :: "ducklake_column list"
  crt_partition_columns :: "partition_column list option"
  crt_sort_info :: "sort_expression list option"
  crt_path :: ducklake_path
  crt_tags :: tags

record create_view =
  crv_schema_ref :: schema_ref
  crv_view_ref :: view_ref
  crv_name :: qualified_name
  crv_sql :: string
  crv_dialect :: string
  crv_column_aliases :: "string list option"
  crv_tags :: tags

record create_macro =
  crm_schema_ref :: schema_ref
  crm_macro_ref :: macro_ref
  crm_name :: qualified_name
  crm_macro_type :: macro_type
  crm_implementations :: "macro_implementation list"

datatype (plugins only: code size) change =
    CreateSchema schema_ref string ducklake_path
  | DeleteSchema schema_ref
  | CreateTable create_table
  | WriteTableDataFiles table_ref "commit_data_file list"
  | WriteTableInlineData table_ref "commit_inline_data list"
  | RenameTable table_ref qualified_name
  | UpdateTablePartitioning table_ref "column_ref list option" "partition_column list option"
  | UpdateTableSortInfo table_ref "sort_expression list option"
  | DeleteTable table_ref bool
  | AddTableTag table_ref tag
  | RemoveTableTag table_ref string
  | CreateView create_view
  | DeleteView view_ref
  | CreateMacro create_macro
  | DeleteMacro macro_ref macro_type
  | AddTableColumn "column_ref option" "column_ref list" column
  | UpdateTableColumn "column_ref option" column_ref column
  | RemoveTableColumn column_ref
  | AddTableColumnTag column_ref tag
  | RemoveTableColumnTag column_ref string

datatype (plugins only: code size) hashable_change =
    HCreateSchema schema_ref
  | HDeleteSchema schema_ref
  | HCreateTable table_ref
  | HRenameTable table_ref
  | HUpdateTablePartitioning table_ref
  | HUpdateTableSortInfo table_ref
  | HDeleteTable table_ref
  | HAddTableTag table_ref string
  | HRemoveTableTag table_ref string
  | HCreateView view_ref
  | HDeleteView view_ref
  | HCreateMacro macro_ref
  | HDeleteMacro macro_ref
  | HAddTableColumn "column_ref list"
  | HUpdateTableColumn column_ref
  | HRemoveTableColumn column_ref
  | HAddTableColumnTag column_ref string
  | HRemoveTableColumnTag column_ref string
  | HWriteTableDataFiles table_ref "ducklake_path list"
  | HWriteTableInlineData table_ref

fun change_key :: "change \<Rightarrow> hashable_change" where
  "change_key (CreateSchema s n p) = HCreateSchema s"
| "change_key (DeleteSchema s) = HDeleteSchema s"
| "change_key (CreateTable t) = HCreateTable (crt_table_ref t)"
| "change_key (RenameTable t n) = HRenameTable t"
| "change_key (UpdateTablePartitioning t rs cs) = HUpdateTablePartitioning t"
| "change_key (UpdateTableSortInfo t es) = HUpdateTableSortInfo t"
| "change_key (DeleteTable t d) = HDeleteTable t"
| "change_key (AddTableTag t tg) = HAddTableTag t (tag_key tg)"
| "change_key (RemoveTableTag t k) = HRemoveTableTag t k"
| "change_key (CreateView v) = HCreateView (crv_view_ref v)"
| "change_key (DeleteView v) = HDeleteView v"
| "change_key (CreateMacro m) = HCreateMacro (crm_macro_ref m)"
| "change_key (DeleteMacro m ty) = HDeleteMacro m"
| "change_key (AddTableColumn p cs c) = HAddTableColumn cs"
| "change_key (UpdateTableColumn p r c) = HUpdateTableColumn r"
| "change_key (RemoveTableColumn r) = HRemoveTableColumn r"
| "change_key (AddTableColumnTag r tg) = HAddTableColumnTag r (tag_key tg)"
| "change_key (RemoveTableColumnTag r k) = HRemoveTableColumnTag r k"
| "change_key (WriteTableDataFiles t fs) = HWriteTableDataFiles t (map cdf_path fs)"
| "change_key (WriteTableInlineData t d) = HWriteTableInlineData t"

section \<open>Classification of changes\<close>

definition first_table_ref :: "column_ref list \<Rightarrow> table_ref option" where
  "first_table_ref rs = (case rs of [] \<Rightarrow> None | r # _ \<Rightarrow> Some (cr_table_ref r))"

fun affected_table_ref :: "change \<Rightarrow> table_ref option" where
  "affected_table_ref (CreateTable t) = Some (crt_table_ref t)"
| "affected_table_ref (RenameTable t n) = Some t"
| "affected_table_ref (UpdateTablePartitioning t rs cs) = Some t"
| "affected_table_ref (UpdateTableSortInfo t es) = Some t"
| "affected_table_ref (DeleteTable t d) = Some t"
| "affected_table_ref (AddTableTag t tg) = Some t"
| "affected_table_ref (RemoveTableTag t k) = Some t"
| "affected_table_ref (WriteTableDataFiles t fs) = Some t"
| "affected_table_ref (WriteTableInlineData t d) = Some t"
| "affected_table_ref (UpdateTableColumn p r c) = Some (cr_table_ref r)"
| "affected_table_ref (RemoveTableColumn r) = Some (cr_table_ref r)"
| "affected_table_ref (AddTableColumnTag r tg) = Some (cr_table_ref r)"
| "affected_table_ref (RemoveTableColumnTag r k) = Some (cr_table_ref r)"
| "affected_table_ref (AddTableColumn p cs c) = first_table_ref cs"
| "affected_table_ref _ = None"

fun table_ref_with_schema_change :: "change \<Rightarrow> table_ref option" where
  "table_ref_with_schema_change (CreateTable t) = Some (crt_table_ref t)"
| "table_ref_with_schema_change (RenameTable t n) = Some t"
| "table_ref_with_schema_change (UpdateTablePartitioning t rs cs) = Some t"
| "table_ref_with_schema_change (UpdateTableColumn p r c) = Some (cr_table_ref r)"
| "table_ref_with_schema_change (RemoveTableColumn r) = Some (cr_table_ref r)"
| "table_ref_with_schema_change (AddTableColumn p cs c) = first_table_ref cs"
| "table_ref_with_schema_change _ = None"

fun requires_table_stats :: "change \<Rightarrow> bool" where
  "requires_table_stats (WriteTableDataFiles t fs) = True"
| "requires_table_stats (WriteTableInlineData t d) = True"
| "requires_table_stats _ = False"

definition changes_schema :: "change \<Rightarrow> bool" where
  "changes_schema c \<longleftrightarrow> (case c of WriteTableDataFiles _ _ \<Rightarrow> False | WriteTableInlineData _ _ \<Rightarrow> False | _ \<Rightarrow> True)"

section \<open>The change set\<close>

definition created_tables :: "change list \<Rightarrow> table_ref list" where
  "created_tables cs = List.map_filter (\<lambda>c. case c of CreateTable t \<Rightarrow> Some (crt_table_ref t) | _ \<Rightarrow> None) cs"

definition deleted_tables :: "change list \<Rightarrow> table_ref list" where
  "deleted_tables cs = List.map_filter (\<lambda>c. case c of DeleteTable t _ \<Rightarrow> Some t | _ \<Rightarrow> None) cs"

definition created_macros :: "change list \<Rightarrow> macro_ref list" where
  "created_macros cs = List.map_filter (\<lambda>c. case c of CreateMacro m \<Rightarrow> Some (crm_macro_ref m) | _ \<Rightarrow> None) cs"

definition deleted_macros :: "change list \<Rightarrow> macro_ref list" where
  "deleted_macros cs = List.map_filter (\<lambda>c. case c of DeleteMacro m _ \<Rightarrow> Some m | _ \<Rightarrow> None) cs"

definition created_views :: "change list \<Rightarrow> view_ref list" where
  "created_views cs = List.map_filter (\<lambda>c. case c of CreateView v \<Rightarrow> Some (crv_view_ref v) | _ \<Rightarrow> None) cs"

definition deleted_views :: "change list \<Rightarrow> view_ref list" where
  "deleted_views cs = List.map_filter (\<lambda>c. case c of DeleteView v \<Rightarrow> Some v | _ \<Rightarrow> None) cs"

definition created_schemas :: "change list \<Rightarrow> schema_ref list" where
  "created_schemas cs = List.map_filter (\<lambda>c. case c of CreateSchema s _ _ \<Rightarrow> Some s | _ \<Rightarrow> None) cs"

definition deleted_schemas :: "change list \<Rightarrow> schema_ref list" where
  "deleted_schemas cs = List.map_filter (\<lambda>c. case c of DeleteSchema s \<Rightarrow> Some s | _ \<Rightarrow> None) cs"

definition retain_tables :: "change list \<Rightarrow> change list" where
  "retain_tables cs =
     (let created = created_tables cs; deleted = deleted_tables cs in
      filter (\<lambda>c. case c of
          DeleteTable t _ \<Rightarrow> t \<notin> set created
        | _ \<Rightarrow> (case affected_table_ref c of Some r \<Rightarrow> r \<notin> set deleted | None \<Rightarrow> True)) cs)"

definition retain_macros :: "change list \<Rightarrow> change list" where
  "retain_macros cs =
     (let created = created_macros cs; deleted = deleted_macros cs in
      filter (\<lambda>c. case c of
          DeleteMacro m _ \<Rightarrow> m \<notin> set created
        | CreateMacro m \<Rightarrow> crm_macro_ref m \<notin> set deleted
        | _ \<Rightarrow> True) cs)"

definition retain_views :: "change list \<Rightarrow> change list" where
  "retain_views cs =
     (let created = created_views cs; deleted = deleted_views cs in
      filter (\<lambda>c. case c of
          DeleteView v \<Rightarrow> v \<notin> set created
        | CreateView v \<Rightarrow> crv_view_ref v \<notin> set deleted
        | _ \<Rightarrow> True) cs)"

definition retain_schemas :: "change list \<Rightarrow> change list" where
  "retain_schemas cs =
     (let created = created_schemas cs; deleted = deleted_schemas cs in
      filter (\<lambda>c. case c of
          DeleteSchema s \<Rightarrow> s \<notin> set created
        | CreateSchema s _ _ \<Rightarrow> s \<notin> set deleted
        | _ \<Rightarrow> True) cs)"

definition change_set_new :: "change list \<Rightarrow> change list" where
  "change_set_new changes =
     retain_schemas (retain_views (retain_macros (retain_tables
       (rev (unique_by change_key (rev changes))))))"

definition change_set_changes_schema :: "change list \<Rightarrow> bool" where
  "change_set_changes_schema cs \<longleftrightarrow> list_ex changes_schema cs"

definition change_set_requires_table_stats :: "change list \<Rightarrow> bool" where
  "change_set_requires_table_stats cs \<longleftrightarrow> list_ex requires_table_stats cs"

definition table_refs_with_schema_changes :: "change list \<Rightarrow> table_ref list" where
  "table_refs_with_schema_changes cs = unique (List.map_filter table_ref_with_schema_change cs)"

definition contains_inline_data_writes_and_no_file_writes :: "change list \<Rightarrow> bool" where
  "contains_inline_data_writes_and_no_file_writes cs \<longleftrightarrow>
     list_ex (\<lambda>c. case c of WriteTableInlineData _ _ \<Rightarrow> True | _ \<Rightarrow> False) cs \<and>
     \<not> list_ex (\<lambda>c. case c of WriteTableDataFiles _ _ \<Rightarrow> True | _ \<Rightarrow> False) cs"

section \<open>Its contract\<close>

text \<open>The last change of each key, in the order of the transaction.\<close>

fun last_by :: "('a \<Rightarrow> 'k) \<Rightarrow> 'a list \<Rightarrow> 'a list" where
  "last_by f [] = []"
| "last_by f (x # xs) = (if f x \<in> f ` set xs then last_by f xs else x # last_by f xs)"

lemma last_by_keys: "f ` set (last_by f xs) = f ` set xs"
  by (induction xs) auto

lemma last_by_snoc:
  "last_by f (xs @ [x]) = filter (\<lambda>y. f y \<noteq> f x) (last_by f xs) @ [x]"
  by (induction xs) auto

lemma unique_by_from_seen:
  "unique_by_from f (insert k seen) xs = filter (\<lambda>y. f y \<noteq> k) (unique_by_from f seen xs)"
proof (induction xs arbitrary: seen)
  case (Cons x xs)
  have "insert (f x) (insert k seen) = insert k (insert (f x) seen)" by auto
  with Cons [of seen] Cons [of "insert (f x) seen"] show ?case by auto
qed simp

lemma rev_unique_by_rev: "rev (unique_by f (rev xs)) = last_by f xs"
proof (induction xs rule: rev_induct)
  case (snoc x xs)
  have "rev (unique_by f (rev (xs @ [x]))) = rev (unique_by_from f {f x} (rev xs)) @ [x]"
    by (simp add: unique_by_def)
  also have "unique_by_from f {f x} (rev xs) = filter (\<lambda>y. f y \<noteq> f x) (unique_by f (rev xs))"
    using unique_by_from_seen [of f "f x" "{}" "rev xs"] by (simp add: unique_by_def)
  finally show ?case
    using snoc by (simp add: last_by_snoc rev_filter)
qed (simp add: unique_by_def)

lemma last_by_iff:
  "x \<in> set (last_by f xs) \<longleftrightarrow> (\<exists>ys zs. xs = ys @ x # zs \<and> f x \<notin> f ` set zs)"
proof (induction xs)
  case (Cons a xs)
  have "x \<in> set (last_by f (a # xs)) \<longleftrightarrow> (x = a \<and> f a \<notin> f ` set xs) \<or> x \<in> set (last_by f xs)"
    by auto
  also have "\<dots> \<longleftrightarrow> (\<exists>ys zs. a # xs = ys @ x # zs \<and> f x \<notin> f ` set zs)"
  proof
    assume "(x = a \<and> f a \<notin> f ` set xs) \<or> x \<in> set (last_by f xs)"
    then show "\<exists>ys zs. a # xs = ys @ x # zs \<and> f x \<notin> f ` set zs"
      using Cons by (metis append_Cons append_Nil)
  next
    assume "\<exists>ys zs. a # xs = ys @ x # zs \<and> f x \<notin> f ` set zs"
    then show "(x = a \<and> f a \<notin> f ` set xs) \<or> x \<in> set (last_by f xs)"
      using Cons by (auto simp: Cons_eq_append_conv)
  qed
  finally show ?case .
qed simp

lemma subseq_last_by: "subseq (last_by f xs) xs"
  by (induction xs) auto

lemma distinct_last_by: "distinct (map f (last_by f xs))"
proof (induction xs)
  case (Cons x xs)
  with last_by_keys [of f xs] show ?case by auto
qed simp

text \<open>A change is cancelled when its object is created or deleted elsewhere in the transaction.\<close>

fun cancelled :: "change list \<Rightarrow> change \<Rightarrow> bool" where
  "cancelled cs (DeleteTable t d) \<longleftrightarrow> HCreateTable t \<in> change_key ` set cs"
| "cancelled cs (DeleteMacro m ty) \<longleftrightarrow> HCreateMacro m \<in> change_key ` set cs"
| "cancelled cs (CreateMacro m) \<longleftrightarrow> HDeleteMacro (crm_macro_ref m) \<in> change_key ` set cs"
| "cancelled cs (DeleteView v) \<longleftrightarrow> HCreateView v \<in> change_key ` set cs"
| "cancelled cs (CreateView v) \<longleftrightarrow> HDeleteView (crv_view_ref v) \<in> change_key ` set cs"
| "cancelled cs (DeleteSchema s) \<longleftrightarrow> HCreateSchema s \<in> change_key ` set cs"
| "cancelled cs (CreateSchema s n p) \<longleftrightarrow> HDeleteSchema s \<in> change_key ` set cs"
| "cancelled cs c \<longleftrightarrow> (case affected_table_ref c of None \<Rightarrow> False | Some t \<Rightarrow> HDeleteTable t \<in> change_key ` set cs)"

lemma in_map_filter: "x \<in> set (List.map_filter f xs) \<longleftrightarrow> (\<exists>c\<in>set xs. f c = Some x)"
  by (induction xs) (auto simp: List.map_filter_def)

lemma image_key_iff: "k \<in> change_key ` set cs \<longleftrightarrow> (\<exists>c\<in>set cs. change_key c = k)"
  by auto

lemma created_deleted_keys:
  "t \<in> set (created_tables cs) \<longleftrightarrow> HCreateTable t \<in> change_key ` set cs"
  "t \<in> set (deleted_tables cs) \<longleftrightarrow> HDeleteTable t \<in> change_key ` set cs"
  "m \<in> set (created_macros cs) \<longleftrightarrow> HCreateMacro m \<in> change_key ` set cs"
  "m \<in> set (deleted_macros cs) \<longleftrightarrow> HDeleteMacro m \<in> change_key ` set cs"
  "v \<in> set (created_views cs) \<longleftrightarrow> HCreateView v \<in> change_key ` set cs"
  "v \<in> set (deleted_views cs) \<longleftrightarrow> HDeleteView v \<in> change_key ` set cs"
  "s \<in> set (created_schemas cs) \<longleftrightarrow> HCreateSchema s \<in> change_key ` set cs"
  "s \<in> set (deleted_schemas cs) \<longleftrightarrow> HDeleteSchema s \<in> change_key ` set cs"
  unfolding image_key_iff created_tables_def deleted_tables_def created_macros_def deleted_macros_def
    created_views_def deleted_views_def created_schemas_def deleted_schemas_def in_map_filter
  by (intro bex_cong refl; simp split: change.split)+

text \<open>The passes over tables, macros, views and schemas do not interfere.\<close>

definition drop_tables :: "change list \<Rightarrow> change \<Rightarrow> bool" where
  "drop_tables cs c \<longleftrightarrow> affected_table_ref c \<noteq> None \<and> cancelled cs c"

definition drop_macros :: "change list \<Rightarrow> change \<Rightarrow> bool" where
  "drop_macros cs c \<longleftrightarrow> (case c of DeleteMacro _ _ \<Rightarrow> cancelled cs c | CreateMacro _ \<Rightarrow> cancelled cs c | _ \<Rightarrow> False)"

definition drop_views :: "change list \<Rightarrow> change \<Rightarrow> bool" where
  "drop_views cs c \<longleftrightarrow> (case c of DeleteView _ \<Rightarrow> cancelled cs c | CreateView _ \<Rightarrow> cancelled cs c | _ \<Rightarrow> False)"

definition drop_schemas :: "change list \<Rightarrow> change \<Rightarrow> bool" where
  "drop_schemas cs c \<longleftrightarrow> (case c of DeleteSchema _ \<Rightarrow> cancelled cs c | CreateSchema _ _ _ \<Rightarrow> cancelled cs c | _ \<Rightarrow> False)"

lemma retain_filters:
  "retain_tables cs = filter (\<lambda>c. \<not> drop_tables cs c) cs"
  "retain_macros cs = filter (\<lambda>c. \<not> drop_macros cs c) cs"
  "retain_views cs = filter (\<lambda>c. \<not> drop_views cs c) cs"
  "retain_schemas cs = filter (\<lambda>c. \<not> drop_schemas cs c) cs"
  unfolding retain_tables_def retain_macros_def retain_views_def retain_schemas_def Let_def
  by (intro filter_cong refl;
      simp add: created_deleted_keys drop_tables_def drop_macros_def drop_views_def drop_schemas_def
        split: change.split option.split)+

lemma drop_cancelled:
  "drop_tables cs c \<or> drop_macros cs c \<or> drop_views cs c \<or> drop_schemas cs c \<longleftrightarrow> cancelled cs c"
  by (cases c) (auto simp: drop_tables_def drop_macros_def drop_views_def drop_schemas_def first_table_ref_def
      split: list.splits)

lemma drop_cong:
  assumes "\<And>m. HCreateMacro m \<in> change_key ` set ds \<longleftrightarrow> HCreateMacro m \<in> change_key ` set cs"
    and "\<And>m. HDeleteMacro m \<in> change_key ` set ds \<longleftrightarrow> HDeleteMacro m \<in> change_key ` set cs"
  shows "drop_macros ds = drop_macros cs"
  using assms by (intro ext) (simp add: drop_macros_def split: change.split)

lemma drop_views_cong:
  assumes "\<And>m. HCreateView m \<in> change_key ` set ds \<longleftrightarrow> HCreateView m \<in> change_key ` set cs"
    and "\<And>m. HDeleteView m \<in> change_key ` set ds \<longleftrightarrow> HDeleteView m \<in> change_key ` set cs"
  shows "drop_views ds = drop_views cs"
  using assms by (intro ext) (simp add: drop_views_def split: change.split)

lemma drop_schemas_cong:
  assumes "\<And>m. HCreateSchema m \<in> change_key ` set ds \<longleftrightarrow> HCreateSchema m \<in> change_key ` set cs"
    and "\<And>m. HDeleteSchema m \<in> change_key ` set ds \<longleftrightarrow> HDeleteSchema m \<in> change_key ` set cs"
  shows "drop_schemas ds = drop_schemas cs"
  using assms by (intro ext) (simp add: drop_schemas_def split: change.split)

lemma key_filter_other:
  assumes "\<And>c. change_key c = k \<Longrightarrow> P c"
  shows "k \<in> change_key ` set (filter P cs) \<longleftrightarrow> k \<in> change_key ` set cs"
  using assms by auto

lemma change_key_cases:
  "change_key c = HCreateMacro m \<longleftrightarrow> (\<exists>x. c = CreateMacro x \<and> crm_macro_ref x = m)"
  "change_key c = HDeleteMacro m \<longleftrightarrow> (\<exists>ty. c = DeleteMacro m ty)"
  "change_key c = HCreateView v \<longleftrightarrow> (\<exists>x. c = CreateView x \<and> crv_view_ref x = v)"
  "change_key c = HDeleteView v \<longleftrightarrow> c = DeleteView v"
  "change_key c = HCreateSchema s \<longleftrightarrow> (\<exists>n p. c = CreateSchema s n p)"
  "change_key c = HDeleteSchema s \<longleftrightarrow> c = DeleteSchema s"
  by (cases c; auto)+

lemma change_set_filter:
  "change_set_new cs = filter (\<lambda>c. \<not> cancelled cs c) (last_by change_key cs)"
proof -
  let ?l = "last_by change_key cs"
  define m where "m = filter (\<lambda>c. \<not> drop_tables ?l c) ?l"
  define v where "v = filter (\<lambda>c. \<not> drop_macros m c) m"
  define s where "s = filter (\<lambda>c. \<not> drop_views v c) v"
  have keys: "change_key ` set ?l = change_key ` set cs" by (rule last_by_keys)
  have m: "drop_macros m = drop_macros ?l"
    by (rule drop_cong; unfold m_def; rule key_filter_other; auto simp: change_key_cases drop_tables_def)
  have v: "drop_views v = drop_views ?l"
    by (rule drop_views_cong; unfold v_def m_def filter_filter; rule key_filter_other;
        auto simp: change_key_cases drop_tables_def drop_macros_def)
  have s: "drop_schemas s = drop_schemas ?l"
    by (rule drop_schemas_cong; unfold s_def v_def m_def filter_filter; rule key_filter_other;
        auto simp: change_key_cases drop_tables_def drop_macros_def drop_views_def)
  have "change_set_new cs = filter (\<lambda>c. \<not> drop_schemas s c) s"
    unfolding change_set_new_def rev_unique_by_rev retain_filters m_def v_def s_def ..
  also have "\<dots> = filter (\<lambda>c. \<not> cancelled ?l c) ?l"
  proof -
    have "s = filter (\<lambda>c. \<not> drop_views ?l c) v" unfolding s_def v ..
    moreover have "v = filter (\<lambda>c. \<not> drop_macros ?l c) m" unfolding v_def m ..
    ultimately show ?thesis
      unfolding s m_def by (simp add: conj_ac flip: drop_cancelled)
  qed
  also have "cancelled ?l = cancelled cs"
  proof
    show "cancelled ?l c = cancelled cs c" for c by (cases c) (simp_all add: keys split: option.split)
  qed
  finally show ?thesis .
qed

section \<open>What the change set does to tags and names\<close>

text \<open>The last change with a property, where changes with one key share the property.\<close>

lemma find_rev_last_by:
  assumes "\<And>x y. f x = f y \<Longrightarrow> P x = P y"
  shows "find P (rev (last_by f xs)) = find P (rev xs)"
proof (induction xs rule: rev_induct)
  case (snoc x xs)
  have "find P (filter (\<lambda>y. f y \<noteq> f x) zs) = find P zs" if "\<not> P x" for zs
  proof -
    have "\<not> P y" if "f y = f x" for y using assms [OF that] \<open>\<not> P x\<close> by simp
    then show ?thesis by (induction zs) auto
  qed
  with snoc show ?case by (simp add: last_by_snoc rev_filter)
qed simp

lemma find_filter_keep:
  assumes "\<And>x. P x \<Longrightarrow> Q x"
  shows "find P (filter Q xs) = find P xs"
  using assms by (induction xs) auto

lemma find_rev_change_set:
  assumes "\<And>x y. change_key x = change_key y \<Longrightarrow> P x = P y" and "\<And>c. P c \<Longrightarrow> \<not> cancelled cs c"
  shows "find P (rev (change_set_new cs)) = find P (rev cs)"
proof -
  have "find P (rev (change_set_new cs)) = find P (rev (last_by change_key cs))"
    unfolding change_set_filter rev_filter using assms(2) by (intro find_filter_keep) blast
  also have "\<dots> = find P (rev cs)" using assms(1) by (rule find_rev_last_by)
  finally show ?thesis .
qed

text \<open>The tags of a table after its tag changes, and the table's last rename.\<close>

fun replay_tag :: "table_ref \<Rightarrow> change \<Rightarrow> tags \<Rightarrow> tags" where
  "replay_tag r (AddTableTag t tg) ts = (if t = r then upsert_tag tg ts else ts)"
| "replay_tag r (RemoveTableTag t k) ts = (if t = r then fst (remove_tag k ts) else ts)"
| "replay_tag r c ts = ts"

fun touches_tag :: "table_ref \<Rightarrow> string \<Rightarrow> change \<Rightarrow> bool" where
  "touches_tag r k (AddTableTag t tg) \<longleftrightarrow> t = r \<and> tag_key tg = k"
| "touches_tag r k (RemoveTableTag t k') \<longleftrightarrow> t = r \<and> k' = k"
| "touches_tag r k c \<longleftrightarrow> False"

fun tag_written :: "change \<Rightarrow> string option" where
  "tag_written (AddTableTag t tg) = Some (tag_value tg)"
| "tag_written c = None"

fun renames :: "table_ref \<Rightarrow> change \<Rightarrow> bool" where
  "renames r (RenameTable t n) \<longleftrightarrow> t = r"
| "renames r c \<longleftrightarrow> False"

lemma fst_remove_tag: "fst (remove_tag k ts) = im_remove k ts"
  by (simp add: remove_tag_def tags_remove_def split: option.split)

lemma replay_tag_get:
  "im_get (replay_tag r c ts) k = (if touches_tag r k c then tag_written c else im_get ts k)"
  by (cases c) (auto simp: upsert_tag_def tags_insert_def fst_remove_tag)

lemma replay_tags_get:
  "im_get (fold (replay_tag r) cs ts) k =
     (case find (touches_tag r k) (rev cs) of None \<Rightarrow> im_get ts k | Some c \<Rightarrow> tag_written c)"
  by (induction cs rule: rev_induct) (simp_all add: replay_tag_get)

lemma touches_tag_key: "change_key x = change_key y \<Longrightarrow> touches_tag r k x = touches_tag r k y"
  by (cases x; cases y; simp)

lemma renames_key: "change_key x = change_key y \<Longrightarrow> renames r x = renames r y"
  by (cases x; cases y; simp)

lemma change_set_keeps_tags:
  assumes "HDeleteTable r \<notin> change_key ` set cs"
  shows "im_get (fold (replay_tag r) (change_set_new cs) ts) = im_get (fold (replay_tag r) cs ts)"
proof
  fix k
  have "find (touches_tag r k) (rev (change_set_new cs)) = find (touches_tag r k) (rev cs)"
  proof (rule find_rev_change_set)
    show "\<not> cancelled cs c" if "touches_tag r k c" for c
      using that assms by (cases c) auto
  qed (rule touches_tag_key)
  then show "im_get (fold (replay_tag r) (change_set_new cs) ts) k = im_get (fold (replay_tag r) cs ts) k"
    by (simp add: replay_tags_get)
qed

lemma change_set_keeps_last_rename:
  assumes "HDeleteTable r \<notin> change_key ` set cs"
  shows "find (renames r) (rev (change_set_new cs)) = find (renames r) (rev cs)"
proof (rule find_rev_change_set)
  show "\<not> cancelled cs c" if "renames r c" for c
    using that assms by (cases c) auto
qed (rule renames_key)

end
