(* ===== verification/Dialects.thy ===== *)
theory Dialects
  imports Datatypes
begin

text \<open>
  \<open>db/dialects/\<close>: the SQL dialects of the catalog database, their limits, the column types
  their tables use, and which table schemas can be inlined. \<open>column_type\<close> has the
  constructors of \<open>sea_query::ColumnType\<close> the code names.
\<close>

datatype db_dialect = Postgres | MySql | Sqlite

datatype column_type =
    CtBoolean | CtSmallInteger | CtInteger | CtBigInteger | CtString | CtText | CtFloat | CtDouble
  | CtDecimal int int | CtTime | CtInterval | CtBlob | CtUuid | CtTimestampWithTimeZone
  | CtCustom string

definition max_bind_params :: "db_dialect \<Rightarrow> nat" where
  "max_bind_params d = (case d of Postgres \<Rightarrow> 65535 | MySql \<Rightarrow> 65535 | Sqlite \<Rightarrow> 32766)"

definition max_rows_per_key_batch :: "db_dialect \<Rightarrow> nat \<Rightarrow> nat result" where
  "max_rows_per_key_batch d key_columns =
     (if key_columns = 0 then Panic ''row matching requires at least one key''
      else if key_columns > 1 \<and> d = Sqlite then Ok 256
      else Ok (max_bind_params d))"

section \<open>Column types\<close>

fun postgres_column_type :: "data_type \<Rightarrow> column_type result" where
  "postgres_column_type DBoolean = Ok CtBoolean"
| "postgres_column_type DInt8 = Ok CtSmallInteger"
| "postgres_column_type DInt16 = Ok CtSmallInteger"
| "postgres_column_type DInt32 = Ok CtInteger"
| "postgres_column_type DInt64 = Ok CtBigInteger"
| "postgres_column_type DInt128 = Ok CtString"
| "postgres_column_type DUInt8 = Ok CtInteger"
| "postgres_column_type DUInt16 = Ok CtInteger"
| "postgres_column_type DUInt32 = Ok CtBigInteger"
| "postgres_column_type DUInt64 = Ok CtString"
| "postgres_column_type DUInt128 = Ok CtString"
| "postgres_column_type DFloat32 = Ok CtFloat"
| "postgres_column_type DFloat64 = Ok CtDouble"
| "postgres_column_type (DDecimal p s) = Ok (CtDecimal p s)"
| "postgres_column_type DTime = Ok CtTime"
| "postgres_column_type DTimeTz = Ok (CtCustom ''TIMETZ'')"
| "postgres_column_type DDate = Ok CtString"
| "postgres_column_type (DTimestamp _) = Ok CtString"
| "postgres_column_type DTimestampTz = Ok CtString"
| "postgres_column_type DInterval = Ok CtInterval"
| "postgres_column_type DVarchar = Ok CtBlob"
| "postgres_column_type DJson = Ok CtBlob"
| "postgres_column_type DBlob = Ok CtBlob"
| "postgres_column_type DVariant = Panic ''type cannot be inlined''"
| "postgres_column_type DGeometry = Panic ''type cannot be inlined''"
| "postgres_column_type DUuid = Ok CtUuid"
| "postgres_column_type (DList _) = Ok CtString"
| "postgres_column_type (DStruct _) = Ok CtString"
| "postgres_column_type (DMap _ _) = Ok CtString"

definition sqlite_column_type :: "data_type \<Rightarrow> column_type result" where
  "sqlite_column_type t =
     (if t \<in> {DBoolean, DInt8, DInt16, DInt32, DInt64, DUInt8, DUInt16, DUInt32} then Ok (CtCustom ''bigint'')
      else if t = DBlob then Ok CtBlob
      else if t = DVariant \<or> t = DGeometry then Panic ''type cannot be inlined''
      else Ok CtString)"

definition column_type_for_data_inlining :: "db_dialect \<Rightarrow> data_type \<Rightarrow> column_type result" where
  "column_type_for_data_inlining d t =
     (if \<not> supports_data_inlining t
      then Err (InvalidDataType (dtype_to_string t @ '' cannot be inlined in this catalog''))
      else case d of
             Postgres \<Rightarrow> postgres_column_type t
           | MySql \<Rightarrow> Err (InvalidDataType ''data inlining is not supported for MySQL'')
           | Sqlite \<Rightarrow> sqlite_column_type t)"

definition column_type_string :: "db_dialect \<Rightarrow> column_type" where
  "column_type_string d = (case d of MySql \<Rightarrow> CtText | _ \<Rightarrow> CtString)"

definition column_type_i64 :: "db_dialect \<Rightarrow> column_type" where
  "column_type_i64 d = (case d of Sqlite \<Rightarrow> CtCustom ''bigint'' | _ \<Rightarrow> CtBigInteger)"

definition column_type_bool :: "db_dialect \<Rightarrow> column_type" where
  "column_type_bool d = (case d of Sqlite \<Rightarrow> CtCustom ''bigint'' | _ \<Rightarrow> CtBoolean)"

definition column_type_date_time_with_time_zone :: "db_dialect \<Rightarrow> column_type" where
  "column_type_date_time_with_time_zone d = (case d of Sqlite \<Rightarrow> CtString | _ \<Rightarrow> CtTimestampWithTimeZone)"

definition column_type_uuid :: "db_dialect \<Rightarrow> column_type" where
  "column_type_uuid d = (case d of Sqlite \<Rightarrow> CtString | MySql \<Rightarrow> CtText | Postgres \<Rightarrow> CtUuid)"

section \<open>Inlining of whole schemas\<close>

definition div_ceil :: "nat \<Rightarrow> nat \<Rightarrow> nat" where
  "div_ceil a b = (a + b - 1) div b"

definition next_multiple_of :: "nat \<Rightarrow> nat \<Rightarrow> nat" where
  "next_multiple_of a b = div_ceil a b * b"

text \<open>Width and alignment of the storage type of a column.\<close>

fun inline_width :: "data_type \<Rightarrow> nat \<times> nat" where
  "inline_width DBoolean = (1, 1)"
| "inline_width DInt8 = (2, 2)"
| "inline_width DInt16 = (2, 2)"
| "inline_width DInt32 = (4, 4)"
| "inline_width DUInt8 = (4, 4)"
| "inline_width DUInt16 = (4, 4)"
| "inline_width DFloat32 = (4, 4)"
| "inline_width DInt64 = (8, 8)"
| "inline_width DUInt32 = (8, 8)"
| "inline_width DFloat64 = (8, 8)"
| "inline_width DTime = (8, 8)"
| "inline_width DTimeTz = (12, 8)"
| "inline_width DInterval = (16, 8)"
| "inline_width DUuid = (16, 1)"
| "inline_width _ = (24, 4)"

definition inline_row_size :: "schema \<Rightarrow> nat" where
  "inline_row_size sch =
     fold (\<lambda>c size. next_multiple_of size (snd (inline_width (col_dtype c))) + fst (inline_width (col_dtype c)))
       (im_values sch)
       (next_multiple_of (23 + div_ceil (length sch + 3) 8) 8 + 3 * 8)"

definition inline_row_fits :: "schema \<Rightarrow> bool" where
  "inline_row_fits sch \<longleftrightarrow> inline_row_size sch \<le> 8160"

definition dialect_supports_data_inlining :: "db_dialect \<Rightarrow> schema \<Rightarrow> bool" where
  "dialect_supports_data_inlining d sch \<longleftrightarrow>
     length sch + 3 \<le> (case d of Sqlite \<Rightarrow> 2000 | Postgres \<Rightarrow> 1600 | MySql \<Rightarrow> 0) \<and>
     list_all (\<lambda>c. is_ok (column_type_for_data_inlining d (col_dtype c))) (im_values sch) \<and>
     (d = Postgres \<longrightarrow> inline_row_fits sch)"

section \<open>Properties\<close>

lemma column_type_no_panic: "column_type_for_data_inlining d t \<noteq> Panic m"
proof (cases "supports_data_inlining t")
  case True
  then have "t \<noteq> DVariant" "t \<noteq> DGeometry" by (auto simp: supports_data_inlining.simps)
  with True show ?thesis
    by (cases d; cases t) (auto simp: column_type_for_data_inlining_def sqlite_column_type_def)
qed (simp add: column_type_for_data_inlining_def)

lemma column_type_ok_iff:
  "is_ok (column_type_for_data_inlining d t) \<longleftrightarrow> d \<noteq> MySql \<and> supports_data_inlining t"
proof (cases "supports_data_inlining t")
  case True
  then have "t \<noteq> DVariant" "t \<noteq> DGeometry" by (auto simp: supports_data_inlining.simps)
  with True show ?thesis
    by (cases d; cases t) (auto simp: column_type_for_data_inlining_def sqlite_column_type_def)
qed (simp add: column_type_for_data_inlining_def)

lemma dialect_supports_columns:
  "dialect_supports_data_inlining d sch \<Longrightarrow> c \<in> set (im_values sch) \<Longrightarrow>
     d \<noteq> MySql \<and> supports_data_inlining (col_dtype c)"
  using column_type_ok_iff [of d "col_dtype c"]
  by (auto simp: dialect_supports_data_inlining_def list_all_iff)

lemma le_next_multiple_of:
  assumes "0 < b"
  shows "a \<le> next_multiple_of a b"
proof -
  have "b * ((a + b - 1) div b) + (a + b - 1) mod b = a + b - 1" by (rule mult_div_mod_eq)
  moreover have "(a + b - 1) mod b < b" using assms by simp
  ultimately have "a \<le> b * ((a + b - 1) div b)" using assms by linarith
  then show ?thesis by (simp add: next_multiple_of_def div_ceil_def mult.commute)
qed

lemma inline_width_pos: "0 < snd (inline_width t)" "0 < fst (inline_width t)"
  by (cases t; simp)+

text \<open>The estimate covers the sum of the column widths.\<close>

lemma inline_fold_size:
  "sum_list (map (\<lambda>c. fst (inline_width (col_dtype c))) cs) + n \<le>
     fold (\<lambda>c size. next_multiple_of size (snd (inline_width (col_dtype c))) + fst (inline_width (col_dtype c))) cs n"
proof (induction cs arbitrary: n)
  case (Cons c cs)
  have "n \<le> next_multiple_of n (snd (inline_width (col_dtype c)))"
    by (rule le_next_multiple_of) (rule inline_width_pos)
  with Cons [of "next_multiple_of n (snd (inline_width (col_dtype c))) + fst (inline_width (col_dtype c))"]
  show ?case by simp
qed simp

lemma inline_row_size_bound:
  "23 + 24 + sum_list (map (\<lambda>c. fst (inline_width (col_dtype c))) (im_values sch)) \<le> inline_row_size sch"
proof -
  have "23 \<le> next_multiple_of (23 + div_ceil (length sch + 3) 8) 8"
    using le_next_multiple_of [of 8 "23 + div_ceil (length sch + 3) 8"] by simp
  then show ?thesis
    using inline_fold_size [of "im_values sch" "next_multiple_of (23 + div_ceil (length sch + 3) 8) 8 + 3 * 8"]
    by (simp add: inline_row_size_def)
qed

end
