(* ===== verification/Batch.thy ===== *)
theory Batch
  imports Dialects "HOL-Library.Multiset"
begin

text \<open>
  \<open>db/batch.rs\<close>: statements on rows of one table that are split into batches, because a
  statement may only have so many bind parameters. A table is the list of its rows; \<open>keq\<close> is
  SQL's equality of keys, which for text need not be equality of strings. Each batched operation
  is shown to have the effect of one statement over all items.
\<close>

section \<open>Splitting into batches\<close>

text \<open>
  \<open>binds items\<close> is the number of bind parameters of the statement for these items. The number of
  items is halved until the statement fits; \<open>cnt\<close> starts positive because \<open>max_items\<close> is.
\<close>

function shrink :: "('t list \<Rightarrow> nat) \<Rightarrow> nat \<Rightarrow> 't list \<Rightarrow> nat \<Rightarrow> nat option" where
  "shrink binds limit items cnt =
     (if binds (take cnt items) \<le> limit then Some cnt
      else if cnt \<le> 1 then None
      else shrink binds limit items (cnt div 2))"
  by pat_completeness auto
termination
  by (relation "measure (\<lambda>(binds, limit, items, cnt). cnt)") auto

declare shrink.simps [simp del]

lemma shrink_Some:
  "shrink binds limit items cnt = Some n \<Longrightarrow> 0 < cnt \<Longrightarrow>
     0 < n \<and> n \<le> cnt \<and> binds (take n items) \<le> limit"
proof (induction binds limit items cnt rule: shrink.induct)
  case (1 binds limit items cnt)
  show ?case
  proof (cases "binds (take cnt items) \<le> limit \<or> cnt \<le> 1")
    case True
    with 1(2,3) show ?thesis by (auto simp: shrink.simps [of _ _ _ cnt] split: if_splits)
  next
    case False
    with 1(2) have "shrink binds limit items (cnt div 2) = Some n"
      by (simp add: shrink.simps [of _ _ _ cnt])
    moreover have "0 < cnt div 2" using False by (simp add: div_greater_zero_iff)
    ultimately have "0 < n \<and> n \<le> cnt div 2 \<and> binds (take n items) \<le> limit"
      using 1(1) False by blast
    then show ?thesis using div_le_dividend [of cnt 2] by linarith
  qed
qed

lemma shrink_fits:
  "0 < cnt \<Longrightarrow> binds (take 1 items) \<le> limit \<Longrightarrow> shrink binds limit items cnt \<noteq> None"
proof (induction binds limit items cnt rule: shrink.induct)
  case (1 binds limit items cnt)
  show ?case
  proof (cases "binds (take cnt items) \<le> limit")
    case False
    have "cnt \<noteq> 1" using False 1(3) by auto
    with 1(2) have "1 < cnt" by simp
    then have "0 < cnt div 2" by (simp add: div_greater_zero_iff)
    with 1(1) [OF False _ _ 1(3)] False \<open>1 < cnt\<close> show ?thesis
      by (simp add: shrink.simps [of _ _ _ cnt])
  qed (simp add: shrink.simps [of _ _ _ cnt])
qed

definition oversized_item :: ducklake_error where
  "oversized_item = Database \<lparr>de_unique_violation = False, de_table_already_exists = False,
     de_message = ''a single batch item exceeds the database bind parameter limit''\<rparr>"

function batch_queries :: "('t list \<Rightarrow> nat) \<Rightarrow> nat \<Rightarrow> nat \<Rightarrow> 't list \<Rightarrow> 't list result list" where
  "batch_queries binds limit max_items items =
     (if items = [] \<or> max_items = 0 then []
      else case shrink binds limit items (min (length items) max_items) of
             Some cnt \<Rightarrow> Ok (take cnt items) # batch_queries binds limit max_items (drop cnt items)
           | None \<Rightarrow> [Err oversized_item])"
  by pat_completeness auto
termination
proof (relation "measure (\<lambda>(binds, limit, max_items, items). length items)")
  fix binds :: "'t list \<Rightarrow> nat" and limit max_items cnt :: nat and items :: "'t list"
  assume ne: "\<not> (items = [] \<or> max_items = 0)"
    and "shrink binds limit items (min (length items) max_items) = Some cnt"
  then have "0 < cnt"
    using shrink_Some [of binds limit items "min (length items) max_items" cnt] by simp
  with ne show "((binds, limit, max_items, drop cnt items), binds, limit, max_items, items)
    \<in> measure (\<lambda>(binds, limit, max_items, items). length items)" by simp
qed simp

declare batch_queries.simps [simp del]

lemma batch_queries_Nil [simp]: "batch_queries binds limit max_items [] = []"
  by (simp add: batch_queries.simps)

lemma batch_queries_ok:
  assumes "0 < max_items" and "\<And>x. x \<in> set items \<Longrightarrow> binds [x] \<le> limit"
  shows "\<exists>bs. batch_queries binds limit max_items items = map Ok bs \<and> concat bs = items
    \<and> (\<forall>b\<in>set bs. b \<noteq> [] \<and> length b \<le> max_items \<and> binds b \<le> limit)"
  using assms(2)
proof (induction "length items" arbitrary: items rule: less_induct)
  case less
  show ?case
  proof (cases items)
    case (Cons x xs)
    let ?m = "min (length items) max_items"
    have "0 < ?m" using Cons assms(1) by simp
    moreover have "binds (take 1 items) \<le> limit" using less.prems Cons by simp
    ultimately obtain n where n: "shrink binds limit items ?m = Some n"
      using shrink_fits [of ?m binds items limit] by blast
    with \<open>0 < ?m\<close> have pos: "0 < n" "n \<le> ?m" "binds (take n items) \<le> limit"
      using shrink_Some [of binds limit items ?m n] by auto
    have smaller: "length (drop n items) < length items" using pos Cons by simp
    have "\<And>y. y \<in> set (drop n items) \<Longrightarrow> binds [y] \<le> limit"
      using less.prems in_set_dropD [of _ n items] by blast
    from less.hyps [OF smaller this] obtain bs where bs:
      "batch_queries binds limit max_items (drop n items) = map Ok bs" "concat bs = drop n items"
      "\<forall>b\<in>set bs. b \<noteq> [] \<and> length b \<le> max_items \<and> binds b \<le> limit"
      by blast
    have "batch_queries binds limit max_items items = map Ok (take n items # bs)"
      using Cons assms(1) n bs(1) by (subst batch_queries.simps) simp
    moreover have "concat (take n items # bs) = items" using bs(2) by simp
    moreover have "\<forall>b\<in>set (take n items # bs). b \<noteq> [] \<and> length b \<le> max_items \<and> binds b \<le> limit"
      using bs(3) pos Cons by auto
    ultimately show ?thesis by blast
  qed simp
qed

definition execute_batches ::
  "db_dialect \<Rightarrow> ('t list \<Rightarrow> nat) \<Rightarrow> 't list \<Rightarrow> nat \<Rightarrow> ('t list \<Rightarrow> ('s, ducklake_error, unit) op)
    \<Rightarrow> ('s, ducklake_error, unit) op"
where
  "execute_batches d binds items max_items statement =
     for_each (\<lambda>b. case b of Ok items \<Rightarrow> statement items | Err e \<Rightarrow> raise e | Panic m \<Rightarrow> lift_res (Panic m))
       (batch_queries binds (max_bind_params d) max_items items)"

lemma for_each_updates: "for_each (\<lambda>b. update (f b)) bs s = (fold f bs s, Ok ())"
  by (induction bs arbitrary: s) (simp_all add: seq_app)

lemma for_each_map: "for_each f (map g xs) = for_each (\<lambda>x. f (g x)) xs"
  by (induction xs) simp_all

text \<open>A statement whose effect composes over appended items is executed as a whole.\<close>

lemma execute_batches_whole:
  assumes "0 < max_items" and "\<And>x. x \<in> set items \<Longrightarrow> binds [x] \<le> max_bind_params d"
    and "\<And>bs s. concat bs = items \<Longrightarrow> [] \<notin> set bs \<Longrightarrow> fold f bs s = g s"
  shows "execute_batches d binds items max_items (\<lambda>b. update (f b)) s = (g s, Ok ())"
proof -
  obtain bs where bs: "batch_queries binds (max_bind_params d) max_items items = map Ok bs"
    "concat bs = items" "\<forall>b\<in>set bs. b \<noteq> [] \<and> length b \<le> max_items \<and> binds b \<le> max_bind_params d"
    using batch_queries_ok [OF assms(1), of items binds "max_bind_params d"] assms(2) by blast
  from bs(3) have "[] \<notin> set bs" by blast
  with assms(3) bs(2) have "fold f bs s = g s" by blast
  then show ?thesis
    by (simp add: execute_batches_def bs(1) for_each_map for_each_updates)
qed

section \<open>Row operations\<close>

text \<open>
  \<open>matching_rows\<close>: one key column is compared by \<open>IN\<close>, several by a disjunction; a disjunction of
  nothing is no condition at all.
\<close>

definition matching_rows :: "nat \<Rightarrow> ('r \<Rightarrow> 'k) \<Rightarrow> ('k \<Rightarrow> 'k \<Rightarrow> bool) \<Rightarrow> 'k list \<Rightarrow> 'r \<Rightarrow> bool" where
  "matching_rows key_columns key_of keq keys r \<longleftrightarrow>
     (if key_columns \<noteq> 1 \<and> keys = [] then True else list_ex (\<lambda>k. keq (key_of r) k) keys)"

definition replacement_value :: "('r \<Rightarrow> 'k) \<Rightarrow> ('k \<Rightarrow> 'k \<Rightarrow> bool) \<Rightarrow> ('k \<times> 'v) list \<Rightarrow> 'r \<Rightarrow> 'v option" where
  "replacement_value key_of keq rows r = map_option snd (find (\<lambda>(k, v). keq (key_of r) k) rows)"

type_synonym 'r table_op = "('r list, ducklake_error, unit) op"

definition key_batch ::
  "db_dialect \<Rightarrow> nat \<Rightarrow> ('t list \<Rightarrow> nat) \<Rightarrow> 't list \<Rightarrow> ('t list \<Rightarrow> 'r list \<Rightarrow> 'r list) \<Rightarrow> 'r table_op"
where
  "key_batch d key_columns binds items f =
     seq (lift_res (max_rows_per_key_batch d key_columns)) (\<lambda>m.
       execute_batches d binds items m (\<lambda>b. update (f b)))"

definition delete_rows ::
  "db_dialect \<Rightarrow> nat \<Rightarrow> ('r \<Rightarrow> 'k) \<Rightarrow> ('k \<Rightarrow> 'k \<Rightarrow> bool) \<Rightarrow> 'k list \<Rightarrow> 'r table_op"
where
  "delete_rows d key_columns key_of keq rows =
     key_batch d key_columns (\<lambda>b. key_columns * length b) rows
       (\<lambda>b. filter (\<lambda>r. \<not> matching_rows key_columns key_of keq b r))"

definition update_matching_rows ::
  "db_dialect \<Rightarrow> nat \<Rightarrow> ('r \<Rightarrow> 'k) \<Rightarrow> ('k \<Rightarrow> 'k \<Rightarrow> bool) \<Rightarrow> 'k list \<Rightarrow> nat \<Rightarrow> ('r \<Rightarrow> 'r) \<Rightarrow> nat \<Rightarrow> ('r \<Rightarrow> bool)
    \<Rightarrow> 'r table_op"
where
  "update_matching_rows d key_columns key_of keq rows value_columns assign filter_binds cond =
     key_batch d key_columns (\<lambda>b. value_columns + filter_binds + key_columns * length b) rows
       (\<lambda>b. map (\<lambda>r. if cond r \<and> matching_rows key_columns key_of keq b r then assign r else r))"

definition update_rows ::
  "db_dialect \<Rightarrow> nat \<Rightarrow> ('r \<Rightarrow> 'k) \<Rightarrow> ('k \<Rightarrow> 'k \<Rightarrow> bool) \<Rightarrow> nat \<Rightarrow> ('v \<Rightarrow> 'r \<Rightarrow> 'r) \<Rightarrow> ('k \<times> 'v) list \<Rightarrow> 'r table_op"
where
  "update_rows d key_columns key_of keq value_columns assign rows =
     key_batch d key_columns
       (\<lambda>b. value_columns * (key_columns + 1) * length b + key_columns * length b) rows
       (\<lambda>b. map (\<lambda>r. if matching_rows key_columns key_of keq (map fst b) r
                       then (case replacement_value key_of keq b r of None \<Rightarrow> r | Some v \<Rightarrow> assign v r)
                       else r))"

definition copy_rows_with_updates ::
  "db_dialect \<Rightarrow> nat \<Rightarrow> ('r \<Rightarrow> 'k) \<Rightarrow> ('k \<Rightarrow> 'k \<Rightarrow> bool) \<Rightarrow> nat \<Rightarrow> ('v \<Rightarrow> 'r \<Rightarrow> 'r) \<Rightarrow> ('k \<times> 'v) list
    \<Rightarrow> nat \<Rightarrow> ('r \<Rightarrow> 'r) \<Rightarrow> nat \<Rightarrow> ('r \<Rightarrow> bool) \<Rightarrow> 'r table_op"
where
  "copy_rows_with_updates d key_columns key_of keq value_columns assign rows fixed_columns fixed filter_binds cond =
     key_batch d key_columns
       (\<lambda>b. fixed_columns + filter_binds + value_columns * (key_columns + 1) * length b + key_columns * length b) rows
       (\<lambda>b t. t @ map (\<lambda>r. fixed (case replacement_value key_of keq b r of None \<Rightarrow> r | Some v \<Rightarrow> assign v r))
                    (filter (\<lambda>r. cond r \<and> matching_rows key_columns key_of keq (map fst b) r) t))"

definition fetch_rows ::
  "db_dialect \<Rightarrow> nat \<Rightarrow> ('r \<Rightarrow> 'k) \<Rightarrow> ('k \<Rightarrow> 'k \<Rightarrow> bool) \<Rightarrow> 'k list \<Rightarrow> 'r list \<Rightarrow> 'r list result"
where
  "fetch_rows d key_columns key_of keq rows t =
     and_then (max_rows_per_key_batch d key_columns) (\<lambda>m.
     and_then (collect (\<lambda>b. and_then b (\<lambda>keys. Ok (filter (matching_rows key_columns key_of keq keys) t)))
                 (batch_queries (\<lambda>b. key_columns * length b) (max_bind_params d) m rows))
       (\<lambda>parts. Ok (concat parts)))"

text \<open>
  \<open>insert_rows\<close>: the rows in chunks, or all at once through \<open>COPY\<close>, which is possible for some
  rows on PostgreSQL.
\<close>

function chunks :: "nat \<Rightarrow> 'r list \<Rightarrow> 'r list list" where
  "chunks n rows =
     (let chunk = take n rows in if chunk = [] then [] else chunk # chunks n (drop n rows))"
  by pat_completeness auto
termination
  by (relation "measure (\<lambda>(n, rows). length rows)") (auto simp: Let_def)

declare chunks.simps [simp del]

definition insert_rows :: "db_dialect \<Rightarrow> nat \<Rightarrow> ('r list \<Rightarrow> bool) \<Rightarrow> 'r list \<Rightarrow> 'r table_op" where
  "insert_rows d columns copy_supports rows =
     (if rows = [] then ret ()
      else if columns = 0 then lift_res (Panic ''attempt to divide by zero'')
      else let chunk_size = max_bind_params d div columns in
           if d = Postgres \<and> length rows > chunk_size \<and> copy_supports rows
           then update (\<lambda>t. t @ rows)
           else for_each (\<lambda>chunk. update (\<lambda>t. t @ chunk)) (chunks chunk_size rows))"

section \<open>One statement over all items\<close>

lemma max_rows_positive:
  assumes "0 < key_columns"
  obtains m where "max_rows_per_key_batch d key_columns = Ok m" and "0 < m"
proof -
  have "0 < max_bind_params d" by (cases d) (simp_all add: max_bind_params_def)
  with assms that show ?thesis
    by (cases "key_columns > 1 \<and> d = Sqlite") (auto simp: max_rows_per_key_batch_def)
qed

lemma key_batch_whole:
  assumes "0 < key_columns" and "\<And>x. x \<in> set items \<Longrightarrow> binds [x] \<le> max_bind_params d"
    and "\<And>bs s. concat bs = items \<Longrightarrow> [] \<notin> set bs \<Longrightarrow> fold f bs s = g s"
  shows "key_batch d key_columns binds items f s = (g s, Ok ())"
proof -
  obtain m where "max_rows_per_key_batch d key_columns = Ok m" "0 < m"
    using max_rows_positive [OF assms(1)] .
  with execute_batches_whole [of m items binds d f g s] assms(2,3) show ?thesis
    by (simp add: key_batch_def seq_app)
qed

lemma matching_rows_nonempty:
  "ks \<noteq> [] \<Longrightarrow> matching_rows n key_of keq ks r \<longleftrightarrow> (\<exists>k\<in>set ks. keq (key_of r) k)"
  by (auto simp: matching_rows_def list_ex_iff)

definition matches :: "('r \<Rightarrow> 'k) \<Rightarrow> ('k \<Rightarrow> 'k \<Rightarrow> bool) \<Rightarrow> 'k list \<Rightarrow> 'r \<Rightarrow> bool" where
  "matches key_of keq ks r \<longleftrightarrow> (\<exists>k\<in>set ks. keq (key_of r) k)"

lemma delete_rows_whole:
  assumes "0 < key_columns" and "key_columns \<le> max_bind_params d"
  shows "delete_rows d key_columns key_of keq rows t = (filter (\<lambda>r. \<not> matches key_of keq rows r) t, Ok ())"
  unfolding delete_rows_def
proof (rule key_batch_whole [OF assms(1)])
  show "fold (\<lambda>b. filter (\<lambda>r. \<not> matching_rows key_columns key_of keq b r)) bs s
      = filter (\<lambda>r. \<not> matches key_of keq rows r) s" if "concat bs = rows" "[] \<notin> set bs" for bs s
    using that
  proof (induction bs arbitrary: rows s)
    case (Cons b bs)
    have "fold (\<lambda>b. filter (\<lambda>r. \<not> matching_rows key_columns key_of keq b r)) bs s
        = filter (\<lambda>r. \<not> matches key_of keq (concat bs) r) s" for s
      using Cons.prems by (intro Cons.IH) auto
    with Cons.prems show ?case
      by (auto simp: matching_rows_nonempty matches_def intro!: filter_cong)
  qed (simp add: matches_def)
qed (use assms in simp)

lemma update_matching_rows_whole:
  assumes "0 < key_columns" and "value_columns + filter_binds + key_columns \<le> max_bind_params d"
    and key: "\<And>r. key_of (assign r) = key_of r" and fin: "\<And>r. cond r \<Longrightarrow> \<not> cond (assign r)"
  shows "update_matching_rows d key_columns key_of keq rows value_columns assign filter_binds cond t
    = (map (\<lambda>r. if cond r \<and> matches key_of keq rows r then assign r else r) t, Ok ())"
  unfolding update_matching_rows_def
proof (rule key_batch_whole [OF assms(1)])
  show "fold (\<lambda>b. map (\<lambda>r. if cond r \<and> matching_rows key_columns key_of keq b r then assign r else r)) bs s
      = map (\<lambda>r. if cond r \<and> matches key_of keq rows r then assign r else r) s"
    if "concat bs = rows" "[] \<notin> set bs" for bs s
    using that
  proof (induction bs arbitrary: rows s)
    case (Cons b bs)
    have "fold (\<lambda>b. map (\<lambda>r. if cond r \<and> matching_rows key_columns key_of keq b r then assign r else r)) bs s
        = map (\<lambda>r. if cond r \<and> matches key_of keq (concat bs) r then assign r else r) s" for s
      using Cons.prems by (intro Cons.IH) auto
    with Cons.prems fin show ?case
      by (auto simp: matching_rows_nonempty matches_def)
  qed (simp add: matches_def)
qed (use assms in simp)

text \<open>Replacing values row by row: the keys are distinct under SQL's equality.\<close>

definition keys_separate :: "('k \<Rightarrow> 'k \<Rightarrow> bool) \<Rightarrow> 'k list \<Rightarrow> bool" where
  "keys_separate keq ks \<longleftrightarrow> distinct ks \<and> (\<forall>x. \<forall>k\<in>set ks. \<forall>k'\<in>set ks. keq x k \<and> keq x k' \<longrightarrow> k = k')"

lemma keys_separate_append:
  assumes "keys_separate keq (as @ bs)"
  shows "keys_separate keq as" and "keys_separate keq bs"
    and "\<And>x a b. a \<in> set as \<Longrightarrow> b \<in> set bs \<Longrightarrow> keq x a \<Longrightarrow> \<not> keq x b"
proof -
  show "\<not> keq x b" if "a \<in> set as" "b \<in> set bs" "keq x a" for x a b
  proof
    assume "keq x b"
    with that assms have "a = b" unfolding keys_separate_def by auto
    with that assms show False unfolding keys_separate_def by auto
  qed
qed (use assms in \<open>auto simp: keys_separate_def\<close>)

lemma replacement_value_append:
  "replacement_value key_of keq (as @ bs) r =
     (case replacement_value key_of keq as r of None \<Rightarrow> replacement_value key_of keq bs r | v \<Rightarrow> v)"
  by (induction as) (auto simp: replacement_value_def)

lemma replacement_value_None:
  "replacement_value key_of keq as r = None \<longleftrightarrow> \<not> matches key_of keq (map fst as) r"
  by (induction as) (auto simp: replacement_value_def matches_def)

definition replace_by :: "('r \<Rightarrow> 'k) \<Rightarrow> ('k \<Rightarrow> 'k \<Rightarrow> bool) \<Rightarrow> ('v \<Rightarrow> 'r \<Rightarrow> 'r) \<Rightarrow> ('k \<times> 'v) list \<Rightarrow> 'r \<Rightarrow> 'r" where
  "replace_by key_of keq assign rows r =
     (case replacement_value key_of keq rows r of None \<Rightarrow> r | Some v \<Rightarrow> assign v r)"

lemma matching_replace:
  assumes "b \<noteq> []"
  shows "(if matching_rows n key_of keq (map fst b) r
          then (case replacement_value key_of keq b r of None \<Rightarrow> r | Some v \<Rightarrow> assign v r) else r)
    = replace_by key_of keq assign b r"
  using assms replacement_value_None [of key_of keq b r]
  by (auto simp: replace_by_def matching_rows_nonempty matches_def split: option.split)

lemma update_rows_whole:
  assumes "0 < key_columns"
    and "value_columns * (key_columns + 1) + key_columns \<le> max_bind_params d"
    and key: "\<And>v r. key_of (assign v r) = key_of r" and sep: "keys_separate keq (map fst rows)"
  shows "update_rows d key_columns key_of keq value_columns assign rows t
    = (map (replace_by key_of keq assign rows) t, Ok ())"
  unfolding update_rows_def
proof (rule key_batch_whole [OF assms(1)])
  show "fold (\<lambda>b. map (\<lambda>r. if matching_rows key_columns key_of keq (map fst b) r
            then (case replacement_value key_of keq b r of None \<Rightarrow> r | Some v \<Rightarrow> assign v r) else r)) bs s
      = map (replace_by key_of keq assign rows) s" if "concat bs = rows" "[] \<notin> set bs" for bs s
    using that sep
  proof (induction bs arbitrary: rows s)
    case Nil
    then show ?case by (simp add: replace_by_def replacement_value_def)
  next
    case (Cons b bs)
    then have sep: "keys_separate keq (map fst b @ map fst (concat bs))" by auto
    have step: "replace_by key_of keq assign (concat bs) (replace_by key_of keq assign b r)
        = replace_by key_of keq assign (b @ concat bs) r" for r
    proof (cases "replacement_value key_of keq b r")
      case None
      then show ?thesis by (simp add: replace_by_def replacement_value_append)
    next
      case (Some v)
      then have "matches key_of keq (map fst b) r" using replacement_value_None [of key_of keq b r] by simp
      then have "\<not> matches key_of keq (map fst (concat bs)) (assign v r)"
        using keys_separate_append(3) [OF sep] unfolding matches_def key by blast
      then have "replacement_value key_of keq (concat bs) (assign v r) = None"
        by (simp add: replacement_value_None)
      with Some show ?thesis by (simp add: replace_by_def replacement_value_append)
    qed
    have IH: "fold (\<lambda>b. map (\<lambda>r. if matching_rows key_columns key_of keq (map fst b) r
            then (case replacement_value key_of keq b r of None \<Rightarrow> r | Some v \<Rightarrow> assign v r) else r)) bs s
        = map (replace_by key_of keq assign (concat bs)) s" for s
      using Cons.prems keys_separate_append(2) [OF sep] by (intro Cons.IH) auto
    have "b \<noteq> []" using Cons.prems by auto
    moreover have "rows = b @ concat bs" using Cons.prems(1) by simp
    ultimately show ?case by (simp add: IH matching_replace step)
  qed
qed (use assms in simp)

text \<open>
  Copying: the copies do not match the filter, so a batch does not copy the copies of an earlier
  one. The copies come out grouped by batch; as multisets of rows they are those of one
  statement.
\<close>

definition copied :: "('r \<Rightarrow> 'k) \<Rightarrow> ('k \<Rightarrow> 'k \<Rightarrow> bool) \<Rightarrow> ('v \<Rightarrow> 'r \<Rightarrow> 'r) \<Rightarrow> ('k \<times> 'v) list \<Rightarrow> ('r \<Rightarrow> 'r) \<Rightarrow> ('r \<Rightarrow> bool)
    \<Rightarrow> 'r list \<Rightarrow> 'r list" where
  "copied key_of keq assign rows fixed cond t =
     map (\<lambda>r. fixed (replace_by key_of keq assign rows r)) (filter (\<lambda>r. cond r \<and> matches key_of keq (map fst rows) r) t)"

lemma copied_append:
  assumes sep: "keys_separate keq (map fst as @ map fst bs)"
  shows "mset (copied key_of keq assign (as @ bs) fixed cond t) =
    mset (copied key_of keq assign as fixed cond t) + mset (copied key_of keq assign bs fixed cond t)"
proof (induction t)
  case (Cons r t)
  let ?ma = "matches key_of keq (map fst as) r" and ?mb = "matches key_of keq (map fst bs) r"
  have disj: "\<not> (?ma \<and> ?mb)"
    using keys_separate_append(3) [OF sep] unfolding matches_def by blast
  have or: "matches key_of keq (map fst (as @ bs)) r \<longleftrightarrow> ?ma \<or> ?mb" by (auto simp: matches_def)
  have "replace_by key_of keq assign (as @ bs) r = replace_by key_of keq assign as r" if ?ma
  proof -
    from that obtain v where "replacement_value key_of keq as r = Some v"
      using replacement_value_None [of key_of keq as r] by auto
    then show ?thesis by (simp add: replace_by_def replacement_value_append)
  qed
  moreover have "replace_by key_of keq assign (as @ bs) r = replace_by key_of keq assign bs r" if "\<not> ?ma"
  proof -
    from that have "replacement_value key_of keq as r = None" by (simp add: replacement_value_None)
    then show ?thesis by (simp add: replace_by_def replacement_value_append)
  qed
  ultimately show ?case using Cons disj or by (auto simp: copied_def)
qed (simp add: copied_def)

lemma copied_ignores_copies:
  assumes "\<And>r. r \<in> set extra \<Longrightarrow> \<not> cond r"
  shows "copied key_of keq assign rows fixed cond (t @ extra) = copied key_of keq assign rows fixed cond t"
proof -
  have "filter (\<lambda>r. cond r \<and> matches key_of keq (map fst rows) r) extra = []"
    using assms by (auto simp: filter_empty_conv)
  then show ?thesis by (simp add: copied_def)
qed

lemma copy_batches:
  assumes "\<And>r. \<not> cond (fixed r)" and "\<And>r. r \<in> set extra \<Longrightarrow> \<not> cond r"
    and "keys_separate keq (map fst (concat bs))"
  shows "\<exists>new. fold (\<lambda>b t. t @ copied key_of keq assign b fixed cond t) bs (t @ extra) = t @ extra @ new
    \<and> mset new = mset (copied key_of keq assign (concat bs) fixed cond t)"
  using assms(2,3)
proof (induction bs arbitrary: extra)
  case Nil
  then show ?case by (simp add: copied_def matches_def)
next
  case (Cons b bs)
  have sep: "keys_separate keq (map fst b @ map fst (concat bs))" using Cons.prems(2) by simp
  let ?c = "copied key_of keq assign b fixed cond t"
  have step: "fold (\<lambda>b t. t @ copied key_of keq assign b fixed cond t) (b # bs) (t @ extra) =
      fold (\<lambda>b t. t @ copied key_of keq assign b fixed cond t) bs (t @ (extra @ ?c))"
    using copied_ignores_copies [of extra cond key_of keq assign b fixed t] Cons.prems(1) by simp
  have "\<not> cond r" if "r \<in> set (extra @ ?c)" for r
    using that Cons.prems(1) assms(1) by (auto simp: copied_def)
  then obtain new where "fold (\<lambda>b t. t @ copied key_of keq assign b fixed cond t) bs (t @ (extra @ ?c)) =
      t @ (extra @ ?c) @ new" and "mset new = mset (copied key_of keq assign (concat bs) fixed cond t)"
    using Cons.IH [of "extra @ ?c"] keys_separate_append(2) [OF sep] by blast
  then show ?case
    using step copied_append [OF sep, of key_of assign fixed cond t]
    by (intro exI [of _ "?c @ new"]) simp
qed

lemma copy_rows_whole:
  assumes "0 < key_columns"
    and binds: "fixed_columns + filter_binds + value_columns * (key_columns + 1) + key_columns \<le> max_bind_params d"
    and done': "\<And>r. \<not> cond (fixed r)" and sep: "keys_separate keq (map fst rows)"
  shows "\<exists>new. copy_rows_with_updates d key_columns key_of keq value_columns assign rows fixed_columns fixed
      filter_binds cond t = (t @ new, Ok ()) \<and> mset new = mset (copied key_of keq assign rows fixed cond t)"
proof -
  let ?binds = "\<lambda>b :: ('b \<times> 'c) list. fixed_columns + filter_binds + value_columns * (key_columns + 1) * length b
      + key_columns * length b"
  let ?f = "\<lambda>b t. t @ map (\<lambda>r. fixed (case replacement_value key_of keq b r of None \<Rightarrow> r | Some v \<Rightarrow> assign v r))
      (filter (\<lambda>r. cond r \<and> matching_rows key_columns key_of keq (map fst b) r) t)"
  obtain m where m: "max_rows_per_key_batch d key_columns = Ok m" "0 < m"
    using max_rows_positive [OF assms(1)] .
  have one: "?binds [x] \<le> max_bind_params d" for x using binds by simp
  obtain bs where bs: "batch_queries ?binds (max_bind_params d) m rows = map Ok bs" "concat bs = rows"
    "\<forall>b\<in>set bs. b \<noteq> [] \<and> length b \<le> m \<and> ?binds b \<le> max_bind_params d"
    using batch_queries_ok [OF m(2), of rows ?binds "max_bind_params d"] one by blast
  have "?f b s = s @ copied key_of keq assign b fixed cond s" if "b \<in> set bs" for b s
    using bs(3) that by (auto simp: copied_def replace_by_def matching_rows_nonempty matches_def)
  then have "fold ?f bs t = fold (\<lambda>b t. t @ copied key_of keq assign b fixed cond t) bs (t @ [])"
    by (auto intro!: fold_cong)
  moreover have "\<exists>new. fold (\<lambda>b t. t @ copied key_of keq assign b fixed cond t) bs (t @ []) = t @ [] @ new
      \<and> mset new = mset (copied key_of keq assign rows fixed cond t)"
    using copy_batches [of cond fixed "[]" keq bs key_of assign t] done' sep bs(2) by simp
  moreover have "copy_rows_with_updates d key_columns key_of keq value_columns assign rows fixed_columns fixed
      filter_binds cond t = (fold ?f bs t, Ok ())"
    by (simp add: copy_rows_with_updates_def key_batch_def seq_app m(1) execute_batches_def bs(1) [simplified]
        for_each_map for_each_updates)
  ultimately show ?thesis by simp
qed

lemma insert_rows_chunks: "0 < n \<Longrightarrow> concat (chunks n rows) = rows"
proof (induction n rows rule: chunks.induct)
  case (1 n rows)
  show ?case
  proof (cases "rows = []")
    case True
    then show ?thesis by (simp add: chunks.simps)
  next
    case False
    with 1 have "concat (chunks n (drop n rows)) = drop n rows" by (simp add: Let_def)
    with False 1(2) show ?thesis by (subst chunks.simps) (simp add: Let_def)
  qed
qed

lemma fold_append_chunks: "fold (\<lambda>c t. t @ c) cs t = t @ concat cs"
  by (induction cs arbitrary: t) simp_all

lemma insert_rows_whole:
  assumes "0 < columns" and "columns \<le> max_bind_params d"
  shows "insert_rows d columns copy_supports rows t = (t @ rows, Ok ())"
proof -
  have "0 < max_bind_params d div columns" using assms by (simp add: div_greater_zero_iff)
  then show ?thesis
    using assms(1) insert_rows_chunks [of "max_bind_params d div columns" rows]
    by (simp add: insert_rows_def Let_def for_each_updates fold_append_chunks)
qed

end
