(* ===== verification/Literals.thy ===== *)
theory Literals
  imports Errors
begin

text \<open>
  \<open>spec/literals/\<close>: the text of literals in the metadata database, as statistics and default
  values are stored. Lists, structs and maps are texts of texts with quoting; the scalar types
  of other crates are printed and parsed by those crates, whose functions are the fields of
  \<open>ext_text\<close>.
\<close>

section \<open>The functions of other crates\<close>

record ext_text =
  x_f32_text :: "f32 \<Rightarrow> string"
  x_f32_parse :: "string \<Rightarrow> f32 result"
  x_f64_text :: "f64 \<Rightarrow> string"
  x_f64_parse :: "string \<Rightarrow> f64 result"
  x_decimal_text :: "decimal \<Rightarrow> string"
  x_decimal_parse :: "string \<Rightarrow> decimal result"
  x_time_text :: "naive_time \<Rightarrow> string"
  x_time_parse :: "string \<Rightarrow> naive_time result"
  x_date_text :: "naive_date \<Rightarrow> string"
  x_date_parse :: "string \<Rightarrow> naive_date result"
  x_uuid_text :: "uuid \<Rightarrow> string"
  x_uuid_parse :: "string \<Rightarrow> uuid result"
  x_hex_encode :: "8 word list \<Rightarrow> string"
  x_hex_decode :: "string \<Rightarrow> 8 word list result"
  x_local_minus_utc :: "fixed_offset \<Rightarrow> int"
  x_east_opt :: "int \<Rightarrow> fixed_offset option"
  x_to_rfc3339 :: "date_time_utc \<Rightarrow> string"
  x_parse_rfc3339 :: "string \<Rightarrow> date_time_utc option"
  x_parse_date_time :: "string \<Rightarrow> string \<Rightarrow> date_time_utc option"
  x_parse_naive :: "string \<Rightarrow> string \<Rightarrow> naive_date_time option"
  x_midnight :: "naive_date \<Rightarrow> naive_date_time"
  x_and_utc :: "naive_date_time \<Rightarrow> date_time_utc"
  x_naive_utc :: "date_time_utc \<Rightarrow> naive_date_time"
  x_months_new :: "int \<Rightarrow> months"
  x_months_as_u32 :: "months \<Rightarrow> int"
  x_delta_microseconds :: "i64 \<Rightarrow> time_delta"
  x_delta_num_microseconds :: "time_delta \<Rightarrow> i64 option"
  x_delta_is_zero :: "time_delta \<Rightarrow> bool"

section \<open>Optional literals\<close>

definition NULL_STRING :: string where
  "NULL_STRING = ''NULL''"

definition literal_parse :: "(string \<Rightarrow> 'a result) \<Rightarrow> string \<Rightarrow> 'a option result" where
  "literal_parse p s = (if s = NULL_STRING then Ok None else and_then (p s) (\<lambda>v. Ok (Some v)))"

definition literal_format :: "('a \<Rightarrow> string) \<Rightarrow> 'a option \<Rightarrow> string" where
  "literal_format f v = (case v of Some x \<Rightarrow> f x | None \<Rightarrow> NULL_STRING)"

section \<open>Scalars\<close>

definition parse_int_literal :: "bool \<Rightarrow> nat \<Rightarrow> string \<Rightarrow> int result" where
  "parse_int_literal is_signed w s =
     map_err from_parse_int_error
       (if is_signed then parse_int True (- (2 ^ (w - 1))) (2 ^ (w - 1) - 1) s else parse_int False 0 (2 ^ w - 1) s)"

definition parse_bool_literal :: "string \<Rightarrow> bool result" where
  "parse_bool_literal s =
     (if to_ascii_lowercase s = ''1'' then Ok True
      else if to_ascii_lowercase s = ''0'' then Ok False
      else Err (Parsing s))"

definition format_bool_literal :: "bool \<Rightarrow> string" where
  "format_bool_literal b = (if b then ''1'' else ''0'')"

section \<open>Lists, structs and maps\<close>

definition bslash :: char where "bslash = CHR 0x5C"
definition squote :: char where "squote = CHR 0x27"

text \<open>\<open>str::trim\<close>: the white space characters in their UTF-8 encoding.\<close>

definition white_spaces :: "string list" where
  "white_spaces =
     map (\<lambda>n. [char_of n]) [9 :: nat, 10, 11, 12, 13, 32]
     @ [[CHR 0xC2, CHR 0x85], [CHR 0xC2, CHR 0xA0], [CHR 0xE1, CHR 0x9A, CHR 0x80]]
     @ map (\<lambda>n. [CHR 0xE2, CHR 0x80, char_of n])
         [128 :: nat, 129, 130, 131, 132, 133, 134, 135, 136, 137, 138, 168, 169, 175]
     @ [[CHR 0xE2, CHR 0x81, CHR 0x9F], [CHR 0xE3, CHR 0x80, CHR 0x80]]"

fun strip_any :: "string list \<Rightarrow> string \<Rightarrow> string option" where
  "strip_any [] s = None"
| "strip_any (w # ws) s = (case strip_prefix w s of Some t \<Rightarrow> Some t | None \<Rightarrow> strip_any ws s)"

fun trim_start_fuel :: "string list \<Rightarrow> nat \<Rightarrow> string \<Rightarrow> string" where
  "trim_start_fuel ws 0 s = s"
| "trim_start_fuel ws (Suc n) s = (case strip_any ws s of Some t \<Rightarrow> trim_start_fuel ws n t | None \<Rightarrow> s)"

definition trim :: "string \<Rightarrow> string" where
  "trim s =
     (let t = trim_start_fuel white_spaces (length s) s in
      rev (trim_start_fuel (map rev white_spaces) (length t) (rev t)))"

text \<open>
  \<open>parse_comma_separated\<close>: the rest of the text, the current element, whether the position is
  inside quotes, and the depths of brackets and braces.
\<close>

fun comma_loop :: "string \<Rightarrow> string \<Rightarrow> bool \<Rightarrow> int \<Rightarrow> int \<Rightarrow> string list" where
  "comma_loop [] current in_quotes brackets braces = [trim current]"
| "comma_loop (c # cs) current in_quotes brackets braces =
     (if c = bslash \<and> in_quotes
      then (case cs of
              n # cs' \<Rightarrow> (if n = bslash \<or> n = squote
                          then comma_loop cs' (current @ [c, n]) in_quotes brackets braces
                          else comma_loop cs (current @ [c]) in_quotes brackets braces)
            | [] \<Rightarrow> comma_loop [] (current @ [c]) in_quotes brackets braces)
      else if c = squote then comma_loop cs (current @ [c]) (\<not> in_quotes) brackets braces
      else if c = CHR ''['' \<and> \<not> in_quotes then comma_loop cs (current @ [c]) in_quotes (brackets + 1) braces
      else if c = CHR '']'' \<and> \<not> in_quotes then comma_loop cs (current @ [c]) in_quotes (brackets - 1) braces
      else if c = CHR ''{'' \<and> \<not> in_quotes then comma_loop cs (current @ [c]) in_quotes brackets (braces + 1)
      else if c = CHR ''}'' \<and> \<not> in_quotes then comma_loop cs (current @ [c]) in_quotes brackets (braces - 1)
      else if c = CHR '','' \<and> \<not> in_quotes \<and> brackets = 0 \<and> braces = 0
      then trim current # comma_loop cs [] in_quotes brackets braces
      else comma_loop cs (current @ [c]) in_quotes brackets braces)"

definition parse_comma_separated :: "string \<Rightarrow> string list" where
  "parse_comma_separated s = (if s = [] then [] else comma_loop s [] False 0 0)"

text \<open>\<open>strip_prefix(a)\<close> then \<open>strip_suffix(b)\<close>.\<close>

definition strip_enclosing :: "char \<Rightarrow> char \<Rightarrow> string \<Rightarrow> string option" where
  "strip_enclosing a b s =
     (case s of
        [] \<Rightarrow> None
      | x # xs \<Rightarrow> if x = a \<and> xs \<noteq> [] \<and> last xs = b then Some (butlast xs) else None)"

fun unescape_body :: "string \<Rightarrow> string" where
  "unescape_body (c # n # cs) =
     (if c = bslash \<and> (n = bslash \<or> n = squote) then n # unescape_body cs else c # unescape_body (n # cs))"
| "unescape_body s = s"

definition unescape_str :: "string \<Rightarrow> string" where
  "unescape_str s = (case strip_enclosing squote squote s of Some inner \<Rightarrow> unescape_body inner | None \<Rightarrow> s)"

definition escape_char :: "char \<Rightarrow> string" where
  "escape_char c = (if c = bslash \<or> c = squote then [bslash, c] else [c])"

definition quote_str :: "string \<Rightarrow> string" where
  "quote_str s = squote # concat (map escape_char s) @ [squote]"

definition has_special :: "string \<Rightarrow> bool" where
  "has_special s \<longleftrightarrow>
     bslash \<in> set s \<or> squote \<in> set s \<or> CHR '','' \<in> set s \<or> CHR ''='' \<in> set s \<or> CHR '':'' \<in> set s"

definition escape_str :: "string \<Rightarrow> string" where
  "escape_str s = (if has_special s then quote_str s else s)"

text \<open>\<open>join(", ")\<close>.\<close>

fun join_comma :: "string list \<Rightarrow> string" where
  "join_comma [] = []"
| "join_comma [x] = x"
| "join_comma (x # y # xs) = x @ '', '' @ join_comma (y # xs)"

definition parse_list_literal :: "string \<Rightarrow> string list result" where
  "parse_list_literal s =
     and_then (ok_or (Parsing (''list literal is not enclosed in brackets: '' @ s))
                (strip_enclosing (CHR ''['') (CHR '']'') s))
       (\<lambda>inner. Ok (map unescape_str (parse_comma_separated inner)))"

definition format_list_literal :: "string list \<Rightarrow> string" where
  "format_list_literal xs = ''['' @ join_comma (map escape_str xs) @ '']''"

text \<open>
  \<open>(?:[^'s]|'(?:[^'\\]|\\.)*')*\<close>, the text of a key or a value up to the separator \<open>s\<close>; the dot
  does not match a line feed.
\<close>

definition TOKEN :: "char \<Rightarrow> regex" where
  "TOKEN sep =
     Star (Alt (Cls (\<lambda>c. c \<noteq> squote \<and> c \<noteq> sep))
       (Cat (Chr squote) (Cat (Star (Alt (Cls (\<lambda>c. c \<noteq> squote \<and> c \<noteq> bslash))
                                      (Cat (Chr bslash) (Cls (\<lambda>c. c \<noteq> CHR 0x0A)))))
                           (Chr squote))))"

definition split_on_colon :: "string \<Rightarrow> (string \<times> string) option" where
  "split_on_colon s =
     map_option (\<lambda>caps. (cap caps 1, cap caps 2))
       (full_captures (Cat (Grp 1 (TOKEN (CHR '':''))) (Cat (Chr (CHR '':'')) (Cat (Alt (Chr (CHR '' '')) Eps)
          (Grp 2 (TOKEN (CHR '':'')))))) s)"

definition split_on_equals :: "string \<Rightarrow> (string \<times> string) option" where
  "split_on_equals s =
     map_option (\<lambda>caps. (cap caps 1, cap caps 2))
       (full_captures (Cat (Grp 1 (TOKEN (CHR ''=''))) (Cat (Chr (CHR ''='')) (Grp 2 (TOKEN (CHR ''=''))))) s)"

definition unescape_pair :: "string \<times> string \<Rightarrow> string \<times> string" where
  "unescape_pair p = (unescape_str (trim (fst p)), unescape_str (trim (snd p)))"

definition parse_struct_entries :: "string \<Rightarrow> (string, string) imap" where
  "parse_struct_entries s =
     (if s = [] then []
      else fold (\<lambda>(k, v). im_insert k v)
             (List.map_filter (\<lambda>e. map_option unescape_pair (split_on_colon e)) (parse_comma_separated s)) [])"

definition parse_map_entries :: "string \<Rightarrow> (string \<times> string) list" where
  "parse_map_entries s =
     (if s = [] then []
      else List.map_filter (\<lambda>e. map_option unescape_pair (split_on_equals e)) (parse_comma_separated s))"

definition parse_struct_literal :: "string \<Rightarrow> (string, string) imap result" where
  "parse_struct_literal s =
     and_then (ok_or (Parsing (''struct literal is not enclosed in braces: '' @ s))
                (strip_enclosing (CHR ''{'') (CHR ''}'') s))
       (\<lambda>inner. Ok (parse_struct_entries inner))"

definition format_struct_literal :: "(string, string) imap \<Rightarrow> string" where
  "format_struct_literal kvs =
     ''{'' @ join_comma (map (\<lambda>(k, v). escape_str k @ '': '' @ escape_str v) kvs) @ ''}''"

definition parse_map_literal :: "string \<Rightarrow> (string \<times> string) list result" where
  "parse_map_literal s =
     and_then (ok_or (Parsing (''map literal is not enclosed in braces: '' @ s))
                (strip_enclosing (CHR ''{'') (CHR ''}'') s))
       (\<lambda>inner. Ok (parse_map_entries inner))"

definition format_map_literal :: "(string \<times> string) list \<Rightarrow> string" where
  "format_map_literal kvs =
     ''{'' @ join_comma (map (\<lambda>(k, v). escape_str k @ ''='' @ escape_str v) kvs) @ ''}''"

end
