(* ===== verification/Values.thy ===== *)
theory Values
  imports Literals Datatypes
begin

text \<open>
  Literals of time zones, timestamps and intervals (\<open>spec/literals/date.rs\<close>) and the text of
  values (\<open>typedefs/value/format.rs\<close>, \<open>typedefs/value/parse.rs\<close>). The round trip of nested
  values reduces to that of their elements; the examples at the end are texts that do not come
  back.
\<close>

section \<open>Time with time zone\<close>

text \<open>Rust's division truncates.\<close>

definition trunc_div :: "int \<Rightarrow> int \<Rightarrow> int" where
  "trunc_div a b = (if a < 0 then - ((- a) div b) else a div b)"

definition trunc_mod :: "int \<Rightarrow> int \<Rightarrow> int" where
  "trunc_mod a b = a - trunc_div a b * b"

text \<open>\<open>{:02}\<close>: padded with zeros to two characters, the sign included.\<close>

definition pad2 :: "int \<Rightarrow> string" where
  "pad2 i = (if length (show_int i) < 2 then CHR ''0'' # show_int i else show_int i)"

text \<open>The first match from the left, with its captures.\<close>

definition re_search :: "regex \<Rightarrow> string \<Rightarrow> captures option" where
  "re_search r s = (case captures_iter r s of [] \<Rightarrow> None | (m, c) # _ \<Rightarrow> Some c)"

definition two_digits :: regex where
  "two_digits = Cat (Cls is_digit) (Cls is_digit)"

definition RE_OFFSET :: regex where
  "RE_OFFSET = Cat (Grp 1 two_digits) (Alt (Cat (Chr (CHR '':'')) (Grp 2 two_digits)) Eps)"

definition parse_or_zero :: "captures \<Rightarrow> nat \<Rightarrow> int" where
  "parse_or_zero caps n = (case parse_int True (- (2 ^ 31)) (2 ^ 31 - 1) (cap caps n) of Ok i \<Rightarrow> i | _ \<Rightarrow> 0)"

definition time_tz_parse :: "ext_text \<Rightarrow> string \<Rightarrow> time_with_timezone result" where
  "time_tz_parse X s =
     (case splitn2 (CHR ''+'') s of
        (time, Some off) \<Rightarrow>
          and_then (ok_or (Parsing (''invalid time zone offset: '' @ off))
             (Option.bind (re_search RE_OFFSET off) (\<lambda>caps.
                x_east_opt X (parse_or_zero caps 1 * 3600
                  + (if map_of caps 2 = None then 0 else parse_or_zero caps 2) * 60)))) (\<lambda>offset.
          and_then (x_time_parse X time) (\<lambda>t. Ok \<lparr>tz_time = t, tz_offset = offset\<rparr>))
      | (_, None) \<Rightarrow>
          and_then (x_time_parse X s) (\<lambda>t.
          and_then (expect ''unwrap on None'' (x_east_opt X 0)) (\<lambda>offset. Ok \<lparr>tz_time = t, tz_offset = offset\<rparr>)))"

definition time_tz_format :: "ext_text \<Rightarrow> time_with_timezone \<Rightarrow> string" where
  "time_tz_format X v =
     (let secs = x_local_minus_utc X (tz_offset v);
          hours = trunc_div secs 3600; minutes = trunc_div (trunc_mod secs 3600) 60 in
      x_time_text X (tz_time v) @ ''+'' @ pad2 hours @ (if minutes \<noteq> 0 then '':'' @ pad2 minutes else []))"

section \<open>Timestamps\<close>

definition date_time_formats :: "string list" where
  "date_time_formats =
     [''%F %T%.f'', ''%F %R'', ''%F %RZ'', ''%F %R%:z'', ''%F %T%.fZ'', ''%F %T%.f%:z'', ''%FT%R'', ''%FT%RZ'',
      ''%FT%R%:z'', ''%FT%T%.f'', ''%FT%T%.fZ'', ''%FT%T%.f%:z'', ''%F %T%.f%#z'']"

fun parse_formats :: "ext_text \<Rightarrow> string \<Rightarrow> string list \<Rightarrow> date_time_utc option" where
  "parse_formats X s [] = None"
| "parse_formats X s (f # fs) =
     (case x_parse_date_time X s f of
        Some dt \<Rightarrow> Some dt
      | None \<Rightarrow> (case x_parse_naive X s f of
                  Some dt \<Rightarrow> Some (x_and_utc X dt)
                | None \<Rightarrow> parse_formats X s fs))"

definition date_time_parse :: "ext_text \<Rightarrow> string \<Rightarrow> date_time_utc result" where
  "date_time_parse X s =
     (case x_parse_rfc3339 X s of
        Some dt \<Rightarrow> Ok dt
      | None \<Rightarrow>
          (case x_date_parse X s of
             Ok d \<Rightarrow> Ok (x_and_utc X (x_midnight X d))
           | _ \<Rightarrow> ok_or (Parsing (''failed to parse datetime '' @ sq s)) (parse_formats X s date_time_formats)))"

section \<open>Intervals\<close>

definition RE_UNIT :: "string \<Rightarrow> regex" where
  "RE_UNIT unit = Cat (Grp 1 (Plus (Cls is_digit))) (Cat (Lit (CHR '' '' # unit)) (Alt (Chr (CHR ''s'')) Eps))"

definition up_to_six :: regex where
  "up_to_six =
     (let d = Cls is_digit; o' = (\<lambda>r. Alt (Cat d r) Eps) in Cat d (o' (o' (o' (o' (o' Eps))))))"

definition RE_DELTA :: regex where
  "RE_DELTA =
     Cat (Grp 1 two_digits) (Cat (Chr (CHR '':'')) (Cat (Grp 2 two_digits) (Cat (Chr (CHR '':''))
       (Cat (Grp 3 two_digits) (Alt (Cat (Chr (CHR ''.'')) (Grp 4 up_to_six)) Eps)))))"

definition captured_number :: "bool \<Rightarrow> nat \<Rightarrow> captures option \<Rightarrow> int result" where
  "captured_number is_signed w found =
     (case found of None \<Rightarrow> Ok 0 | Some caps \<Rightarrow> parse_int_literal is_signed w (cap caps 1))"

definition pad_right6 :: "string \<Rightarrow> string" where
  "pad_right6 s = s @ replicate (6 - length s) (CHR ''0'')"

definition delta_number :: "captures \<Rightarrow> int result" where
  "delta_number caps =
     and_then (parse_int_literal True 64 (cap caps 1)) (\<lambda>hours.
     and_then (parse_int_literal True 64 (cap caps 2)) (\<lambda>minutes.
     and_then (parse_int_literal True 64 (cap caps 3)) (\<lambda>secs.
     and_then (if map_of caps 4 = None then Ok 0 else parse_int_literal True 64 (pad_right6 (cap caps 4))) (\<lambda>micros.
       Ok ((hours * 3600 + minutes * 60 + secs) * 1000000 + micros)))))"

definition interval_parse :: "ext_text \<Rightarrow> string \<Rightarrow> interval result" where
  "interval_parse X s =
     and_then (captured_number False 32 (re_search (RE_UNIT ''year'') s)) (\<lambda>years.
     and_then (captured_number False 32 (re_search (RE_UNIT ''month'') s)) (\<lambda>ms.
     and_then (captured_number True 64 (re_search (RE_UNIT ''day'') s)) (\<lambda>days.
     and_then (case re_search RE_DELTA s of None \<Rightarrow> Ok 0 | Some caps \<Rightarrow> delta_number caps) (\<lambda>micros.
       Ok \<lparr>iv_months = x_months_new X ((years * 12 + ms) mod 2 ^ 32),
           iv_delta = x_delta_microseconds X (wrap_i64 (days * 86400000000 + micros))\<rparr>))))"

definition format_singular_plural :: "string \<Rightarrow> int \<Rightarrow> string" where
  "format_singular_plural name n = (if n > 1 then show_int n @ '' '' @ name @ ''s'' else show_int n @ '' '' @ name)"

definition format_interval_months :: "int \<Rightarrow> string" where
  "format_interval_months m =
     (let years = (if m div 12 > 0 then format_singular_plural ''year'' (m div 12) else []) in
      years @ (if m mod 12 > 0
               then (if years = [] then [] else '' '') @ format_singular_plural ''month'' (m mod 12) else []))"

definition pad6 :: "int \<Rightarrow> string" where
  "pad6 i = replicate (6 - length (show_int i)) (CHR ''0'') @ show_int i"

definition format_interval_microseconds :: "int \<Rightarrow> string" where
  "format_interval_microseconds micros =
     pad2 (micros div 3600000000) @ '':'' @ pad2 (micros mod 3600000000 div 60000000) @ '':''
       @ pad2 (micros mod 60000000 div 1000000)
       @ (if micros mod 1000000 > 0
          then CHR ''.'' # rev (dropWhile (\<lambda>c. c = CHR ''0'') (rev (pad6 (micros mod 1000000)))) else [])"

text \<open>\<open>as u64\<close> of a negative number of microseconds wraps around.\<close>

definition interval_format :: "ext_text \<Rightarrow> interval \<Rightarrow> string" where
  "interval_format X v =
     (let m = format_interval_months (x_months_as_u32 X (iv_months v)) in
      if x_delta_is_zero X (iv_delta v) then m
      else m @ (if m = [] then [] else '' '')
             @ format_interval_microseconds
                 ((case x_delta_num_microseconds X (iv_delta v) of None \<Rightarrow> 0 | Some n \<Rightarrow> n) mod 2 ^ 64))"

section \<open>Values\<close>

fun value_text :: "ext_text \<Rightarrow> value \<Rightarrow> string" where
  "value_text X (VBoolean b) = format_bool_literal b"
| "value_text X (VInt8 i) = show_int i"
| "value_text X (VInt16 i) = show_int i"
| "value_text X (VInt32 i) = show_int i"
| "value_text X (VInt64 i) = show_int i"
| "value_text X (VInt128 i) = show_int i"
| "value_text X (VUInt8 i) = show_int i"
| "value_text X (VUInt16 i) = show_int i"
| "value_text X (VUInt32 i) = show_int i"
| "value_text X (VUInt64 i) = show_int i"
| "value_text X (VUInt128 i) = show_int i"
| "value_text X (VFloat32 f) = x_f32_text X f"
| "value_text X (VFloat64 f) = x_f64_text X f"
| "value_text X (VDecimal d) = x_decimal_text X d"
| "value_text X (VTime t) = x_time_text X t"
| "value_text X (VTimeTz t) = time_tz_format X t"
| "value_text X (VDate d) = x_date_text X d"
| "value_text X (VTimestamp t) = x_to_rfc3339 X (x_and_utc X t)"
| "value_text X (VTimestampTz t) = x_to_rfc3339 X t"
| "value_text X (VInterval i) = interval_format X i"
| "value_text X (VVarchar s) = s"
| "value_text X (VBlob b) = x_hex_encode X b"
| "value_text X (VJson s) = s"
| "value_text X (VUuid u) = x_uuid_text X u"
| "value_text X (VList vs) =
     format_list_literal (map (\<lambda>v. case v of None \<Rightarrow> NULL_STRING | Some x \<Rightarrow> value_text X x) vs)"
| "value_text X (VStruct kvs) =
     format_struct_literal (map (\<lambda>(k, v). (k, case v of None \<Rightarrow> NULL_STRING | Some x \<Rightarrow> value_text X x)) kvs)"
| "value_text X (VMap kvs) =
     format_map_literal (map (\<lambda>(k, v). (value_text X k, case v of None \<Rightarrow> NULL_STRING | Some x \<Rightarrow> value_text X x)) kvs)"

definition value_text_opt :: "ext_text \<Rightarrow> value option \<Rightarrow> string" where
  "value_text_opt X v = (case v of None \<Rightarrow> NULL_STRING | Some x \<Rightarrow> value_text X x)"

subsection \<open>Parsing\<close>

lemma collect_cong [fundef_cong]:
  "xs = ys \<Longrightarrow> (\<And>x. x \<in> set ys \<Longrightarrow> f x = g x) \<Longrightarrow> collect f xs = collect g ys"
  by (induction xs arbitrary: ys) auto

lemma and_then_cong [fundef_cong]:
  "r = q \<Longrightarrow> (\<And>x. q = Ok x \<Longrightarrow> f x = g x) \<Longrightarrow> and_then r f = and_then q g"
  by (cases q) simp_all

text \<open>\<open>literals::parse(value)?.map(wrap)\<close>.\<close>

definition literal_value :: "(string \<Rightarrow> 'a result) \<Rightarrow> ('a \<Rightarrow> value) \<Rightarrow> string \<Rightarrow> value option result" where
  "literal_value p wrap s = and_then (literal_parse p s) (\<lambda>v. Ok (map_option wrap v))"

definition unsupported_value :: "string \<Rightarrow> string \<Rightarrow> value option result" where
  "unsupported_value name s =
     (if s = NULL_STRING then Ok None
      else Err (Parsing (''parsing non-null '' @ name @ '' values is not supported'')))"

text \<open>The elements of a literal, if it is not \<open>NULL\<close>.\<close>

definition elements_value ::
  "(string \<Rightarrow> 'a list result) \<Rightarrow> ('a \<Rightarrow> 'b result) \<Rightarrow> ('b list \<Rightarrow> value) \<Rightarrow> string \<Rightarrow> value option result"
where
  "elements_value p f wrap s =
     and_then (literal_parse p s) (\<lambda>o'.
       case o' of None \<Rightarrow> Ok None | Some es \<Rightarrow> and_then (collect f es) (\<lambda>vs. Ok (Some (wrap vs))))"

lemma elements_value_cong [fundef_cong]:
  "p = q \<Longrightarrow> s = t \<Longrightarrow> w = v \<Longrightarrow> (\<And>x. f x = g x) \<Longrightarrow> elements_value p f w s = elements_value q g v t"
proof -
  assume "p = q" "s = t" "w = v" and "\<And>x. f x = g x"
  moreover from this have "f = g" by (intro ext) simp
  ultimately show ?thesis by simp
qed

lemma size_found_field [termination_simp]:
  "find P cs = Some c \<Longrightarrow> size (col_dtype c) < Suc (size_list size cs)"
  by (rule size_col_dtype_list) (auto simp: find_Some_iff)

fun value_parse :: "ext_text \<Rightarrow> data_type \<Rightarrow> string \<Rightarrow> value option result" where
  "value_parse X DBoolean s = literal_value parse_bool_literal VBoolean s"
| "value_parse X DInt8 s = literal_value (parse_int_literal True 8) VInt8 s"
| "value_parse X DInt16 s = literal_value (parse_int_literal True 16) VInt16 s"
| "value_parse X DInt32 s = literal_value (parse_int_literal True 32) VInt32 s"
| "value_parse X DInt64 s = literal_value (parse_int_literal True 64) VInt64 s"
| "value_parse X DInt128 s = literal_value (parse_int_literal True 128) VInt128 s"
| "value_parse X DUInt8 s = literal_value (parse_int_literal False 8) VUInt8 s"
| "value_parse X DUInt16 s = literal_value (parse_int_literal False 16) VUInt16 s"
| "value_parse X DUInt32 s = literal_value (parse_int_literal False 32) VUInt32 s"
| "value_parse X DUInt64 s = literal_value (parse_int_literal False 64) VUInt64 s"
| "value_parse X DUInt128 s = literal_value (parse_int_literal False 128) VUInt128 s"
| "value_parse X DFloat32 s = literal_value (x_f32_parse X) VFloat32 s"
| "value_parse X DFloat64 s = literal_value (x_f64_parse X) VFloat64 s"
| "value_parse X (DDecimal precision scale) s = literal_value (x_decimal_parse X) VDecimal s"
| "value_parse X DTime s = literal_value (x_time_parse X) VTime s"
| "value_parse X DTimeTz s = literal_value (time_tz_parse X) VTimeTz s"
| "value_parse X DDate s = literal_value (x_date_parse X) VDate s"
| "value_parse X (DTimestamp p) s = literal_value (date_time_parse X) (\<lambda>t. VTimestamp (x_naive_utc X t)) s"
| "value_parse X DTimestampTz s = literal_value (date_time_parse X) VTimestampTz s"
| "value_parse X DInterval s = literal_value (interval_parse X) VInterval s"
| "value_parse X DVarchar s = literal_value Ok VVarchar s"
| "value_parse X DBlob s = literal_value (x_hex_decode X) VBlob s"
| "value_parse X DJson s = literal_value Ok VJson s"
| "value_parse X DVariant s = unsupported_value (dtype_to_string DVariant) s"
| "value_parse X DGeometry s = unsupported_value (dtype_to_string DGeometry) s"
| "value_parse X DUuid s = literal_value (x_uuid_parse X) VUuid s"
| "value_parse X (DList element) s =
     elements_value parse_list_literal (\<lambda>e. value_parse X (col_dtype element) e) VList s"
| "value_parse X (DStruct cs) s =
     elements_value parse_struct_literal (\<lambda>e.
       case find (\<lambda>f. col_name f = fst e) cs of
         None \<Rightarrow> Err (Parsing (''unknown struct field: '' @ fst e))
       | Some f \<Rightarrow> and_then (value_parse X (col_dtype f) (snd e)) (\<lambda>v. Ok (fst e, v))) VStruct s"
| "value_parse X (DMap key val) s =
     elements_value parse_map_literal (\<lambda>e.
       and_then (value_parse X (col_dtype key) (fst e)) (\<lambda>k'.
       and_then (ok_or (Parsing ''encountered NULL map key'') k') (\<lambda>k.
       and_then (value_parse X (col_dtype val) (snd e)) (\<lambda>v. Ok (k, v))))) VMap s"

end
