(* ===== verification/Literal_Trips.thy ===== *)
theory Literal_Trips
  imports Values Codec
begin

text \<open>
  Printing and parsing of literals: lists, structs and maps of texts come back when every text
  either needs quotes, or is trimmed and has balanced brackets; values of a data type come back
  when their elements do.
\<close>

section \<open>White space\<close>

definition trimmed :: "string \<Rightarrow> bool" where
  "trimmed s \<longleftrightarrow> strip_any white_spaces s = None \<and> strip_any (map rev white_spaces) (rev s) = None"

lemma strip_any_None: "strip_any ws s = None \<longleftrightarrow> (\<forall>w\<in>set ws. strip_prefix w s = None)"
  by (induction ws) (auto split: option.splits)

lemma strip_prefix_None: "strip_prefix w s = None \<longleftrightarrow> (\<forall>t. s \<noteq> w @ t)"
  by (metis not_None_eq strip_prefix_Some)

lemma trim_start_id: "strip_any ws s = None \<Longrightarrow> trim_start_fuel ws n s = s"
  by (cases n) auto

lemma trim_id: "trimmed s \<Longrightarrow> trim s = s"
  by (simp add: trimmed_def trim_def trim_start_id)

lemma strip_space: "strip_any white_spaces (CHR '' '' # s) = Some s"
  by (simp add: white_spaces_def char_of_def bit_0)

lemma trim_space: "trim (CHR '' '' # s) = trim s"
  by (simp add: trim_def strip_space)

text \<open>A text between two characters that no longer white space sequence contains.\<close>

lemma strip_any_append:
  assumes "strip_any ws u = None" "u \<noteq> []" "\<And>w. w \<in> set ws \<Longrightarrow> x \<in> set w \<Longrightarrow> length w = 1"
  shows "strip_any ws (u @ x # r) = None"
  unfolding strip_any_None strip_prefix_None
proof (intro ballI allI notI)
  fix w t assume w: "w \<in> set ws" and eq: "u @ x # r = w @ t"
  have "\<forall>t. u \<noteq> w @ t" using assms(1) w unfolding strip_any_None strip_prefix_None by blast
  with eq obtain v where v: "w = u @ x # v"
    by (auto simp: append_eq_append_conv2 Cons_eq_append_conv)
  then have "length w = 1" using assms(3) [OF w] by simp
  with v assms(2) show False by (cases u) auto
qed

lemma white_space_chars:
  "w \<in> set white_spaces \<Longrightarrow> squote \<notin> set w \<and> CHR '':'' \<notin> set w \<and> CHR ''='' \<notin> set w \<and> w \<noteq> []"
  "w \<in> set white_spaces \<Longrightarrow> CHR '' '' \<in> set w \<Longrightarrow> length w = 1"
  by (auto simp: white_spaces_def squote_def char_of_def)

lemma strip_any_hd: "strip_any ws (x # s) = None" if "\<And>w. w \<in> set ws \<Longrightarrow> x \<notin> set w \<and> w \<noteq> []" for x
  unfolding strip_any_None strip_prefix_None
  using that by (metis append_eq_Cons_conv list.set_intros(1))

lemma trimmed_quoted: "trimmed (squote # s @ [squote])"
proof -
  have "squote \<notin> set w \<and> w \<noteq> []" if "w \<in> set white_spaces \<union> set (map rev white_spaces)" for w
    using that white_space_chars(1) by auto
  then have "strip_any white_spaces (squote # s @ [squote]) = None"
    "strip_any (map rev white_spaces) (squote # rev s @ [squote]) = None"
    by (intro strip_any_hd; blast)+
  then show ?thesis by (simp add: trimmed_def)
qed

section \<open>Splitting at commas\<close>

definition balanced :: "string \<Rightarrow> bool" where
  "balanced s \<longleftrightarrow> count_list s (CHR ''['') = count_list s (CHR '']'') \<and> count_list s (CHR ''{'') = count_list s (CHR ''}'')"

text \<open>A text that is printed with quotes, or that survives without.\<close>

definition printable :: "string \<Rightarrow> bool" where
  "printable s \<longleftrightarrow> has_special s \<or> (trimmed s \<and> balanced s)"

lemma comma_loop_plain:
  assumes "squote \<notin> set s" "CHR '','' \<notin> set s"
  shows "comma_loop (s @ rest) cur False b d =
    comma_loop rest (cur @ s) False (b + int (count_list s (CHR ''['')) - int (count_list s (CHR '']'')))
      (d + int (count_list s (CHR ''{'')) - int (count_list s (CHR ''}'')))"
  using assms
proof (induction s arbitrary: cur b d)
  case (Cons c s)
  from Cons.prems show ?case by (auto simp: Cons.IH algebra_simps)
qed simp

lemma comma_loop_body:
  "comma_loop (concat (map escape_char s) @ squote # rest) cur True b d =
    comma_loop rest (cur @ concat (map escape_char s) @ [squote]) False b d"
  by (induction s arbitrary: cur) (auto simp: escape_char_def bslash_def squote_def)

lemma comma_loop_quoted:
  "comma_loop (quote_str s @ rest) cur False b d = comma_loop rest (cur @ quote_str s) False b d"
  using comma_loop_body [of s rest "cur @ [squote]" b d] by (simp add: quote_str_def bslash_def squote_def)

text \<open>A part of an element: the loop passes over it.\<close>

definition passes :: "string \<Rightarrow> bool" where
  "passes e \<longleftrightarrow> (\<forall>rest cur. comma_loop (e @ rest) cur False 0 0 = comma_loop rest (cur @ e) False 0 0)"

lemma passes_append: "passes a \<Longrightarrow> passes b \<Longrightarrow> passes (a @ b)"
  by (simp add: passes_def)

lemma passes_escape: "printable s \<Longrightarrow> passes (escape_str s)"
  by (auto simp: passes_def escape_str_def printable_def comma_loop_quoted comma_loop_plain has_special_def balanced_def)

lemma passes_text: "squote \<notin> set s \<Longrightarrow> CHR '','' \<notin> set s \<Longrightarrow> balanced s \<Longrightarrow> passes s"
  by (simp add: passes_def comma_loop_plain balanced_def)

lemma trimmed_escape: "printable s \<Longrightarrow> trimmed (escape_str s)"
  using trimmed_quoted by (auto simp: escape_str_def printable_def quote_str_def)

lemma comma_loop_elements:
  assumes "es \<noteq> []" and "\<forall>e\<in>set es. passes e \<and> trimmed e"
  shows "comma_loop (join_comma es) [] False 0 0 = es \<and> comma_loop (CHR '' '' # join_comma es) [] False 0 0 = es"
  using assms
proof (induction es rule: join_comma.induct)
  case (2 e)
  then have "passes e" by simp
  then have "comma_loop (e @ []) cur False 0 0 = comma_loop [] (cur @ e) False 0 0" for cur
    unfolding passes_def by blast
  with 2 show ?case by (simp add: trim_space trim_id bslash_def squote_def)
next
  case (3 e f es)
  have "comma_loop (e @ '', '' @ join_comma (f # es)) cur False 0 0 = trim (cur @ e) # f # es" for cur
    using 3 unfolding passes_def by (auto simp: bslash_def squote_def)
  with 3 show ?case by (simp add: trim_space trim_id bslash_def squote_def)
qed simp

section \<open>Lists\<close>

lemma unescape_body_escape: "unescape_body (concat (map escape_char s)) = s"
proof (induction s rule: unescape_body.induct)
  case (1 c n cs)
  then show ?case by (auto simp: escape_char_def bslash_def squote_def)
qed (auto simp: escape_char_def bslash_def squote_def)

lemma unescape_escape: "unescape_str (escape_str s) = s"
proof (cases "has_special s")
  case True
  then show ?thesis
    by (simp add: escape_str_def unescape_str_def quote_str_def strip_enclosing_def unescape_body_escape butlast_append)
next
  case False
  then show ?thesis
    by (auto simp: escape_str_def unescape_str_def strip_enclosing_def has_special_def split: list.split)
qed

lemma strip_enclosing_app: "strip_enclosing a b (a # s @ [b]) = Some s"
  by (simp add: strip_enclosing_def)

lemma join_comma_Nil: "join_comma es = [] \<longleftrightarrow> es = [] \<or> es = [[]]"
  by (cases es rule: join_comma.cases) auto

lemma escape_str_Nil: "escape_str s = [] \<longleftrightarrow> s = []"
  by (cases s) (simp_all add: escape_str_def quote_str_def has_special_def)

lemma parse_elements:
  assumes "\<forall>e\<in>set es. passes e \<and> trimmed e" and "es \<noteq> [[]]"
  shows "parse_comma_separated (join_comma es) = es"
  using comma_loop_elements [of es] assms by (cases "es = []") (auto simp: parse_comma_separated_def join_comma_Nil)

definition list_printable :: "string list \<Rightarrow> bool" where
  "list_printable xs \<longleftrightarrow> list_all printable xs \<and> xs \<noteq> [[]]"

lemma parse_format_list: "list_printable xs \<Longrightarrow> parse_list_literal (format_list_literal xs) = Ok xs"
proof -
  assume xs: "list_printable xs"
  have "map escape_str xs \<noteq> [[]]" using xs by (auto simp: list_printable_def map_eq_Cons_conv escape_str_Nil)
  then have "parse_comma_separated (join_comma (map escape_str xs)) = map escape_str xs"
    using xs by (intro parse_elements) (auto simp: list_printable_def list_all_iff passes_escape trimmed_escape)
  then show ?thesis
    using strip_enclosing_app [of "CHR ''[''" "CHR '']''" "join_comma (map escape_str xs)"]
    by (simp add: parse_list_literal_def format_list_literal_def unescape_escape comp_def)
qed

interpretation list_literals: codec format_list_literal parse_list_literal list_printable
  by unfold_locales (rule parse_format_list)

section \<open>Structs and maps\<close>

lemma rfirst_AltR: "rmatch r1 s = [] \<Longrightarrow> rfirst r2 s t c \<Longrightarrow> rfirst (Alt r1 r2) s t c"
  by (auto simp: rfirst_def)

lemma rfirst_Chr: "rfirst (Chr x) (x # s) s []"
  by (simp add: rfirst_def)

abbreviation QUOTED_BODY :: regex where
  "QUOTED_BODY \<equiv> Alt (Cls (\<lambda>c. c \<noteq> squote \<and> c \<noteq> bslash)) (Cat (Chr bslash) (Cls (\<lambda>c. c \<noteq> CHR 0x0A)))"

lemma squote_bslash: "squote \<noteq> bslash" "squote \<noteq> CHR 0x0A" "bslash \<noteq> CHR 0x0A"
  by (simp_all add: squote_def bslash_def)

lemma rfirst_body_char: "rfirst QUOTED_BODY (escape_char c @ s) s []"
proof (cases "c = bslash \<or> c = squote")
  case True
  then have "rfirst (Cls (\<lambda>c. c \<noteq> CHR 0x0A)) (c # s) s []" using squote_bslash by (intro rfirst_Cls) auto
  from rfirst_Cat [OF rfirst_Chr [of bslash] this] True show ?thesis
    by (auto simp: escape_char_def intro!: rfirst_AltR)
next
  case False
  then show ?thesis by (auto simp: escape_char_def intro!: rfirst_AltL rfirst_Cls)
qed

lemma rfirst_body: "rfirst (Star QUOTED_BODY) (concat (map escape_char s) @ squote # t) (squote # t) []"
proof (induction s)
  case Nil
  then show ?case using squote_bslash by (auto intro!: rfirst_Star_stop)
next
  case (Cons c s)
  have "length (concat (map escape_char s) @ squote # t) < length (escape_char c @ concat (map escape_char s) @ squote # t)"
    by (simp add: escape_char_def)
  from rfirst_Star_step [OF rfirst_body_char this Cons] show ?case by simp
qed

text \<open>A key or a value is read up to the separator, or to the end.\<close>

lemma rfirst_TOKEN:
  assumes sep: "sep \<noteq> squote" "sep \<in> {CHR '':'', CHR ''=''}" and t: "t = [] \<or> hd t = sep"
  shows "rfirst (TOKEN sep) (escape_str s @ t) t []"
proof -
  let ?plain = "Cls (\<lambda>c. c \<noteq> squote \<and> c \<noteq> sep)"
  let ?quoted = "Cat (Chr squote) (Cat (Star QUOTED_BODY) (Chr squote))"
  have stop: "rfirst (TOKEN sep) t t []"
    unfolding TOKEN_def using t sep by (intro rfirst_Star_stop) (cases t; auto)
  show ?thesis
  proof (cases "has_special s")
    case True
    have "rfirst ?quoted (squote # concat (map escape_char s) @ squote # t) t []"
      using rfirst_Cat [OF rfirst_Chr rfirst_Cat [OF rfirst_body rfirst_Chr]] by fastforce
    then have "rfirst (Alt ?plain ?quoted) (squote # concat (map escape_char s) @ squote # t) t []"
      by (intro rfirst_AltR) auto
    from rfirst_Star_step [OF this _ stop [unfolded TOKEN_def]] True show ?thesis
      by (simp add: TOKEN_def escape_str_def quote_str_def)
  next
    case False
    then have "\<forall>c\<in>set s. c \<noteq> squote \<and> c \<noteq> sep" using sep(2) by (auto simp: has_special_def)
    then have "rfirst (TOKEN sep) (s @ t) t []"
    proof (induction s)
      case (Cons c s)
      then have "rfirst (Alt ?plain ?quoted) (c # s @ t) (s @ t) []" by (intro rfirst_AltL rfirst_Cls) simp
      moreover have "rfirst (TOKEN sep) (s @ t) t []" using Cons by simp
      ultimately show ?case using rfirst_Star_step [of _ "c # s @ t" "s @ t" "[]" t "[]"] by (simp add: TOKEN_def)
    qed (use stop in simp)
    with False show ?thesis by (simp add: escape_str_def)
  qed
qed

lemma split_pair:
  "split_on_colon (escape_str k @ '': '' @ escape_str v) = Some (escape_str k, escape_str v)"
  "split_on_equals (escape_str k @ ''='' @ escape_str v) = Some (escape_str k, escape_str v)"
proof -
  have first: "rfirst (Grp 1 (TOKEN sep)) (escape_str k @ sep # t) (sep # t) [(1, escape_str k)]"
    if "sep \<in> {CHR '':'', CHR ''=''}" for sep t
    using that by (intro rfirst_Grp rfirst_TOKEN) (auto simp: squote_def)
  have second: "rfirst (Grp 2 (TOKEN sep)) (escape_str v) [] [(2, escape_str v)]"
    if "sep \<in> {CHR '':'', CHR ''=''}" for sep
    using rfirst_Grp [of "TOKEN sep" "escape_str v" "[]" "[]" 2] rfirst_TOKEN [of sep "[]" v] that
    by (auto simp: squote_def)
  have space: "rfirst (Alt (Chr (CHR '' '')) Eps) (CHR '' '' # t) t []" for t
    by (rule rfirst_AltL [OF rfirst_Chr])
  show "split_on_colon (escape_str k @ '': '' @ escape_str v) = Some (escape_str k, escape_str v)"
    using full_captures_first [OF rfirst_Cat [OF first rfirst_Cat [OF rfirst_Chr rfirst_Cat [OF space second]]], of "CHR '':''" "CHR '':''"]
    by (simp add: split_on_colon_def cap_def)
  show "split_on_equals (escape_str k @ ''='' @ escape_str v) = Some (escape_str k, escape_str v)"
    using full_captures_first [OF rfirst_Cat [OF first rfirst_Cat [OF rfirst_Chr second]], of "CHR ''=''" "CHR ''=''"]
    by (simp add: split_on_equals_def cap_def)
qed

definition pair_printable :: "string \<times> string \<Rightarrow> bool" where
  "pair_printable p \<longleftrightarrow> printable (fst p) \<and> fst p \<noteq> [] \<and> printable (snd p) \<and> snd p \<noteq> []"

lemma pair_element:
  assumes "pair_printable (k, v)"
  shows "passes (escape_str k @ '': '' @ escape_str v)" "trimmed (escape_str k @ '': '' @ escape_str v)"
    "passes (escape_str k @ ''='' @ escape_str v)" "trimmed (escape_str k @ ''='' @ escape_str v)"
proof -
  from assms have k: "trimmed (escape_str k)" "escape_str k \<noteq> []" and v: "trimmed (escape_str v)" "escape_str v \<noteq> []"
    and p: "passes (escape_str k)" "passes (escape_str v)"
    by (simp_all add: pair_printable_def trimmed_escape passes_escape escape_str_Nil)
  have seps: "passes '': ''" "passes ''=''" by (auto intro!: passes_text simp: squote_def balanced_def)
  show "passes (escape_str k @ '': '' @ escape_str v)" "passes (escape_str k @ ''='' @ escape_str v)"
    by (intro passes_append p seps)+
  have left: "strip_any white_spaces (escape_str k @ x # r) = None" if "x \<in> {CHR '':'', CHR ''=''}" for x r
    using k that white_space_chars(1) by (intro strip_any_append) (auto simp: trimmed_def)
  have right: "strip_any (map rev white_spaces) (rev (escape_str v) @ x # r) = None" if "x \<in> {CHR '' '', CHR ''=''}" for x r
    using v that white_space_chars by (intro strip_any_append) (auto simp: trimmed_def)
  show "trimmed (escape_str k @ '': '' @ escape_str v)" "trimmed (escape_str k @ ''='' @ escape_str v)"
    by (simp_all add: trimmed_def left right)
qed

lemma unescape_pair_escape: "pair_printable p \<Longrightarrow> unescape_pair (escape_str (fst p), escape_str (snd p)) = p"
  by (simp add: unescape_pair_def pair_printable_def trim_id trimmed_escape unescape_escape)

lemma map_filter_all: "(\<And>x. x \<in> set xs \<Longrightarrow> f (g x) = Some x) \<Longrightarrow> List.map_filter f (map g xs) = xs"
  by (induction xs) (simp_all add: List.map_filter_def)

lemma fold_insert_distinct:
  "distinct (map fst (acc @ kvs)) \<Longrightarrow> fold (\<lambda>(k, v). im_insert k v) kvs acc = acc @ kvs"
proof (induction kvs arbitrary: acc)
  case (Cons p kvs)
  then have "fst p \<notin> fst ` set acc" by (force simp: image_iff)
  then have "im_insert (fst p) (snd p) acc = acc @ [p]" by (simp add: im_insert_new)
  with Cons show ?case by (auto simp: case_prod_beta)
qed simp

definition struct_printable :: "(string, string) imap \<Rightarrow> bool" where
  "struct_printable kvs \<longleftrightarrow> list_all pair_printable kvs \<and> distinct (map fst kvs)"

lemma parse_pairs:
  assumes "list_all pair_printable kvs"
  shows "parse_comma_separated (join_comma (map (\<lambda>(k, v). escape_str k @ '': '' @ escape_str v) kvs))
      = map (\<lambda>(k, v). escape_str k @ '': '' @ escape_str v) kvs"
    "parse_comma_separated (join_comma (map (\<lambda>(k, v). escape_str k @ ''='' @ escape_str v) kvs))
      = map (\<lambda>(k, v). escape_str k @ ''='' @ escape_str v) kvs"
  using assms by (auto intro!: parse_elements pair_element [simplified] simp: list_all_iff map_eq_Cons_conv split: prod.splits)

lemma entries_trip:
  assumes "list_all pair_printable kvs"
  shows "List.map_filter (\<lambda>e. map_option unescape_pair (split_on_colon e))
      (map (\<lambda>(k, v). escape_str k @ '': '' @ escape_str v) kvs) = kvs"
    "List.map_filter (\<lambda>e. map_option unescape_pair (split_on_equals e))
      (map (\<lambda>(k, v). escape_str k @ ''='' @ escape_str v) kvs) = kvs"
  using assms unescape_pair_escape
  by (auto intro!: map_filter_all simp: list_all_iff split_pair [simplified] case_prod_beta)

lemma parse_format_struct: "struct_printable kvs \<Longrightarrow> parse_struct_literal (format_struct_literal kvs) = Ok kvs"
  using parse_pairs(1) [of kvs] entries_trip(1) [of kvs] fold_insert_distinct [of "[]" kvs]
    strip_enclosing_app [of "CHR ''{''" "CHR ''}''" "join_comma (map (\<lambda>(k, v). escape_str k @ '': '' @ escape_str v) kvs)"]
  by (auto simp: struct_printable_def parse_struct_literal_def format_struct_literal_def parse_struct_entries_def join_comma_Nil)

lemma parse_format_map: "list_all pair_printable kvs \<Longrightarrow> parse_map_literal (format_map_literal kvs) = Ok kvs"
  using parse_pairs(2) [of kvs] entries_trip(2) [of kvs]
    strip_enclosing_app [of "CHR ''{''" "CHR ''}''" "join_comma (map (\<lambda>(k, v). escape_str k @ ''='' @ escape_str v) kvs)"]
  by (auto simp: parse_map_literal_def format_map_literal_def parse_map_entries_def join_comma_Nil)

interpretation struct_literals: codec format_struct_literal parse_struct_literal struct_printable
  by unfold_locales (rule parse_format_struct)

interpretation map_literals: codec format_map_literal parse_map_literal "list_all pair_printable"
  by unfold_locales (rule parse_format_map)

section \<open>Values\<close>

text \<open>
  A value of the data type whose text comes back. The texts of the types of other crates are
  those of these crates: it is their documented behaviour that they parse back and are not
  \<open>NULL\<close>. Times with a time zone and intervals are not covered here.
\<close>

definition scalar_trip :: "('a \<Rightarrow> string) \<Rightarrow> (string \<Rightarrow> 'a result) \<Rightarrow> 'a \<Rightarrow> bool" where
  "scalar_trip text parse v \<longleftrightarrow> parse (text v) = Ok v \<and> text v \<noteq> NULL_STRING"

fun value_ok :: "ext_text \<Rightarrow> value \<Rightarrow> data_type \<Rightarrow> bool" where
  "value_ok X (VBoolean b) t \<longleftrightarrow> t = DBoolean"
| "value_ok X (VInt8 i) t \<longleftrightarrow> t = DInt8 \<and> - (2 ^ 7) \<le> i \<and> i < 2 ^ 7"
| "value_ok X (VInt16 i) t \<longleftrightarrow> t = DInt16 \<and> - (2 ^ 15) \<le> i \<and> i < 2 ^ 15"
| "value_ok X (VInt32 i) t \<longleftrightarrow> t = DInt32 \<and> - (2 ^ 31) \<le> i \<and> i < 2 ^ 31"
| "value_ok X (VInt64 i) t \<longleftrightarrow> t = DInt64 \<and> - (2 ^ 63) \<le> i \<and> i < 2 ^ 63"
| "value_ok X (VInt128 i) t \<longleftrightarrow> t = DInt128 \<and> - (2 ^ 127) \<le> i \<and> i < 2 ^ 127"
| "value_ok X (VUInt8 i) t \<longleftrightarrow> t = DUInt8 \<and> 0 \<le> i \<and> i < 2 ^ 8"
| "value_ok X (VUInt16 i) t \<longleftrightarrow> t = DUInt16 \<and> 0 \<le> i \<and> i < 2 ^ 16"
| "value_ok X (VUInt32 i) t \<longleftrightarrow> t = DUInt32 \<and> 0 \<le> i \<and> i < 2 ^ 32"
| "value_ok X (VUInt64 i) t \<longleftrightarrow> t = DUInt64 \<and> 0 \<le> i \<and> i < 2 ^ 64"
| "value_ok X (VUInt128 i) t \<longleftrightarrow> t = DUInt128 \<and> 0 \<le> i \<and> i < 2 ^ 128"
| "value_ok X (VFloat32 v) t \<longleftrightarrow> t = DFloat32 \<and> scalar_trip (x_f32_text X) (x_f32_parse X) v"
| "value_ok X (VFloat64 v) t \<longleftrightarrow> t = DFloat64 \<and> scalar_trip (x_f64_text X) (x_f64_parse X) v"
| "value_ok X (VDecimal v) t \<longleftrightarrow>
     (case t of DDecimal _ _ \<Rightarrow> scalar_trip (x_decimal_text X) (x_decimal_parse X) v | _ \<Rightarrow> False)"
| "value_ok X (VTime v) t \<longleftrightarrow> t = DTime \<and> scalar_trip (x_time_text X) (x_time_parse X) v"
| "value_ok X (VTimeTz v) t \<longleftrightarrow> False"
| "value_ok X (VDate v) t \<longleftrightarrow> t = DDate \<and> scalar_trip (x_date_text X) (x_date_parse X) v"
| "value_ok X (VTimestamp v) t \<longleftrightarrow>
     (case t of
        DTimestamp _ \<Rightarrow> x_parse_rfc3339 X (x_to_rfc3339 X (x_and_utc X v)) = Some (x_and_utc X v)
          \<and> x_naive_utc X (x_and_utc X v) = v \<and> x_to_rfc3339 X (x_and_utc X v) \<noteq> NULL_STRING
      | _ \<Rightarrow> False)"
| "value_ok X (VTimestampTz v) t \<longleftrightarrow> t = DTimestampTz \<and>
     x_parse_rfc3339 X (x_to_rfc3339 X v) = Some v \<and> x_to_rfc3339 X v \<noteq> NULL_STRING"
| "value_ok X (VInterval v) t \<longleftrightarrow> False"
| "value_ok X (VVarchar s) t \<longleftrightarrow> t = DVarchar \<and> s \<noteq> NULL_STRING"
| "value_ok X (VBlob v) t \<longleftrightarrow> t = DBlob \<and> scalar_trip (x_hex_encode X) (x_hex_decode X) v"
| "value_ok X (VJson s) t \<longleftrightarrow> t = DJson \<and> s \<noteq> NULL_STRING"
| "value_ok X (VUuid v) t \<longleftrightarrow> t = DUuid \<and> scalar_trip (x_uuid_text X) (x_uuid_parse X) v"
| "value_ok X (VList vs) t \<longleftrightarrow>
     (case t of
        DList c \<Rightarrow> list_printable (map (value_text_opt X) vs) \<and>
          (\<forall>v\<in>set vs. case v of None \<Rightarrow> True | Some x \<Rightarrow> value_ok X x (col_dtype c))
      | _ \<Rightarrow> False)"
| "value_ok X (VStruct kvs) t \<longleftrightarrow>
     (case t of
        DStruct cs \<Rightarrow> struct_printable (map (\<lambda>(k, v). (k, value_text_opt X v)) kvs) \<and>
          (\<forall>(k, v)\<in>set kvs. case find (\<lambda>f. col_name f = k) cs of
             None \<Rightarrow> False
           | Some f \<Rightarrow> (case v of None \<Rightarrow> True | Some x \<Rightarrow> value_ok X x (col_dtype f)))
      | _ \<Rightarrow> False)"
| "value_ok X (VMap kvs) t \<longleftrightarrow>
     (case t of
        DMap key val \<Rightarrow> list_all pair_printable (map (\<lambda>(k, v). (value_text X k, value_text_opt X v)) kvs) \<and>
          (\<forall>(k, v)\<in>set kvs. value_ok X k (col_dtype key) \<and> (case v of None \<Rightarrow> True | Some x \<Rightarrow> value_ok X x (col_dtype val)))
      | _ \<Rightarrow> False)"

lemma literal_value_trip: "scalar_trip text p v \<Longrightarrow> literal_value p wrap (text v) = Ok (Some (wrap v))"
  by (simp add: literal_value_def literal_parse_def scalar_trip_def)

lemma show_int_not_NULL: "show_int i \<noteq> NULL_STRING"
proof -
  have "CHR ''N'' \<notin> set (show_int i)" by (rule show_int_not_in) simp_all
  then show ?thesis by (auto simp: NULL_STRING_def)
qed

lemma int_literal_trip:
  "0 < w \<Longrightarrow> - (2 ^ (w - 1)) \<le> i \<Longrightarrow> i < 2 ^ (w - 1) \<Longrightarrow> scalar_trip show_int (parse_int_literal True w) i"
  "0 \<le> i \<Longrightarrow> i < 2 ^ w \<Longrightarrow> scalar_trip show_int (parse_int_literal False w) i"
  by (simp_all add: scalar_trip_def parse_int_literal_def parse_int_show show_int_not_NULL)

lemma elements_trip:
  "s \<noteq> NULL_STRING \<Longrightarrow> p s = Ok es \<Longrightarrow> collect f es = Ok vs \<Longrightarrow> elements_value p f wrap s = Ok (Some (wrap vs))"
  by (simp add: elements_value_def literal_parse_def)

lemma collect_back: "(\<And>x. x \<in> set xs \<Longrightarrow> f (g x) = Ok x) \<Longrightarrow> collect f (map g xs) = Ok xs"
  by (induction xs) simp_all

lemma value_parse_NULL: "value_parse X t NULL_STRING = Ok None"
  by (cases t) (simp_all add: literal_value_def elements_value_def literal_parse_def unsupported_value_def)

lemma nested_not_NULL:
  "format_list_literal xs \<noteq> NULL_STRING" "format_struct_literal kvs \<noteq> NULL_STRING" "format_map_literal kvs \<noteq> NULL_STRING"
  by (simp_all add: format_list_literal_def format_struct_literal_def format_map_literal_def NULL_STRING_def)

text \<open>An element of a nested value: absent ones are printed as \<open>NULL\<close>.\<close>

lemma element_trip:
  "(\<And>x. v = Some x \<Longrightarrow> value_parse X t (value_text X x) = Ok (Some x)) \<Longrightarrow> value_parse X t (value_text_opt X v) = Ok v"
  by (cases v) (simp_all add: value_text_opt_def value_parse_NULL)

abbreviation value_trip :: "ext_text \<Rightarrow> value \<Rightarrow> data_type \<Rightarrow> bool" where
  "value_trip X v t \<equiv> value_text X v \<noteq> NULL_STRING \<and> value_parse X t (value_text X v) = Ok (Some v)"

lemma value_text_nested:
  "value_text X (VList vs) = format_list_literal (map (value_text_opt X) vs)"
  "value_text X (VStruct kvs) = format_struct_literal (map (\<lambda>(k, v). (k, value_text_opt X v)) kvs)"
  "value_text X (VMap mvs) = format_map_literal (map (\<lambda>(k, v). (value_text X k, value_text_opt X v)) mvs)"
proof -
  have opt: "value_text_opt X = case_option NULL_STRING (value_text X)"
    by (rule ext) (simp add: value_text_opt_def)
  then show "value_text X (VList vs) = format_list_literal (map (value_text_opt X) vs)"
    "value_text X (VStruct kvs) = format_struct_literal (map (\<lambda>(k, v). (k, value_text_opt X v)) kvs)"
    "value_text X (VMap mvs) = format_map_literal (map (\<lambda>(k, v). (value_text X k, value_text_opt X v)) mvs)"
    by simp_all
qed

lemma list_trip:
  assumes "list_printable (map (value_text_opt X) vs)"
    and "\<And>x. Some x \<in> set vs \<Longrightarrow> value_parse X (col_dtype c) (value_text X x) = Ok (Some x)"
  shows "value_parse X (DList c) (value_text X (VList vs)) = Ok (Some (VList vs))"
  unfolding value_text_nested value_parse.simps
proof (rule elements_trip [where p = parse_list_literal, OF nested_not_NULL(1) parse_format_list [OF assms(1)]])
  show "collect (value_parse X (col_dtype c)) (map (value_text_opt X) vs) = Ok vs"
    using assms(2) by (intro collect_back element_trip) auto
qed

lemma struct_trip:
  assumes "struct_printable (map (\<lambda>(k, v). (k, value_text_opt X v)) kvs)"
    and "\<And>k v. (k, v) \<in> set kvs \<Longrightarrow> \<exists>f. find (\<lambda>f. col_name f = k) cs = Some f \<and>
      (\<forall>x. v = Some x \<longrightarrow> value_parse X (col_dtype f) (value_text X x) = Ok (Some x))"
  shows "value_parse X (DStruct cs) (value_text X (VStruct kvs)) = Ok (Some (VStruct kvs))"
  unfolding value_text_nested value_parse.simps
proof (rule elements_trip [where p = parse_struct_literal, OF nested_not_NULL(2) parse_format_struct [OF assms(1)]], rule collect_back)
  fix p assume p: "p \<in> set kvs"
  obtain k v where kv: "p = (k, v)" by fastforce
  from assms(2) [OF p [unfolded kv]] obtain f where "find (\<lambda>f. col_name f = k) cs = Some f"
    "\<forall>x. v = Some x \<longrightarrow> value_parse X (col_dtype f) (value_text X x) = Ok (Some x)" by blast
  then show "(case find (\<lambda>f. col_name f = fst (case p of (k, v) \<Rightarrow> (k, value_text_opt X v))) cs of
      None \<Rightarrow> Err (Parsing (''unknown struct field: '' @ fst (case p of (k, v) \<Rightarrow> (k, value_text_opt X v))))
    | Some f \<Rightarrow> and_then (value_parse X (col_dtype f) (snd (case p of (k, v) \<Rightarrow> (k, value_text_opt X v))))
        (\<lambda>va. Ok (fst (case p of (k, v) \<Rightarrow> (k, value_text_opt X v)), va))) = Ok p"
    by (simp add: kv element_trip)
qed

lemma map_trip:
  assumes "list_all pair_printable (map (\<lambda>(k, v). (value_text X k, value_text_opt X v)) kvs)"
    and "\<And>k v. (k, v) \<in> set kvs \<Longrightarrow> value_parse X (col_dtype kc) (value_text X k) = Ok (Some k) \<and>
      (\<forall>x. v = Some x \<longrightarrow> value_parse X (col_dtype vc) (value_text X x) = Ok (Some x))"
  shows "value_parse X (DMap kc vc) (value_text X (VMap kvs)) = Ok (Some (VMap kvs))"
  unfolding value_text_nested value_parse.simps
proof (rule elements_trip [where p = parse_map_literal, OF nested_not_NULL(3) parse_format_map [OF assms(1)]], rule collect_back)
  fix p assume p: "p \<in> set kvs"
  moreover obtain k v where "p = (k, v)" by fastforce
  ultimately have kv: "p = (k, v)" "(k, v) \<in> set kvs" by simp_all
  from assms(2) [OF kv(2)] have "value_parse X (col_dtype kc) (value_text X k) = Ok (Some k)"
    "value_parse X (col_dtype vc) (value_text_opt X v) = Ok v" by (auto intro: element_trip)
  then show "and_then (value_parse X (col_dtype kc) (fst (case p of (k, v) \<Rightarrow> (value_text X k, value_text_opt X v))))
      (\<lambda>k'. and_then (ok_or (Parsing ''encountered NULL map key'') k')
        (\<lambda>ka. and_then (value_parse X (col_dtype vc) (snd (case p of (k, v) \<Rightarrow> (value_text X k, value_text_opt X v))))
          (\<lambda>va. Ok (ka, va)))) = Ok p"
    by (simp add: kv)
qed

lemma scalar_value_trips:
  assumes "value_ok X v t" and "\<forall>vs. v \<noteq> VList vs" "\<forall>kvs. v \<noteq> VStruct kvs" "\<forall>kvs. v \<noteq> VMap kvs"
  shows "value_trip X v t"
proof (cases v)
  case (VBoolean b)
  have "scalar_trip format_bool_literal parse_bool_literal b"
    by (cases b) (simp_all add: scalar_trip_def format_bool_literal_def parse_bool_literal_def NULL_STRING_def
      to_ascii_lowercase_def to_lower_char_def)
  with assms(1) VBoolean show ?thesis by (simp add: literal_value_trip) (simp add: scalar_trip_def)
next
  case (VTimestamp u)
  with assms(1) show ?thesis
    by (cases t) (simp_all add: literal_value_def literal_parse_def date_time_parse_def)
next
  case (VTimestampTz u)
  with assms(1) show ?thesis by (simp add: literal_value_def literal_parse_def date_time_parse_def)
next
  case (VVarchar s)
  with assms(1) show ?thesis by (simp add: literal_value_def literal_parse_def)
next
  case (VJson s)
  with assms(1) show ?thesis by (simp add: literal_value_def literal_parse_def)
next
  case (VDecimal d)
  with assms(1) show ?thesis by (cases t) (simp_all add: literal_value_trip, simp_all add: scalar_trip_def)
qed (use assms in \<open>auto simp: literal_value_trip int_literal_trip show_int_not_NULL\<close>,
     auto simp: scalar_trip_def)

lemma value_trips: "value_ok X v t \<Longrightarrow> value_trip X v t"
proof (induction X v t rule: value_ok.induct)
  case (25 X vs t)
  from 25(2) obtain c where t: "t = DList c" and ok: "list_printable (map (value_text_opt X) vs)"
    "\<forall>v\<in>set vs. case v of None \<Rightarrow> True | Some x \<Rightarrow> value_ok X x (col_dtype c)"
    by (cases t) simp_all
  have "value_parse X (col_dtype c) (value_text X x) = Ok (Some x)" if "Some x \<in> set vs" for x
    using 25(1) [OF t that] ok(2) that by fastforce
  with list_trip [OF ok(1)] t show ?case by (simp only: value_text_nested(1) nested_not_NULL) simp
next
  case (26 X kvs t)
  from 26(2) obtain cs where t: "t = DStruct cs"
    and ok: "struct_printable (map (\<lambda>(k, v). (k, value_text_opt X v)) kvs)"
    "\<forall>(k, v)\<in>set kvs. case find (\<lambda>f. col_name f = k) cs of
      None \<Rightarrow> False | Some f \<Rightarrow> (case v of None \<Rightarrow> True | Some x \<Rightarrow> value_ok X x (col_dtype f))"
    by (cases t) simp_all
  have "\<exists>f. find (\<lambda>f. col_name f = k) cs = Some f \<and>
      (\<forall>x. v = Some x \<longrightarrow> value_parse X (col_dtype f) (value_text X x) = Ok (Some x))"
    if kv: "(k, v) \<in> set kvs" for k v
  proof -
    from ok(2) kv obtain f where f: "find (\<lambda>f. col_name f = k) cs = Some f"
      "case v of None \<Rightarrow> True | Some x \<Rightarrow> value_ok X x (col_dtype f)"
      by (auto split: option.splits)
    have "value_parse X (col_dtype f) (value_text X x) = Ok (Some x)" if "v = Some x" for x
      using 26(1) [OF t kv refl f(1) that] f(2) that by simp
    with f(1) show ?thesis by blast
  qed
  with struct_trip [OF ok(1)] t show ?case by (simp only: value_text_nested(2) nested_not_NULL) simp
next
  case (27 X kvs t)
  from 27(3) obtain kc vc where t: "t = DMap kc vc"
    and ok: "list_all pair_printable (map (\<lambda>(k, v). (value_text X k, value_text_opt X v)) kvs)"
    "\<forall>(k, v)\<in>set kvs. value_ok X k (col_dtype kc) \<and>
      (case v of None \<Rightarrow> True | Some x \<Rightarrow> value_ok X x (col_dtype vc))"
    by (cases t) simp_all
  have "value_parse X (col_dtype kc) (value_text X k) = Ok (Some k) \<and>
      (\<forall>x. v = Some x \<longrightarrow> value_parse X (col_dtype vc) (value_text X x) = Ok (Some x))"
    if kv: "(k, v) \<in> set kvs" for k v
    using 27(1) [OF t kv refl] 27(2) [OF t kv refl] ok(2) kv by fastforce
  with map_trip [OF ok(1)] t show ?case by (simp only: value_text_nested(3) nested_not_NULL) simp
qed (rule scalar_value_trips; simp)+

section \<open>Texts that do not come back\<close>

text \<open>
  The list of one empty text is printed like the empty list; a bracket without its partner hides
  the comma after it; outer white space is lost; the text \<open>NULL\<close> comes back as an absent value.
\<close>

lemma texts_that_are_lost:
  "parse_list_literal (format_list_literal [[]]) = Ok []"
  "parse_list_literal (format_list_literal [''['', ''a'']) = Ok [''[, a'']"
  "parse_list_literal (format_list_literal ['' a'']) = Ok [''a'']"
  "value_parse X DVarchar (value_text X (VVarchar NULL_STRING)) = Ok None"
  by (simp_all add: value_parse_NULL) code_simp+

end
