(* ===== verification/AppliedChanges.thy ===== *)
theory AppliedChanges
  imports Catalog_Names
begin

text \<open>
  \<open>transaction/changes/applied_change.rs\<close>: the changes a snapshot records, their text in the
  \<open>changes_made\<close> column, and the logical conflicts between the changes of two concurrent
  transactions.
\<close>

section \<open>Changes\<close>

type_synonym schema_name = string

datatype (plugins only: code size) applied_change =
    CreatedSchema schema_name
  | CreatedTable qualified_name
  | CreatedView qualified_name
  | CreatedScalarMacro string
  | CreatedTableMacro string
  | InsertedIntoTable i64
  | DeletedFromTable i64
  | CompactedTable i64
  | InlinedInsert i64
  | InlinedDelete i64
  | InlineFlush i64
  | MergeAdjacent i64
  | RewriteDelete i64
  | DroppedSchema i64
  | DroppedTable i64
  | DroppedView i64
  | DroppedScalarMacro i64
  | DroppedTableMacro i64
  | AlteredTable i64
  | AlteredView i64

fun action :: "applied_change \<Rightarrow> string" where
  "action (CreatedSchema _) = ''created''"
| "action (CreatedTable _) = ''created''"
| "action (CreatedView _) = ''created''"
| "action (CreatedScalarMacro _) = ''created''"
| "action (CreatedTableMacro _) = ''created''"
| "action (DroppedSchema _) = ''dropped''"
| "action (DroppedTable _) = ''dropped''"
| "action (DroppedView _) = ''dropped''"
| "action (DroppedScalarMacro _) = ''dropped''"
| "action (DroppedTableMacro _) = ''dropped''"
| "action (AlteredTable _) = ''altered''"
| "action (AlteredView _) = ''altered''"
| "action (CompactedTable _) = ''compacted''"
| "action (InsertedIntoTable _) = ''inserted into''"
| "action (InlinedInsert _) = ''inserted into''"
| "action (DeletedFromTable _) = ''deleted from''"
| "action (InlinedDelete _) = ''deleted from''"
| "action (InlineFlush _) = ''flushed inlined changes for''"
| "action (MergeAdjacent _) = ''merged adjacent changes for''"
| "action (RewriteDelete _) = ''rewrote delete file for''"

definition schema_name_to_string :: "schema_name \<Rightarrow> string" where
  "schema_name_to_string n = format_identifier [n]"

definition parse_schema_name :: "string \<Rightarrow> schema_name result" where
  "parse_schema_name s =
     (case parse_identifier s of
        Some [n] \<Rightarrow> Ok n
      | _ \<Rightarrow> Err (InvalidSchemaName s (''expected format '' @ sq ''schema'')))"

section \<open>Text\<close>

fun change_tag :: "applied_change \<Rightarrow> string" where
  "change_tag (CreatedSchema _) = ''created_schema''"
| "change_tag (CreatedTable _) = ''created_table''"
| "change_tag (CreatedView _) = ''created_view''"
| "change_tag (CreatedScalarMacro _) = ''created_scalar_macro''"
| "change_tag (CreatedTableMacro _) = ''created_table_macro''"
| "change_tag (InsertedIntoTable _) = ''inserted_into_table''"
| "change_tag (DeletedFromTable _) = ''deleted_from_table''"
| "change_tag (InlinedInsert _) = ''inlined_insert''"
| "change_tag (InlinedDelete _) = ''inlined_delete''"
| "change_tag (InlineFlush _) = ''inline_flush''"
| "change_tag (MergeAdjacent _) = ''merge_adjacent''"
| "change_tag (RewriteDelete _) = ''rewrite_delete''"
| "change_tag (CompactedTable _) = ''compacted_table''"
| "change_tag (DroppedSchema _) = ''dropped_schema''"
| "change_tag (DroppedTable _) = ''dropped_table''"
| "change_tag (DroppedView _) = ''dropped_view''"
| "change_tag (DroppedScalarMacro _) = ''dropped_scalar_macro''"
| "change_tag (DroppedTableMacro _) = ''dropped_table_macro''"
| "change_tag (AlteredTable _) = ''altered_table''"
| "change_tag (AlteredView _) = ''altered_view''"

fun change_param :: "applied_change \<Rightarrow> string" where
  "change_param (CreatedSchema n) = schema_name_to_string n"
| "change_param (CreatedTable n) = qn_to_string n"
| "change_param (CreatedView n) = qn_to_string n"
| "change_param (CreatedScalarMacro n) = n"
| "change_param (CreatedTableMacro n) = n"
| "change_param (InsertedIntoTable i) = show_int i"
| "change_param (DeletedFromTable i) = show_int i"
| "change_param (InlinedInsert i) = show_int i"
| "change_param (InlinedDelete i) = show_int i"
| "change_param (InlineFlush i) = show_int i"
| "change_param (MergeAdjacent i) = show_int i"
| "change_param (RewriteDelete i) = show_int i"
| "change_param (CompactedTable i) = show_int i"
| "change_param (DroppedSchema i) = show_int i"
| "change_param (DroppedTable i) = show_int i"
| "change_param (DroppedView i) = show_int i"
| "change_param (DroppedScalarMacro i) = show_int i"
| "change_param (DroppedTableMacro i) = show_int i"
| "change_param (AlteredTable i) = show_int i"
| "change_param (AlteredView i) = show_int i"

definition change_to_string :: "applied_change \<Rightarrow> string" where
  "change_to_string c = change_tag c @ CHR '':'' # change_param c"

definition parse_id :: "string \<Rightarrow> i64 result" where
  "parse_id s = map_err (\<lambda>e. Parsing (''invalid entity ID '' @ sq s @ '': '' @ int_error_message e)) (parse_i64 s)"

text \<open>The parsers of the parameter by tag, in the order of the \<open>match\<close>.\<close>

definition change_parsers :: "(string \<times> (string \<Rightarrow> applied_change result)) list" where
  "change_parsers =
     (let with_id = (\<lambda>f p. and_then (parse_id p) (\<lambda>i. Ok (f i) :: applied_change result)) in
     [(''created_schema'', \<lambda>p. and_then (parse_schema_name p) (\<lambda>n. Ok (CreatedSchema n))),
      (''created_table'', \<lambda>p. and_then (parse_qualified_name p) (\<lambda>n. Ok (CreatedTable n))),
      (''created_view'', \<lambda>p. and_then (parse_qualified_name p) (\<lambda>n. Ok (CreatedView n))),
      (''created_scalar_macro'', \<lambda>p. Ok (CreatedScalarMacro p)),
      (''created_table_macro'', \<lambda>p. Ok (CreatedTableMacro p)),
      (''inserted_into_table'', with_id InsertedIntoTable),
      (''deleted_from_table'', with_id DeletedFromTable),
      (''inlined_insert'', with_id InlinedInsert),
      (''inlined_delete'', with_id InlinedDelete),
      (''inline_flush'', with_id InlineFlush),
      (''flushed_inlined'', with_id InlineFlush),
      (''merge_adjacent'', with_id MergeAdjacent),
      (''rewrite_delete'', with_id RewriteDelete),
      (''compacted_table'', with_id CompactedTable),
      (''dropped_schema'', with_id DroppedSchema),
      (''dropped_table'', with_id DroppedTable),
      (''dropped_view'', with_id DroppedView),
      (''dropped_scalar_macro'', with_id DroppedScalarMacro),
      (''dropped_table_macro'', with_id DroppedTableMacro),
      (''altered_table'', with_id AlteredTable),
      (''altered_view'', with_id AlteredView)])"

definition parse_change :: "string \<Rightarrow> applied_change result" where
  "parse_change s =
     (case splitn2 (CHR '':'') s of
        (tag, None) \<Rightarrow> Err (Parsing (''invalid change type format (missing '' @ sq '':'' @ '')''))
      | (tag, Some param) \<Rightarrow>
          (case map_of change_parsers tag of
             Some p \<Rightarrow> p param
           | None \<Rightarrow> Err (Parsing (''unknown change type '' @ sq tag))))"

section \<open>Sets of applied changes\<close>

type_synonym applied_change_set = "applied_change list"

definition applied_set_new :: "applied_change list \<Rightarrow> applied_change_set" where
  "applied_set_new cs = unique cs"

definition applied_set_to_string :: "applied_change_set \<Rightarrow> string" where
  "applied_set_to_string cs = join_with (CHR '','') (map change_to_string cs)"

definition parse_applied_set :: "string \<Rightarrow> applied_change_set result" where
  "parse_applied_set s = and_then (collect parse_change (split_on (CHR '','') s)) (\<lambda>v. Ok (applied_set_new v))"

section \<open>Conflicts\<close>

definition schema_name_of_id :: "catalog \<Rightarrow> i64 \<Rightarrow> string result" where
  "schema_name_of_id c id' = and_then (schema_by_id c id') (\<lambda>r. and_then (schema_inner c r) (\<lambda>s. Ok (csc_name s)))"

definition conflict :: "string \<Rightarrow> unit result" where
  "conflict msg = Err (TransactionConflict msg)"

definition dropped_schema_conflict :: "catalog \<Rightarrow> i64 \<Rightarrow> string \<Rightarrow> qualified_name \<Rightarrow> unit result" where
  "dropped_schema_conflict c schema_id what n =
     and_then (schema_name_of_id c schema_id) (\<lambda>s.
       if s = qn_schema n
       then conflict (''attempting to drop schema with ID '' @ show_int schema_id @ '' but '' @ what @ '' ''
              @ qn_to_string n @ '' was created in it'')
       else Ok ())"

text \<open>The schema is looked up before the macro's name is parsed.\<close>

definition dropped_schema_macro_conflict :: "catalog \<Rightarrow> i64 \<Rightarrow> string \<Rightarrow> unit result" where
  "dropped_schema_macro_conflict c schema_id name =
     and_then (schema_name_of_id c schema_id) (\<lambda>_.
     and_then (parse_qualified_name name) (dropped_schema_conflict c schema_id ''macro''))"

definition when_same :: "'a \<Rightarrow> 'a \<Rightarrow> string \<Rightarrow> unit result" where
  "when_same a b msg = (if a = b then conflict msg else Ok ())"

definition already :: "string \<Rightarrow> string \<Rightarrow> applied_change \<Rightarrow> string" where
  "already what obj other = ''attempting to '' @ what @ '' '' @ obj @ '' but it was already '' @ action other"

definition but_was :: "string \<Rightarrow> i64 \<Rightarrow> string \<Rightarrow> applied_change \<Rightarrow> string" where
  "but_was what id' subject other =
     ''attempting to '' @ what @ '' with ID '' @ show_int id' @ '' but '' @ subject @ '' was '' @ action other"

definition check_conflict :: "applied_change \<Rightarrow> applied_change \<Rightarrow> catalog \<Rightarrow> unit result" where
  "check_conflict self other c =
     (let insert_into = (\<lambda>l. case other of
            DroppedTable r \<Rightarrow> when_same l r (but_was ''insert into table'' l ''the table'' other)
          | AlteredTable r \<Rightarrow> when_same l r (but_was ''insert into table'' l ''the table'' other)
          | _ \<Rightarrow> Ok ());
          delete_from = (\<lambda>l. case other of
            DroppedTable r \<Rightarrow> when_same l r (but_was ''delete from table'' l ''the table'' other)
          | AlteredTable r \<Rightarrow> when_same l r (but_was ''delete from table'' l ''the table'' other)
          | DeletedFromTable r \<Rightarrow> when_same l r (but_was ''delete from table'' l ''the table'' other)
          | CompactedTable r \<Rightarrow> when_same l r (but_was ''delete from table'' l ''the table'' other)
          | _ \<Rightarrow> Ok ());
          drop_macro = (\<lambda>l. case other of
            DroppedScalarMacro r \<Rightarrow> when_same l r (already ''drop macro with ID'' (show_int l) other)
          | DroppedTableMacro r \<Rightarrow> when_same l r (already ''drop macro with ID'' (show_int l) other)
          | _ \<Rightarrow> Ok ())
      in case self of
        CreatedSchema l \<Rightarrow>
          (case other of
             CreatedSchema r \<Rightarrow> when_same l r (already ''create schema'' (schema_name_to_string l) other)
           | _ \<Rightarrow> Ok ())
      | DroppedSchema l \<Rightarrow>
          (case other of
             DroppedSchema r \<Rightarrow> when_same l r (already ''drop schema with ID'' (show_int l) other)
           | CreatedTable n \<Rightarrow> dropped_schema_conflict c l ''table'' n
           | CreatedView n \<Rightarrow> dropped_schema_conflict c l ''view'' n
           | CreatedScalarMacro n \<Rightarrow> dropped_schema_macro_conflict c l n
           | CreatedTableMacro n \<Rightarrow> dropped_schema_macro_conflict c l n
           | _ \<Rightarrow> Ok ())
      | CreatedTable l \<Rightarrow>
          (case other of
             DroppedSchema s \<Rightarrow> dropped_schema_conflict c s ''table'' l
           | CreatedTable r \<Rightarrow> when_same l r (already ''create table'' (qn_to_string l) other)
           | CreatedView r \<Rightarrow> when_same l r (already ''create relation'' (qn_to_string l) other)
           | _ \<Rightarrow> Ok ())
      | CreatedView l \<Rightarrow>
          (case other of
             DroppedSchema s \<Rightarrow> dropped_schema_conflict c s ''view'' l
           | CreatedView r \<Rightarrow> when_same l r (already ''create view'' (qn_to_string l) other)
           | CreatedTable r \<Rightarrow> when_same l r (already ''create relation'' (qn_to_string l) other)
           | _ \<Rightarrow> Ok ())
      | CreatedScalarMacro l \<Rightarrow>
          (case other of
             DroppedSchema s \<Rightarrow> dropped_schema_macro_conflict c s l
           | CreatedScalarMacro r \<Rightarrow>
               (if eq_ignore_ascii_case l r then conflict (already ''create macro'' l other) else Ok ())
           | _ \<Rightarrow> Ok ())
      | CreatedTableMacro l \<Rightarrow>
          (case other of
             DroppedSchema s \<Rightarrow> dropped_schema_macro_conflict c s l
           | CreatedTableMacro r \<Rightarrow>
               (if eq_ignore_ascii_case l r then conflict (already ''create macro'' l other) else Ok ())
           | _ \<Rightarrow> Ok ())
      | DroppedTable l \<Rightarrow>
          (case other of
             DroppedTable r \<Rightarrow> when_same l r (already ''drop table with ID'' (show_int l) other)
           | _ \<Rightarrow> Ok ())
      | AlteredTable l \<Rightarrow>
          (case other of
             AlteredTable r \<Rightarrow> when_same l r (but_was ''alter table'' l ''it'' other)
           | DroppedTable r \<Rightarrow> when_same l r (but_was ''alter table'' l ''it'' other)
           | _ \<Rightarrow> Ok ())
      | DroppedView l \<Rightarrow>
          (case other of
             DroppedView r \<Rightarrow> when_same l r (already ''drop view with ID'' (show_int l) other)
           | _ \<Rightarrow> Ok ())
      | AlteredView l \<Rightarrow>
          (case other of
             AlteredView r \<Rightarrow> when_same l r (but_was ''alter view'' l ''it'' other)
           | DroppedView r \<Rightarrow> when_same l r (but_was ''alter view'' l ''it'' other)
           | _ \<Rightarrow> Ok ())
      | DroppedScalarMacro l \<Rightarrow> drop_macro l
      | DroppedTableMacro l \<Rightarrow> drop_macro l
      | InsertedIntoTable l \<Rightarrow> insert_into l
      | InlinedInsert l \<Rightarrow> insert_into l
      | DeletedFromTable l \<Rightarrow> delete_from l
      | InlinedDelete l \<Rightarrow> delete_from l
      | CompactedTable l \<Rightarrow>
          (case other of
             DroppedTable r \<Rightarrow> when_same l r (but_was ''compact table'' l ''it'' other)
           | DeletedFromTable r \<Rightarrow> when_same l r (but_was ''compact table'' l ''it'' other)
           | InlinedDelete r \<Rightarrow> when_same l r (but_was ''compact table'' l ''it'' other)
           | _ \<Rightarrow> Ok ())
      | _ \<Rightarrow> Ok ())"

text \<open>The cartesian product of the two lists, in its order, stopping at the first failure.\<close>

definition check_set_conflict :: "applied_change_set \<Rightarrow> applied_change_set \<Rightarrow> catalog \<Rightarrow> unit result" where
  "check_set_conflict self other c =
     fold_res (\<lambda>(l, r) _. check_conflict l r c) (List.product self other) ()"

section \<open>Round trips\<close>

lemma parse_schema_name_to_string: "n \<noteq> [] \<Longrightarrow> parse_schema_name (schema_name_to_string n) = Ok n"
  using parse_format_identifier [of "[n]"] by (simp add: parse_schema_name_def schema_name_to_string_def)

interpretation schema_name_codec: codec schema_name_to_string parse_schema_name "\<lambda>n. n \<noteq> []"
  by unfold_locales (rule parse_schema_name_to_string)

lemma parse_id_show [simp]: "in_i64 i \<Longrightarrow> parse_id (show_int i) = Ok i"
  by (simp add: parse_id_def)

text \<open>The changes whose names are not empty and whose IDs fit.\<close>

fun change_ok :: "applied_change \<Rightarrow> bool" where
  "change_ok (CreatedSchema n) \<longleftrightarrow> n \<noteq> []"
| "change_ok (CreatedTable n) \<longleftrightarrow> qn_ok n"
| "change_ok (CreatedView n) \<longleftrightarrow> qn_ok n"
| "change_ok (CreatedScalarMacro n) \<longleftrightarrow> True"
| "change_ok (CreatedTableMacro n) \<longleftrightarrow> True"
| "change_ok (InsertedIntoTable i) \<longleftrightarrow> in_i64 i"
| "change_ok (DeletedFromTable i) \<longleftrightarrow> in_i64 i"
| "change_ok (CompactedTable i) \<longleftrightarrow> in_i64 i"
| "change_ok (InlinedInsert i) \<longleftrightarrow> in_i64 i"
| "change_ok (InlinedDelete i) \<longleftrightarrow> in_i64 i"
| "change_ok (InlineFlush i) \<longleftrightarrow> in_i64 i"
| "change_ok (MergeAdjacent i) \<longleftrightarrow> in_i64 i"
| "change_ok (RewriteDelete i) \<longleftrightarrow> in_i64 i"
| "change_ok (DroppedSchema i) \<longleftrightarrow> in_i64 i"
| "change_ok (DroppedTable i) \<longleftrightarrow> in_i64 i"
| "change_ok (DroppedView i) \<longleftrightarrow> in_i64 i"
| "change_ok (DroppedScalarMacro i) \<longleftrightarrow> in_i64 i"
| "change_ok (DroppedTableMacro i) \<longleftrightarrow> in_i64 i"
| "change_ok (AlteredTable i) \<longleftrightarrow> in_i64 i"
| "change_ok (AlteredView i) \<longleftrightarrow> in_i64 i"

lemma change_tag_no_colon: "CHR '':'' \<notin> set (change_tag c)"
  by (cases c) simp_all

lemma parse_change_param: "change_ok c \<Longrightarrow> (the (map_of change_parsers (change_tag c))) (change_param c) = Ok c"
  by (cases c) (simp_all add: change_parsers_def Let_def parse_schema_name_to_string parse_qn_to_string)

lemma change_tag_parser: "map_of change_parsers (change_tag c) \<noteq> None"
  by (cases c) (simp_all add: change_parsers_def Let_def)

lemma parse_change_to_string: "change_ok c \<Longrightarrow> parse_change (change_to_string c) = Ok c"
  using parse_change_param [of c] change_tag_parser [of c]
  by (auto simp: parse_change_def change_to_string_def change_tag_no_colon)

interpretation change_codec: codec change_to_string parse_change change_ok
  by unfold_locales (rule parse_change_to_string)

lemma parse_applied_set_to_string:
  assumes "cs \<noteq> []" "\<forall>c\<in>set cs. change_ok c \<and> CHR '','' \<notin> set (change_param c)"
  shows "parse_applied_set (applied_set_to_string (applied_set_new cs)) = Ok (applied_set_new cs)"
proof -
  have tag: "CHR '','' \<notin> set (change_tag c)" for c by (cases c) simp_all
  have "applied_set_new cs \<noteq> []"
    using assms(1) set_unique [of cs] by (metis applied_set_new_def set_empty)
  moreover have "\<forall>c\<in>set (applied_set_new cs). change_ok c \<and> CHR '','' \<notin> set (change_to_string c)"
    using assms(2) tag by (auto simp: applied_set_new_def change_to_string_def)
  ultimately show ?thesis
    by (simp add: parse_applied_set_def applied_set_to_string_def change_codec.parse_separated)
       (simp add: applied_set_new_def)
qed

section \<open>The conflict relation\<close>

text \<open>
  What a change does, on the level conflicts are decided: it creates a name in a name space,
  drops an object, alters one, or changes the data of a table.
\<close>

datatype space = Schemas | Relations | ScalarMacros | TableMacros
datatype kind = SchemaKind | TableKind | ViewKind | MacroKind

fun created_name :: "applied_change \<Rightarrow> (space \<times> string list) option" where
  "created_name (CreatedSchema n) = Some (Schemas, [n])"
| "created_name (CreatedTable n) = Some (Relations, [qn_schema n, qn_name n])"
| "created_name (CreatedView n) = Some (Relations, [qn_schema n, qn_name n])"
| "created_name (CreatedScalarMacro n) = Some (ScalarMacros, [to_ascii_lowercase n])"
| "created_name (CreatedTableMacro n) = Some (TableMacros, [to_ascii_lowercase n])"
| "created_name _ = None"

fun dropped_object :: "applied_change \<Rightarrow> (kind \<times> i64) option" where
  "dropped_object (DroppedSchema i) = Some (SchemaKind, i)"
| "dropped_object (DroppedTable i) = Some (TableKind, i)"
| "dropped_object (DroppedView i) = Some (ViewKind, i)"
| "dropped_object (DroppedScalarMacro i) = Some (MacroKind, i)"
| "dropped_object (DroppedTableMacro i) = Some (MacroKind, i)"
| "dropped_object _ = None"

fun altered_object :: "applied_change \<Rightarrow> (kind \<times> i64) option" where
  "altered_object (AlteredTable i) = Some (TableKind, i)"
| "altered_object (AlteredView i) = Some (ViewKind, i)"
| "altered_object _ = None"

fun inserts_into :: "applied_change \<Rightarrow> i64 option" where
  "inserts_into (InsertedIntoTable i) = Some i"
| "inserts_into (InlinedInsert i) = Some i"
| "inserts_into _ = None"

fun deletes_from :: "applied_change \<Rightarrow> i64 option" where
  "deletes_from (DeletedFromTable i) = Some i"
| "deletes_from (InlinedDelete i) = Some i"
| "deletes_from _ = None"

fun compacts :: "applied_change \<Rightarrow> i64 option" where
  "compacts (CompactedTable i) = Some i"
| "compacts _ = None"

definition both :: "'a option \<Rightarrow> 'a option \<Rightarrow> bool" where
  "both a b \<longleftrightarrow> a \<noteq> None \<and> a = b"

fun created_in :: "applied_change \<Rightarrow> string option" where
  "created_in (CreatedTable n) = Some (qn_schema n)"
| "created_in (CreatedView n) = Some (qn_schema n)"
| "created_in (CreatedScalarMacro n) = (case parse_qualified_name n of Ok q \<Rightarrow> Some (qn_schema q) | _ \<Rightarrow> None)"
| "created_in (CreatedTableMacro n) = (case parse_qualified_name n of Ok q \<Rightarrow> Some (qn_schema q) | _ \<Rightarrow> None)"
| "created_in _ = None"

text \<open>One change drops the schema the other creates an object in.\<close>

definition drops_schema_of :: "catalog \<Rightarrow> applied_change \<Rightarrow> applied_change \<Rightarrow> bool" where
  "drops_schema_of c a b =
     (case a of
        DroppedSchema i \<Rightarrow> (case schema_name_of_id c i of Ok s \<Rightarrow> created_in b = Some s | _ \<Rightarrow> False)
      | _ \<Rightarrow> False)"

definition table_gone_or_altered :: "applied_change \<Rightarrow> i64 option \<Rightarrow> bool" where
  "table_gone_or_altered b t \<longleftrightarrow> t \<noteq> None \<and>
     (dropped_object b = Some (TableKind, the t) \<or> altered_object b = Some (TableKind, the t))"

definition conflicts :: "catalog \<Rightarrow> applied_change \<Rightarrow> applied_change \<Rightarrow> bool" where
  "conflicts c a b \<longleftrightarrow>
     both (created_name a) (created_name b) \<or>
     both (dropped_object a) (dropped_object b) \<or>
     drops_schema_of c a b \<or> drops_schema_of c b a \<or>
     both (altered_object a) (altered_object b) \<or> both (altered_object a) (dropped_object b) \<or>
     table_gone_or_altered b (inserts_into a) \<or> table_gone_or_altered b (deletes_from a) \<or>
     (deletes_from a \<noteq> None \<and> (b = DeletedFromTable (the (deletes_from a)) \<or> compacts b = deletes_from a)) \<or>
     (compacts a \<noteq> None \<and> (dropped_object b = Some (TableKind, the (compacts a)) \<or> deletes_from b = compacts a))"

text \<open>The lookups of \<open>check_conflict\<close> succeed.\<close>

definition checkable :: "catalog \<Rightarrow> applied_change \<Rightarrow> bool" where
  "checkable c a \<longleftrightarrow>
     (case a of
        DroppedSchema i \<Rightarrow> is_ok (schema_name_of_id c i)
      | CreatedScalarMacro n \<Rightarrow> is_ok (parse_qualified_name n)
      | CreatedTableMacro n \<Rightarrow> is_ok (parse_qualified_name n)
      | _ \<Rightarrow> True)"

lemma qn_eq_iff: "qn_schema a = qn_schema b \<and> qn_name a = qn_name b \<longleftrightarrow> (a :: qualified_name) = b"
  by (cases a, cases b) auto

lemmas conflict_unfold = check_conflict_def Let_def applied_change.case

lemmas conflict_defs = when_same_def conflict_def dropped_schema_conflict_def
  dropped_schema_macro_conflict_def conflicts_def both_def drops_schema_of_def table_gone_or_altered_def
  checkable_def eq_ignore_ascii_case_def qn_eq_iff

lemma is_okE: "is_ok r \<Longrightarrow> (\<And>x. r = Ok x \<Longrightarrow> P) \<Longrightarrow> P"
  by (auto simp: is_ok_iff)

text \<open>An object is created in a schema the other transaction drops.\<close>

lemma dropped_schema_conflict_Ok:
  "schema_name_of_id c i = Ok s \<Longrightarrow> dropped_schema_conflict c i what n =
     (if s = qn_schema n then dropped_schema_conflict c i what n else Ok ())"
  by (simp add: dropped_schema_conflict_def)

definition conflict_outcome :: "bool \<Rightarrow> unit result \<Rightarrow> bool" where
  "conflict_outcome b r \<longleftrightarrow> (if b then \<exists>msg. r = Err (TransactionConflict msg) else r = Ok ())"

lemma conflict_outcome_simps [simp]:
  "conflict_outcome b (Ok ()) \<longleftrightarrow> \<not> b" "conflict_outcome b (Err (TransactionConflict m)) \<longleftrightarrow> b"
  "conflict_outcome b (if p then x else y) \<longleftrightarrow> (if p then conflict_outcome b x else conflict_outcome b y)"
  by (simp_all add: conflict_outcome_def)

lemma check_conflict_spec:
  assumes "checkable c a" "checkable c b"
  shows "conflict_outcome (conflicts c a b) (check_conflict a b c)"
proof (cases a)
  case (CreatedSchema l)
  show ?thesis
    using assms unfolding CreatedSchema conflict_unfold
    by (cases b) (auto simp: conflict_defs elim!: is_okE)
next
  case (CreatedTable l)
  show ?thesis
    using assms unfolding CreatedTable conflict_unfold
    by (cases b) (auto simp: conflict_defs elim!: is_okE)
next
  case (CreatedView l)
  show ?thesis
    using assms unfolding CreatedView conflict_unfold
    by (cases b) (auto simp: conflict_defs elim!: is_okE)
next
  case (CreatedScalarMacro l)
  show ?thesis
    using assms unfolding CreatedScalarMacro conflict_unfold
    by (cases b) (auto simp: conflict_defs elim!: is_okE)
next
  case (CreatedTableMacro l)
  show ?thesis
    using assms unfolding CreatedTableMacro conflict_unfold
    by (cases b) (auto simp: conflict_defs elim!: is_okE)
next
  case (InsertedIntoTable l)
  show ?thesis
    using assms unfolding InsertedIntoTable conflict_unfold
    by (cases b) (auto simp: conflict_defs elim!: is_okE)
next
  case (DeletedFromTable l)
  show ?thesis
    using assms unfolding DeletedFromTable conflict_unfold
    by (cases b) (auto simp: conflict_defs elim!: is_okE)
next
  case (CompactedTable l)
  show ?thesis
    using assms unfolding CompactedTable conflict_unfold
    by (cases b) (auto simp: conflict_defs elim!: is_okE)
next
  case (InlinedInsert l)
  show ?thesis
    using assms unfolding InlinedInsert conflict_unfold
    by (cases b) (auto simp: conflict_defs elim!: is_okE)
next
  case (InlinedDelete l)
  show ?thesis
    using assms unfolding InlinedDelete conflict_unfold
    by (cases b) (auto simp: conflict_defs elim!: is_okE)
next
  case (InlineFlush l)
  show ?thesis
    using assms unfolding InlineFlush conflict_unfold
    by (cases b) (auto simp: conflict_defs elim!: is_okE)
next
  case (MergeAdjacent l)
  show ?thesis
    using assms unfolding MergeAdjacent conflict_unfold
    by (cases b) (auto simp: conflict_defs elim!: is_okE)
next
  case (RewriteDelete l)
  show ?thesis
    using assms unfolding RewriteDelete conflict_unfold
    by (cases b) (auto simp: conflict_defs elim!: is_okE)
next
  case (DroppedSchema l)
  show ?thesis
    using assms unfolding DroppedSchema conflict_unfold
    by (cases b) (auto simp: conflict_defs elim!: is_okE)
next
  case (DroppedTable l)
  show ?thesis
    using assms unfolding DroppedTable conflict_unfold
    by (cases b) (auto simp: conflict_defs elim!: is_okE)
next
  case (DroppedView l)
  show ?thesis
    using assms unfolding DroppedView conflict_unfold
    by (cases b) (auto simp: conflict_defs elim!: is_okE)
next
  case (DroppedScalarMacro l)
  show ?thesis
    using assms unfolding DroppedScalarMacro conflict_unfold
    by (cases b) (auto simp: conflict_defs elim!: is_okE)
next
  case (DroppedTableMacro l)
  show ?thesis
    using assms unfolding DroppedTableMacro conflict_unfold
    by (cases b) (auto simp: conflict_defs elim!: is_okE)
next
  case (AlteredTable l)
  show ?thesis
    using assms unfolding AlteredTable conflict_unfold
    by (cases b) (auto simp: conflict_defs elim!: is_okE)
next
  case (AlteredView l)
  show ?thesis
    using assms unfolding AlteredView conflict_unfold
    by (cases b) (auto simp: conflict_defs elim!: is_okE)
qed

end
