(* ===== verification/Store.thy ===== *)
theory Store
  imports Batch Entities Changes
begin

text \<open>
  The metadata database as the code sees it: one list of rows per metadata table
  (\<open>spec/entities.rs\<close>), the dynamically named tables of inlined data and inlined deletes, and
  the primitive statements of \<open>db/mod.rs\<close> on them. Rows with a snapshot range are versioned:
  the locale \<open>versioned\<close> states what the rows of a snapshot are and which statements leave the
  rows of earlier snapshots as they are.
\<close>

section \<open>State\<close>

record inline_table =
  it_columns :: "(string \<times> column_type) list"
  it_batches :: "record_batch list"

record store =
  db_schemas :: "ducklake_schema list"
  db_tables :: "ducklake_table list"
  db_views :: "ducklake_view list"
  db_macros :: "ducklake_macro list"
  db_macro_impls :: "ducklake_macro_impl list"
  db_macro_parameters :: "ducklake_macro_parameters list"
  db_columns :: "ducklake_column list"
  db_partition_info :: "ducklake_partition_info list"
  db_partition_columns :: "ducklake_partition_column list"
  db_sort_info :: "ducklake_sort_info list"
  db_sort_expressions :: "ducklake_sort_expression list"
  db_tags :: "ducklake_tag list"
  db_column_tags :: "ducklake_column_tag list"
  db_data_files :: "ducklake_data_file list"
  db_delete_files :: "ducklake_delete_file list"
  db_partition_values :: "ducklake_file_partition_value list"
  db_file_column_stats :: "ducklake_file_column_stats list"
  db_inlined_data_tables :: "ducklake_inlined_data_tables list"
  db_table_stats :: "ducklake_table_stats list"
  db_table_column_stats :: "ducklake_table_column_stats list"
  db_snapshots :: "ducklake_snapshot list"
  db_snapshot_changes :: "ducklake_snapshot_changes list"
  db_schema_versions :: "ducklake_schema_versions list"
  db_inline_deletes :: "(string, ducklake_inlined_delete list) imap"
  db_inline_tables :: "(string, inline_table) imap"

type_synonym 'a store_op = "(store, ducklake_error, 'a) op"

text \<open>A statement on one table of the store.\<close>

definition on_table ::
  "('s \<Rightarrow> 't) \<Rightarrow> (('t \<Rightarrow> 't) \<Rightarrow> 's \<Rightarrow> 's) \<Rightarrow> ('t, 'e, 'a) op \<Rightarrow> ('s, 'e, 'a) op"
where
  "on_table get put m s = (let (t, r) = m (get s) in (put (\<lambda>_. t) s, r))"

text \<open>
  Buffered inserts: every value of the entities written this way is a boolean, an integer, a
  text or a UUID, which \<open>COPY\<close> supports. A primary key that is taken, by a row of the table or
  by an earlier row of the batch, is a unique violation.
\<close>

definition insert_entities :: "db_dialect \<Rightarrow> nat \<Rightarrow> 'r list \<Rightarrow> 'r table_op" where
  "insert_entities d columns rows = insert_rows d columns (\<lambda>_. True) rows"

definition unique_violation :: ducklake_error where
  "unique_violation = Database \<lparr>de_unique_violation = True, de_table_already_exists = False,
     de_message = ''unique violation''\<rparr>"

definition insert_keyed :: "db_dialect \<Rightarrow> nat \<Rightarrow> ('r \<Rightarrow> i64) \<Rightarrow> 'r list \<Rightarrow> 'r table_op" where
  "insert_keyed d columns key rows t =
     (if distinct (map key rows) \<and> set (map key rows) \<inter> set (map key t) = {}
      then insert_entities d columns rows t
      else (t, Err unique_violation))"

section \<open>Versioned rows\<close>

text \<open>The rows of a snapshot, without their end: a row may be retired by a later snapshot.\<close>

definition view_at :: "('r \<Rightarrow> i64) \<Rightarrow> ('r \<Rightarrow> i64 option) \<Rightarrow> (i64 option \<Rightarrow> 'r \<Rightarrow> 'r) \<Rightarrow> i64 \<Rightarrow> 'r list \<Rightarrow> 'r list" where
  "view_at beg en set_en s t = map (set_en None) (filter (\<lambda>r. visible_at (beg r) (en r) s) t)"

locale versioned =
  fixes beg :: "'r \<Rightarrow> i64"
    and en :: "'r \<Rightarrow> i64 option"
    and set_en :: "i64 option \<Rightarrow> 'r \<Rightarrow> 'r"
  assumes beg_set: "beg (set_en e r) = beg r"
    and en_set: "en (set_en e r) = e"
    and set_set: "set_en e (set_en e' r) = set_en e r"
begin

abbreviation rows_at :: "i64 \<Rightarrow> 'r list \<Rightarrow> 'r list" where
  "rows_at \<equiv> view_at beg en set_en"

lemma retire_view:
  assumes "s < n"
  shows "rows_at s (map (\<lambda>r. if en r = None \<and> P r then set_en (Some n) r else r) t) = rows_at s t"
  using assms by (induction t) (auto simp: view_at_def visible_at_def beg_set en_set set_set)

lemma append_view:
  assumes "\<And>r. r \<in> set new \<Longrightarrow> s < beg r"
  shows "rows_at s (t @ new) = rows_at s t"
proof -
  have "filter (\<lambda>r. visible_at (beg r) (en r) s) new = []"
    using assms by (fastforce simp: filter_empty_conv visible_at_def)
  then show ?thesis by (simp add: view_at_def)
qed

text \<open>Rows are never dropped by retiring, and a retired row stays retired.\<close>

lemma retire_live:
  "filter (\<lambda>r. en r = None) (map (\<lambda>r. if en r = None \<and> P r then set_en (Some n) r else r) t)
    = filter (\<lambda>r. en r = None \<and> \<not> P r) t"
  by (induction t) (auto simp: en_set)

end

interpretation v_schemas: versioned dsc_begin_snapshot dsc_end_snapshot "\<lambda>e. dsc_end_snapshot_update (\<lambda>_. e)"
  by unfold_locales simp_all

interpretation v_tables: versioned dt_begin_snapshot dt_end_snapshot "\<lambda>e. dt_end_snapshot_update (\<lambda>_. e)"
  by unfold_locales simp_all

interpretation v_views: versioned dv_begin_snapshot dv_end_snapshot "\<lambda>e. dv_end_snapshot_update (\<lambda>_. e)"
  by unfold_locales simp_all

interpretation v_macros: versioned dma_begin_snapshot dma_end_snapshot "\<lambda>e. dma_end_snapshot_update (\<lambda>_. e)"
  by unfold_locales simp_all

interpretation v_columns: versioned dc_begin_snapshot dc_end_snapshot "\<lambda>e. dc_end_snapshot_update (\<lambda>_. e)"
  by unfold_locales simp_all

interpretation v_partitions: versioned dpi_begin_snapshot dpi_end_snapshot "\<lambda>e. dpi_end_snapshot_update (\<lambda>_. e)"
  by unfold_locales simp_all

interpretation v_sorts: versioned dsi_begin_snapshot dsi_end_snapshot "\<lambda>e. dsi_end_snapshot_update (\<lambda>_. e)"
  by unfold_locales simp_all

interpretation v_tags: versioned dtg_begin_snapshot dtg_end_snapshot "\<lambda>e. dtg_end_snapshot_update (\<lambda>_. e)"
  by unfold_locales simp_all

interpretation v_column_tags: versioned dct_begin_snapshot dct_end_snapshot "\<lambda>e. dct_end_snapshot_update (\<lambda>_. e)"
  by unfold_locales simp_all

interpretation v_data_files: versioned ddf_begin_snapshot ddf_end_snapshot "\<lambda>e. ddf_end_snapshot_update (\<lambda>_. e)"
  by unfold_locales simp_all

interpretation v_delete_files: versioned ddel_begin_snapshot ddel_end_snapshot "\<lambda>e. ddel_end_snapshot_update (\<lambda>_. e)"
  by unfold_locales simp_all

end
