(* ===== verification/Persist.thy ===== *)
theory Persist
  imports Store
begin

text \<open>
  \<open>transaction/transaction_changes.rs\<close>: the typed changes one commit attempt collects and the
  statements that write them, in the order of the source. \<open>env\<close> holds what a commit depends
  on beyond the store: the dialect, the database's equality of texts, the text and the order of
  values, the UUID drawn for an object, and the Arrow operations on a record batch.
\<close>

section \<open>Data\<close>

record tag_change =
  tgc_key :: string
  tgc_value :: "string option"

record file_changes =
  fch_data_files :: "ducklake_data_file list"
  fch_partition_values :: "ducklake_file_partition_value list"
  fch_column_stats :: "ducklake_file_column_stats list"
  fch_delete_files :: "ducklake_delete_file list"
  fch_inline_deletes :: "(i64, ducklake_inlined_delete list) imap"

record tx_changes =
  tc_new_schemas :: "ducklake_schema list"
  tc_new_tables :: "ducklake_table list"
  tc_new_views :: "ducklake_view list"
  tc_new_macros :: "ducklake_macro list"
  tc_new_macro_impls :: "ducklake_macro_impl list"
  tc_new_macro_parameters :: "ducklake_macro_parameters list"
  tc_new_columns :: "ducklake_column list"
  tc_new_partition_info :: "ducklake_partition_info list"
  tc_new_partition_columns :: "ducklake_partition_column list"
  tc_new_sort_info :: "ducklake_sort_info list"
  tc_new_sort_expressions :: "ducklake_sort_expression list"
  tc_new_tags :: "ducklake_tag list"
  tc_new_column_tags :: "ducklake_column_tag list"
  tc_dropped_schemas :: "i64 list"
  tc_dropped_tables :: "i64 list"
  tc_dropped_views :: "i64 list"
  tc_dropped_macros :: "i64 list"
  tc_detached_tables :: "i64 list"
  tc_renamed_tables :: "(i64, string) imap"
  tc_retired_partition_tables :: "i64 list"
  tc_retired_sort_tables :: "i64 list"
  tc_retired_columns :: "(i64 \<times> i64) list"
  tc_table_tags :: "(i64, tag_change list) imap"
  tc_column_tags :: "(i64 \<times> i64, tag_change list) imap"
  tc_files :: file_changes
  tc_inline_tables :: "(i64, schema) imap"
  tc_inline_data :: "(i64, record_batch list) imap"
  tc_written_columns :: "(i64, i64 list) imap"

definition tx_changes_default :: tx_changes where
  "tx_changes_default =
     \<lparr>tc_new_schemas = [], tc_new_tables = [], tc_new_views = [], tc_new_macros = [], tc_new_macro_impls = [],
      tc_new_macro_parameters = [], tc_new_columns = [], tc_new_partition_info = [], tc_new_partition_columns = [],
      tc_new_sort_info = [], tc_new_sort_expressions = [], tc_new_tags = [], tc_new_column_tags = [],
      tc_dropped_schemas = [], tc_dropped_tables = [], tc_dropped_views = [], tc_dropped_macros = [],
      tc_detached_tables = [], tc_renamed_tables = [], tc_retired_partition_tables = [],
      tc_retired_sort_tables = [], tc_retired_columns = [], tc_table_tags = [], tc_column_tags = [],
      tc_files = \<lparr>fch_data_files = [], fch_partition_values = [], fch_column_stats = [], fch_delete_files = [],
                  fch_inline_deletes = []\<rparr>,
      tc_inline_tables = [], tc_inline_data = [], tc_written_columns = []\<rparr>"

text \<open>
  Arrow: the number of rows and columns of a batch, and the batch with the columns \<open>row_id\<close>,
  \<open>begin_snapshot\<close> and \<open>end_snapshot\<close> appended, given the row IDs and the snapshot.
\<close>

record env =
  env_dialect :: db_dialect
  env_text_eq :: "string \<Rightarrow> string \<Rightarrow> bool"
  env_value_text :: "value \<Rightarrow> string"
  env_cmp :: ext_cmp
  env_uuid :: "i64 \<Rightarrow> uuid"
  env_num_rows :: "record_batch \<Rightarrow> usize"
  env_num_columns :: "record_batch \<Rightarrow> usize"
  env_with_system_columns :: "record_batch \<Rightarrow> i64 list \<Rightarrow> i64 \<Rightarrow> (string, record_batch) res"

section \<open>Statements\<close>

text \<open>A sequence of statements.\<close>

definition steps :: "('s, 'e, unit) op list \<Rightarrow> ('s, 'e, unit) op" where
  "steps ms = for_each (\<lambda>m. m) ms"

text \<open>\<open>retire_rows\<close>: the live rows with one of the keys end at the snapshot.\<close>

definition retire_rows ::
  "db_dialect \<Rightarrow> i64 \<Rightarrow> nat \<Rightarrow> ('r \<Rightarrow> 'k) \<Rightarrow> ('k \<Rightarrow> 'k \<Rightarrow> bool) \<Rightarrow> ('r \<Rightarrow> i64 option)
    \<Rightarrow> (i64 option \<Rightarrow> 'r \<Rightarrow> 'r) \<Rightarrow> 'k list \<Rightarrow> 'r table_op"
where
  "retire_rows d n nkeys key_of keq en set_en keys =
     update_matching_rows d nkeys key_of keq keys 1 (set_en (Some n)) 0 (\<lambda>r. en r = None)"

definition persist_table_renames :: "db_dialect \<Rightarrow> i64 \<Rightarrow> (i64, string) imap \<Rightarrow> ducklake_table table_op" where
  "persist_table_renames d n new_names =
     copy_rows_with_updates d 1 dt_table_id (=) 1 (\<lambda>name. dt_table_name_update (\<lambda>_. name)) new_names
       2 (\<lambda>r. r\<lparr>dt_begin_snapshot := n, dt_end_snapshot := None\<rparr>) 1 (\<lambda>r. dt_end_snapshot r = Some n)"

subsection \<open>Tags\<close>

text \<open>
  Each round takes the next edit of every object: the live rows with the edited key are retired
  and the new values inserted.
\<close>

type_synonym 'k pending = "('k \<times> tag_change list) list"

definition tag_heads :: "'k pending \<Rightarrow> ('k \<times> tag_change) list" where
  "tag_heads pending = concat (map (\<lambda>(k, cs). case cs of [] \<Rightarrow> [] | c # _ \<Rightarrow> [(k, c)]) pending)"

definition tag_tails :: "'k pending \<Rightarrow> 'k pending" where
  "tag_tails pending = map (\<lambda>(k, cs). (k, tl cs)) pending"

definition pending_edits :: "'k pending \<Rightarrow> nat" where
  "pending_edits pending = sum_list (map (\<lambda>p. length (snd p)) pending)"

lemma tag_tails_less: "tag_heads pending \<noteq> [] \<Longrightarrow> pending_edits (tag_tails pending) < pending_edits pending"
proof (induction pending)
  case (Cons p ps)
  have "pending_edits (tag_tails ps) \<le> pending_edits ps"
    unfolding pending_edits_def tag_tails_def map_map by (rule sum_list_mono) (simp add: case_prod_beta)
  with Cons show ?case
    by (cases p; cases "snd p") (auto simp: tag_heads_def tag_tails_def pending_edits_def)
qed (simp add: tag_heads_def)

function persist_tags ::
  "db_dialect \<Rightarrow> i64 \<Rightarrow> nat \<Rightarrow> nat \<Rightarrow> ('r \<Rightarrow> 'k \<times> string) \<Rightarrow> ('k \<times> string \<Rightarrow> 'k \<times> string \<Rightarrow> bool)
    \<Rightarrow> ('r \<Rightarrow> i64 option) \<Rightarrow> (i64 option \<Rightarrow> 'r \<Rightarrow> 'r) \<Rightarrow> ('k \<Rightarrow> string \<Rightarrow> string \<Rightarrow> 'r)
    \<Rightarrow> 'k pending \<Rightarrow> 'r table_op"
where
  "persist_tags d n nkeys columns key_of keq en set_en entity pending =
     (let heads = tag_heads pending in
      if heads = [] then ret ()
      else seq (retire_rows d n nkeys key_of keq en set_en (map (\<lambda>(k, c). (k, tgc_key c)) heads)) (\<lambda>_.
           seq (insert_entities d columns
                  (concat (map (\<lambda>(k, c). case tgc_value c of None \<Rightarrow> [] | Some v \<Rightarrow> [entity k (tgc_key c) v]) heads)))
             (\<lambda>_. persist_tags d n nkeys columns key_of keq en set_en entity (tag_tails pending))))"
  by pat_completeness auto
termination
  by (relation "measure (\<lambda>(d, n, kc, co, ko, ke, en, se, e, pending). pending_edits pending)")
    (auto intro: tag_tails_less)

declare persist_tags.simps [simp del]

definition persist_table_tags :: "env \<Rightarrow> i64 \<Rightarrow> (i64, tag_change list) imap \<Rightarrow> ducklake_tag table_op" where
  "persist_table_tags E n changes =
     persist_tags (env_dialect E) n 2 5 (\<lambda>r. (dtg_object_id r, dtg_key r))
       (\<lambda>(i, k) (i', k'). i = i' \<and> env_text_eq E k k') dtg_end_snapshot (\<lambda>e. dtg_end_snapshot_update (\<lambda>_. e))
       (\<lambda>i k v. \<lparr>dtg_object_id = i, dtg_begin_snapshot = n, dtg_end_snapshot = None, dtg_key = k, dtg_value = v\<rparr>)
       changes"

definition persist_column_tags ::
  "env \<Rightarrow> i64 \<Rightarrow> (i64 \<times> i64, tag_change list) imap \<Rightarrow> ducklake_column_tag table_op"
where
  "persist_column_tags E n changes =
     persist_tags (env_dialect E) n 3 6 (\<lambda>r. ((dct_table_id r, dct_column_id r), dct_key r))
       (\<lambda>(i, k) (i', k'). i = i' \<and> env_text_eq E k k') dct_end_snapshot (\<lambda>e. dct_end_snapshot_update (\<lambda>_. e))
       (\<lambda>(t, c) k v. \<lparr>dct_table_id = t, dct_column_id = c, dct_begin_snapshot = n, dct_end_snapshot = None,
                      dct_key = k, dct_value = v\<rparr>)
       changes"

subsection \<open>Files\<close>

text \<open>\<open>CREATE TABLE IF NOT EXISTS\<close>, then inserts into the table of inlined deletes.\<close>

definition persist_inline_deletes :: "i64 \<times> ducklake_inlined_delete list \<Rightarrow> unit store_op" where
  "persist_inline_deletes p =
     update (\<lambda>db. let name = inlined_delete_table_name (fst p) in
       db\<lparr>db_inline_deletes := im_insert name
           ((case im_get (db_inline_deletes db) name of None \<Rightarrow> [] | Some rows \<Rightarrow> rows) @ snd p)
           (db_inline_deletes db)\<rparr>)"

definition persist_files :: "db_dialect \<Rightarrow> file_changes \<Rightarrow> unit store_op" where
  "persist_files d files =
     steps
       [on_table db_data_files db_data_files_update (insert_keyed d 16 ddf_data_file_id (fch_data_files files)),
        on_table db_partition_values db_partition_values_update (insert_entities d 4 (fch_partition_values files)),
        on_table db_file_column_stats db_file_column_stats_update (insert_entities d 10 (fch_column_stats files)),
        on_table db_delete_files db_delete_files_update (insert_keyed d 13 ddel_delete_file_id (fch_delete_files files)),
        for_each persist_inline_deletes (fch_inline_deletes files)]"

subsection \<open>Inline data\<close>

definition other_db_error :: "string \<Rightarrow> ducklake_error" where
  "other_db_error msg = Database \<lparr>de_unique_violation = False, de_table_already_exists = False, de_message = msg\<rparr>"

definition table_exists_error :: ducklake_error where
  "table_exists_error = Database \<lparr>de_unique_violation = False, de_table_already_exists = True,
     de_message = ''table already exists''\<rparr>"

definition create_inline_table :: "db_dialect \<Rightarrow> i64 \<Rightarrow> i64 \<times> schema \<Rightarrow> (i64 \<times> string) store_op" where
  "create_inline_table d schema_version p =
     (let name = inlined_data_table_name (fst p) schema_version in
      seq (lift_res (collect (\<lambda>(n, c). and_then (column_type_for_data_inlining d (col_dtype c)) (\<lambda>t. Ok (n, t))) (snd p)))
        (\<lambda>columns db.
          if im_contains name (db_inline_tables db) then (db, Err table_exists_error)
          else (db\<lparr>db_inline_tables := im_insert name
                  \<lparr>it_columns = map (\<lambda>n. (n, column_type_i64 d)) [''row_id'', ''begin_snapshot'', ''end_snapshot''] @ columns,
                   it_batches = []\<rparr> (db_inline_tables db)\<rparr>, Ok (fst p, name))))"

text \<open>A loop that collects the results of an operation.\<close>

fun collect_op :: "('a \<Rightarrow> ('s, 'e, 'b) op) \<Rightarrow> 'a list \<Rightarrow> ('s, 'e, 'b list) op" where
  "collect_op f [] = ret []"
| "collect_op f (x # xs) = seq (f x) (\<lambda>y. seq (collect_op f xs) (\<lambda>ys. ret (y # ys)))"

definition insert_all_arrow :: "env \<Rightarrow> string \<Rightarrow> record_batch \<Rightarrow> unit store_op" where
  "insert_all_arrow E name batch =
     (if env_num_rows E batch = 0 \<or> env_num_columns E batch = 0 then ret ()
      else if env_dialect E = MySql then lift_res (Panic ''data inlining is not yet implemented for MySQL'')
      else (\<lambda>db. case im_get (db_inline_tables db) name of
              None \<Rightarrow> (db, Err (other_db_error ''no such table''))
            | Some t \<Rightarrow> (db\<lparr>db_inline_tables := im_insert name (t\<lparr>it_batches := it_batches t @ [batch]\<rparr>) (db_inline_tables db)\<rparr>,
                         Ok ())))"

definition latest_registrations :: "ducklake_inlined_data_tables list \<Rightarrow> (i64, ducklake_inlined_data_tables) imap" where
  "latest_registrations tables =
     fold (\<lambda>t latest.
       if (case im_get latest (didt_table_id t) of None \<Rightarrow> True
           | Some previous \<Rightarrow> didt_schema_version t > didt_schema_version previous)
       then im_insert (didt_table_id t) t latest else latest) tables []"

definition persist_inline_data ::
  "env \<Rightarrow> (i64, schema) imap \<Rightarrow> (i64, record_batch list) imap \<Rightarrow> i64 \<Rightarrow> unit store_op"
where
  "persist_inline_data E tables data schema_version =
     (if env_dialect E = MySql
      then (if data \<noteq> [] then lift_res (Panic ''data inlining is not yet implemented for MySQL'') else ret ())
      else
      seq (collect_op (create_inline_table (env_dialect E) schema_version) tables) (\<lambda>names.
      seq (on_table db_inlined_data_tables db_inlined_data_tables_update
            (insert_entities (env_dialect E) 3 (map (\<lambda>(i, n). \<lparr>didt_table_id = i, didt_table_name = n,
               didt_schema_version = schema_version\<rparr>) names))) (\<lambda>_.
      seq (query (\<lambda>db. fetch_rows (env_dialect E) 1 didt_table_id (=)
             (filter (\<lambda>i. \<not> im_contains i names) (im_keys data)) (db_inlined_data_tables db))) (\<lambda>existing.
        let all_names = fold (\<lambda>(i, t). im_insert i (didt_table_name t)) (latest_registrations existing) names in
        for_each (\<lambda>(i, batches).
          seq (lift_res (ok_or (other_db_error ''no rows returned'') (im_get all_names i))) (\<lambda>name.
            for_each (insert_all_arrow E name) batches)) data))))"

subsection \<open>Statistics\<close>

definition table_stats_entity :: "i64 \<Rightarrow> table_stats \<Rightarrow> ducklake_table_stats" where
  "table_stats_entity i s =
     \<lparr>dts_table_id = i, dts_record_count = ts_record_count s, dts_next_row_id = ts_next_row_id s,
      dts_file_size_bytes = ts_file_size_bytes s\<rparr>"

definition column_stats_entity :: "env \<Rightarrow> i64 \<Rightarrow> i64 \<Rightarrow> column_stats \<Rightarrow> ducklake_table_column_stats" where
  "column_stats_entity E i c s =
     \<lparr>dtcs_table_id = i, dtcs_column_id = c, dtcs_contains_null = cst_contains_null s,
      dtcs_contains_nan = cst_contains_nan s, dtcs_min_value = map_option (env_value_text E) (cst_min_value s),
      dtcs_max_value = map_option (env_value_text E) (cst_max_value s), dtcs_extra_stats = None\<rparr>"

text \<open>The rows of a written table and its changed columns, each with whether it is an update.\<close>

definition column_statistics :: "env \<Rightarrow> i64 \<Rightarrow> i64 \<Rightarrow> (ducklake_table_column_stats \<times> bool) commit_op" where
  "column_statistics E i c =
     seq (state_update_stats i (update_column_stats c id)) (\<lambda>_.
     seq (state_table_stats i) (\<lambda>s.
       ret (let cs = (case get_column_stats c s of None \<Rightarrow> column_stats_default | Some x \<Rightarrow> x) in
            (column_stats_entity E i c cs, cst_is_persisted cs))))"

definition table_statistics ::
  "env \<Rightarrow> i64 \<times> i64 list \<Rightarrow> ((ducklake_table_stats \<times> bool) \<times> (ducklake_table_column_stats \<times> bool) list) commit_op"
where
  "table_statistics E p =
     seq (query (\<lambda>st. Ok (filter (column_stats_changed st (fst p)) (snd p)))) (\<lambda>columns.
     seq (state_table_stats (fst p)) (\<lambda>s.
     seq (collect_op (column_statistics E (fst p)) columns) (\<lambda>cs.
       ret ((table_stats_entity (fst p) s, ts_is_persisted s), cs))))"

definition write_statistics ::
  "db_dialect \<Rightarrow> (ducklake_table_stats \<times> bool) list \<Rightarrow> (ducklake_table_column_stats \<times> bool) list \<Rightarrow> unit store_op"
where
  "write_statistics d tables columns =
     (steps
        [on_table db_table_stats db_table_stats_update (insert_entities d 4 (map fst (filter (\<lambda>x. \<not> snd x) tables))),
         on_table db_table_column_stats db_table_column_stats_update
           (insert_entities d 7 (map fst (filter (\<lambda>x. \<not> snd x) columns))),
         on_table db_table_stats db_table_stats_update
           (update_rows d 1 dts_table_id (=) 3
             (\<lambda>v r. r\<lparr>dts_record_count := dts_record_count v, dts_next_row_id := dts_next_row_id v,
                     dts_file_size_bytes := dts_file_size_bytes v\<rparr>)
             (map (\<lambda>(v, _). (dts_table_id v, v)) (filter snd tables))),
         on_table db_table_column_stats db_table_column_stats_update
           (update_rows d 2 (\<lambda>r. (dtcs_table_id r, dtcs_column_id r)) (=) 4
             (\<lambda>v r. r\<lparr>dtcs_contains_null := dtcs_contains_null v, dtcs_contains_nan := dtcs_contains_nan v,
                     dtcs_min_value := dtcs_min_value v, dtcs_max_value := dtcs_max_value v\<rparr>)
             (map (\<lambda>(v, _). ((dtcs_table_id v, dtcs_column_id v), v)) (filter snd columns)))])"

section \<open>All statements of a commit\<close>

definition detach_files :: "db_dialect \<Rightarrow> i64 list \<Rightarrow> unit store_op" where
  "detach_files d tables =
     steps
       [on_table db_file_column_stats db_file_column_stats_update (delete_rows d 1 dfcs_table_id (=) tables),
        on_table db_partition_values db_partition_values_update (delete_rows d 1 dfpv_table_id (=) tables),
        on_table db_data_files db_data_files_update (delete_rows d 1 ddf_table_id (=) tables),
        on_table db_delete_files db_delete_files_update (delete_rows d 1 ddel_table_id (=) tables)]"

definition retire_all :: "db_dialect \<Rightarrow> i64 \<Rightarrow> tx_changes \<Rightarrow> unit store_op" where
  "retire_all d n c =
     steps
       [on_table db_tables db_tables_update (retire_rows d n 1 dt_table_id (=) dt_end_snapshot
          (\<lambda>e. dt_end_snapshot_update (\<lambda>_. e)) (tc_dropped_tables c @ im_keys (tc_renamed_tables c))),
        on_table db_schemas db_schemas_update (retire_rows d n 1 dsc_schema_id (=) dsc_end_snapshot
          (\<lambda>e. dsc_end_snapshot_update (\<lambda>_. e)) (tc_dropped_schemas c)),
        on_table db_views db_views_update (retire_rows d n 1 dv_view_id (=) dv_end_snapshot
          (\<lambda>e. dv_end_snapshot_update (\<lambda>_. e)) (tc_dropped_views c)),
        on_table db_macros db_macros_update (retire_rows d n 1 dma_macro_id (=) dma_end_snapshot
          (\<lambda>e. dma_end_snapshot_update (\<lambda>_. e)) (tc_dropped_macros c)),
        on_table db_columns db_columns_update (retire_rows d n 1 dc_table_id (=) dc_end_snapshot
          (\<lambda>e. dc_end_snapshot_update (\<lambda>_. e)) (tc_dropped_tables c)),
        on_table db_column_tags db_column_tags_update (retire_rows d n 1 dct_table_id (=) dct_end_snapshot
          (\<lambda>e. dct_end_snapshot_update (\<lambda>_. e)) (tc_dropped_tables c)),
        on_table db_data_files db_data_files_update (retire_rows d n 1 ddf_table_id (=) ddf_end_snapshot
          (\<lambda>e. ddf_end_snapshot_update (\<lambda>_. e)) (tc_dropped_tables c)),
        on_table db_delete_files db_delete_files_update (retire_rows d n 1 ddel_table_id (=) ddel_end_snapshot
          (\<lambda>e. ddel_end_snapshot_update (\<lambda>_. e)) (tc_dropped_tables c)),
        on_table db_partition_info db_partition_info_update (retire_rows d n 1 dpi_table_id (=) dpi_end_snapshot
          (\<lambda>e. dpi_end_snapshot_update (\<lambda>_. e)) (tc_dropped_tables c @ tc_retired_partition_tables c)),
        on_table db_sort_info db_sort_info_update (retire_rows d n 1 dsi_table_id (=) dsi_end_snapshot
          (\<lambda>e. dsi_end_snapshot_update (\<lambda>_. e)) (tc_dropped_tables c @ tc_retired_sort_tables c)),
        on_table db_tags db_tags_update (retire_rows d n 1 dtg_object_id (=) dtg_end_snapshot
          (\<lambda>e. dtg_end_snapshot_update (\<lambda>_. e))
          (tc_dropped_tables c @ tc_dropped_schemas c @ tc_dropped_views c)),
        on_table db_columns db_columns_update (retire_rows d n 2 (\<lambda>r. (dc_table_id r, dc_column_id r)) (=) dc_end_snapshot
          (\<lambda>e. dc_end_snapshot_update (\<lambda>_. e)) (tc_retired_columns c))]"

definition insert_all :: "db_dialect \<Rightarrow> i64 \<Rightarrow> tx_changes \<Rightarrow> unit store_op" where
  "insert_all d n c =
     steps
       [on_table db_schemas db_schemas_update (insert_keyed d 7 dsc_schema_id (tc_new_schemas c)),
        on_table db_tables db_tables_update (persist_table_renames d n (tc_renamed_tables c)),
        on_table db_tables db_tables_update (insert_entities d 8 (tc_new_tables c)),
        on_table db_views db_views_update (insert_entities d 9 (tc_new_views c)),
        on_table db_macros db_macros_update (insert_entities d 5 (tc_new_macros c)),
        on_table db_macro_impls db_macro_impls_update (insert_entities d 5 (tc_new_macro_impls c)),
        on_table db_macro_parameters db_macro_parameters_update (insert_entities d 7 (tc_new_macro_parameters c)),
        on_table db_columns db_columns_update (insert_entities d 13 (tc_new_columns c)),
        on_table db_partition_info db_partition_info_update (insert_entities d 4 (tc_new_partition_info c)),
        on_table db_partition_columns db_partition_columns_update (insert_entities d 5 (tc_new_partition_columns c)),
        on_table db_sort_info db_sort_info_update (insert_entities d 4 (tc_new_sort_info c)),
        on_table db_sort_expressions db_sort_expressions_update (insert_entities d 7 (tc_new_sort_expressions c)),
        on_table db_tags db_tags_update (insert_entities d 5 (tc_new_tags c)),
        on_table db_column_tags db_column_tags_update (insert_entities d 6 (tc_new_column_tags c))]"

definition persist_store :: "env \<Rightarrow> i64 \<Rightarrow> i64 \<Rightarrow> tx_changes \<Rightarrow> unit store_op" where
  "persist_store E n schema_version c =
     steps
       [detach_files (env_dialect E) (tc_detached_tables c),
        retire_all (env_dialect E) n c,
        insert_all (env_dialect E) n c,
        on_table db_tags db_tags_update (persist_table_tags E n (tc_table_tags c)),
        on_table db_column_tags db_column_tags_update (persist_column_tags E n (tc_column_tags c)),
        persist_files (env_dialect E) (tc_files c),
        persist_inline_data E (tc_inline_tables c) (tc_inline_data c) schema_version]"

definition persist_statistics :: "env \<Rightarrow> (i64, i64 list) imap \<Rightarrow> (store \<times> commit_state, ducklake_error, unit) op" where
  "persist_statistics E written =
     seq (on_table snd (\<lambda>f p. (fst p, f (snd p))) (collect_op (table_statistics E) written)) (\<lambda>rows.
       on_table fst (\<lambda>f p. (f (fst p), snd p))
         (write_statistics (env_dialect E) (map fst rows) (concat (map snd rows))))"

definition persist :: "env \<Rightarrow> tx_changes \<Rightarrow> (store \<times> commit_state, ducklake_error, unit) op" where
  "persist E c =
     seq (query (\<lambda>(db, st). Ok (st_snapshot_id st, st_schema_version st))) (\<lambda>(n, v).
     seq (on_table fst (\<lambda>f p. (f (fst p), snd p)) (persist_store E n v c)) (\<lambda>_.
       persist_statistics E (tc_written_columns c)))"

end
