(* ===== verification/Executors.thy ===== *)
theory Executors
  imports Persist Literals
begin

text \<open>
  \<open>transaction/executors/\<close> and \<open>Change::apply\<close>, \<open>ChangeSet::apply\<close>: how each change of a
  transaction becomes rows, retirements and statistics. An executor works on the collected
  changes and the commit state; the order of the calls that draw IDs is the order of the source.
\<close>

type_synonym 'a exec_op = "(tx_changes \<times> commit_state, ducklake_error, 'a) op"

section \<open>Access to the two parts of the state\<close>

definition in_state :: "'a commit_op \<Rightarrow> 'a exec_op" where
  "in_state m = on_table snd (\<lambda>f p. (fst p, f (snd p))) m"

definition edit :: "(tx_changes \<Rightarrow> tx_changes) \<Rightarrow> unit exec_op" where
  "edit f = update (\<lambda>p. (f (fst p), snd p))"

definition snapshot_id :: "i64 exec_op" where
  "snapshot_id = query (\<lambda>p. Ok (st_snapshot_id (snd p)))"

text \<open>\<open>HashSet::insert\<close> and \<open>entry(k).or_default().extend(xs)\<close>.\<close>

definition set_insert :: "'a \<Rightarrow> 'a list \<Rightarrow> 'a list" where
  "set_insert x xs = (if x \<in> set xs then xs else xs @ [x])"

definition entry_extend :: "'k \<Rightarrow> 'a list \<Rightarrow> ('k, 'a list) imap \<Rightarrow> ('k, 'a list) imap" where
  "entry_extend k xs m = im_insert k ((case im_get m k of None \<Rightarrow> [] | Some ys \<Rightarrow> ys) @ xs) m"

definition entry_extend_set :: "'k \<Rightarrow> 'a list \<Rightarrow> ('k, 'a list) imap \<Rightarrow> ('k, 'a list) imap" where
  "entry_extend_set k xs m = im_insert k (fold set_insert xs (case im_get m k of None \<Rightarrow> [] | Some ys \<Rightarrow> ys)) m"

section \<open>Schemas, views and macros\<close>

definition create_schema_rows :: "env \<Rightarrow> schema_ref \<Rightarrow> string \<Rightarrow> ducklake_path \<Rightarrow> unit exec_op" where
  "create_schema_rows E r name path =
     seq (in_state (state_schema_id r)) (\<lambda>i.
     seq snapshot_id (\<lambda>n.
       edit (tc_new_schemas_update (\<lambda>rows. rows @
         [\<lparr>dsc_schema_id = i, dsc_schema_uuid = Some (env_uuid E i), dsc_begin_snapshot = n, dsc_end_snapshot = None,
           dsc_schema_name = name, dsc_path = path_as_str path, dsc_path_is_relative = path_is_relative path\<rparr>]))))"

definition delete_schema_rows :: "schema_ref \<Rightarrow> unit exec_op" where
  "delete_schema_rows r =
     seq (in_state (state_schema_id r)) (\<lambda>i. edit (tc_dropped_schemas_update (set_insert i)))"

text \<open>The tags of a new object.\<close>

definition tag_rows :: "i64 \<Rightarrow> i64 \<Rightarrow> tags \<Rightarrow> ducklake_tag list" where
  "tag_rows i n tags =
     map (\<lambda>(k, v). \<lparr>dtg_object_id = i, dtg_begin_snapshot = n, dtg_end_snapshot = None, dtg_key = k, dtg_value = v\<rparr>) tags"

definition create_view_rows :: "env \<Rightarrow> create_view \<Rightarrow> unit exec_op" where
  "create_view_rows E v =
     seq (in_state (state_view_id (crv_view_ref v))) (\<lambda>i.
     seq snapshot_id (\<lambda>n.
     seq (in_state (state_schema_id (crv_schema_ref v))) (\<lambda>s.
     seq (edit (tc_new_views_update (\<lambda>rows. rows @
         [\<lparr>dv_view_id = i, dv_view_uuid = Some (env_uuid E i), dv_begin_snapshot = n, dv_end_snapshot = None,
           dv_schema_id = s, dv_view_name = qn_name (crv_name v), dv_dialect = crv_dialect v, dv_sql = crv_sql v,
           dv_column_aliases = Some (format_identifier_list
             (case crv_column_aliases v of None \<Rightarrow> [] | Some as \<Rightarrow> as))\<rparr>]))) (\<lambda>_.
       edit (tc_new_tags_update (\<lambda>rows. rows @ tag_rows i n (crv_tags v)))))))"

definition delete_view_rows :: "view_ref \<Rightarrow> unit exec_op" where
  "delete_view_rows r =
     seq (in_state (state_view_id r)) (\<lambda>i. edit (tc_dropped_views_update (set_insert i)))"

definition macro_impl_rows ::
  "i64 \<Rightarrow> macro_type \<Rightarrow> nat \<times> macro_implementation \<Rightarrow> ducklake_macro_impl \<times> ducklake_macro_parameters list"
where
  "macro_impl_rows i t p =
     (let (k, m) = p in
      (\<lparr>dmi_macro_id = i, dmi_impl_id = usize_as_i64 k, dmi_dialect = mi_dialect m, dmi_sql = mi_sql m,
        dmi_type = macro_type_to_string t\<rparr>,
       map (\<lambda>(c, q). \<lparr>dmp_macro_id = i, dmp_impl_id = usize_as_i64 k, dmp_column_id = usize_as_i64 c,
              dmp_parameter_name = mp_name q, dmp_parameter_type = mp_data_type q,
              dmp_default_value = Some (literal_format (\<lambda>s. s) (mp_default_value q)),
              dmp_default_value_type = mp_default_value_type q\<rparr>)
         (enumerate 0 (mi_parameters m))))"

definition create_macro_rows :: "create_macro \<Rightarrow> unit exec_op" where
  "create_macro_rows m =
     seq (in_state (state_macro_id (crm_macro_ref m))) (\<lambda>i.
     seq (in_state (state_schema_id (crm_schema_ref m))) (\<lambda>s.
     seq snapshot_id (\<lambda>n.
     seq (edit (tc_new_macros_update (\<lambda>rows. rows @
         [\<lparr>dma_schema_id = s, dma_macro_id = i, dma_macro_name = qn_name (crm_name m), dma_begin_snapshot = n,
           dma_end_snapshot = None\<rparr>]))) (\<lambda>_.
       for_each (\<lambda>p.
         let (row, parameters) = macro_impl_rows i (crm_macro_type m) p in
         seq (edit (tc_new_macro_impls_update (\<lambda>rows. rows @ [row]))) (\<lambda>_.
           edit (tc_new_macro_parameters_update (\<lambda>rows. rows @ parameters))))
       (enumerate 0 (crm_implementations m))))))"

definition delete_macro_rows :: "macro_ref \<Rightarrow> unit exec_op" where
  "delete_macro_rows r =
     seq (in_state (state_macro_id r)) (\<lambda>i. edit (tc_dropped_macros_update (set_insert i)))"

section \<open>Columns\<close>

definition to_default_value_columns ::
  "env \<Rightarrow> data_type \<Rightarrow> column_default \<Rightarrow> string option \<times> string option \<times> string option"
where
  "to_default_value_columns E t d =
     (case d of
        Literal v \<Rightarrow>
          (Some (case v of None \<Rightarrow> NULL_STRING | Some x \<Rightarrow> env_value_text E x),
           Some (if is_nested t then [] else ''literal''), Some ''duckdb'')
      | Expression dialect expression \<Rightarrow> (Some expression, Some ''expression'', Some dialect))"

definition column_row :: "env \<Rightarrow> i64 \<Rightarrow> i64 \<Rightarrow> i64 option \<Rightarrow> i64 \<Rightarrow> column \<Rightarrow> ducklake_column" where
  "column_row E table n parent i c =
     (let d = to_default_value_columns E (col_dtype c) (col_default c) in
      \<lparr>dc_column_id = i, dc_begin_snapshot = n, dc_end_snapshot = None, dc_table_id = table,
       dc_column_order = Some i, dc_column_name = col_name c, dc_column_type = dtype_to_string (col_dtype c),
       dc_initial_default = map_option (env_value_text E) (col_initial_default c), dc_default_value = fst d,
       dc_nulls_allowed = col_nullable c, dc_parent_column = parent, dc_default_value_type = fst (snd d),
       dc_default_value_dialect = snd (snd d)\<rparr>)"

definition column_tag_rows :: "i64 \<Rightarrow> i64 \<Rightarrow> i64 \<Rightarrow> tags \<Rightarrow> ducklake_column_tag list" where
  "column_tag_rows table n i tags =
     map (\<lambda>(k, x). \<lparr>dct_table_id = table, dct_column_id = i, dct_begin_snapshot = n, dct_end_snapshot = None,
            dct_key = k, dct_value = x\<rparr>) tags"

definition flat_column_row ::
  "env \<Rightarrow> i64 \<Rightarrow> i64 \<Rightarrow> i64 option \<Rightarrow> i64 list \<Rightarrow> nat \<times> flattened_column
    \<Rightarrow> (ducklake_column \<times> ducklake_column_tag list) result"
where
  "flat_column_row E table n parent ids p =
     (let (i, fc) = p in
      and_then (idx_get ids i) (\<lambda>column.
      and_then (case fc_parent_index fc of
                  None \<Rightarrow> Ok parent
                | Some k \<Rightarrow> and_then (idx_get ids k) (\<lambda>x. Ok (Some x))) (\<lambda>parent_id.
        Ok (column_row E table n parent_id column (fc_column fc),
            column_tag_rows table n column (col_tags (fc_column fc))))))"

text \<open>The rows of the column and the columns below it, and the rows of their tags.\<close>

definition add_column_to_buffers ::
  "env \<Rightarrow> i64 \<Rightarrow> column_ref option \<Rightarrow> column_ref list \<Rightarrow> column
    \<Rightarrow> (ducklake_column list \<times> ducklake_column_tag list) commit_op"
where
  "add_column_to_buffers E table parent refs c =
     seq (case parent of
            None \<Rightarrow> ret None
          | Some r \<Rightarrow> seq (state_column_id r) (\<lambda>i. ret (Some i))) (\<lambda>parent_id.
     seq (collect_op state_column_id refs) (\<lambda>ids.
     seq (query (\<lambda>st. collect (flat_column_row E table (st_snapshot_id st) parent_id ids) (enumerate 0 (flatten c)))) (\<lambda>rows.
       ret (map fst rows, concat (map snd rows)))))"

definition table_of_column :: "column_ref \<Rightarrow> (i64 \<times> i64) commit_op" where
  "table_of_column r =
     seq (state_table_id (cr_table_ref r)) (\<lambda>t. seq (state_column_id r) (\<lambda>c. ret (t, c)))"

definition add_table_column :: "env \<Rightarrow> column_ref option \<Rightarrow> column_ref list \<Rightarrow> column \<Rightarrow> unit exec_op" where
  "add_table_column E parent refs c =
     seq (lift_res (idx_get refs 0)) (\<lambda>r.
     seq (in_state (state_table_id (cr_table_ref r))) (\<lambda>t.
     seq (in_state (add_column_to_buffers E t parent refs c)) (\<lambda>(columns, tags).
     seq (edit (tc_new_columns_update (\<lambda>rows. rows @ columns))) (\<lambda>_.
     seq (edit (tc_new_column_tags_update (\<lambda>rows. rows @ tags))) (\<lambda>_.
       if col_tags c \<noteq> [] then lift_res (Panic ''not yet implemented'') else ret ())))))"

definition update_table_column :: "env \<Rightarrow> column_ref option \<Rightarrow> column_ref \<Rightarrow> column \<Rightarrow> unit exec_op" where
  "update_table_column E parent r c =
     seq (in_state (table_of_column r)) (\<lambda>(t, i).
     seq (edit (tc_retired_columns_update (set_insert (t, i)))) (\<lambda>_.
     seq (edit (tc_new_columns_update (filter (\<lambda>row. dc_table_id row \<noteq> t \<or> dc_column_id row \<noteq> i)))) (\<lambda>_.
     seq (in_state (add_column_to_buffers E t parent [r] c)) (\<lambda>(columns, tags).
       edit (tc_new_columns_update (\<lambda>rows. rows @ columns))))))"

definition remove_table_column :: "column_ref \<Rightarrow> unit exec_op" where
  "remove_table_column r =
     seq (in_state (table_of_column r)) (\<lambda>(t, i).
     seq (edit (tc_retired_columns_update (set_insert (t, i)))) (\<lambda>_.
     seq snapshot_id (\<lambda>n.
       edit (tc_new_columns_update (map (\<lambda>row.
         if dc_table_id row = t \<and> dc_column_id row = i then row\<lparr>dc_end_snapshot := Some n\<rparr> else row))))))"

definition change_column_tag :: "column_ref \<Rightarrow> string \<Rightarrow> string option \<Rightarrow> unit exec_op" where
  "change_column_tag r key value =
     seq (in_state (table_of_column r)) (\<lambda>k.
       edit (tc_column_tags_update (entry_extend k [\<lparr>tgc_key = key, tgc_value = value\<rparr>])))"

definition add_table_column_tag :: "column_ref \<Rightarrow> tag \<Rightarrow> unit exec_op" where
  "add_table_column_tag r tg = change_column_tag r (tag_key tg) (Some (tag_value tg))"

definition remove_table_column_tag :: "column_ref \<Rightarrow> string \<Rightarrow> unit exec_op" where
  "remove_table_column_tag r key = change_column_tag r key None"

section \<open>Tables\<close>

definition create_partitioning ::
  "table_ref \<Rightarrow> i64 \<Rightarrow> column_ref list \<Rightarrow> partition_column list \<Rightarrow> unit exec_op"
where
  "create_partitioning r table refs columns =
     seq (in_state (state_partition_id r)) (\<lambda>i.
     seq snapshot_id (\<lambda>n.
     seq (in_state (collect_op (\<lambda>((k, p), cref). seq (state_column_id cref) (\<lambda>column.
            ret \<lparr>dpc_partition_id = i, dpc_table_id = table, dpc_partition_key_index = usize_as_i64 k,
                 dpc_column_id = column, dpc_transform = partition_transform_to_string (pc_transform p)\<rparr>))
          (zip (enumerate 0 columns) refs))) (\<lambda>rows.
     seq (edit (tc_new_partition_info_update (\<lambda>infos. infos @
            [\<lparr>dpi_partition_id = i, dpi_table_id = table, dpi_begin_snapshot = n, dpi_end_snapshot = None\<rparr>]))) (\<lambda>_.
       edit (tc_new_partition_columns_update (\<lambda>cs. cs @ rows))))))"

definition create_partitioning_opt ::
  "table_ref \<Rightarrow> i64 \<Rightarrow> column_ref list option \<Rightarrow> partition_column list option \<Rightarrow> unit exec_op"
where
  "create_partitioning_opt r table refs columns =
     (case (refs, columns) of
        (Some rs, Some cs) \<Rightarrow> create_partitioning r table rs cs
      | _ \<Rightarrow> ret ())"

definition create_sort_info :: "i64 \<Rightarrow> sort_expression list \<Rightarrow> unit exec_op" where
  "create_sort_info table es =
     seq (in_state sort_info_id) (\<lambda>i.
     seq snapshot_id (\<lambda>n.
     seq (edit (tc_new_sort_info_update (\<lambda>rows. rows @
            [\<lparr>dsi_sort_id = i, dsi_table_id = table, dsi_begin_snapshot = n, dsi_end_snapshot = None\<rparr>]))) (\<lambda>_.
       edit (tc_new_sort_expressions_update (\<lambda>rows. rows @ map (\<lambda>(k, e).
         \<lparr>dse_sort_id = i, dse_table_id = table, dse_sort_key_index = usize_as_i64 k,
          dse_expression = Some (se_expression e), dse_dialect = Some (se_dialect e),
          dse_sort_direction = Some (sort_direction_to_string (se_direction e)),
          dse_null_order = Some (null_order_to_string (se_null_order e))\<rparr>) (enumerate 0 es))))))"

definition retired_column_row :: "i64 \<Rightarrow> i64 \<Rightarrow> ducklake_column \<Rightarrow> ducklake_column" where
  "retired_column_row table n c =
     c\<lparr>dc_table_id := table, dc_begin_snapshot := n, dc_end_snapshot := Some n\<rparr>"

definition create_table_rows :: "env \<Rightarrow> create_table \<Rightarrow> unit exec_op" where
  "create_table_rows E t =
     seq (in_state (state_table_id (crt_table_ref t))) (\<lambda>i.
     seq (in_state (state_schema_id (crt_schema_ref t))) (\<lambda>s.
     seq snapshot_id (\<lambda>n.
     seq (edit (tc_new_tables_update (\<lambda>rows. rows @
            [\<lparr>dt_table_id = i, dt_table_uuid = Some (env_uuid E i), dt_begin_snapshot = n, dt_end_snapshot = None,
              dt_schema_id = s, dt_table_name = qn_name (crt_name t), dt_path = path_as_str (crt_path t),
              dt_path_is_relative = True\<rparr>]))) (\<lambda>_.
     seq (in_state (collect_op (\<lambda>(c, refs). add_column_to_buffers E i None refs c)
            (zip (crt_columns t) (crt_column_refs t)))) (\<lambda>buffers.
     seq (edit (tc_new_columns_update (\<lambda>rows. rows @ concat (map fst buffers)
            @ map (retired_column_row i n) (crt_retired_columns t)))) (\<lambda>_.
     seq (edit (tc_new_column_tags_update (\<lambda>rows. rows @ concat (map snd buffers)))) (\<lambda>_.
     seq (create_partitioning_opt (crt_table_ref t) i (crt_partition_column_refs t) (crt_partition_columns t)) (\<lambda>_.
     seq (case crt_sort_info t of None \<Rightarrow> ret () | Some es \<Rightarrow> create_sort_info i es) (\<lambda>_.
       edit (tc_new_tags_update (\<lambda>rows. rows @ tag_rows i n (crt_tags t))))))))))))"

text \<open>The first row of a new table with the ID, if there is one, gets the name.\<close>

fun rename_new_table :: "i64 \<Rightarrow> string \<Rightarrow> ducklake_table list \<Rightarrow> ducklake_table list option" where
  "rename_new_table i name [] = None"
| "rename_new_table i name (t # ts) =
     (if dt_table_id t = i then Some (t\<lparr>dt_table_name := name\<rparr> # ts)
      else map_option (\<lambda>rest. t # rest) (rename_new_table i name ts))"

definition rename_table_rows :: "table_ref \<Rightarrow> qualified_name \<Rightarrow> unit exec_op" where
  "rename_table_rows r name =
     seq (in_state (state_table_id r)) (\<lambda>i.
       edit (\<lambda>c. case rename_new_table i (qn_name name) (tc_new_tables c) of
                   Some ts \<Rightarrow> c\<lparr>tc_new_tables := ts\<rparr>
                 | None \<Rightarrow> c\<lparr>tc_renamed_tables := im_insert i (qn_name name) (tc_renamed_tables c)\<rparr>))"

definition update_table_partitioning ::
  "table_ref \<Rightarrow> column_ref list option \<Rightarrow> partition_column list option \<Rightarrow> unit exec_op"
where
  "update_table_partitioning r refs columns =
     seq (in_state (state_table_id r)) (\<lambda>i.
     seq (edit (tc_retired_partition_tables_update (set_insert i))) (\<lambda>_.
     seq snapshot_id (\<lambda>n.
     seq (edit (tc_new_partition_info_update (map (\<lambda>p.
            if dpi_table_id p = i then p\<lparr>dpi_end_snapshot := Some n\<rparr> else p)))) (\<lambda>_.
       create_partitioning_opt r i refs columns))))"

definition update_table_sort_info :: "table_ref \<Rightarrow> sort_expression list option \<Rightarrow> unit exec_op" where
  "update_table_sort_info r es =
     seq (in_state (state_table_id r)) (\<lambda>i.
     seq (edit (tc_retired_sort_tables_update (set_insert i))) (\<lambda>_.
     seq snapshot_id (\<lambda>n.
     seq (edit (tc_new_sort_info_update (map (\<lambda>s.
            if dsi_table_id s = i then s\<lparr>dsi_end_snapshot := Some n\<rparr> else s)))) (\<lambda>_.
       case es of None \<Rightarrow> ret () | Some es' \<Rightarrow> create_sort_info i es'))))"

definition delete_table_rows :: "table_ref \<Rightarrow> bool \<Rightarrow> unit exec_op" where
  "delete_table_rows r detach =
     seq (in_state (state_table_id r)) (\<lambda>i.
     seq (edit (tc_dropped_tables_update (set_insert i))) (\<lambda>_.
       if detach then edit (tc_detached_tables_update (set_insert i)) else ret ()))"

definition change_table_tag :: "table_ref \<Rightarrow> string \<Rightarrow> string option \<Rightarrow> unit exec_op" where
  "change_table_tag r key value =
     seq (in_state (state_table_id r)) (\<lambda>i.
       edit (tc_table_tags_update (entry_extend i [\<lparr>tgc_key = key, tgc_value = value\<rparr>])))"

definition add_table_tag :: "table_ref \<Rightarrow> tag \<Rightarrow> unit exec_op" where
  "add_table_tag r tg = change_table_tag r (tag_key tg) (Some (tag_value tg))"

definition remove_table_tag :: "table_ref \<Rightarrow> string \<Rightarrow> unit exec_op" where
  "remove_table_tag r key = change_table_tag r key None"

section \<open>Data files\<close>

definition update_column_bounds ::
  "env \<Rightarrow> usize option \<Rightarrow> bool option \<Rightarrow> value option \<Rightarrow> value option \<Rightarrow> column_stats \<Rightarrow> column_stats"
where
  "update_column_bounds E nulls nan lo hi c =
     update_max_value (env_cmp E) hi (update_min_value (env_cmp E) lo
       (update_contains_nan nan (update_contains_null (map_option (\<lambda>k. k > 0) nulls) c)))"

definition update_table_stats_from_file :: "env \<Rightarrow> i64 \<Rightarrow> commit_data_file \<Rightarrow> unit commit_op" where
  "update_table_stats_from_file E i f =
     (let k = usize_as_i64 (cdf_num_rows f) in
      seq (state_update_stats i (\<lambda>s. add_file_size_bytes (map_option usize_as_i64 (cdf_file_size_bytes f))
             (add_record_count k (advance_row_id k s)))) (\<lambda>_.
        for_each (\<lambda>(r, c). seq (state_column_id r) (\<lambda>column.
            state_update_stats i (update_column_stats column
              (update_column_bounds E (fcs_null_count c) (fcs_contains_nan c) (fcs_min_value c) (fcs_max_value c)))))
          (cdf_column_stats f)))"

definition edit_files :: "(file_changes \<Rightarrow> file_changes) \<Rightarrow> unit exec_op" where
  "edit_files f = edit (tc_files_update f)"

definition write_delete_file :: "i64 \<Rightarrow> i64 \<Rightarrow> commit_delete_file \<Rightarrow> unit exec_op" where
  "write_delete_file i fid d =
     seq (in_state file_id) (\<lambda>k.
     seq snapshot_id (\<lambda>n.
       edit_files (fch_delete_files_update (\<lambda>rows. rows @
         [\<lparr>ddel_delete_file_id = k, ddel_table_id = i, ddel_begin_snapshot = n, ddel_end_snapshot = None,
           ddel_data_file_id = fid, ddel_path = path_as_str (cdel_path d),
           ddel_path_is_relative = path_is_relative (cdel_path d), ddel_format = ''parquet'',
           ddel_delete_count = Some (usize_as_i64 (cdel_num_deletes d)),
           ddel_file_size_bytes = map_option usize_as_i64 (cdel_file_size_bytes d),
           ddel_footer_size = map_option usize_as_i64 (cdel_footer_size_bytes d),
           ddel_encryption_key = cdel_encryption_key d, ddel_partial_max = None\<rparr>]))))"

definition file_column_stats_row ::
  "env \<Rightarrow> i64 \<Rightarrow> i64 \<Rightarrow> i64 \<Rightarrow> file_column_stats \<Rightarrow> ducklake_file_column_stats"
where
  "file_column_stats_row E file i column c =
     \<lparr>dfcs_data_file_id = file, dfcs_table_id = i, dfcs_column_id = column,
      dfcs_column_size_bytes = map_option usize_as_i64 (fcs_size_bytes c), dfcs_value_count = None,
      dfcs_null_count = map_option usize_as_i64 (fcs_null_count c),
      dfcs_min_value = map_option (env_value_text E) (fcs_min_value c),
      dfcs_max_value = map_option (env_value_text E) (fcs_max_value c),
      dfcs_contains_nan = fcs_contains_nan c, dfcs_extra_stats = None\<rparr>"

definition data_file_row :: "i64 \<Rightarrow> i64 \<Rightarrow> i64 \<Rightarrow> i64 \<Rightarrow> i64 option \<Rightarrow> commit_data_file \<Rightarrow> ducklake_data_file" where
  "data_file_row i fid n start part_id f =
     \<lparr>ddf_data_file_id = fid, ddf_table_id = i, ddf_begin_snapshot = n, ddf_end_snapshot = None,
      ddf_file_order = Some fid, ddf_path = path_as_str (cdf_path f),
      ddf_path_is_relative = path_is_relative (cdf_path f), ddf_file_format = ''parquet'',
      ddf_record_count = usize_as_i64 (cdf_num_rows f),
      ddf_file_size_bytes = map_option usize_as_i64 (cdf_file_size_bytes f),
      ddf_footer_size = map_option usize_as_i64 (cdf_footer_size_bytes f),
      ddf_row_id_start = Some start, ddf_partition_id = part_id,
      ddf_encryption_key = cdf_encryption_key f, ddf_mapping_id = None, ddf_partial_max = None\<rparr>"

text \<open>
  One round of the loop of \<open>write_table_data\<close>: the row of the file, then the rows that refer to
  it; the result is the IDs of the columns with statistics.
\<close>

definition write_file_details :: "env \<Rightarrow> i64 \<Rightarrow> i64 \<Rightarrow> i64 \<Rightarrow> commit_data_file \<Rightarrow> i64 list exec_op" where
  "write_file_details E i fid n f =
     seq (for_each (write_delete_file i fid) (cdf_delete_files f)) (\<lambda>_.
     seq (if cdf_inline_deletes f = [] then ret ()
          else edit_files (fch_inline_deletes_update (entry_extend i
                 (map (\<lambda>row. \<lparr>did_file_id = fid, did_row_id = row, did_begin_snapshot = n\<rparr>) (cdf_inline_deletes f))))) (\<lambda>_.
     seq (case cdf_partition_values f of
            None \<Rightarrow> ret ()
          | Some vs \<Rightarrow> edit_files (fch_partition_values_update (\<lambda>rows. rows @
              map (\<lambda>(k, v). \<lparr>dfpv_data_file_id = fid, dfpv_table_id = i, dfpv_partition_key_index = usize_as_i64 k,
                             dfpv_partition_value = v\<rparr>) (enumerate 0 vs)))) (\<lambda>_.
       collect_op (\<lambda>(cref, c). seq (in_state (state_column_id cref)) (\<lambda>column.
         seq (edit_files (fch_column_stats_update (\<lambda>rows. rows @ [file_column_stats_row E fid i column c])))
           (\<lambda>_. ret column))) (cdf_column_stats f))))"

definition write_data_file :: "env \<Rightarrow> table_ref \<Rightarrow> i64 \<Rightarrow> commit_data_file \<Rightarrow> i64 list exec_op" where
  "write_data_file E r i f =
     seq (in_state file_id) (\<lambda>fid.
     seq (in_state (state_table_stats i)) (\<lambda>stats.
     seq (in_state (update_table_stats_from_file E i f)) (\<lambda>_.
     seq snapshot_id (\<lambda>n.
     seq (case cdf_partition_values f of
            None \<Rightarrow> ret None
          | Some _ \<Rightarrow> seq (in_state (state_partition_id r)) (\<lambda>k. ret (Some k))) (\<lambda>part_id.
     seq (edit_files (fch_data_files_update (\<lambda>rows. rows @
            [data_file_row i fid n (ts_next_row_id stats) part_id f]))) (\<lambda>_.
       write_file_details E i fid n f))))))"

definition write_table_data :: "env \<Rightarrow> table_ref \<Rightarrow> commit_data_file list \<Rightarrow> unit exec_op" where
  "write_table_data E r fs =
     seq (in_state (state_table_id r)) (\<lambda>i.
     seq (collect_op (write_data_file E r i) fs) (\<lambda>ids.
       edit (tc_written_columns_update (entry_extend_set i (concat ids)))))"

section \<open>Inlined data\<close>

definition create_inlined_data_table :: "env \<Rightarrow> table_ref \<Rightarrow> unit exec_op" where
  "create_inlined_data_table E r =
     seq (in_state (state_table_id r)) (\<lambda>i.
     seq (in_state (state_table_schema r)) (\<lambda>sch.
       if dialect_supports_data_inlining (env_dialect E) sch
       then edit (tc_inline_tables_update (im_insert i sch)) else ret ()))"

definition update_table_stats_from_inline_data :: "env \<Rightarrow> i64 \<Rightarrow> commit_inline_data \<Rightarrow> unit commit_op" where
  "update_table_stats_from_inline_data E i d =
     (let k = usize_as_i64 (env_num_rows E (cid_record_batch d)) in
      seq (state_update_stats i (\<lambda>s. add_record_count k (advance_row_id k s))) (\<lambda>_.
        for_each (\<lambda>(r, c). seq (state_column_id r) (\<lambda>column.
            state_update_stats i (update_column_stats column
              (update_column_bounds E (acs_null_count c) (acs_contains_nan c) (acs_min_value c) (acs_max_value c)))))
          (cid_column_stats d)))"

definition write_inline_batch :: "env \<Rightarrow> i64 \<Rightarrow> commit_inline_data \<Rightarrow> i64 list exec_op" where
  "write_inline_batch E i d =
     seq (in_state (state_table_stats i)) (\<lambda>stats.
       let start = ts_next_row_id stats;
           rows = [start .. i64_add start (usize_as_i64 (env_num_rows E (cid_record_batch d))) - 1] in
       seq (in_state (update_table_stats_from_inline_data E i d)) (\<lambda>_.
       seq snapshot_id (\<lambda>n.
       seq (lift_res (map_err Arrow (env_with_system_columns E (cid_record_batch d) rows n))) (\<lambda>batch.
       seq (edit (tc_inline_data_update (entry_extend i [batch]))) (\<lambda>_.
         in_state (collect_op state_column_id (im_keys (cid_column_stats d))))))))"

definition write_table_inline_data :: "env \<Rightarrow> table_ref \<Rightarrow> commit_inline_data list \<Rightarrow> unit exec_op" where
  "write_table_inline_data E r ds =
     seq (in_state (state_table_id r)) (\<lambda>i.
     seq (collect_op (write_inline_batch E i) ds) (\<lambda>ids.
       edit (tc_written_columns_update (entry_extend_set i (concat ids)))))"

section \<open>Applying changes\<close>

fun apply_change :: "env \<Rightarrow> change \<Rightarrow> unit exec_op" where
  "apply_change E (CreateSchema s name path) = create_schema_rows E s name path"
| "apply_change E (DeleteSchema s) = delete_schema_rows s"
| "apply_change E (CreateTable t) = create_table_rows E t"
| "apply_change E (WriteTableDataFiles t fs) = write_table_data E t fs"
| "apply_change E (WriteTableInlineData t ds) = write_table_inline_data E t ds"
| "apply_change E (RenameTable t name) = rename_table_rows t name"
| "apply_change E (UpdateTablePartitioning t refs cs) = update_table_partitioning t refs cs"
| "apply_change E (UpdateTableSortInfo t es) = update_table_sort_info t es"
| "apply_change E (DeleteTable t detach) = delete_table_rows t detach"
| "apply_change E (AddTableTag t tg) = add_table_tag t tg"
| "apply_change E (RemoveTableTag t key) = remove_table_tag t key"
| "apply_change E (CreateView v) = create_view_rows E v"
| "apply_change E (DeleteView v) = delete_view_rows v"
| "apply_change E (CreateMacro m) = create_macro_rows m"
| "apply_change E (DeleteMacro m ty) = delete_macro_rows m"
| "apply_change E (AddTableColumn p cs c) = add_table_column E p cs c"
| "apply_change E (UpdateTableColumn p r c) = update_table_column E p r c"
| "apply_change E (RemoveTableColumn r) = remove_table_column r"
| "apply_change E (AddTableColumnTag r tg) = add_table_column_tag r tg"
| "apply_change E (RemoveTableColumnTag r key) = remove_table_column_tag r key"

definition cannot_inline :: ducklake_error where
  "cannot_inline = InvalidChanges ''cannot inline data for this table; write Parquet files instead''"

definition check_inline :: "env \<Rightarrow> change \<Rightarrow> unit exec_op" where
  "check_inline E c =
     (case c of
        WriteTableInlineData t ds \<Rightarrow>
          seq (in_state (state_table_schema t)) (\<lambda>sch.
            if dialect_supports_data_inlining (env_dialect E) sch then ret () else raise cannot_inline)
      | _ \<Rightarrow> ret ())"

definition apply_change_set :: "env \<Rightarrow> change list \<Rightarrow> unit exec_op" where
  "apply_change_set E cs =
     seq (for_each (check_inline E) cs) (\<lambda>_.
     seq (for_each (apply_change E) cs) (\<lambda>_.
     seq (for_each (create_inlined_data_table E) (table_refs_with_schema_changes cs)) (\<lambda>_.
       if contains_inline_data_writes_and_no_file_writes cs
       then seq (in_state file_id) (\<lambda>_. ret ()) else ret ())))"

end
