(* ===== verification/Persist_History.thy ===== *)
theory Persist_History
  imports Persist
begin

text \<open>
  What writing the changes of a commit does to the snapshots: every statement leaves the rows
  of the earlier snapshots as they are (time travel), apart from the files of tables that are
  handed over to another catalog, and the tables of the new snapshot are those of the previous
  one with the drops, renames and creations of the changes.
\<close>

section \<open>Single statements\<close>

lemma max_bind_params_large: "32766 \<le> max_bind_params d"
  by (cases d) (simp_all add: max_bind_params_def)

lemma insert_entities_app:
  assumes "0 < n" and "n \<le> 32766"
  shows "insert_entities d n rows t = (t @ rows, Ok ())"
  unfolding insert_entities_def using assms max_bind_params_large [of d] by (intro insert_rows_whole) auto

lemma insert_keyed_cases:
  assumes "0 < n" and "n \<le> 32766"
  shows "insert_keyed d n key rows t = (t @ rows, Ok ()) \<and> distinct (map key rows) \<or>
    insert_keyed d n key rows t = (t, Err unique_violation)"
  using insert_entities_app [OF assms, of d rows t] by (simp add: insert_keyed_def)

lemma delete_rows_app:
  "0 < n \<Longrightarrow> n \<le> 32766 \<Longrightarrow>
    delete_rows d n key_of keq rows t = (filter (\<lambda>r. \<not> matches key_of keq rows r) t, Ok ())"
  using max_bind_params_large [of d] by (intro delete_rows_whole) auto

context versioned
begin

lemma retire_rows_app:
  assumes "0 < m" and "m \<le> 32765" and "\<And>e r. key_of (set_en e r) = key_of r"
  shows "retire_rows d n m key_of keq en set_en keys t =
    (map (\<lambda>r. if en r = None \<and> matches key_of keq keys r then set_en (Some n) r else r) t, Ok ())"
  unfolding retire_rows_def
  using assms max_bind_params_large [of d]
  by (intro update_matching_rows_whole) (auto simp: en_set)

lemma retire_rows_view:
  assumes "0 < m" and "m \<le> 32765" and "\<And>e r. key_of (set_en e r) = key_of r" and "s < n"
  shows "rows_at s (fst (retire_rows d n m key_of keq en set_en keys t)) = rows_at s t"
  using retire_rows_app [OF assms(1,2,3)] retire_view [OF assms(4)] by simp

lemma insert_entities_view:
  assumes "0 < m" and "m \<le> 32766" and "\<And>r. r \<in> set rows \<Longrightarrow> s < beg r"
  shows "rows_at s (fst (insert_entities d m rows t)) = rows_at s t"
  using insert_entities_app [OF assms(1,2), of d rows t] append_view [of rows s t] assms(3) by simp

lemma insert_keyed_view:
  assumes "0 < m" and "m \<le> 32766" and "\<And>r. r \<in> set rows \<Longrightarrow> s < beg r"
  shows "rows_at s (fst (insert_keyed d m key rows t)) = rows_at s t"
  using insert_keyed_cases [OF assms(1,2), of d key rows t] append_view [of rows s t] assms(3) by auto

lemma persist_tags_view:
  assumes m: "0 < m" "m \<le> 32765" and c: "0 < c" "c \<le> 32766" and key: "\<And>e r. key_of (set_en e r) = key_of r"
    and new: "\<And>k x v. s < beg (entity k x v)" and n: "s < n"
  shows "rows_at s (fst (persist_tags d n m c key_of keq en set_en entity pending t)) = rows_at s t"
proof (induction "pending_edits pending" arbitrary: pending t rule: less_induct)
  case less
  show ?case
  proof (cases "tag_heads pending = []")
    case False
    let ?r = "retire_rows d n m key_of keq en set_en (map (\<lambda>(k, c). (k, tgc_key c)) (tag_heads pending))"
    let ?new = "concat (map (\<lambda>(k, c). case tgc_value c of None \<Rightarrow> [] | Some v \<Rightarrow> [entity k (tgc_key c) v]) (tag_heads pending))"
    have "persist_tags d n m c key_of keq en set_en entity pending t =
        persist_tags d n m c key_of keq en set_en entity (tag_tails pending) (fst (?r t) @ ?new)"
      using False by (subst persist_tags.simps)
        (simp add: Let_def seq_app retire_rows_app [OF m key] insert_entities_app [OF c])
    moreover have "rows_at s (fst (?r t) @ ?new) = rows_at s (fst (?r t))"
      using new by (intro append_view) (auto split: option.splits)
    moreover have "rows_at s (fst (?r t)) = rows_at s t" by (rule retire_rows_view [OF m key n])
    ultimately show ?thesis using less [OF tag_tails_less [OF False]] by simp
  qed (subst persist_tags.simps, simp)
qed

end

section \<open>Earlier snapshots\<close>

text \<open>The versioned rows of the catalog a reader of a snapshot sees, and its files.\<close>

definition catalog_rows_at :: "i64 \<Rightarrow> store \<Rightarrow>
    (ducklake_schema list \<times> ducklake_table list \<times> ducklake_view list \<times> ducklake_macro list) \<times>
    (ducklake_column list \<times> ducklake_partition_info list \<times> ducklake_sort_info list) \<times>
    (ducklake_tag list \<times> ducklake_column_tag list)" where
  "catalog_rows_at s db =
     ((v_schemas.rows_at s (db_schemas db), v_tables.rows_at s (db_tables db), v_views.rows_at s (db_views db),
       v_macros.rows_at s (db_macros db)),
      (v_columns.rows_at s (db_columns db), v_partitions.rows_at s (db_partition_info db),
       v_sorts.rows_at s (db_sort_info db)),
      (v_tags.rows_at s (db_tags db), v_column_tags.rows_at s (db_column_tags db)))"

definition file_rows_at :: "i64 \<Rightarrow> i64 list \<Rightarrow> store \<Rightarrow> ducklake_data_file list \<times> ducklake_delete_file list" where
  "file_rows_at s detached db =
     (v_data_files.rows_at s (filter (\<lambda>r. ddf_table_id r \<notin> set detached) (db_data_files db)),
      v_delete_files.rows_at s (filter (\<lambda>r. ddel_table_id r \<notin> set detached) (db_delete_files db)))"

text \<open>The new rows begin with the snapshot.\<close>

definition changes_from :: "i64 \<Rightarrow> tx_changes \<Rightarrow> bool" where
  "changes_from n c \<longleftrightarrow>
     (\<forall>r\<in>set (tc_new_schemas c). dsc_begin_snapshot r = n) \<and>
     (\<forall>r\<in>set (tc_new_tables c). dt_begin_snapshot r = n) \<and>
     (\<forall>r\<in>set (tc_new_views c). dv_begin_snapshot r = n) \<and>
     (\<forall>r\<in>set (tc_new_macros c). dma_begin_snapshot r = n) \<and>
     (\<forall>r\<in>set (tc_new_columns c). dc_begin_snapshot r = n) \<and>
     (\<forall>r\<in>set (tc_new_partition_info c). dpi_begin_snapshot r = n) \<and>
     (\<forall>r\<in>set (tc_new_sort_info c). dsi_begin_snapshot r = n) \<and>
     (\<forall>r\<in>set (tc_new_tags c). dtg_begin_snapshot r = n) \<and>
     (\<forall>r\<in>set (tc_new_column_tags c). dct_begin_snapshot r = n) \<and>
     (\<forall>r\<in>set (fch_data_files (tc_files c)). ddf_begin_snapshot r = n) \<and>
     (\<forall>r\<in>set (fch_delete_files (tc_files c)). ddel_begin_snapshot r = n)"

lemma preserves_steps: "(\<And>m. m \<in> set ms \<Longrightarrow> preserves I m) \<Longrightarrow> preserves I (steps ms)"
  unfolding steps_def by (induction ms) (auto intro!: preserves_seq)

lemma preserves_on_table:
  assumes "\<And>s. I s \<Longrightarrow> I (put (\<lambda>_. fst (m (get s))) s)"
  shows "preserves I (on_table get put m)"
  using assms by (auto simp: preserves_def on_table_def case_prod_beta Let_def)

lemma preserves_update: "(\<And>s. I s \<Longrightarrow> I (f s)) \<Longrightarrow> preserves I (update f)"
  by (simp add: preserves_def)

lemma preserves_query [simp]: "preserves I (query f)"
  by (simp add: preserves_def)

lemma preserves_collect_op: "(\<And>x. preserves I (f x)) \<Longrightarrow> preserves I (collect_op f xs)"
  by (induction xs) (auto intro!: preserves_seq)

lemma persist_table_renames_app:
  assumes "im_wf names"
  shows "\<exists>new. persist_table_renames d n names t = (t @ new, Ok ()) \<and> mset new =
    mset (map (\<lambda>r. (case im_get names (dt_table_id r) of None \<Rightarrow> r | Some x \<Rightarrow> r\<lparr>dt_table_name := x\<rparr>)
        \<lparr>dt_begin_snapshot := n, dt_end_snapshot := None\<rparr>)
      (filter (\<lambda>r. dt_end_snapshot r = Some n \<and> dt_table_id r \<in> fst ` set names) t))"
proof -
  have find: "map_option snd (find (\<lambda>(k, v). i = k) m) = im_get m i" for i and m :: "(i64, string) imap"
    by (induction m) auto
  have sep: "keys_separate (=) (im_keys names)" using assms by (auto simp: keys_separate_def)
  have "\<exists>new. persist_table_renames d n names t = (t @ new, Ok ()) \<and> mset new =
    mset (copied dt_table_id (=) (\<lambda>name. dt_table_name_update (\<lambda>_. name)) names
      (\<lambda>r. r\<lparr>dt_begin_snapshot := n, dt_end_snapshot := None\<rparr>) (\<lambda>r. dt_end_snapshot r = Some n) t)"
    unfolding persist_table_renames_def using max_bind_params_large [of d]
    by (intro copy_rows_whole sep) auto
  then show ?thesis
    by (simp add: copied_def replace_by_def replacement_value_def find matches_def image_iff conj_commute Bex_def)
qed

lemma persist_table_renames_view:
  assumes "im_wf names" and "s < n"
  shows "v_tables.rows_at s (fst (persist_table_renames d n names t)) = v_tables.rows_at s t"
proof -
  obtain new where new: "persist_table_renames d n names t = (t @ new, Ok ())"
    "mset new = mset (map (\<lambda>r. (case im_get names (dt_table_id r) of None \<Rightarrow> r | Some x \<Rightarrow> r\<lparr>dt_table_name := x\<rparr>)
        \<lparr>dt_begin_snapshot := n, dt_end_snapshot := None\<rparr>)
      (filter (\<lambda>r. dt_end_snapshot r = Some n \<and> dt_table_id r \<in> fst ` set names) t))"
    using persist_table_renames_app [OF assms(1)] by blast
  from mset_eq_setD [OF new(2)] have "s < dt_begin_snapshot r" if "r \<in> set new" for r
    using that assms(2) by auto
  with new(1) v_tables.append_view [of new s t] show ?thesis by simp
qed

text \<open>Statements on the other tables do not change what the snapshots hold.\<close>

lemmas history_defs = catalog_rows_at_def file_rows_at_def

lemmas retire_views =
  v_schemas.retire_rows_view v_tables.retire_rows_view v_views.retire_rows_view v_macros.retire_rows_view
  v_columns.retire_rows_view v_partitions.retire_rows_view v_sorts.retire_rows_view v_tags.retire_rows_view
  v_column_tags.retire_rows_view

lemma detach_catalog: "preserves (\<lambda>db. catalog_rows_at s db = x) (detach_files d ts)"
  unfolding detach_files_def by (auto intro!: preserves_steps preserves_on_table simp: catalog_rows_at_def)

lemma retire_catalog: "s < n \<Longrightarrow> preserves (\<lambda>db. catalog_rows_at s db = x) (retire_all d n c)"
  unfolding retire_all_def
  by (auto intro!: preserves_steps preserves_on_table simp: catalog_rows_at_def retire_views)

lemma insert_catalog:
  assumes "s < n" and "changes_from n c" and "im_wf (tc_renamed_tables c)"
  shows "preserves (\<lambda>db. catalog_rows_at s db = x) (insert_all d n c)"
proof -
  note from_n = assms(2) [unfolded changes_from_def]
  have views:
    "v_schemas.rows_at s (fst (insert_keyed d 7 dsc_schema_id (tc_new_schemas c) t1)) = v_schemas.rows_at s t1"
    "v_tables.rows_at s (fst (insert_entities d 8 (tc_new_tables c) t2)) = v_tables.rows_at s t2"
    "v_views.rows_at s (fst (insert_entities d 9 (tc_new_views c) t3)) = v_views.rows_at s t3"
    "v_macros.rows_at s (fst (insert_entities d 5 (tc_new_macros c) t4)) = v_macros.rows_at s t4"
    "v_columns.rows_at s (fst (insert_entities d 13 (tc_new_columns c) t5)) = v_columns.rows_at s t5"
    "v_partitions.rows_at s (fst (insert_entities d 4 (tc_new_partition_info c) t6)) = v_partitions.rows_at s t6"
    "v_sorts.rows_at s (fst (insert_entities d 4 (tc_new_sort_info c) t7)) = v_sorts.rows_at s t7"
    "v_tags.rows_at s (fst (insert_entities d 5 (tc_new_tags c) t8)) = v_tags.rows_at s t8"
    "v_column_tags.rows_at s (fst (insert_entities d 6 (tc_new_column_tags c) t9)) = v_column_tags.rows_at s t9"
    for t1 t2 t3 t4 t5 t6 t7 t8 t9
    using from_n assms(1)
    by (simp_all add: v_schemas.insert_keyed_view v_tables.insert_entities_view v_views.insert_entities_view
        v_macros.insert_entities_view v_columns.insert_entities_view v_partitions.insert_entities_view
        v_sorts.insert_entities_view v_tags.insert_entities_view v_column_tags.insert_entities_view)
  show ?thesis
    unfolding insert_all_def
    by (auto intro!: preserves_steps preserves_on_table
        simp: catalog_rows_at_def views persist_table_renames_view [OF assms(3,1)])
qed

lemma tags_catalog:
  assumes "s < n"
  shows "preserves (\<lambda>db. catalog_rows_at s db = x) (on_table db_tags db_tags_update (persist_table_tags E n ch))"
    and "preserves (\<lambda>db. catalog_rows_at s db = x)
      (on_table db_column_tags db_column_tags_update (persist_column_tags E n ch'))"
  using assms
  by (auto intro!: preserves_on_table simp: catalog_rows_at_def persist_table_tags_def persist_column_tags_def
      v_tags.persist_tags_view v_column_tags.persist_tags_view case_prod_beta)

lemma files_catalog: "preserves (\<lambda>db. catalog_rows_at s db = x) (persist_files d fs)"
  unfolding persist_files_def
  by (auto intro!: preserves_steps preserves_on_table preserves_for_each preserves_update
      simp: catalog_rows_at_def persist_inline_deletes_def Let_def)

lemma inline_data_any:
  assumes "\<And>db f. P (db\<lparr>db_inline_tables := f\<rparr>) = P db" and "\<And>db f. P (db_inlined_data_tables_update f db) = P db"
  shows "preserves (\<lambda>db. P db = x) (persist_inline_data E tables data v)"
proof -
  have create: "preserves (\<lambda>db. P db = x) (create_inline_table d v p)" for d p
    unfolding create_inline_table_def Let_def
    by (rule preserves_seq) (auto simp: assms preserves_def)
  have arrow: "preserves (\<lambda>db. P db = x) (insert_all_arrow E name b)" for name b
    by (auto simp: insert_all_arrow_def preserves_def assms split: option.splits)
  have "preserves (\<lambda>db. P db = x) (on_table db_inlined_data_tables db_inlined_data_tables_update m)" for m
    by (rule preserves_on_table) (simp add: assms(2))
  with create arrow show ?thesis
    unfolding persist_inline_data_def Let_def
    by (auto intro!: preserves_seq preserves_collect_op preserves_for_each split: prod.splits)
qed

lemma persist_store_catalog:
  assumes "s < n" and "changes_from n c" and "im_wf (tc_renamed_tables c)"
  shows "preserves (\<lambda>db. catalog_rows_at s db = x) (persist_store E n v c)"
proof -
  have inline: "preserves (\<lambda>db. catalog_rows_at s db = x) (persist_inline_data E (tc_inline_tables c) (tc_inline_data c) v)"
    by (rule inline_data_any) (simp_all add: catalog_rows_at_def)
  show ?thesis
    unfolding persist_store_def
    by (rule preserves_steps, unfold list.set insert_iff empty_iff, elim disjE FalseE)
      (simp_all only: inline detach_catalog retire_catalog [OF assms(1)] insert_catalog [OF assms]
        tags_catalog [OF assms(1)] files_catalog)
qed

text \<open>The same for files, for the tables that are not detached.\<close>

lemma filter_matches:
  assumes "set keys \<subseteq> set detached"
  shows "filter (\<lambda>r. \<not> matches key (=) keys r \<and> key r \<notin> set detached) t = filter (\<lambda>r. key r \<notin> set detached) t"
  using assms by (induction t) (auto simp: matches_def)

context versioned
begin

lemma filter_retire:
  assumes "\<And>e r. key (set_en e r) = key r"
  shows "filter (\<lambda>r. key r \<notin> D) (map (\<lambda>r. if en r = None \<and> P r then set_en (Some n) r else r) t)
    = map (\<lambda>r. if en r = None \<and> P r then set_en (Some n) r else r) (filter (\<lambda>r. key r \<notin> D) t)"
  using assms by (induction t) auto

end

lemma detach_files_rows: "preserves (\<lambda>db. file_rows_at s ts db = x) (detach_files d ts)"
  unfolding detach_files_def
  by (auto intro!: preserves_steps preserves_on_table simp: file_rows_at_def delete_rows_app filter_matches)

lemma retire_files_rows:
  assumes "s < n"
  shows "preserves (\<lambda>db. file_rows_at s D db = x) (retire_all d n c)"
  unfolding retire_all_def using assms
  by (auto intro!: preserves_steps preserves_on_table
      simp: file_rows_at_def v_data_files.retire_rows_app v_delete_files.retire_rows_app
        v_data_files.retire_view v_delete_files.retire_view v_data_files.filter_retire v_delete_files.filter_retire)

lemma insert_files_rows: "preserves (\<lambda>db. file_rows_at s D db = x) (insert_all d n c)"
  unfolding insert_all_def by (auto intro!: preserves_steps preserves_on_table simp: file_rows_at_def)

lemma tags_files_rows:
  "preserves (\<lambda>db. file_rows_at s D db = x) (on_table db_tags db_tags_update m)"
  "preserves (\<lambda>db. file_rows_at s D db = x) (on_table db_column_tags db_column_tags_update m')"
  by (auto intro!: preserves_on_table simp: file_rows_at_def)

lemma insert_keyed_filter:
  assumes "0 < m" and "m \<le> 32766"
  shows "\<exists>new. set new \<subseteq> set rows \<and> filter p (fst (insert_keyed d m key rows t)) = filter p t @ new"
  using insert_keyed_cases [OF assms, of d key rows t]
  by (elim disjE) (auto intro: exI [of _ "filter p rows"] exI [of _ "[]"])

lemma persist_files_rows:
  assumes "s < n" and "changes_from n c"
  shows "preserves (\<lambda>db. file_rows_at s D db = x) (persist_files d (tc_files c))"
proof -
  have "v_data_files.rows_at s (filter p (fst (insert_keyed d 16 ddf_data_file_id (fch_data_files (tc_files c)) t)))
      = v_data_files.rows_at s (filter p t)" for p t
  proof -
    obtain new where new: "set new \<subseteq> set (fch_data_files (tc_files c))"
      "filter p (fst (insert_keyed d 16 ddf_data_file_id (fch_data_files (tc_files c)) t)) = filter p t @ new"
      using insert_keyed_filter [of 16 "fch_data_files (tc_files c)" p d ddf_data_file_id t] by auto
    have "s < ddf_begin_snapshot r" if "r \<in> set new" for r
      using that new(1) assms by (auto simp: changes_from_def)
    with new(2) v_data_files.append_view [of new s "filter p t"] show ?thesis by simp
  qed
  moreover have "v_delete_files.rows_at s (filter p (fst (insert_keyed d 13 ddel_delete_file_id (fch_delete_files (tc_files c)) t)))
      = v_delete_files.rows_at s (filter p t)" for p t
  proof -
    obtain new where new: "set new \<subseteq> set (fch_delete_files (tc_files c))"
      "filter p (fst (insert_keyed d 13 ddel_delete_file_id (fch_delete_files (tc_files c)) t)) = filter p t @ new"
      using insert_keyed_filter [of 13 "fch_delete_files (tc_files c)" p d ddel_delete_file_id t] by auto
    have "s < ddel_begin_snapshot r" if "r \<in> set new" for r
      using that new(1) assms by (auto simp: changes_from_def)
    with new(2) v_delete_files.append_view [of new s "filter p t"] show ?thesis by simp
  qed
  ultimately show ?thesis
    unfolding persist_files_def
    by (auto intro!: preserves_steps preserves_on_table preserves_for_each preserves_update
        simp: file_rows_at_def persist_inline_deletes_def Let_def)
qed

lemma persist_store_files:
  assumes "s < n" and "changes_from n c"
  shows "preserves (\<lambda>db. file_rows_at s (tc_detached_tables c) db = x) (persist_store E n v c)"
proof -
  have inline: "preserves (\<lambda>db. file_rows_at s (tc_detached_tables c) db = x)
      (persist_inline_data E (tc_inline_tables c) (tc_inline_data c) v)"
    by (rule inline_data_any) (simp_all add: file_rows_at_def)
  show ?thesis
    unfolding persist_store_def
    by (rule preserves_steps, unfold list.set insert_iff empty_iff, elim disjE FalseE)
      (simp_all only: inline detach_files_rows retire_files_rows [OF assms(1)] insert_files_rows tags_files_rows
        persist_files_rows [OF assms])
qed

lemma persist_statistics_keeps:
  assumes "\<And>f db. P (db_table_stats_update f db) = P db" and "\<And>f db. P (db_table_column_stats_update f db) = P db"
  shows "preserves (\<lambda>p. P (fst p) = x) (persist_statistics E w)"
proof -
  have w: "preserves (\<lambda>db. P db = x) (write_statistics d ts cs)" for d ts cs
    unfolding write_statistics_def by (auto intro!: preserves_steps preserves_on_table simp: assms)
  have on_fst: "preserves (\<lambda>p. P (fst p) = x)
      (on_table fst (\<lambda>f p. (f (fst p), snd p)) (write_statistics d ts cs) :: (store \<times> commit_state, _, _) op)" for d ts cs
    by (rule preserves_on_table) (use w in \<open>simp add: preserves_def\<close>)
  have "preserves (\<lambda>p. P (fst p) = x) (on_table snd (\<lambda>f p. (fst p, f (snd p))) m :: (store \<times> commit_state, _, _) op)"
    for m :: "(commit_state, ducklake_error, 'z) op"
    by (rule preserves_on_table) simp
  with on_fst show ?thesis
    unfolding persist_statistics_def by (intro preserves_seq) simp_all
qed

lemma persist_history:
  assumes "s < st_snapshot_id st" and "changes_from (st_snapshot_id st) c" and "im_wf (tc_renamed_tables c)"
    and "persist E c (db, st) = ((db', st'), r)"
  shows "catalog_rows_at s db' = catalog_rows_at s db"
    and "file_rows_at s (tc_detached_tables c) db' = file_rows_at s (tc_detached_tables c) db"
proof -
  let ?n = "st_snapshot_id st" and ?v = "st_schema_version st"
  have "fst (fst (persist E c (db, st))) = fst (fst (seq (on_table fst (\<lambda>f p. (f (fst p), snd p)) (persist_store E ?n ?v c))
      (\<lambda>_. persist_statistics E (tc_written_columns c)) (db, st)))"
    by (simp add: persist_def seq_app)
  then have db': "db' = fst (fst (seq (on_table fst (\<lambda>f p. (f (fst p), snd p)) (persist_store E ?n ?v c))
      (\<lambda>_. persist_statistics E (tc_written_columns c)) (db, st)))"
    using assms(4) by simp
  have keeps: "P db' = P db"
    if store: "preserves (\<lambda>x. P x = P db) (persist_store E ?n ?v c)"
      and stats: "\<And>f db. P (db_table_stats_update f db) = P db" "\<And>f db. P (db_table_column_stats_update f db) = P db"
    for P :: "store \<Rightarrow> 'x"
  proof -
    have "preserves (\<lambda>p. P (fst p) = P db) (seq (on_table fst (\<lambda>f p. (f (fst p), snd p)) (persist_store E ?n ?v c))
      (\<lambda>_. persist_statistics E (tc_written_columns c)))"
      using store by (intro preserves_seq preserves_on_table persist_statistics_keeps stats) (auto dest: preservesD)
    from preservesD [OF this, of "(db, st)"] show ?thesis unfolding db' by simp
  qed
  show "catalog_rows_at s db' = catalog_rows_at s db"
    by (rule keeps [OF persist_store_catalog [OF assms(1-3)]]) (simp_all add: catalog_rows_at_def)
  show "file_rows_at s (tc_detached_tables c) db' = file_rows_at s (tc_detached_tables c) db"
    by (rule keeps [OF persist_store_files [OF assms(1,2)]]) (simp_all add: file_rows_at_def)
qed

section \<open>The tables of the new snapshot\<close>

lemma steps_ConsE:
  assumes "steps (m # ms) s = (s', Ok ())"
  obtains s1 where "m s = (s1, Ok ())" and "steps ms s1 = (s', Ok ())"
  using assms unfolding steps_def by (auto elim: seq_OkE)

lemma keeps_steps:
  assumes "steps ms s = (s', r)" and "\<And>m x. m \<in> set ms \<Longrightarrow> preserves (\<lambda>s. P s = x) m"
  shows "P s' = P s"
  using preservesD [OF preserves_steps [of ms "\<lambda>y. P y = P s"], of s] assms by simp

lemma on_table_keeps:
  assumes "\<And>s t. P (put (\<lambda>_. t) s) = P s"
  shows "preserves (\<lambda>s. P s = x) (on_table get put m)"
  using assms by (intro preserves_on_table) simp

lemma retire_all_tables:
  assumes "retire_all d n c db = (db', Ok ())"
  shows "db_tables db' = map (\<lambda>r. if dt_end_snapshot r = None \<and>
      dt_table_id r \<in> set (tc_dropped_tables c) \<union> fst ` set (tc_renamed_tables c) then r\<lparr>dt_end_snapshot := Some n\<rparr> else r) (db_tables db)"
proof -
  from assms obtain db1 where db1: "on_table db_tables db_tables_update (retire_rows d n 1 dt_table_id (=) dt_end_snapshot
        (\<lambda>e. dt_end_snapshot_update (\<lambda>_. e)) (tc_dropped_tables c @ im_keys (tc_renamed_tables c))) db = (db1, Ok ())"
    and rest: "db_tables db' = db_tables db1"
    unfolding retire_all_def
    by (elim steps_ConsE [of "on_table db_tables db_tables_update _"])
      (auto dest!: keeps_steps [where P = db_tables] intro!: on_table_keeps)
  from db1 show ?thesis
    unfolding rest by (auto simp: on_table_def v_tables.retire_rows_app matches_def)
qed

lemma insert_all_tables:
  assumes "insert_all d n c db = (db', Ok ())" and "im_wf (tc_renamed_tables c)"
  shows "\<exists>new. db_tables db' = db_tables db @ new @ tc_new_tables c \<and> mset new =
    mset (map (\<lambda>r. (case im_get (tc_renamed_tables c) (dt_table_id r) of None \<Rightarrow> r | Some x \<Rightarrow> r\<lparr>dt_table_name := x\<rparr>)
        \<lparr>dt_begin_snapshot := n, dt_end_snapshot := None\<rparr>)
      (filter (\<lambda>r. dt_end_snapshot r = Some n \<and> dt_table_id r \<in> fst ` set (tc_renamed_tables c)) (db_tables db)))"
proof -
  from assms(1) obtain db1 db2 db3 where
    "on_table db_schemas db_schemas_update (insert_keyed d 7 dsc_schema_id (tc_new_schemas c)) db = (db1, Ok ())"
    and db2: "on_table db_tables db_tables_update (persist_table_renames d n (tc_renamed_tables c)) db1 = (db2, Ok ())"
    and db3: "on_table db_tables db_tables_update (insert_entities d 8 (tc_new_tables c)) db2 = (db3, Ok ())"
    and rest: "db_tables db' = db_tables db3"
    unfolding insert_all_def
    by (elim steps_ConsE [of "on_table db_schemas db_schemas_update _"] steps_ConsE [of "on_table db_tables db_tables_update _"])
      (auto dest!: keeps_steps [where P = db_tables] intro!: on_table_keeps)
  then have "db_tables db1 = db_tables db" by (auto simp: on_table_def case_prod_beta Let_def)
  moreover obtain new where "persist_table_renames d n (tc_renamed_tables c) (db_tables db1) = (db_tables db1 @ new, Ok ())"
    "mset new = mset (map (\<lambda>r. (case im_get (tc_renamed_tables c) (dt_table_id r) of None \<Rightarrow> r | Some x \<Rightarrow> r\<lparr>dt_table_name := x\<rparr>)
        \<lparr>dt_begin_snapshot := n, dt_end_snapshot := None\<rparr>)
      (filter (\<lambda>r. dt_end_snapshot r = Some n \<and> dt_table_id r \<in> fst ` set (tc_renamed_tables c)) (db_tables db1)))"
    using persist_table_renames_app [OF assms(2)] by blast
  ultimately show ?thesis
    using db2 db3 rest by (auto simp: on_table_def insert_entities_app)
qed

lemma persist_store_tables:
  assumes "persist_store E n v c db = (db', Ok ())" and "im_wf (tc_renamed_tables c)"
  defines "gone \<equiv> set (tc_dropped_tables c) \<union> fst ` set (tc_renamed_tables c)"
  defines "t1 \<equiv> map (\<lambda>r. if dt_end_snapshot r = None \<and> dt_table_id r \<in> gone then r\<lparr>dt_end_snapshot := Some n\<rparr> else r) (db_tables db)"
  shows "\<exists>new. db_tables db' = t1 @ new @ tc_new_tables c \<and> mset new =
    mset (map (\<lambda>r. (case im_get (tc_renamed_tables c) (dt_table_id r) of None \<Rightarrow> r | Some x \<Rightarrow> r\<lparr>dt_table_name := x\<rparr>)
        \<lparr>dt_begin_snapshot := n, dt_end_snapshot := None\<rparr>)
      (filter (\<lambda>r. dt_end_snapshot r = Some n \<and> dt_table_id r \<in> fst ` set (tc_renamed_tables c)) t1))"
proof -
  let ?rest = "[on_table db_tags db_tags_update (persist_table_tags E n (tc_table_tags c)),
        on_table db_column_tags db_column_tags_update (persist_column_tags E n (tc_column_tags c)),
        persist_files (env_dialect E) (tc_files c),
        persist_inline_data E (tc_inline_tables c) (tc_inline_data c) v]"
  from assms(1) obtain db1 db2 db3 where
    db1: "detach_files (env_dialect E) (tc_detached_tables c) db = (db1, Ok ())"
    and db2: "retire_all (env_dialect E) n c db1 = (db2, Ok ())"
    and db3: "insert_all (env_dialect E) n c db2 = (db3, Ok ())"
    and rest: "steps ?rest db3 = (db', Ok ())"
    unfolding persist_store_def by (elim steps_ConsE) (auto simp: steps_def seq_app split: res.splits)
  have "db_tables db1 = db_tables db"
    by (rule keeps_steps [OF db1 [unfolded detach_files_def]]) (auto intro!: on_table_keeps)
  moreover have "db_tables db' = db_tables db3"
  proof (rule keeps_steps [OF rest])
    fix m x assume "m \<in> set ?rest"
    moreover have "preserves (\<lambda>db. db_tables db = x) (persist_files (env_dialect E) (tc_files c))"
      unfolding persist_files_def
      by (auto intro!: preserves_steps on_table_keeps preserves_for_each preserves_update
          simp: persist_inline_deletes_def Let_def)
    moreover have "preserves (\<lambda>db. db_tables db = x) (persist_inline_data E (tc_inline_tables c) (tc_inline_data c) v)"
      by (rule inline_data_any) simp_all
    ultimately show "preserves (\<lambda>db. db_tables db = x) m" by (auto intro!: on_table_keeps)
  qed
  ultimately show ?thesis
    using retire_all_tables [OF db2] insert_all_tables [OF db3 assms(2)] unfolding t1_def gone_def by simp
qed

text \<open>Rows written by earlier snapshots, and the row a rename adds.\<close>

definition table_rows_before :: "i64 \<Rightarrow> ducklake_table list \<Rightarrow> bool" where
  "table_rows_before n t \<longleftrightarrow>
     (\<forall>r\<in>set t. dt_begin_snapshot r < n \<and> (case dt_end_snapshot r of None \<Rightarrow> True | Some e \<Rightarrow> e < n))"

definition renamed_row :: "i64 \<Rightarrow> (i64, string) imap \<Rightarrow> ducklake_table \<Rightarrow> ducklake_table" where
  "renamed_row n names r =
     (case im_get names (dt_table_id r) of None \<Rightarrow> r | Some x \<Rightarrow> r\<lparr>dt_table_name := x\<rparr>)
       \<lparr>dt_begin_snapshot := n, dt_end_snapshot := None\<rparr>"

lemma rows_at_retired:
  assumes "table_rows_before n t"
  shows "v_tables.rows_at n (map (\<lambda>r. if dt_end_snapshot r = None \<and> dt_table_id r \<in> gone then r\<lparr>dt_end_snapshot := Some n\<rparr> else r) t)
      = filter (\<lambda>r. dt_table_id r \<notin> gone) (v_tables.rows_at (n - 1) t)"
  using assms
  by (induction t) (auto simp: view_at_def visible_at_def table_rows_before_def split: option.splits)

lemma renamed_rows_of_retired:
  assumes "table_rows_before n t" and "fst ` set names \<subseteq> gone"
  shows "map (renamed_row n names) (filter (\<lambda>r. dt_end_snapshot r = Some n \<and> dt_table_id r \<in> fst ` set names)
        (map (\<lambda>r. if dt_end_snapshot r = None \<and> dt_table_id r \<in> gone then r\<lparr>dt_end_snapshot := Some n\<rparr> else r) t))
      = map (renamed_row n names) (filter (\<lambda>r. dt_table_id r \<in> fst ` set names) (v_tables.rows_at (n - 1) t))"
  using assms
  by (induction t)
    (auto simp: view_at_def visible_at_def table_rows_before_def renamed_row_def split: option.splits)

lemma persist_tables:
  assumes ok: "persist E c (db, st) = ((db', st'), Ok ())" and wf: "im_wf (tc_renamed_tables c)"
    and before: "table_rows_before (st_snapshot_id st) (db_tables db)"
    and new: "changes_from (st_snapshot_id st) c" "\<forall>r\<in>set (tc_new_tables c). dt_end_snapshot r = None"
  shows "mset (v_tables.rows_at (st_snapshot_id st) (db_tables db')) =
    mset (filter (\<lambda>r. dt_table_id r \<notin> set (tc_dropped_tables c) \<union> fst ` set (tc_renamed_tables c))
           (v_tables.rows_at (st_snapshot_id st - 1) (db_tables db)))
    + mset (map (renamed_row (st_snapshot_id st) (tc_renamed_tables c))
         (filter (\<lambda>r. dt_table_id r \<in> fst ` set (tc_renamed_tables c)) (v_tables.rows_at (st_snapshot_id st - 1) (db_tables db))))
    + mset (tc_new_tables c)"
proof -
  let ?n = "st_snapshot_id st" and ?v = "st_schema_version st"
  let ?gone = "set (tc_dropped_tables c) \<union> fst ` set (tc_renamed_tables c)"
  let ?t1 = "map (\<lambda>r. if dt_end_snapshot r = None \<and> dt_table_id r \<in> ?gone then r\<lparr>dt_end_snapshot := Some ?n\<rparr> else r) (db_tables db)"
  from ok have "seq (on_table fst (\<lambda>f p. (f (fst p), snd p)) (persist_store E ?n ?v c))
      (\<lambda>_. persist_statistics E (tc_written_columns c)) (db, st) = ((db', st'), Ok ())"
    by (simp add: persist_def seq_def)
  then obtain p where p: "on_table fst (\<lambda>f p. (f (fst p), snd p)) (persist_store E ?n ?v c) (db, st) = (p, Ok ())"
    "persist_statistics E (tc_written_columns c) p = ((db', st'), Ok ())"
    by (auto elim: seq_OkE)
  from p(1) have store: "persist_store E ?n ?v c db = (fst p, Ok ())" by (auto simp: on_table_def split: prod.splits)
  have "db_tables db' = db_tables (fst p)"
    using preservesD [OF persist_statistics_keeps [where P = db_tables and x = "db_tables (fst p)"], of p E "tc_written_columns c"] p(2)
    by simp
  then obtain rows where rows: "db_tables db' = ?t1 @ rows @ tc_new_tables c"
    "mset rows = mset (map (renamed_row ?n (tc_renamed_tables c))
      (filter (\<lambda>r. dt_end_snapshot r = Some ?n \<and> dt_table_id r \<in> fst ` set (tc_renamed_tables c)) ?t1))"
    using persist_store_tables [OF store wf] unfolding renamed_row_def by auto
  have "renamed_row ?n ns r \<in> {r. dt_begin_snapshot r = ?n \<and> dt_end_snapshot r = None}" for ns r
    by (simp add: renamed_row_def)
  with mset_eq_setD [OF rows(2)] have r: "\<forall>r\<in>set rows. dt_begin_snapshot r = ?n \<and> dt_end_snapshot r = None" by auto
  have t: "\<forall>r\<in>set (tc_new_tables c). dt_begin_snapshot r = ?n \<and> dt_end_snapshot r = None"
    using new by (simp add: changes_from_def)
  have all: "v_tables.rows_at ?n xs = xs" if "\<forall>r\<in>set xs. dt_begin_snapshot r = ?n \<and> dt_end_snapshot r = None" for xs
    using that by (induction xs) (auto simp: view_at_def visible_at_def)
  have app: "v_tables.rows_at ?n (xs @ ys) = v_tables.rows_at ?n xs @ v_tables.rows_at ?n ys" for xs ys
    by (simp add: view_at_def)
  have gone: "fst ` set (tc_renamed_tables c) \<subseteq> ?gone" by blast
  have "v_tables.rows_at ?n (db_tables db') = v_tables.rows_at ?n ?t1 @ rows @ tc_new_tables c"
    unfolding rows(1) app all [OF r] all [OF t] ..
  then show ?thesis
    unfolding rows_at_retired [OF before]
    using rows(2) [unfolded renamed_rows_of_retired [OF before gone]]
    by (simp only: mset_append add.assoc)
qed

end
