(* ===== verification/Executors_Rows.thy ===== *)
theory Executors_Rows
  imports Executors Persist_History
begin

text \<open>
  What the executors collect: rows that begin with the snapshot of the commit, whatever the
  changes are, so that the statements of the commit cannot touch earlier snapshots; the row IDs
  of written data, which follow one another without overlap; and two sequences of operations
  that panic when they are committed.
\<close>

section \<open>The collected rows belong to the new snapshot\<close>

definition collected_ok :: "i64 \<Rightarrow> tx_changes \<Rightarrow> bool" where
  "collected_ok n c \<longleftrightarrow> changes_from n c \<and> im_wf (tc_renamed_tables c) \<and>
     (\<forall>r\<in>set (tc_new_tables c). dt_end_snapshot r = None)"

definition collected :: "i64 \<Rightarrow> tx_changes \<times> commit_state \<Rightarrow> bool" where
  "collected n p \<longleftrightarrow> collected_ok n (fst p) \<and> st_snapshot_id (snd p) = n"

abbreviation at_snapshot :: "i64 \<Rightarrow> commit_state \<Rightarrow> bool" where
  "at_snapshot n st \<equiv> st_snapshot_id st = n"

lemma preserves_query_snapshot:
  "preserves (at_snapshot n) m \<Longrightarrow> preserves (at_snapshot n) (seq (query f) (\<lambda>_. m))"
  by (intro preserves_seq) simp_all

lemma resolve_with_snapshot: "preserves (at_snapshot n) (resolve_with get res)"
  unfolding resolve_with_def
  by (intro preserves_seq preserves_query)
    (auto simp: catalog_id_def on_catalog_def preserves_def case_prod_beta Let_def seq_app
      split: option.split res.split)

lemma state_ids_snapshot [intro, simp]:
  "preserves (at_snapshot n) (state_schema_id r)" "preserves (at_snapshot n) (state_table_id r)"
  "preserves (at_snapshot n) (state_view_id v)" "preserves (at_snapshot n) (state_macro_id m)"
  "preserves (at_snapshot n) (state_partition_id r)" "preserves (at_snapshot n) (state_column_id c)"
  "preserves (at_snapshot n) sort_info_id" "preserves (at_snapshot n) file_id"
  "preserves (at_snapshot n) (state_table_stats i)" "preserves (at_snapshot n) (state_table_schema r)"
  by (simp_all add: state_schema_id_def state_table_id_def state_view_id_def state_macro_id_def
      state_partition_id_def resolve_with_snapshot state_column_id_def state_table_schema_def)
    (simp_all add: preserves_def sort_info_id_def catalog_id_def file_id_def state_table_stats_def Let_def
      split: option.split)

lemma state_update_stats_snapshot [intro, simp]: "preserves (at_snapshot n) (state_update_stats i f)"
  unfolding state_update_stats_def by (intro preserves_seq state_ids_snapshot) (simp add: preserves_def)

lemma add_column_to_buffers_snapshot [intro, simp]: "preserves (at_snapshot n) (add_column_to_buffers E t p rs c)"
  unfolding add_column_to_buffers_def
  by (intro preserves_seq preserves_collect_op) (auto intro!: preserves_seq split: option.split)

lemma table_of_column_snapshot [intro, simp]: "preserves (at_snapshot n) (table_of_column r)"
  unfolding table_of_column_def by (intro preserves_seq) auto

lemma update_stats_snapshot [intro, simp]:
  "preserves (at_snapshot n) (update_table_stats_from_file E i f)"
  "preserves (at_snapshot n) (update_table_stats_from_inline_data E i d)"
  unfolding update_table_stats_from_file_def update_table_stats_from_inline_data_def Let_def
  by (intro preserves_seq preserves_for_each; auto intro!: preserves_seq)+

lemma preserves_in_state:
  "preserves (at_snapshot n) m \<Longrightarrow> preserves (collected n) (in_state m)"
  unfolding in_state_def by (rule preserves_on_table) (auto simp: collected_def preserves_def)

lemma preserves_edit:
  "(\<And>c. collected_ok n c \<Longrightarrow> collected_ok n (f c)) \<Longrightarrow> preserves (collected n) (edit f)"
  by (auto simp: preserves_def edit_def collected_def)

lemma preserves_snapshot_id:
  "preserves (collected n) (f n) \<Longrightarrow> preserves (collected n) (seq snapshot_id f)"
  by (auto simp: preserves_def snapshot_id_def seq_app collected_def)

lemma im_wf_entry_extend [simp]: "im_wf (entry_extend k xs m) \<longleftrightarrow> im_wf m"
  by (simp add: entry_extend_def)

lemma rename_new_table_keeps:
  assumes "rename_new_table i name ts = Some ts'" and "\<And>t x. P (t\<lparr>dt_table_name := x\<rparr>) = P t"
    and "\<forall>t\<in>set ts. P t"
  shows "\<forall>t\<in>set ts'. P t"
  using assms(1,3)
  by (induction ts arbitrary: ts') (auto simp: assms(2) split: if_splits)

lemmas executor_rules = preserves_seq preserves_snapshot_id preserves_for_each preserves_collect_op


lemma collected_edits [intro]:
  assumes "collected_ok n c"
  shows "dsc_begin_snapshot x = n \<Longrightarrow> collected_ok n (tc_new_schemas_update (\<lambda>rows. rows @ [x]) c)"
    and "collected_ok n (tc_dropped_schemas_update f1 c)" and "collected_ok n (tc_dropped_views_update f1 c)"
    and "collected_ok n (tc_dropped_macros_update f1 c)" and "collected_ok n (tc_dropped_tables_update f1 c)"
    and "collected_ok n (tc_detached_tables_update f1 c)" and "collected_ok n (tc_retired_partition_tables_update f1 c)"
    and "collected_ok n (tc_retired_sort_tables_update f1 c)" and "collected_ok n (tc_retired_columns_update f2 c)"
    and "collected_ok n (tc_new_macro_impls_update f3 c)" and "collected_ok n (tc_new_macro_parameters_update f4 c)"
    and "collected_ok n (tc_new_partition_columns_update f5 c)" and "collected_ok n (tc_new_sort_expressions_update f6 c)"
    and "collected_ok n (tc_table_tags_update f7 c)" and "collected_ok n (tc_column_tags_update f8 c)"
    and "collected_ok n (tc_written_columns_update f9 c)" and "collected_ok n (tc_inline_tables_update f10 c)"
    and "collected_ok n (tc_inline_data_update f11 c)"
  using assms by (auto simp: collected_ok_def changes_from_def)

lemma collected_new_rows:
  assumes "collected_ok n c"
  shows "(\<And>x. x \<in> set xs \<Longrightarrow> dtg_begin_snapshot x = n) \<Longrightarrow> collected_ok n (tc_new_tags_update (\<lambda>rows. rows @ xs) c)"
    and "(\<And>x. x \<in> set vs \<Longrightarrow> dv_begin_snapshot x = n) \<Longrightarrow> collected_ok n (tc_new_views_update (\<lambda>rows. rows @ vs) c)"
    and "(\<And>x. x \<in> set ms \<Longrightarrow> dma_begin_snapshot x = n) \<Longrightarrow> collected_ok n (tc_new_macros_update (\<lambda>rows. rows @ ms) c)"
    and "(\<And>x. x \<in> set cs \<Longrightarrow> dc_begin_snapshot x = n) \<Longrightarrow> collected_ok n (tc_new_columns_update (\<lambda>rows. rows @ cs) c)"
    and "(\<And>x. x \<in> set cts \<Longrightarrow> dct_begin_snapshot x = n) \<Longrightarrow> collected_ok n (tc_new_column_tags_update (\<lambda>rows. rows @ cts) c)"
    and "(\<And>x. x \<in> set ps \<Longrightarrow> dpi_begin_snapshot x = n) \<Longrightarrow> collected_ok n (tc_new_partition_info_update (\<lambda>rows. rows @ ps) c)"
    and "(\<And>x. x \<in> set ss \<Longrightarrow> dsi_begin_snapshot x = n) \<Longrightarrow> collected_ok n (tc_new_sort_info_update (\<lambda>rows. rows @ ss) c)"
    and "(\<And>x. x \<in> set ts \<Longrightarrow> dt_begin_snapshot x = n \<and> dt_end_snapshot x = None) \<Longrightarrow>
      collected_ok n (tc_new_tables_update (\<lambda>rows. rows @ ts) c)"
  using assms by (auto simp: collected_ok_def changes_from_def)

lemma collected_mapped_rows:
  assumes "collected_ok n c"
  shows "(\<And>x. dc_begin_snapshot (fc x) = dc_begin_snapshot x) \<Longrightarrow> collected_ok n (tc_new_columns_update (map fc) c)"
    and "collected_ok n (tc_new_columns_update (filter P) c)"
    and "(\<And>x. dpi_begin_snapshot (fp x) = dpi_begin_snapshot x) \<Longrightarrow> collected_ok n (tc_new_partition_info_update (map fp) c)"
    and "(\<And>x. dsi_begin_snapshot (fs x) = dsi_begin_snapshot x) \<Longrightarrow> collected_ok n (tc_new_sort_info_update (map fs) c)"
    and "collected_ok n (tc_files_update (fch_inline_deletes_update g1) c)"
    and "collected_ok n (tc_files_update (fch_partition_values_update g2) c)"
    and "collected_ok n (tc_files_update (fch_column_stats_update g3) c)"
    and "ddf_begin_snapshot df = n \<Longrightarrow> collected_ok n (tc_files_update (fch_data_files_update (\<lambda>rows. rows @ [df])) c)"
    and "ddel_begin_snapshot dl = n \<Longrightarrow> collected_ok n (tc_files_update (fch_delete_files_update (\<lambda>rows. rows @ [dl])) c)"
  using assms by (auto simp: collected_ok_def changes_from_def)

lemma preserves_run: "preserves I m \<Longrightarrow> m s = (s', r) \<Longrightarrow> I s \<Longrightarrow> I s'"
  by (drule preservesD) auto

lemma preserves_seq_post:
  assumes "preserves I m" and "\<And>s s' x. I s \<Longrightarrow> m s = (s', Ok x) \<Longrightarrow> Q x" and "\<And>x. Q x \<Longrightarrow> preserves I (f x)"
  shows "preserves I (seq m f)"
  unfolding preserves_def
proof (intro allI impI)
  fix s assume "I s"
  obtain s' r where m: "m s = (s', r)" by fastforce
  with preservesD [OF assms(1) \<open>I s\<close>] have "I s'" by simp
  with m assms(2) [OF \<open>I s\<close>] assms(3) show "I (fst (seq m f s))"
    by (cases r) (auto simp: seq_app preserves_def)
qed

definition rows_from :: "i64 \<Rightarrow> ducklake_column list \<times> ducklake_column_tag list \<Rightarrow> bool" where
  "rows_from n b \<longleftrightarrow> (\<forall>c\<in>set (fst b). dc_begin_snapshot c = n) \<and> (\<forall>t\<in>set (snd b). dct_begin_snapshot t = n)"

lemmas flat_row_simps = flat_column_row_def Let_def prod.case idx_get_in and_then.simps option.case res.inject

lemma flat_column_row_cases:
  assumes "flat_column_row E t n par ids (i, fc) = Ok b"
  obtains parent_id where "i < length ids"
    and "b = (column_row E t n parent_id (ids ! i) (fc_column fc), column_tag_rows t n (ids ! i) (col_tags (fc_column fc)))"
    and "parent_id = (case fc_parent_index fc of None \<Rightarrow> par | Some k \<Rightarrow> Some (ids ! k))"
    and "\<And>k. fc_parent_index fc = Some k \<Longrightarrow> k < length ids"
proof (cases "i < length ids")
  case True
  show ?thesis
  proof (cases "fc_parent_index fc")
    case None
    from assms have "b = (column_row E t n par (ids ! i) (fc_column fc), column_tag_rows t n (ids ! i) (col_tags (fc_column fc)))"
      by (simp only: flat_row_simps True None)
    with True None that show ?thesis by simp
  next
    case (Some k)
    show ?thesis
    proof (cases "k < length ids")
      case k: True
      from assms have "b = (column_row E t n (Some (ids ! k)) (ids ! i) (fc_column fc), column_tag_rows t n (ids ! i) (col_tags (fc_column fc)))"
        by (simp only: flat_row_simps True Some k)
      with True Some k that show ?thesis by simp
    next
      case False
      then have k: "(idx_get ids k :: i64 result) = Panic ''index out of bounds''" by (simp add: idx_get_def)
      have "flat_column_row E t n par ids (i, fc) = Panic ''index out of bounds''"
        by (simp only: flat_row_simps True Some k)
      with assms show ?thesis by (simp only: res.distinct)
    qed
  qed
next
  case False
  then have i: "(idx_get ids i :: i64 result) = Panic ''index out of bounds''" by (simp add: idx_get_def)
  have "flat_column_row E t n par ids (i, fc) = Panic ''index out of bounds''"
    by (simp only: flat_row_simps i)
  with assms show ?thesis by (simp only: res.distinct)
qed
lemma flat_column_row_from:
  assumes "flat_column_row E t n par ids p = Ok b"
  shows "dc_begin_snapshot (fst b) = n \<and> (\<forall>x\<in>set (snd b). dct_begin_snapshot x = n)"
proof -
  from assms have "flat_column_row E t n par ids (fst p, snd p) = Ok b" by (simp only: prod.collapse)
  then obtain i x where "b = (column_row E t n i (ids ! fst p) (fc_column (snd p)), x)"
    and "x = column_tag_rows t n (ids ! fst p) (col_tags (fc_column (snd p)))"
    by (elim flat_column_row_cases) blast
  then show ?thesis by (auto simp: column_row_def column_tag_rows_def Let_def)
qed

lemma add_column_to_buffers_from:
  assumes "add_column_to_buffers E t par rs c st = (st', Ok b)" and "at_snapshot n st"
  shows "rows_from n b"
proof -
  obtain st1 par_id where 1: "(case par of None \<Rightarrow> ret None | Some r \<Rightarrow> seq (state_column_id r) (\<lambda>i. ret (Some i))) st = (st1, Ok par_id)"
    and rest: "seq (collect_op state_column_id rs) (\<lambda>ids. seq (query (\<lambda>st. collect (flat_column_row E t (st_snapshot_id st) par_id ids)
        (enumerate 0 (flatten c)))) (\<lambda>rows. ret (map fst rows, concat (map snd rows)))) st1 = (st', Ok b)"
    using assms(1) unfolding add_column_to_buffers_def by (blast elim: seq_OkE)
  have "preserves (at_snapshot n) (case par of None \<Rightarrow> ret None | Some r \<Rightarrow> seq (state_column_id r) (\<lambda>i. ret (Some i)))"
    by (cases par) (auto intro!: preserves_seq)
  from preserves_run [OF this 1 assms(2)] have "at_snapshot n st1" .
  from rest obtain st2 ids where 2: "collect_op state_column_id rs st1 = (st2, Ok ids)"
    and rest: "seq (query (\<lambda>st. collect (flat_column_row E t (st_snapshot_id st) par_id ids) (enumerate 0 (flatten c))))
        (\<lambda>rows. ret (map fst rows, concat (map snd rows))) st2 = (st', Ok b)"
    by (blast elim: seq_OkE)
  have "preserves (at_snapshot n) (collect_op state_column_id rs)" by (intro preserves_collect_op) simp
  from preserves_run [OF this 2 \<open>at_snapshot n st1\<close>] have "at_snapshot n st2" .
  with rest obtain rows where rows: "collect (flat_column_row E t n par_id ids) (enumerate 0 (flatten c)) = Ok rows"
    and b: "b = (map fst rows, concat (map snd rows))"
    by (auto elim!: seq_OkE)
  have "dc_begin_snapshot (fst r) = n \<and> (\<forall>x\<in>set (snd r). dct_begin_snapshot x = n)" if "r \<in> set rows" for r
    using collect_Ok_set [OF rows that] flat_column_row_from [of E t n par_id ids _ r] by auto
  then show ?thesis by (auto simp: rows_from_def b)
qed

lemma in_state_OkE:
  assumes "in_state m p = (p', Ok x)"
  obtains st' where "m (snd p) = (st', Ok x)" and "p' = (fst p, st')"
  using assms by (auto simp: in_state_def on_table_def Let_def case_prod_beta prod_eq_iff)

lemma preserves_buffers:
  assumes "\<And>b. rows_from n b \<Longrightarrow> preserves (collected n) (f b)"
  shows "preserves (collected n) (seq (in_state (add_column_to_buffers E t par rs c)) f)"
proof (rule preserves_seq_post [where Q = "rows_from n"])
  show "rows_from n x" if "collected n s" "in_state (add_column_to_buffers E t par rs c) s = (s', Ok x)" for s s' x
    using that by (auto elim!: in_state_OkE intro: add_column_to_buffers_from simp: collected_def)
qed (use assms in \<open>auto intro!: preserves_in_state\<close>)

lemma collect_op_all:
  assumes "collect_op f xs s = (s', Ok ys)" and "I s"
    and "\<And>x. x \<in> set xs \<Longrightarrow> preserves I (f x)"
    and "\<And>x s s' y. x \<in> set xs \<Longrightarrow> I s \<Longrightarrow> f x s = (s', Ok y) \<Longrightarrow> Q y"
  shows "\<forall>y\<in>set ys. Q y"
  using assms
proof (induction xs arbitrary: s ys)
  case (Cons x xs)
  from Cons.prems(1) obtain s1 y zs where 1: "f x s = (s1, Ok y)" "collect_op f xs s1 = (s', Ok zs)" "ys = y # zs"
    by (auto elim!: seq_OkE)
  have "preserves I (f x)" using Cons.prems(3) by simp
  from preserves_run [OF this 1(1) Cons.prems(2)] have "I s1" .
  have "\<forall>y\<in>set zs. Q y"
    by (rule Cons.IH [OF 1(2) \<open>I s1\<close>]; use Cons.prems(3,4) in \<open>meson list.set_intros(2)\<close>)
  moreover have "Q y" using Cons.prems(2,4) 1(1) by (meson list.set_intros(1))
  ultimately show ?case by (simp add: 1(3))
qed simp

lemma preserves_all_buffers:
  assumes "\<And>bs. \<forall>b\<in>set bs. rows_from n b \<Longrightarrow> preserves (collected n) (f bs)"
  shows "preserves (collected n) (seq (in_state (collect_op (\<lambda>(c, rs). add_column_to_buffers E t None rs c) cs)) f)"
proof (rule preserves_seq_post [where Q = "\<lambda>bs. \<forall>b\<in>set bs. rows_from n b"])
  fix s s' bs
  assume s: "collected n s" and run: "in_state (collect_op (\<lambda>(c, rs). add_column_to_buffers E t None rs c) cs) s = (s', Ok bs)"
  from run obtain st' where st': "collect_op (\<lambda>(c, rs). add_column_to_buffers E t None rs c) cs (snd s) = (st', Ok bs)"
    by (rule in_state_OkE)
  show "\<forall>b\<in>set bs. rows_from n b"
  proof (rule collect_op_all [OF st', where I = "at_snapshot n"])
    show "at_snapshot n (snd s)" using s by (simp add: collected_def)
  qed (auto intro: add_column_to_buffers_from)
qed (use assms in \<open>auto intro!: preserves_in_state preserves_collect_op\<close>)

lemmas edit_rules = preserves_edit collected_edits collected_new_rows collected_mapped_rows preserves_in_state

lemma object_rows_collected:
  "preserves (collected n) (create_schema_rows E s name path)" "preserves (collected n) (delete_schema_rows s)"
  "preserves (collected n) (create_view_rows E v)" "preserves (collected n) (delete_view_rows w)"
  "preserves (collected n) (create_macro_rows m)" "preserves (collected n) (delete_macro_rows k)"
  unfolding create_schema_rows_def delete_schema_rows_def create_view_rows_def delete_view_rows_def
    create_macro_rows_def delete_macro_rows_def
  by (auto intro!: executor_rules edit_rules simp: tag_rows_def Let_def case_prod_beta)

lemma column_changes_collected:
  "preserves (collected n) (add_table_column E par rs c)" "preserves (collected n) (update_table_column E par r c)"
  "preserves (collected n) (remove_table_column r)" "preserves (collected n) (change_column_tag r key value)"
  unfolding add_table_column_def update_table_column_def remove_table_column_def change_column_tag_def case_prod_beta
  by (auto intro!: executor_rules edit_rules preserves_buffers simp: rows_from_def)

lemma key_changes_collected:
  "preserves (collected n) (create_partitioning r i refs cols)"
  "preserves (collected n) (create_partitioning_opt r i ro co)"
  "preserves (collected n) (create_sort_info i es)"
  unfolding create_partitioning_opt_def create_partitioning_def create_sort_info_def
  by (auto intro!: executor_rules edit_rules split: prod.split option.split)

lemma table_changes_collected:
  "preserves (collected n) (create_table_rows E t)" "preserves (collected n) (update_table_partitioning r ro co)"
  "preserves (collected n) (update_table_sort_info r so)" "preserves (collected n) (delete_table_rows r d)"
  "preserves (collected n) (change_table_tag r key value)"
  unfolding create_table_rows_def update_table_partitioning_def update_table_sort_info_def delete_table_rows_def change_table_tag_def
  by (auto intro!: executor_rules edit_rules preserves_all_buffers key_changes_collected
      simp: rows_from_def tag_rows_def retired_column_row_def split: option.split)

lemma rename_collected: "preserves (collected n) (rename_table_rows r name)"
  unfolding rename_table_rows_def
proof (intro executor_rules edit_rules)
  fix i c assume c: "collected_ok n c"
  show "collected_ok n (case rename_new_table i (qn_name name) (tc_new_tables c) of
      Some ts \<Rightarrow> c\<lparr>tc_new_tables := ts\<rparr>
    | None \<Rightarrow> c\<lparr>tc_renamed_tables := im_insert i (qn_name name) (tc_renamed_tables c)\<rparr>)"
  proof (cases "rename_new_table i (qn_name name) (tc_new_tables c)")
    case None
    with c show ?thesis by (simp add: collected_ok_def changes_from_def)
  next
    case (Some ts)
    let ?P = "\<lambda>t. dt_begin_snapshot t = n \<and> dt_end_snapshot t = None"
    from c have "\<forall>t\<in>set (tc_new_tables c). ?P t" by (auto simp: collected_ok_def changes_from_def)
    then have ts: "\<forall>t\<in>set ts. ?P t" by (rule rename_new_table_keeps [OF Some, rotated]) simp
    have "collected_ok n (c\<lparr>tc_new_tables := ts\<rparr>)"
      using c ts unfolding collected_ok_def changes_from_def by simp
    then show ?thesis by (simp only: Some option.case)
  qed
qed simp

lemma edit_files_collected:
  assumes "\<And>c. collected_ok n c \<Longrightarrow> collected_ok n (tc_files_update f c)"
  shows "preserves (collected n) (edit_files f)"
  unfolding edit_files_def using assms by (rule preserves_edit)

lemmas file_rules = edit_files_collected collected_mapped_rows preserves_in_state

lemma write_delete_file_collected: "preserves (collected n) (write_delete_file i file d)"
  unfolding write_delete_file_def by (intro executor_rules file_rules) auto

lemma write_data_file_collected: "preserves (collected n) (write_data_file E r i f)"
  unfolding write_data_file_def write_file_details_def data_file_row_def case_prod_beta
  by (intro executor_rules preserves_in_state update_stats_snapshot state_ids_snapshot)
    (simp_all split: option.split, safe intro!: executor_rules file_rules write_delete_file_collected preserves_in_state
      state_ids_snapshot preserves_basic, simp_all)

lemma write_inline_batch_collected: "preserves (collected n) (write_inline_batch E i d)"
  unfolding write_inline_batch_def Let_def
  by (intro executor_rules) (auto intro!: edit_rules preserves_collect_op)

lemma data_changes_collected:
  "preserves (collected n) (write_table_data E r fs)" "preserves (collected n) (write_table_inline_data E r ds)"
  "preserves (collected n) (create_inlined_data_table E r)"
  unfolding write_table_data_def write_table_inline_data_def create_inlined_data_table_def
  by (intro executor_rules preserves_collect_op;
      auto intro!: edit_rules write_data_file_collected write_inline_batch_collected)+

lemma apply_change_collected: "preserves (collected n) (apply_change E c)"
  by (cases c) (simp_all add: object_rows_collected column_changes_collected table_changes_collected rename_collected
      data_changes_collected add_table_column_tag_def remove_table_column_tag_def add_table_tag_def remove_table_tag_def)

lemma apply_change_set_collected: "preserves (collected n) (apply_change_set E cs)"
  unfolding apply_change_set_def
  by (auto intro!: executor_rules apply_change_collected data_changes_collected preserves_in_state
      simp: check_inline_def split: change.split)

lemma apply_change_set_ok:
  assumes "apply_change_set E cs (tx_changes_default, st) = ((c, st'), r)"
  shows "collected_ok (st_snapshot_id st) c" and "st_snapshot_id st' = st_snapshot_id st"
proof -
  have "collected (st_snapshot_id st) (tx_changes_default, st)"
    by (simp add: collected_def collected_ok_def changes_from_def tx_changes_default_def)
  from preserves_run [OF apply_change_set_collected assms this]
  show "collected_ok (st_snapshot_id st) c" and "st_snapshot_id st' = st_snapshot_id st"
    by (simp_all add: collected_def)
qed

end
