(* ===== verification/Commit.thy ===== *)
theory Commit
  imports Executors_Rows AppliedChanges
begin

text \<open>
  \<open>transaction/mod.rs\<close>: committing a transaction. One attempt applies the change set to a copy
  of the catalog and writes everything in one database transaction; when another client took
  the snapshot ID, the changes it made are checked for conflicts and the commit is retried on
  the latest snapshot. Between any two accesses to the database other clients may write, so the
  loop runs against a \<open>schedule\<close> of stores, one per access.
\<close>

section \<open>The changes a snapshot records\<close>

definition altered_table :: "table_ref \<Rightarrow> applied_change commit_op" where
  "altered_table r = seq (state_table_id r) (\<lambda>i. ret (AlteredTable i))"

fun applied_change_of :: "change \<Rightarrow> applied_change commit_op" where
  "applied_change_of (CreateSchema s name path) = ret (CreatedSchema name)"
| "applied_change_of (DeleteSchema s) = seq (state_schema_id s) (\<lambda>i. ret (DroppedSchema i))"
| "applied_change_of (CreateTable t) = ret (CreatedTable (crt_name t))"
| "applied_change_of (RenameTable t name) = ret (CreatedTable name)"
| "applied_change_of (UpdateTablePartitioning t refs cs) = altered_table t"
| "applied_change_of (UpdateTableSortInfo t es) = altered_table t"
| "applied_change_of (AddTableTag t tg) = altered_table t"
| "applied_change_of (RemoveTableTag t key) = altered_table t"
| "applied_change_of (AddTableColumn p cs c) =
     seq (lift_res (idx_get cs 0)) (\<lambda>r. altered_table (cr_table_ref r))"
| "applied_change_of (UpdateTableColumn p r c) = altered_table (cr_table_ref r)"
| "applied_change_of (RemoveTableColumn r) = altered_table (cr_table_ref r)"
| "applied_change_of (AddTableColumnTag r tg) = altered_table (cr_table_ref r)"
| "applied_change_of (RemoveTableColumnTag r key) = altered_table (cr_table_ref r)"
| "applied_change_of (DeleteTable t detach) = seq (state_table_id t) (\<lambda>i. ret (DroppedTable i))"
| "applied_change_of (CreateView v) = ret (CreatedView (crv_name v))"
| "applied_change_of (DeleteView v) = seq (state_view_id v) (\<lambda>i. ret (DroppedView i))"
| "applied_change_of (CreateMacro m) =
     ret (case crm_macro_type m of
            Scalar \<Rightarrow> CreatedScalarMacro (qn_to_string (crm_name m))
          | Table \<Rightarrow> CreatedTableMacro (qn_to_string (crm_name m)))"
| "applied_change_of (DeleteMacro m ty) =
     seq (state_macro_id m) (\<lambda>i. ret (case ty of Scalar \<Rightarrow> DroppedScalarMacro i | Table \<Rightarrow> DroppedTableMacro i))"
| "applied_change_of (WriteTableDataFiles t fs) = seq (state_table_id t) (\<lambda>i. ret (InsertedIntoTable i))"
| "applied_change_of (WriteTableInlineData t ds) = seq (state_table_id t) (\<lambda>i. ret (InlinedInsert i))"

definition change_set_applied :: "change list \<Rightarrow> applied_change_set commit_op" where
  "change_set_applied cs = seq (collect_op applied_change_of cs) (\<lambda>acs. ret (applied_set_new acs))"

definition inline_write_refs :: "change list \<Rightarrow> table_ref list" where
  "inline_write_refs cs = List.map_filter (\<lambda>c. case c of WriteTableInlineData t _ \<Rightarrow> Some t | _ \<Rightarrow> None) cs"

definition table_ids_with_inline_data_writes :: "change list \<Rightarrow> i64 list commit_op" where
  "table_ids_with_inline_data_writes cs =
     seq (collect_op state_table_id (inline_write_refs cs)) (\<lambda>ids. ret (unique ids))"

definition created_table_ids :: "change list \<Rightarrow> i64 list commit_op" where
  "created_table_ids cs = collect_op state_table_id (created_tables cs)"

definition table_ids_with_schema_changes :: "change list \<Rightarrow> i64 list commit_op" where
  "table_ids_with_schema_changes cs = collect_op state_table_id (table_refs_with_schema_changes cs)"

section \<open>One attempt\<close>

record author_info =
  ai_author :: "string option"
  ai_message :: "string option"
  ai_extra_info :: "string option"

definition snapshot_info_of :: "ducklake_snapshot \<Rightarrow> snapshot_info" where
  "snapshot_info_of s =
     \<lparr>sni_id = dsn_snapshot_id s, sni_time = dsn_snapshot_time s, sni_schema_version = dsn_schema_version s,
      sni_next_catalog_id = dsn_next_catalog_id s, sni_next_file_id = dsn_next_file_id s\<rparr>"

text \<open>\<open>insert_entity\<close>, into a table with a primary key.\<close>

definition insert_entity :: "('r \<Rightarrow> i64) \<Rightarrow> 'r \<Rightarrow> 'r table_op" where
  "insert_entity key row t = (if key row \<in> key ` set t then (t, Err unique_violation) else (t @ [row], Ok ()))"

definition finalize_commit ::
  "env \<Rightarrow> date_time_utc \<Rightarrow> applied_change_set \<Rightarrow> i64 list \<Rightarrow> author_info \<Rightarrow> commit_state \<Rightarrow> snapshot_info store_op"
where
  "finalize_commit E now applied tables author st =
     (let snapshot = snapshot_of_state now st in
      seq (on_table db_snapshots db_snapshots_update (insert_entity dsn_snapshot_id snapshot)) (\<lambda>_.
      seq (on_table db_snapshot_changes db_snapshot_changes_update (insert_entity dsnc_snapshot_id
            \<lparr>dsnc_snapshot_id = st_snapshot_id st, dsnc_changes_made = applied_set_to_string applied,
             dsnc_author = ai_author author, dsnc_commit_message = ai_message author,
             dsnc_commit_extra_info = ai_extra_info author\<rparr>)) (\<lambda>_.
      seq (on_table db_schema_versions db_schema_versions_update (insert_entities (env_dialect E) 3
            (map (\<lambda>i. \<lparr>dsv_begin_snapshot = st_snapshot_id st, dsv_schema_version = st_schema_version st,
                       dsv_table_id = Some i\<rparr>) tables))) (\<lambda>_.
        ret (snapshot_info_of snapshot)))))"

text \<open>A database transaction: when a statement or the final \<open>COMMIT\<close> fails, the store is rolled back.\<close>

definition transactional ::
  "ducklake_error option \<Rightarrow> (store \<times> 's, ducklake_error, 'a) op \<Rightarrow> (store \<times> 's, ducklake_error, 'a) op"
where
  "transactional commit_error m p =
     (case m p of
        ((db', s), Ok x) \<Rightarrow> (case commit_error of None \<Rightarrow> ((db', s), Ok x) | Some e \<Rightarrow> ((fst p, s), Err e))
      | ((db', s), r) \<Rightarrow> ((fst p, s), r))"

definition on_state :: "'a commit_op \<Rightarrow> (store \<times> commit_state, ducklake_error, 'a) op" where
  "on_state m = on_table snd (\<lambda>f p. (fst p, f (snd p))) m"

definition collect_changes :: "env \<Rightarrow> change list \<Rightarrow> tx_changes commit_op" where
  "collect_changes E cs st =
     (let (p, r) = apply_change_set E cs (tx_changes_default, st) in (snd p, and_then r (\<lambda>_. Ok (fst p))))"

definition write_commit ::
  "env \<Rightarrow> date_time_utc \<Rightarrow> tx_changes \<Rightarrow> applied_change_set \<Rightarrow> i64 list \<Rightarrow> author_info
    \<Rightarrow> (store \<times> commit_state, ducklake_error, snapshot_info) op"
where
  "write_commit E now c applied tables author =
     seq (persist E c) (\<lambda>_ p.
       let (db, r) = finalize_commit E now applied tables author (snd p) (fst p) in ((db, snd p), r))"

definition inline_and_schema_change :: string where
  "inline_and_schema_change =
     ''Cannot currently write inline data to a table that has schema changes within the same transaction''"

definition apply_changes ::
  "env \<Rightarrow> date_time_utc \<Rightarrow> ducklake_error option \<Rightarrow> change list \<Rightarrow> author_info
    \<Rightarrow> (store \<times> commit_state, ducklake_error, snapshot_info) op"
where
  "apply_changes E now commit_error cs author =
     seq (on_state (collect_changes E cs)) (\<lambda>c.
     seq (on_state (change_set_applied cs)) (\<lambda>applied.
     seq (on_state (table_ids_with_inline_data_writes cs)) (\<lambda>inline_ids.
     seq (on_state (created_table_ids cs)) (\<lambda>created.
     seq (on_state (table_ids_with_schema_changes cs)) (\<lambda>changed.
       if list_ex (\<lambda>i. i \<in> set changed \<and> i \<notin> set created) inline_ids then lift_res (Panic inline_and_schema_change)
       else transactional commit_error (write_commit E now c applied changed author))))))"

section \<open>The snapshots of a store\<close>

definition no_row :: ducklake_error where
  "no_row = other_db_error ''no rows returned by a query that expected to return at least one row''"

text \<open>\<open>ORDER BY snapshot_id DESC LIMIT 1\<close>.\<close>

fun latest_of :: "ducklake_snapshot list \<Rightarrow> ducklake_snapshot option" where
  "latest_of [] = None"
| "latest_of (s # ss) =
     (case latest_of ss of
        None \<Rightarrow> Some s
      | Some t \<Rightarrow> Some (if dsn_snapshot_id t > dsn_snapshot_id s then t else s))"

definition load_latest :: "store \<Rightarrow> snapshot_info result" where
  "load_latest db = and_then (ok_or no_row (latest_of (db_snapshots db))) (\<lambda>s. Ok (snapshot_info_of s))"

definition get_snapshot_changes :: "store \<Rightarrow> i64 \<Rightarrow> i64 \<Rightarrow> applied_change_set list result" where
  "get_snapshot_changes db from_snapshot to_snapshot =
     collect (\<lambda>c. parse_applied_set (dsnc_changes_made c))
       (filter (\<lambda>c. i64_add from_snapshot 1 \<le> dsnc_snapshot_id c \<and> dsnc_snapshot_id c \<le> to_snapshot)
         (db_snapshot_changes db))"

text \<open>\<open>insert_snapshot\<close>: the head of the cache after a snapshot was seen, and the snapshot to use.\<close>

definition insert_snapshot :: "snapshot_info \<Rightarrow> snapshot_info \<Rightarrow> snapshot_info \<times> snapshot_info" where
  "insert_snapshot current info =
     (if sni_id current = sni_id info then (current, current)
      else (if sni_id info > sni_id current then info else current, info))"

section \<open>The retry loop\<close>

record schedule =
  at_stats :: "nat \<Rightarrow> store"
  at_tx :: "nat \<Rightarrow> store"
  at_latest :: "nat \<Rightarrow> store"
  at_changes :: "nat \<Rightarrow> store"
  commit_errors :: "nat \<Rightarrow> ducklake_error option"

record commit_args =
  ca_env :: env
  ca_now :: date_time_utc
  ca_load_stats :: "store \<Rightarrow> snapshot_info \<Rightarrow> (i64, table_stats) imap result"
  ca_catalog :: catalog
  ca_author :: author_info
  ca_changes :: "change list"
  ca_start :: snapshot_info

definition max_retry_count :: nat where
  "max_retry_count = 10"

definition attempt_state :: "commit_args \<Rightarrow> store \<Rightarrow> snapshot_info \<Rightarrow> commit_state result" where
  "attempt_state A db latest =
     and_then (if change_set_requires_table_stats (ca_changes A)
               then and_then (ca_load_stats A db latest) (\<lambda>s. Ok (Some s)) else Ok None) (\<lambda>stats.
       Ok (commit_state_new latest (ca_catalog A) (change_set_changes_schema (ca_changes A)) stats))"

definition retryable :: "nat \<Rightarrow> ducklake_error \<Rightarrow> bool" where
  "retryable i e \<longleftrightarrow>
     (case e of
        Database d \<Rightarrow> de_unique_violation d \<or> (de_table_already_exists d \<and> i < max_retry_count)
      | _ \<Rightarrow> False)"

text \<open>
  After a failed attempt: no snapshot since the start of the transaction conflicts with its
  changes. \<open>st\<close> is the state the attempt left, with the IDs it drew.
\<close>

definition check_conflicts :: "commit_args \<Rightarrow> store \<Rightarrow> snapshot_info \<Rightarrow> commit_state \<Rightarrow> unit result" where
  "check_conflicts A db latest st =
     and_then (get_snapshot_changes db (sni_id (ca_start A)) (sni_id latest)) (\<lambda>made.
     and_then (snd (change_set_applied (ca_changes A) st)) (\<lambda>ours.
       fold_res (\<lambda>other _. check_set_conflict ours other (ca_catalog A)) made ()))"

text \<open>
  The result is the head of the snapshot cache, the round that wrote with the store it left,
  and what the caller gets.
\<close>

type_synonym commit_outcome = "snapshot_info \<times> (nat \<times> store) option \<times> unit result"

definition failed :: "snapshot_info \<Rightarrow> ducklake_error \<Rightarrow> commit_outcome" where
  "failed cache e = (cache, None, Err e)"

definition panicked :: "snapshot_info \<Rightarrow> string \<Rightarrow> commit_outcome" where
  "panicked cache m = (cache, None, Panic m)"

text \<open>
  The retry arm and the whole body of one round: either the loop ends, or it goes on with a head
  of the cache and a snapshot to commit on.
\<close>

definition retry_arm ::
  "commit_args \<Rightarrow> schedule \<Rightarrow> nat \<Rightarrow> snapshot_info \<Rightarrow> commit_state \<Rightarrow> commit_outcome + snapshot_info \<times> snapshot_info"
where
  "retry_arm A W i cache st =
     (case load_latest (at_latest W i) of
        Err e \<Rightarrow> Inl (failed cache e)
      | Panic m \<Rightarrow> Inl (panicked cache m)
      | Ok info \<Rightarrow>
          (case insert_snapshot cache info of (cache', latest) \<Rightarrow>
             (case check_conflicts A (at_changes W i) latest st of
                Ok _ \<Rightarrow> Inr (cache', latest)
              | Err e \<Rightarrow> Inl (failed cache' e)
              | Panic m \<Rightarrow> Inl (panicked cache' m))))"

definition commit_body ::
  "commit_args \<Rightarrow> schedule \<Rightarrow> nat \<Rightarrow> snapshot_info \<Rightarrow> snapshot_info \<Rightarrow> commit_outcome + snapshot_info \<times> snapshot_info"
where
  "commit_body A W i cache latest =
     (case attempt_state A (at_stats W i) latest of
        Err e \<Rightarrow> Inl (failed cache e)
      | Panic m \<Rightarrow> Inl (panicked cache m)
      | Ok st \<Rightarrow>
         (case apply_changes (ca_env A) (ca_now A) (commit_errors W i) (ca_changes A) (ca_author A) (at_tx W i, st) of
            ((db, st'), Ok info) \<Rightarrow> Inl (fst (insert_snapshot cache info), Some (i, db), Ok ())
          | ((db, st'), Panic m) \<Rightarrow> Inl (panicked cache m)
          | ((db, st'), Err e) \<Rightarrow>
             (if retryable i e then retry_arm A W i cache st' else Inl (failed cache e))))"

function commit_round :: "commit_args \<Rightarrow> schedule \<Rightarrow> nat \<Rightarrow> snapshot_info \<Rightarrow> snapshot_info \<Rightarrow> commit_outcome" where
  "commit_round A W i cache latest =
     (if i > max_retry_count then failed cache RetriesExceeded
      else case commit_body A W i cache latest of
             Inl outcome \<Rightarrow> outcome
           | Inr (cache', latest') \<Rightarrow> commit_round A W (Suc i) cache' latest')"
  by pat_completeness auto
termination
  by (relation "measure (\<lambda>(A, W, i, cache, latest). Suc max_retry_count - i)") auto

declare commit_round.simps [simp del]

definition commit :: "commit_args \<Rightarrow> schedule \<Rightarrow> snapshot_info \<Rightarrow> change list \<Rightarrow> commit_outcome" where
  "commit A W cache changes =
     (let cs = change_set_new changes in
      if cs = [] then (cache, None, Ok ())
      else commit_round (A\<lparr>ca_changes := cs\<rparr>) W 0 cache (ca_start A))"

end
