(* ===== verification/Data_Writes.thy ===== *)
theory Data_Writes
  imports Executors_Rows
begin

text \<open>
  The IDs that writing data files draws: the row IDs of the files of a table follow one another,
  starting at the table's next row ID, and the file IDs are consecutive. Both are stated by
  recursive specifications over the list of files.
\<close>

definition next_row :: "commit_state \<Rightarrow> i64 \<Rightarrow> i64" where
  "next_row st i =
     (case st_table_stats st of
        None \<Rightarrow> 0
      | Some m \<Rightarrow> (case im_get m i of None \<Rightarrow> 0 | Some s \<Rightarrow> ts_next_row_id s))"

text \<open>The files collected so far, the next row ID of table \<open>i\<close> and the next file ID.\<close>

definition writing :: "i64 \<Rightarrow> ducklake_data_file list \<Rightarrow> i64 \<Rightarrow> i64 \<Rightarrow> tx_changes \<times> commit_state \<Rightarrow> bool" where
  "writing i ds k m p \<longleftrightarrow>
     fch_data_files (tc_files (fst p)) = ds \<and> next_row (snd p) i = k \<and> st_next_file_id (snd p) = m"

abbreviation counting :: "i64 \<Rightarrow> i64 \<Rightarrow> i64 \<Rightarrow> commit_state \<Rightarrow> bool" where
  "counting i k m st \<equiv> next_row st i = k \<and> st_next_file_id st = m"

lemma writing_in_state:
  "preserves (counting i k m) op' \<Longrightarrow> preserves (writing i ds k m) (in_state op')"
  unfolding in_state_def by (rule preserves_on_table) (auto simp: writing_def preserves_def)

lemma next_row_insert:
  "st_table_stats st = Some m \<Longrightarrow> next_row (st\<lparr>st_table_stats := Some (im_insert j s m)\<rparr>) i =
     (if i = j then ts_next_row_id s else next_row st i)"
  by (simp add: next_row_def)

lemma state_table_stats_counting: "preserves (counting i k m) (state_table_stats j)"
  by (auto simp: preserves_def state_table_stats_def Let_def next_row_insert next_row_def table_stats_default_def
      split: option.splits)

lemma state_table_stats_next:
  assumes "state_table_stats i st = (st', Ok s)"
  shows "ts_next_row_id s = next_row st i" and "\<exists>m. st_table_stats st' = Some (im_insert i s m)"
  using assms by (auto simp: state_table_stats_def Let_def next_row_def table_stats_default_def split: option.splits)

lemma resolve_partition_counting: "preserves (counting i k m) (state_partition_id r)"
  unfolding state_partition_id_def resolve_with_def
  by (intro preserves_seq preserves_query)
    (auto simp: catalog_id_def on_catalog_def preserves_def case_prod_beta Let_def seq_app next_row_def
      split: option.split res.split)

lemma state_column_id_counting: "preserves (counting i k m) (state_column_id r)"
  by (simp add: state_column_id_def)

lemma state_update_stats_run:
  assumes "state_update_stats i f st = (st', Ok u)" and "counting i k m st"
  shows "\<exists>s. ts_next_row_id s = k \<and> counting i (ts_next_row_id (f s)) m st'"
proof -
  from assms(1) obtain st1 s where 1: "state_table_stats i st = (st1, Ok s)"
    and st': "st' = st1\<lparr>st_table_stats := map_option (im_insert i (f s)) (st_table_stats st1)\<rparr>"
    by (auto simp: state_update_stats_def elim!: seq_OkE)
  from preserves_run [OF state_table_stats_counting 1 assms(2)] have "counting i k m st1" .
  with state_table_stats_next [OF 1] assms(2) st' show ?thesis
    by (auto simp: next_row_def intro!: exI [of _ s])
qed

lemma update_column_stats_counting:
  "preserves (counting i k m) (state_update_stats i (update_column_stats c f))"
proof (unfold preserves_def, intro allI impI)
  fix st assume c: "counting i k m st"
  obtain st' r where run: "state_update_stats i (update_column_stats c f) st = (st', r)" by fastforce
  show "counting i k m (fst (state_update_stats i (update_column_stats c f) st))"
  proof (cases r)
    case (Ok u)
    with state_update_stats_run [of i "update_column_stats c f" st st' u k m] run c show ?thesis
      by (auto simp: update_column_stats_def)
  qed (use c run in \<open>auto simp: state_update_stats_def state_table_stats_def seq_app Let_def split: option.splits\<close>)
qed

lemma column_updates_counting:
  "preserves (counting i k m) (for_each (\<lambda>(r, c). seq (state_column_id r) (\<lambda>column.
     state_update_stats i (update_column_stats column (g c)))) xs)"
  by (intro preserves_for_each)
    (auto intro!: preserves_seq state_column_id_counting update_column_stats_counting)

lemma update_from_file_run:
  assumes "update_table_stats_from_file E i f st = (st', Ok u)" and "counting i k m st"
  shows "counting i (i64_add k (usize_as_i64 (cdf_num_rows f))) m st'"
proof -
  from assms(1) obtain st1 v where 1: "state_update_stats i (\<lambda>s. add_file_size_bytes (map_option usize_as_i64 (cdf_file_size_bytes f))
      (add_record_count (usize_as_i64 (cdf_num_rows f)) (advance_row_id (usize_as_i64 (cdf_num_rows f)) s))) st = (st1, Ok v)"
    and 2: "for_each (\<lambda>(r, c). seq (state_column_id r) (\<lambda>column. state_update_stats i (update_column_stats column
      (update_column_bounds E (fcs_null_count c) (fcs_contains_nan c) (fcs_min_value c) (fcs_max_value c)))))
      (cdf_column_stats f) st1 = (st', Ok u)"
    unfolding update_table_stats_from_file_def Let_def by (blast elim: seq_OkE)
  from state_update_stats_run [OF 1 assms(2)]
  have "counting i (i64_add k (usize_as_i64 (cdf_num_rows f))) m st1"
    by (auto simp: add_file_size_bytes_def add_record_count_def advance_row_id_def)
  from preserves_run [OF column_updates_counting 2 this] show ?thesis .
qed

lemma file_id_run:
  "in_state file_id p = (p', Ok x) \<Longrightarrow> writing i ds k m p \<Longrightarrow> x = m \<and> writing i ds k (i64_add m 1) p'"
  by (auto elim!: in_state_OkE simp: file_id_def writing_def next_row_def)

lemma edit_writing:
  "(\<And>c. fch_data_files (tc_files (f c)) = fch_data_files (tc_files c)) \<Longrightarrow> preserves (writing i ds k m) (edit f)"
  by (simp add: edit_def preserves_def writing_def)

lemma snapshot_id_writing: "preserves (writing i ds k m) snapshot_id"
  by (simp add: snapshot_id_def)

section \<open>Assertions on successful runs\<close>

definition run_ok :: "('s \<Rightarrow> bool) \<Rightarrow> ('s, 'e, 'a) op \<Rightarrow> ('a \<Rightarrow> 's \<Rightarrow> bool) \<Rightarrow> bool" where
  "run_ok P m Q \<longleftrightarrow> (\<forall>s s' x. P s \<longrightarrow> m s = (s', Ok x) \<longrightarrow> Q x s')"

lemma run_okI: "(\<And>s s' x. P s \<Longrightarrow> m s = (s', Ok x) \<Longrightarrow> Q x s') \<Longrightarrow> run_ok P m Q"
  unfolding run_ok_def by blast

lemma run_okD: "run_ok P m Q \<Longrightarrow> m s = (s', Ok x) \<Longrightarrow> P s \<Longrightarrow> Q x s'"
  unfolding run_ok_def by blast

lemma run_ok_seq: "run_ok P m Q \<Longrightarrow> (\<And>x. run_ok (Q x) (f x) R) \<Longrightarrow> run_ok P (seq m f) R"
  unfolding run_ok_def by (auto elim!: seq_OkE)

lemma run_ok_preserves: "preserves I m \<Longrightarrow> run_ok I m (\<lambda>_. I)"
  unfolding run_ok_def by (metis preserves_run)

lemma run_ok_keep: "preserves I m \<Longrightarrow> (\<And>x. run_ok I (f x) R) \<Longrightarrow> run_ok I (seq m f) R"
  by (rule run_ok_seq [OF run_ok_preserves])

lemma run_ok_pure: "(A \<Longrightarrow> run_ok P m Q) \<Longrightarrow> run_ok (\<lambda>s. A \<and> P s) m Q"
  unfolding run_ok_def by blast

section \<open>One file\<close>

lemma write_delete_file_run:
  "run_ok (writing i ds k m) (write_delete_file j fid d) (\<lambda>_. writing i ds k (i64_add m 1))"
  unfolding write_delete_file_def
proof (rule run_ok_seq)
  show "run_ok (writing i ds k m) (in_state file_id) (\<lambda>_. writing i ds k (i64_add m 1))"
    by (rule run_okI) (use file_id_run in blast)
qed (intro run_ok_keep run_ok_preserves snapshot_id_writing; simp add: edit_files_def edit_writing)

lemma write_delete_files_run:
  assumes "0 \<le> m" and "m + int (length xs) \<le> i64_max"
  shows "run_ok (writing i ds k m) (for_each (write_delete_file j fid) xs) (\<lambda>_. writing i ds k (m + int (length xs)))"
  using assms
proof (induction xs arbitrary: m)
  case Nil
  show ?case by (simp add: run_ok_def)
next
  case (Cons x xs)
  have "i64_add m 1 = m + 1" using Cons.prems by (intro i64_add_id) (simp add: i64_defs)
  with write_delete_file_run [of i ds k m j fid x]
  have "run_ok (writing i ds k m) (write_delete_file j fid x) (\<lambda>_. writing i ds k (m + 1))" by simp
  moreover have "run_ok (writing i ds k (m + 1)) (for_each (write_delete_file j fid) xs)
      (\<lambda>_. writing i ds k (m + int (length (x # xs))))"
    using Cons.IH [of "m + 1"] Cons.prems by (simp add: algebra_simps)
  ultimately show ?case by (simp add: run_ok_seq)
qed

lemma write_file_details_run:
  assumes "0 \<le> m" and "m + int (length (cdf_delete_files f)) \<le> i64_max"
  shows "run_ok (writing i ds k m) (write_file_details E i fid n f)
    (\<lambda>_. writing i ds k (m + int (length (cdf_delete_files f))))"
  unfolding write_file_details_def case_prod_beta
  by (rule run_ok_seq [OF write_delete_files_run [OF assms]])
    (intro run_ok_keep run_ok_preserves preserves_collect_op;
      auto simp: edit_files_def intro!: preserves_seq writing_in_state edit_writing state_column_id_counting split: option.split)

lemma next_row_query:
  "run_ok (writing i ds k m) (in_state (state_table_stats i)) (\<lambda>s p. ts_next_row_id s = k \<and> writing i ds k m p)"
proof (rule run_okI, rule conjI)
  fix p p' s
  assume w: "writing i ds k m p" and run: "in_state (state_table_stats i) p = (p', Ok s)"
  show "ts_next_row_id s = k"
    using w run state_table_stats_next(1) [of i] by (auto elim!: in_state_OkE simp: writing_def)
  show "writing i ds k m p'"
    by (rule preserves_run [OF writing_in_state [OF state_table_stats_counting] run w])
qed

lemma update_from_file_writing:
  "run_ok (writing i ds k m) (in_state (update_table_stats_from_file E i f))
     (\<lambda>_. writing i ds (i64_add k (usize_as_i64 (cdf_num_rows f))) m)"
  by (rule run_okI) (auto elim!: in_state_OkE simp: writing_def dest!: update_from_file_run)

definition new_file :: "i64 \<Rightarrow> i64 \<Rightarrow> i64 \<Rightarrow> i64 \<Rightarrow> ducklake_data_file \<Rightarrow> bool" where
  "new_file i m k rows d \<longleftrightarrow> ddf_data_file_id d = m \<and> ddf_table_id d = i \<and> ddf_row_id_start d = Some k
     \<and> ddf_record_count d = rows"

lemma write_data_file_run:
  assumes "0 \<le> k" "k + int (cdf_num_rows f) \<le> i64_max"
    and "0 \<le> m" "m + 1 + int (length (cdf_delete_files f)) \<le> i64_max"
  shows "run_ok (writing i ds k m) (write_data_file E r i f)
    (\<lambda>_ p. \<exists>d. new_file i m k (int (cdf_num_rows f)) d \<and>
       writing i (ds @ [d]) (k + int (cdf_num_rows f)) (m + 1 + int (length (cdf_delete_files f))) p)"
proof -
  let ?k = "k + int (cdf_num_rows f)"
  have m: "i64_add m 1 = m + 1" using assms by (intro i64_add_id) (simp add: i64_defs)
  have num: "usize_as_i64 (cdf_num_rows f) = int (cdf_num_rows f)"
    using assms by (intro usize_as_i64_id) (simp add: i64_defs)
  have k: "i64_add k (int (cdf_num_rows f)) = ?k"
    using assms by (intro i64_add_id) (simp add: i64_defs)
  have 1: "run_ok (writing i ds k m) (in_state file_id) (\<lambda>fid p. fid = m \<and> writing i ds k (m + 1) p)"
    by (rule run_okI) (use file_id_run [of _ _ _ i ds k m] m in auto)
  have 2: "run_ok (writing i ds k (m + 1)) (in_state (update_table_stats_from_file E i f)) (\<lambda>_. writing i ds ?k (m + 1))"
    using update_from_file_writing [of i ds k "m + 1" E f] num k by simp
  have 3: "preserves (writing i ds ?k (m + 1)) (case cdf_partition_values f of None \<Rightarrow> ret None
      | Some _ \<Rightarrow> seq (in_state (state_partition_id r)) (\<lambda>k. ret (Some k)))"
    by (auto intro!: preserves_seq writing_in_state resolve_partition_counting split: option.split)
  have 4: "run_ok (writing i ds ?k (m + 1)) (edit_files (fch_data_files_update (\<lambda>rows. rows @ [d]))) (\<lambda>_. writing i (ds @ [d]) ?k (m + 1))"
    for d by (auto simp: run_ok_def edit_files_def edit_def writing_def)
  have 5: "run_ok (writing i (ds @ [d]) ?k (m + 1)) (write_file_details E i fid n f)
      (\<lambda>_ p. \<exists>d. new_file i m k (int (cdf_num_rows f)) d \<and> writing i (ds @ [d]) ?k (m + 1 + int (length (cdf_delete_files f))) p)"
    if "new_file i m k (int (cdf_num_rows f)) d" for d fid n
    using write_file_details_run [of "m + 1" f i "ds @ [d]" ?k E fid n] assms(3,4) that unfolding run_ok_def by auto
  show ?thesis
    unfolding write_data_file_def
    by (rule run_ok_seq [OF 1], rule run_ok_pure, rule run_ok_seq [OF next_row_query], rule run_ok_pure,
        rule run_ok_seq [OF 2], rule run_ok_keep [OF snapshot_id_writing], rule run_ok_keep [OF 3],
        rule run_ok_seq [OF 4], rule 5) (simp add: new_file_def data_file_row_def num)
qed

section \<open>All files\<close>

fun new_files :: "i64 \<Rightarrow> i64 \<Rightarrow> i64 \<Rightarrow> commit_data_file list \<Rightarrow> ducklake_data_file list \<Rightarrow> bool" where
  "new_files i m k [] ds \<longleftrightarrow> ds = []"
| "new_files i m k (f # fs) ds \<longleftrightarrow>
     (case ds of
        [] \<Rightarrow> False
      | d # ds' \<Rightarrow> new_file i m k (int (cdf_num_rows f)) d \<and>
          new_files i (m + 1 + int (length (cdf_delete_files f))) (k + int (cdf_num_rows f)) fs ds')"

definition total_rows :: "commit_data_file list \<Rightarrow> int" where
  "total_rows fs = sum_list (map (\<lambda>f. int (cdf_num_rows f)) fs)"

definition total_files :: "commit_data_file list \<Rightarrow> int" where
  "total_files fs = sum_list (map (\<lambda>f. 1 + int (length (cdf_delete_files f))) fs)"

lemma totals_nonneg: "0 \<le> total_rows fs" "0 \<le> total_files fs"
  unfolding total_rows_def total_files_def by (intro sum_list_nonneg; auto)+

lemma totals_Cons [simp]:
  "total_rows (f # fs) = int (cdf_num_rows f) + total_rows fs"
  "total_files (f # fs) = 1 + int (length (cdf_delete_files f)) + total_files fs"
  by (simp_all add: total_rows_def total_files_def)

lemma write_data_files_run:
  assumes "0 \<le> k" "k + total_rows fs \<le> i64_max" "0 \<le> m" "m + total_files fs \<le> i64_max"
  shows "run_ok (writing i ds k m) (collect_op (write_data_file E r i) fs)
    (\<lambda>_ p. \<exists>new. new_files i m k fs new \<and> writing i (ds @ new) (k + total_rows fs) (m + total_files fs) p)"
  using assms
proof (induction fs arbitrary: k m ds)
  case Nil
  show ?case by (auto simp: run_ok_def total_rows_def total_files_def)
next
  case (Cons f fs)
  let ?k = "k + int (cdf_num_rows f)" and ?m = "m + 1 + int (length (cdf_delete_files f))"
  let ?R = "\<lambda>_ p. \<exists>new. new_files i m k (f # fs) new \<and>
    writing i (ds @ new) (k + total_rows (f # fs)) (m + total_files (f # fs)) p"
  have rest: "run_ok (writing i (ds @ [d]) ?k ?m) (collect_op (write_data_file E r i) fs) ?R"
    if d: "new_file i m k (int (cdf_num_rows f)) d" for d
  proof (rule run_okI)
    fix p p' ys
    assume "writing i (ds @ [d]) ?k ?m p" and "collect_op (write_data_file E r i) fs p = (p', Ok ys)"
    from run_okD [OF Cons.IH this(2,1)] Cons.prems totals_nonneg [of fs]
    obtain new where "new_files i ?m ?k fs new" "writing i ((ds @ [d]) @ new) (?k + total_rows fs) (?m + total_files fs) p'"
      by auto
    with d show "\<exists>new. new_files i m k (f # fs) new \<and>
        writing i (ds @ new) (k + total_rows (f # fs)) (m + total_files (f # fs)) p'"
      by (intro exI [of _ "d # new"]) (simp add: algebra_simps)
  qed
  show ?case
    unfolding collect_op.simps
  proof (rule run_ok_seq [OF write_data_file_run])
    show "run_ok (\<lambda>p. \<exists>d. new_file i m k (int (cdf_num_rows f)) d \<and> writing i (ds @ [d]) ?k ?m p)
        (seq (collect_op (write_data_file E r i) fs) (\<lambda>ys. ret (y # ys))) ?R" for y
    proof (rule run_ok_seq [where Q = ?R])
      show "run_ok (\<lambda>p. \<exists>d. new_file i m k (int (cdf_num_rows f)) d \<and> writing i (ds @ [d]) ?k ?m p)
          (collect_op (write_data_file E r i) fs) ?R"
        using rest unfolding run_ok_def by blast
    qed (simp add: run_ok_def)
  qed (use Cons.prems totals_nonneg [of fs] in \<open>unfold totals_Cons; linarith\<close>)+
qed

lemma state_table_id_counting: "preserves (counting i k m) (state_table_id r)"
  unfolding state_table_id_def resolve_with_def
  by (intro preserves_seq preserves_query)
    (auto simp: catalog_id_def on_catalog_def preserves_def case_prod_beta Let_def seq_app next_row_def
      split: option.split res.split)

lemma write_table_data_run:
  assumes "write_table_data E r fs (c, st) = ((c', st'), Ok u)" and "state_table_id r st = (st0, Ok i)"
    and "0 \<le> next_row st i" "next_row st i + total_rows fs \<le> i64_max"
    and "0 \<le> st_next_file_id st" "st_next_file_id st + total_files fs \<le> i64_max"
  shows "\<exists>new. fch_data_files (tc_files c') = fch_data_files (tc_files c) @ new \<and>
    new_files i (st_next_file_id st) (next_row st i) fs new \<and>
    next_row st' i = next_row st i + total_rows fs \<and> st_next_file_id st' = st_next_file_id st + total_files fs"
proof -
  let ?k = "next_row st i" and ?m = "st_next_file_id st" and ?ds = "fch_data_files (tc_files c)"
  let ?I = "writing i ?ds ?k ?m"
  have w0: "?I (c, st0)"
    using preserves_run [OF state_table_id_counting assms(2), of i ?k ?m] by (simp add: writing_def)
  from assms(1,2) have "seq (collect_op (write_data_file E r i) fs)
      (\<lambda>ids. edit (tc_written_columns_update (entry_extend_set i (concat ids)))) (c, st0) = ((c', st'), Ok u)"
    unfolding write_table_data_def
    by (subst (asm) seq_app) (simp add: in_state_def on_table_def)
  then obtain p ids where 1: "collect_op (write_data_file E r i) fs (c, st0) = (p, Ok ids)"
    and 2: "edit (tc_written_columns_update (entry_extend_set i (concat ids))) p = ((c', st'), Ok u)"
    by (rule seq_OkE)
  from run_okD [OF write_data_files_run [OF assms(3-6)] 1 w0] 2 show ?thesis
    by (auto simp: edit_def writing_def)
qed

text \<open>The ranges of row IDs do not overlap.\<close>

lemma new_files_rows:
  assumes "new_files i m k fs ds" and "d \<in> set ds" and "ddf_row_id_start d = Some s"
  shows "k \<le> s"
  using assms
  by (induction i m k fs ds rule: new_files.induct) (fastforce simp: new_file_def split: list.splits)+

lemma new_files_disjoint:
  assumes "new_files i m k fs ds"
  shows "sorted_wrt (\<lambda>a b. the (ddf_row_id_start a) + ddf_record_count a \<le> the (ddf_row_id_start b)) ds"
  using assms
proof (induction i m k fs ds rule: new_files.induct)
  case (2 i m k f fs ds)
  then obtain d ds' where ds: "ds = d # ds'" and d: "new_file i m k (int (cdf_num_rows f)) d"
    and rest: "new_files i (m + 1 + int (length (cdf_delete_files f))) (k + int (cdf_num_rows f)) fs ds'"
    by (auto split: list.splits)
  have start: "\<exists>s. ddf_row_id_start b = Some s" if "new_files i m k fs ds" "b \<in> set ds" for i m k fs ds b
    using that by (induction i m k fs ds rule: new_files.induct) (auto simp: new_file_def split: list.splits)
  have "k + int (cdf_num_rows f) \<le> the (ddf_row_id_start b)" if "b \<in> set ds'" for b
    using start [OF rest that] new_files_rows [OF rest that] by auto
  with d 2(1) [OF ds rest] ds show ?case by (auto simp: new_file_def)
qed simp

end
