(* ===== verification/Commit_Safety.thy ===== *)
theory Commit_Safety
  imports Commit Data_Writes
begin

text \<open>
  What a commit guarantees: an attempt writes everything or nothing and leaves the earlier
  snapshots as they are; a commit that succeeds has checked its changes against every snapshot
  committed since the transaction started; it gives up after eleven attempts.
\<close>

section \<open>One attempt\<close>

definition snapshot_rows :: "store \<Rightarrow> ducklake_snapshot list \<times> ducklake_snapshot_changes list" where
  "snapshot_rows db = (db_snapshots db, db_snapshot_changes db)"

lemma persist_store_snapshots: "preserves (\<lambda>db. snapshot_rows db = x) (persist_store E n v c)"
proof -
  have inline: "preserves (\<lambda>db. snapshot_rows db = x) (persist_inline_data E (tc_inline_tables c) (tc_inline_data c) v)"
    by (rule inline_data_any) (simp_all add: snapshot_rows_def)
  have groups: "preserves (\<lambda>db. snapshot_rows db = x) (detach_files d ts)" "preserves (\<lambda>db. snapshot_rows db = x) (retire_all d n c)"
    "preserves (\<lambda>db. snapshot_rows db = x) (insert_all d n c)" "preserves (\<lambda>db. snapshot_rows db = x) (persist_files d fs)"
    "preserves (\<lambda>db. snapshot_rows db = x) (on_table db_tags db_tags_update m)"
    "preserves (\<lambda>db. snapshot_rows db = x) (on_table db_column_tags db_column_tags_update m')" for d ts fs m m'
    unfolding detach_files_def retire_all_def insert_all_def persist_files_def
    by (auto intro!: preserves_steps preserves_on_table preserves_for_each preserves_update
        simp: snapshot_rows_def persist_inline_deletes_def Let_def)
  show ?thesis
    unfolding persist_store_def
    by (rule preserves_steps, unfold list.set insert_iff empty_iff, elim disjE FalseE) (simp_all only: inline groups)
qed

lemma persist_snapshots: "preserves (\<lambda>p. snapshot_rows (fst p) = x) (persist E c)"
proof -
  have store: "preserves (\<lambda>p. snapshot_rows (fst p) = x) (on_table fst (\<lambda>f p. (f (fst p), snd p)) (persist_store E n v c))"
    for n v :: i64
    by (rule preserves_on_table) (simp add: preservesD [OF persist_store_snapshots])
  show ?thesis
    unfolding persist_def case_prod_beta
    by (intro preserves_seq store preserves_query persist_statistics_keeps) (simp_all add: snapshot_rows_def)
qed

lemma persist_at_snapshot: "preserves (\<lambda>p. at_snapshot n (snd p)) (persist E c)"
proof -
  have "preserves (at_snapshot n) (table_statistics E p)" for p
    unfolding table_statistics_def column_statistics_def
    by (auto intro!: preserves_seq preserves_collect_op)
  then have "preserves (at_snapshot n) (collect_op (table_statistics E) w)" for w
    by (rule preserves_collect_op)
  then have "preserves (\<lambda>p. at_snapshot n (snd p)) (persist_statistics E w)" for w
    unfolding persist_statistics_def
    by (intro preserves_seq preserves_on_table) (auto simp: preserves_def)
  then show ?thesis
    unfolding persist_def case_prod_beta
    by (intro preserves_seq preserves_query preserves_on_table) simp_all
qed

lemma on_state_run:
  "on_state m p = (p', r) \<Longrightarrow> fst p' = fst p \<and> m (snd p) = (snd p', r)"
  by (auto simp: on_state_def on_table_def Let_def case_prod_beta)

lemma transactional_cases:
  assumes "transactional ce m p = (p', r)"
  obtains (committed) x where "m p = (p', Ok x)" and "r = Ok x" and "ce = None"
  | (rolled_back) "fst p' = fst p" and "\<not> is_ok r"
  using assms
  by (cases "m p"; cases "snd (m p)") (auto simp: transactional_def is_ok_iff split: option.splits prod.splits)

text \<open>The insertion of the snapshot row.\<close>

lemma insert_entity_cases:
  "insert_entity key row t = (t', r) \<Longrightarrow>
     (r = Ok () \<and> key row \<notin> key ` set t \<and> t' = t @ [row]) \<or> (t' = t \<and> r = Err unique_violation \<and> key row \<in> key ` set t)"
  by (auto simp: insert_entity_def split: if_splits)

lemma finalize_commit_ok:
  assumes "finalize_commit E now applied changed author st db = (db', Ok info)"
  shows "info = snapshot_info_of (snapshot_of_state now st)"
    and "st_snapshot_id st \<notin> dsn_snapshot_id ` set (db_snapshots db)"
    and "db_snapshots db' = db_snapshots db @ [snapshot_of_state now st]"
    and "\<exists>row. db_snapshot_changes db' = db_snapshot_changes db @ [row] \<and> dsnc_snapshot_id row = st_snapshot_id st \<and>
      dsnc_changes_made row = applied_set_to_string applied"
    and "catalog_rows_at s db' = catalog_rows_at s db" and "file_rows_at s D db' = file_rows_at s D db"
    and "db_tables db' = db_tables db"
proof -
  from assms obtain db1 db2 db3 where
    1: "on_table db_snapshots db_snapshots_update (insert_entity dsn_snapshot_id (snapshot_of_state now st)) db = (db1, Ok ())"
    and 2: "on_table db_snapshot_changes db_snapshot_changes_update (insert_entity dsnc_snapshot_id
            \<lparr>dsnc_snapshot_id = st_snapshot_id st, dsnc_changes_made = applied_set_to_string applied,
             dsnc_author = ai_author author, dsnc_commit_message = ai_message author,
             dsnc_commit_extra_info = ai_extra_info author\<rparr>) db1 = (db2, Ok ())"
    and 3: "on_table db_schema_versions db_schema_versions_update (insert_entities (env_dialect E) 3
            (map (\<lambda>i. \<lparr>dsv_begin_snapshot = st_snapshot_id st, dsv_schema_version = st_schema_version st,
                       dsv_table_id = Some i\<rparr>) changed)) db2 = (db3, Ok ())"
    and 4: "db' = db3" "info = snapshot_info_of (snapshot_of_state now st)"
    unfolding finalize_commit_def Let_def by (auto elim!: seq_OkE)
  from 1 have db1: "db1 = db\<lparr>db_snapshots := db_snapshots db @ [snapshot_of_state now st]\<rparr>"
    and fresh: "st_snapshot_id st \<notin> dsn_snapshot_id ` set (db_snapshots db)"
    by (auto simp: on_table_def Let_def insert_entity_def snapshot_of_state_def split: if_splits)
  from 2 obtain row where db2: "db2 = db1\<lparr>db_snapshot_changes := db_snapshot_changes db1 @ [row]\<rparr>"
    and row: "dsnc_snapshot_id row = st_snapshot_id st" "dsnc_changes_made row = applied_set_to_string applied"
    by (auto simp: on_table_def Let_def insert_entity_def split: if_splits)
  from 3 obtain vs where db3: "db3 = db2\<lparr>db_schema_versions := vs\<rparr>"
    by (auto simp: on_table_def Let_def case_prod_beta)
  note all = db1 db2 db3 4
  show "info = snapshot_info_of (snapshot_of_state now st)" "st_snapshot_id st \<notin> dsn_snapshot_id ` set (db_snapshots db)"
    "db_snapshots db' = db_snapshots db @ [snapshot_of_state now st]"
    "\<exists>row. db_snapshot_changes db' = db_snapshot_changes db @ [row] \<and> dsnc_snapshot_id row = st_snapshot_id st \<and>
      dsnc_changes_made row = applied_set_to_string applied"
    "catalog_rows_at s db' = catalog_rows_at s db" "file_rows_at s D db' = file_rows_at s D db"
    "db_tables db' = db_tables db"
    using fresh row by (auto simp: all catalog_rows_at_def file_rows_at_def)
qed

text \<open>The reads of IDs before the transaction change the state only.\<close>

lemma altered_table_snapshot: "preserves (at_snapshot n) (altered_table r)"
  unfolding altered_table_def by (auto intro!: preserves_seq)

lemma applied_change_snapshot: "preserves (at_snapshot n) (applied_change_of c)"
  by (cases c) (auto intro!: preserves_seq altered_table_snapshot)

lemma id_reads_snapshot:
  "preserves (at_snapshot n) (change_set_applied cs)" "preserves (at_snapshot n) (table_ids_with_inline_data_writes cs)"
  "preserves (at_snapshot n) (created_table_ids cs)" "preserves (at_snapshot n) (table_ids_with_schema_changes cs)"
  unfolding change_set_applied_def table_ids_with_inline_data_writes_def created_table_ids_def table_ids_with_schema_changes_def
  by (auto intro!: preserves_seq preserves_collect_op applied_change_snapshot)

lemma collect_changes_ok:
  assumes "collect_changes E cs st = (st', r)"
  shows "st_snapshot_id st' = st_snapshot_id st" and "r = Ok c \<Longrightarrow> collected_ok (st_snapshot_id st) c"
proof -
  obtain c0 st0 r0 where run: "apply_change_set E cs (tx_changes_default, st) = ((c0, st0), r0)"
    by (metis prod.exhaust)
  with assms have "st' = st0" "r = and_then r0 (\<lambda>_. Ok c0)" by (auto simp: collect_changes_def)
  with apply_change_set_ok [OF run] show "st_snapshot_id st' = st_snapshot_id st"
    and "r = Ok c \<Longrightarrow> collected_ok (st_snapshot_id st) c" by auto
qed

text \<open>
  The tables a reader of the new snapshot sees: those of the one before without the dropped ones,
  the renamed ones under their new names, and the new ones.
\<close>

definition tables_after :: "i64 \<Rightarrow> tx_changes \<Rightarrow> store \<Rightarrow> ducklake_table multiset" where
  "tables_after n c db =
     mset (filter (\<lambda>r. dt_table_id r \<notin> set (tc_dropped_tables c) \<union> fst ` set (tc_renamed_tables c))
            (v_tables.rows_at (n - 1) (db_tables db)))
     + mset (map (renamed_row n (tc_renamed_tables c))
         (filter (\<lambda>r. dt_table_id r \<in> fst ` set (tc_renamed_tables c)) (v_tables.rows_at (n - 1) (db_tables db))))
     + mset (tc_new_tables c)"

text \<open>
  What a successful attempt did to the store: it took a free snapshot ID, recorded the snapshot
  and its changes, wrote the tables, and left the rows of the earlier snapshots as they were.
\<close>

definition commit_effects :: "i64 \<Rightarrow> tx_changes \<Rightarrow> applied_change_set \<Rightarrow> store \<Rightarrow> store \<Rightarrow> snapshot_info \<Rightarrow> bool" where
  "commit_effects n c applied db db' info \<longleftrightarrow>
     sni_id info = n \<and> n \<notin> dsn_snapshot_id ` set (db_snapshots db) \<and>
     (\<exists>srow. info = snapshot_info_of srow \<and> db_snapshots db' = db_snapshots db @ [srow]) \<and>
     (\<exists>row. db_snapshot_changes db' = db_snapshot_changes db @ [row] \<and> dsnc_snapshot_id row = n \<and>
        dsnc_changes_made row = applied_set_to_string applied) \<and>
     (\<forall>s < n. catalog_rows_at s db' = catalog_rows_at s db \<and>
        file_rows_at s (tc_detached_tables c) db' = file_rows_at s (tc_detached_tables c) db) \<and>
     (table_rows_before n (db_tables db) \<longrightarrow> mset (v_tables.rows_at n (db_tables db')) = tables_after n c db)"

definition written :: "env \<Rightarrow> change list \<Rightarrow> commit_state \<Rightarrow> store \<Rightarrow> store \<Rightarrow> snapshot_info \<Rightarrow> bool" where
  "written E cs st db db' info \<longleftrightarrow>
     (\<exists>st1 st2 c applied. collect_changes E cs st = (st1, Ok c) \<and> change_set_applied cs st1 = (st2, Ok applied) \<and>
        commit_effects (st_snapshot_id st) c applied db db' info)"

lemma write_commit_ok:
  assumes c: "collected_ok (st_snapshot_id st) c"
    and run: "write_commit E now c applied changed author (db, st) = ((db', st'), Ok info)"
  shows "commit_effects (st_snapshot_id st) c applied db db' info"
proof -
  from run obtain p where p: "persist E c (db, st) = (p, Ok ())"
    and fin: "(let (db, r) = finalize_commit E now applied changed author (snd p) (fst p) in ((db, snd p), r)) = ((db', st'), Ok info)"
    unfolding write_commit_def by (auto elim: seq_OkE)
  obtain db1 st1 where p1: "p = (db1, st1)" by fastforce
  note p = p [unfolded p1]
  from fin have st': "st' = st1" and fin: "finalize_commit E now applied changed author st1 db1 = (db', Ok info)"
    by (auto simp: p1 Let_def case_prod_beta prod_eq_iff)
  have snap: "st_snapshot_id st1 = st_snapshot_id st"
    using preserves_run [OF persist_at_snapshot p, of "st_snapshot_id st"] by simp
  have rows: "db_snapshots db1 = db_snapshots db" "db_snapshot_changes db1 = db_snapshot_changes db"
    using preserves_run [OF persist_snapshots p, of "snapshot_rows db"] by (simp_all add: snapshot_rows_def)
  from c have "changes_from (st_snapshot_id st) c" "im_wf (tc_renamed_tables c)" by (simp_all add: collected_ok_def)
  note history = persist_history [OF _ this p]
  have tables: "mset (v_tables.rows_at (st_snapshot_id st) (db_tables db1)) = tables_after (st_snapshot_id st) c db"
    if "table_rows_before (st_snapshot_id st) (db_tables db)"
    using persist_tables [OF p _ that] c by (simp add: collected_ok_def tables_after_def)
  from finalize_commit_ok [OF fin] history tables show ?thesis
    by (simp add: commit_effects_def snap rows st' snapshot_info_of_def snapshot_of_state_def)
qed

text \<open>An attempt that fails leaves the store as it was.\<close>

definition rolls_back :: "(store \<times> 's, 'e, 'a) op \<Rightarrow> bool" where
  "rolls_back m \<longleftrightarrow> (\<forall>p. \<not> is_ok (snd (m p)) \<longrightarrow> fst (fst (m p)) = fst p)"

lemma rolls_back_seq:
  assumes "\<And>p. fst (fst (m p)) = fst p" and "\<And>x. rolls_back (f x)"
  shows "rolls_back (seq m f)"
  unfolding rolls_back_def
proof (intro allI impI)
  fix p assume fail: "\<not> is_ok (snd (seq m f p))"
  show "fst (fst (seq m f p)) = fst p"
  proof (cases "snd (m p)")
    case (Ok x)
    then have run: "seq m f p = f x (fst (m p))" by (simp add: seq_app)
    with fail assms(2) [of x] have "fst (fst (f x (fst (m p)))) = fst (fst (m p))"
      unfolding rolls_back_def by metis
    with run assms(1) show ?thesis by simp
  qed (simp_all add: seq_app assms(1))
qed

lemma rolls_back_transactional: "rolls_back (transactional ce m)"
  by (auto simp: rolls_back_def transactional_def split: prod.splits res.splits option.splits)

lemma apply_changes_rollback:
  assumes "apply_changes E now ce cs author (db, st) = ((db', st'), r)" and "\<not> is_ok r"
  shows "db' = db"
proof -
  have on_state: "fst (fst (on_state m p)) = fst p" for m :: "'z commit_op" and p
    by (simp add: on_state_def on_table_def Let_def case_prod_beta)
  have "rolls_back (apply_changes E now ce cs author)"
    unfolding apply_changes_def
    by (intro rolls_back_seq on_state) (simp add: rolls_back_transactional, simp add: rolls_back_def)
  with assms have "fst (fst (apply_changes E now ce cs author (db, st))) = fst (db, st)"
    unfolding rolls_back_def by (metis snd_conv)
  with assms(1) show ?thesis by simp
qed

lemma run_ok_on_state:
  "run_ok P m Q \<Longrightarrow> run_ok (\<lambda>p. fst p = db \<and> P (snd p)) (on_state m) (\<lambda>x p. fst p = db \<and> Q x (snd p))"
  unfolding run_ok_def by (metis on_state_run)

lemma apply_changes_run:
  "run_ok (\<lambda>p. fst p = db \<and> snd p = st) (apply_changes E now ce cs author)
     (\<lambda>info p. ce = None \<and> written E cs st db (fst p) info)"
proof -
  let ?n = "st_snapshot_id st"
  let ?Q = "\<lambda>c applied p. fst p = db \<and> collected_ok ?n c \<and> (\<exists>st1 st2. collect_changes E cs st = (st1, Ok c) \<and>
    change_set_applied cs st1 = (st2, Ok applied)) \<and> at_snapshot ?n (snd p)"
  have 1: "run_ok (\<lambda>p. fst p = db \<and> snd p = st) (on_state (collect_changes E cs))
      (\<lambda>c p. fst p = db \<and> collect_changes E cs st = (snd p, Ok c) \<and> collected_ok ?n c \<and> at_snapshot ?n (snd p))"
    by (rule run_ok_on_state) (auto simp: run_ok_def collect_changes_ok)
  have 2: "run_ok (\<lambda>p. fst p = db \<and> collect_changes E cs st = (snd p, Ok c) \<and> collected_ok ?n c \<and> at_snapshot ?n (snd p))
      (on_state (change_set_applied cs)) (?Q c)" for c
    by (rule run_ok_on_state) (use preserves_run [OF id_reads_snapshot(1)] in \<open>force simp: run_ok_def\<close>)
  have keep: "run_ok (?Q c applied) (on_state m) (\<lambda>_. ?Q c applied)" if "preserves (at_snapshot ?n) m"
    for c applied and m :: "'z commit_op"
    using run_ok_on_state [OF run_ok_preserves [OF that], of db] unfolding run_ok_def by blast
  have final: "run_ok (?Q c applied) (if b then lift_res (Panic msg) else transactional ce (write_commit E now c applied changed author))
      (\<lambda>info p. ce = None \<and> written E cs st db (fst p) info)" for b c applied changed msg
  proof (rule run_okI)
    fix p p' info
    assume Q: "?Q c applied p"
      and run: "(if b then lift_res (Panic msg) else transactional ce (write_commit E now c applied changed author)) p = (p', Ok info)"
    then have tx: "transactional ce (write_commit E now c applied changed author) p = (p', Ok info)"
      by (auto split: if_splits)
    then have "write_commit E now c applied changed author p = (p', Ok info)" and ce: "ce = None"
      by (auto elim: transactional_cases)
    moreover have "p = (db, snd p)" using Q by (metis prod.collapse)
    ultimately have "write_commit E now c applied changed author (db, snd p) = ((fst p', snd p'), Ok info)"
      by (metis prod.collapse)
    moreover from Q have id: "st_snapshot_id (snd p) = st_snapshot_id st" and c: "collected_ok (st_snapshot_id (snd p)) c"
      by simp_all
    ultimately have "commit_effects (st_snapshot_id st) c applied db (fst p') info"
      using write_commit_ok [of "snd p" c E now applied changed author db "fst p'" "snd p'" info] by (simp only: id)
    with Q have "written E cs st db (fst p') info" unfolding written_def by blast
    with ce show "ce = None \<and> written E cs st db (fst p') info" by blast
  qed
  show ?thesis
    unfolding apply_changes_def
    by (rule run_ok_seq [OF 1], rule run_ok_seq [OF 2], rule run_ok_seq [OF keep [OF id_reads_snapshot(2)]],
        rule run_ok_seq [OF keep [OF id_reads_snapshot(3)]], rule run_ok_seq [OF keep [OF id_reads_snapshot(4)]], rule final)
qed

lemma apply_changes_cases:
  assumes "apply_changes E now ce cs author (db, st) = ((db', st'), r)"
  shows "(\<not> is_ok r \<and> db' = db) \<or> (\<exists>info. r = Ok info \<and> ce = None \<and> written E cs st db db' info)"
proof (cases "is_ok r")
  case True
  then obtain info where "r = Ok info" by (auto simp: is_ok_iff)
  with run_okD [OF apply_changes_run, of E now ce cs author "(db, st)" "(db', st')" info db st] assms show ?thesis by simp
qed (use apply_changes_rollback [OF assms] in simp)

section \<open>The retry loop\<close>

lemma insert_snapshot_ids:
  assumes "insert_snapshot cache info = (cache', latest)"
  shows "sni_id latest = sni_id info" and "sni_id cache \<le> sni_id cache'" and "sni_id info \<le> sni_id cache'"
  using assms by (auto simp: insert_snapshot_def split: if_splits)

text \<open>
  A round that wrote, the round before it with the snapshot the changes were checked against,
  and the state that round left.
\<close>

definition wrote :: "commit_args \<Rightarrow> schedule \<Rightarrow> nat \<Rightarrow> snapshot_info \<Rightarrow> store \<Rightarrow> bool" where
  "wrote A W j latest db \<longleftrightarrow> j \<le> max_retry_count \<and>
     (\<exists>st info. attempt_state A (at_stats W j) latest = Ok st \<and>
        written (ca_env A) (ca_changes A) st (at_tx W j) db info)"

definition checked :: "commit_args \<Rightarrow> schedule \<Rightarrow> nat \<Rightarrow> snapshot_info \<Rightarrow> bool" where
  "checked A W k latest \<longleftrightarrow>
     (\<exists>info st. load_latest (at_latest W k) = Ok info \<and> sni_id latest = sni_id info \<and>
        check_conflicts A (at_changes W k) latest st = Ok ())"

text \<open>A run that reported a failure wrote nothing.\<close>

definition no_write :: "snapshot_info \<Rightarrow> commit_outcome \<Rightarrow> bool" where
  "no_write cache out \<longleftrightarrow> fst (snd out) = None \<and> \<not> is_ok (snd (snd out)) \<and> sni_id cache \<le> sni_id (fst out)"

lemma no_write_simps [simp]:
  "no_write cache (failed cache' e) \<longleftrightarrow> sni_id cache \<le> sni_id cache'"
  "no_write cache (panicked cache' m) \<longleftrightarrow> sni_id cache \<le> sni_id cache'"
  by (simp_all add: no_write_def failed_def panicked_def)

lemma retry_arm_spec:
  "case retry_arm A W i cache st of
     Inl out \<Rightarrow> no_write cache out
   | Inr (cache1, latest1) \<Rightarrow> checked A W i latest1 \<and> sni_id cache \<le> sni_id cache1"
proof (cases "load_latest (at_latest W i)")
  case (Ok info)
  obtain cache1 latest1 where ins: "insert_snapshot cache info = (cache1, latest1)" by fastforce
  from insert_snapshot_ids [OF ins] Ok show ?thesis
    by (cases "check_conflicts A (at_changes W i) latest1 st") (auto simp: retry_arm_def ins checked_def)
qed (simp_all add: retry_arm_def)

lemma commit_body_spec:
  assumes "i \<le> max_retry_count"
  shows "case commit_body A W i cache latest of
     Inl out \<Rightarrow> no_write cache out \<or> (\<exists>cache' db. out = (cache', Some (i, db), Ok ()) \<and> wrote A W i latest db \<and> sni_id cache \<le> sni_id cache')
   | Inr (cache1, latest1) \<Rightarrow> checked A W i latest1 \<and> sni_id cache \<le> sni_id cache1"
proof (cases "attempt_state A (at_stats W i) latest")
  case st: (Ok st)
  obtain db st' x where run: "apply_changes (ca_env A) (ca_now A) (commit_errors W i) (ca_changes A) (ca_author A)
      (at_tx W i, st) = ((db, st'), x)" by (metis prod.exhaust)
  show ?thesis
  proof (cases x)
    case (Ok info)
    with apply_changes_cases [OF run] have "wrote A W i latest db"
      using assms st by (auto simp: wrote_def)
    with run Ok insert_snapshot_ids(2) [of cache info] show ?thesis
      by (auto simp: commit_body_def st intro: prod.collapse [symmetric])
  next
    case (Err e)
    with run retry_arm_spec [where A = A and W = W and i = i and cache = cache and st = st'] show ?thesis
      by (auto simp: commit_body_def st split: sum.splits)
  qed (simp add: commit_body_def st run)
qed (simp_all add: commit_body_def)

lemma commit_round_outcome:
  assumes "commit_round A W i cache latest = (cache', w, r)"
  shows "sni_id cache \<le> sni_id cache' \<and>
    (case w of
       None \<Rightarrow> \<not> is_ok r
     | Some (j, db) \<Rightarrow> r = Ok () \<and> i \<le> j \<and>
         (\<exists>latest'. wrote A W j latest' db \<and> (if j = i then latest' = latest else checked A W (j - 1) latest')))"
  using assms
proof (induction "Suc max_retry_count - i" arbitrary: i cache latest rule: less_induct)
  case less
  show ?case
  proof (cases "i \<le> max_retry_count")
    case True
    note body = commit_body_spec [OF True, where A = A and W = W and cache = cache and latest = latest]
    show ?thesis
    proof (cases "commit_body A W i cache latest")
      case (Inl out)
      with less.prems True body show ?thesis by (auto simp: commit_round.simps [of A W i] no_write_def)
    next
      case (Inr p)
      obtain cache1 latest1 where p: "p = (cache1, latest1)" by fastforce
      with Inr body have checked: "checked A W i latest1" "sni_id cache \<le> sni_id cache1" by simp_all
      have "Suc max_retry_count - Suc i < Suc max_retry_count - i" using True by simp
      moreover have "commit_round A W (Suc i) cache1 latest1 = (cache', w, r)"
        using less.prems True Inr p by (simp add: commit_round.simps [of A W i])
      ultimately show ?thesis
        using less.hyps checked by (cases w) (fastforce split: if_splits)+
    qed
  qed (use less.prems in \<open>auto simp: commit_round.simps [of A W i] failed_def\<close>)
qed

section \<open>The whole commit\<close>

lemma commit_outcome:
  assumes "commit A W cache changes = (cache', w, r)"
  shows "sni_id cache \<le> sni_id cache' \<and>
    (case w of
       None \<Rightarrow> is_ok r \<longrightarrow> change_set_new changes = []
     | Some (j, db) \<Rightarrow> r = Ok () \<and> j \<le> max_retry_count \<and>
         (\<exists>latest. wrote (A\<lparr>ca_changes := change_set_new changes\<rparr>) W j latest db \<and>
            (if j = 0 then latest = ca_start A
             else checked (A\<lparr>ca_changes := change_set_new changes\<rparr>) W (j - 1) latest)))"
proof (cases "change_set_new changes = []")
  case True
  with assms show ?thesis by (auto simp: commit_def)
next
  case False
  then have "commit_round (A\<lparr>ca_changes := change_set_new changes\<rparr>) W 0 cache (ca_start A) = (cache', w, r)"
    using assms by (simp add: commit_def)
  note outcome = commit_round_outcome [OF this]
  show ?thesis
  proof (cases w)
    case (Some p)
    with outcome show ?thesis by (cases p) (auto simp: wrote_def)
  qed (use outcome in auto)
qed

lemma wrote_effects:
  assumes "wrote A W j latest db"
  shows "\<exists>c applied info. commit_effects (i64_add (sni_id latest) 1) c applied (at_tx W j) db info"
proof -
  from assms obtain st info where st: "attempt_state A (at_stats W j) latest = Ok st"
    and "written (ca_env A) (ca_changes A) st (at_tx W j) db info" by (auto simp: wrote_def)
  moreover from st have "st_snapshot_id st = i64_add (sni_id latest) 1"
    by (auto simp: attempt_state_def commit_state_new_def)
  ultimately show ?thesis unfolding written_def by metis
qed

lemma fold_res_checks:
  "fold_res (\<lambda>x _. f x) xs () = Ok () \<Longrightarrow> x \<in> set xs \<Longrightarrow> f x = Ok ()"
  by (induction xs) (auto simp: fold_res.simps)

lemma latest_of_max: "latest_of ss = Some s \<Longrightarrow> s \<in> set ss \<and> (\<forall>t\<in>set ss. dsn_snapshot_id t \<le> dsn_snapshot_id s)"
proof (induction ss arbitrary: s)
  case (Cons a ss)
  show ?case
  proof (cases "latest_of ss")
    case None
    then have "ss = []" by (cases ss) (auto split: option.splits)
    with Cons.prems show ?thesis by simp
  next
    case (Some t)
    from Cons.IH [OF Some] Cons.prems Some show ?thesis by (auto split: if_splits)
  qed
qed simp

lemma load_latest_id:
  assumes "load_latest db = Ok info"
  shows "sni_id info \<in> dsn_snapshot_id ` set (db_snapshots db)"
    and "m \<in> dsn_snapshot_id ` set (db_snapshots db) \<Longrightarrow> m \<le> sni_id info"
  using assms latest_of_max [of "db_snapshots db"] by (auto simp: load_latest_def snapshot_info_of_def)

lemma check_conflicts_all:
  assumes "check_conflicts A db latest st = Ok ()" and "row \<in> set (db_snapshot_changes db)"
    and "i64_add (sni_id (ca_start A)) 1 \<le> dsnc_snapshot_id row" and "dsnc_snapshot_id row \<le> sni_id latest"
  shows "\<exists>theirs ours. parse_applied_set (dsnc_changes_made row) = Ok theirs \<and>
    snd (change_set_applied (ca_changes A) st) = Ok ours \<and> check_set_conflict ours theirs (ca_catalog A) = Ok ()"
proof -
  from assms(1) obtain made ours where made: "get_snapshot_changes db (sni_id (ca_start A)) (sni_id latest) = Ok made"
    and ours: "snd (change_set_applied (ca_changes A) st) = Ok ours"
    and all: "fold_res (\<lambda>other _. check_set_conflict ours other (ca_catalog A)) made () = Ok ()"
    by (auto simp: check_conflicts_def)
  let ?rows = "filter (\<lambda>c. i64_add (sni_id (ca_start A)) 1 \<le> dsnc_snapshot_id c \<and> dsnc_snapshot_id c \<le> sni_id latest)
    (db_snapshot_changes db)"
  have parsed: "collect (\<lambda>c. parse_applied_set (dsnc_changes_made c)) ?rows = Ok made"
    using made by (simp add: get_snapshot_changes_def)
  from assms(2-4) have "row \<in> set ?rows" by simp
  then obtain k where k: "k < length ?rows" "?rows ! k = row" unfolding in_set_conv_nth by blast
  from collect_Ok_nth [OF parsed k(1)] k(2) have "parse_applied_set (dsnc_changes_made row) = Ok (made ! k)" by simp
  moreover have "made ! k \<in> set made" using k(1) collect_Ok_length [OF parsed] by simp
  ultimately show ?thesis using ours fold_res_checks [OF all] by blast
qed

text \<open>
  The other clients commit one snapshot after the other, so that the snapshots after the start
  of the transaction have no gap, and what was recorded stays.
\<close>

definition gapless :: "i64 \<Rightarrow> store \<Rightarrow> bool" where
  "gapless start db \<longleftrightarrow>
     (\<forall>m\<in>dsn_snapshot_id ` set (db_snapshots db). \<forall>k. start < k \<and> k \<le> m \<longrightarrow> k \<in> dsn_snapshot_id ` set (db_snapshots db))"

definition ids_bounded :: "store \<Rightarrow> bool" where
  "ids_bounded db \<longleftrightarrow> (\<forall>s\<in>set (db_snapshots db). 0 \<le> dsn_snapshot_id s \<and> dsn_snapshot_id s < i64_max)"

text \<open>The rows of the snapshots after the start.\<close>

definition recorded_since :: "i64 \<Rightarrow> store \<Rightarrow> ducklake_snapshot_changes set" where
  "recorded_since start db = {row \<in> set (db_snapshot_changes db).
     start < dsnc_snapshot_id row \<and> dsnc_snapshot_id row \<in> dsn_snapshot_id ` set (db_snapshots db)}"

text \<open>The changes of every snapshot are recorded once it can be seen.\<close>

definition keeps_changes :: "schedule \<Rightarrow> store \<Rightarrow> bool" where
  "keeps_changes W db \<longleftrightarrow>
     (\<forall>k. \<forall>row\<in>set (db_snapshot_changes db). \<forall>s\<in>set (db_snapshots (at_latest W k)).
        dsnc_snapshot_id row \<le> dsn_snapshot_id s \<longrightarrow> row \<in> set (db_snapshot_changes (at_changes W k)))"

definition sees_start :: "i64 \<Rightarrow> schedule \<Rightarrow> bool" where
  "sees_start start W \<longleftrightarrow> (\<forall>k. start \<in> dsn_snapshot_id ` set (db_snapshots (at_latest W k)) \<and> ids_bounded (at_latest W k))"

lemma commit_checks_all:
  assumes run: "commit A W cache changes = (cache', Some (j, db), r)"
    and start: "0 \<le> sni_id (ca_start A)" "sni_id (ca_start A) < i64_max"
    and seen: "sees_start (sni_id (ca_start A)) W" and kept: "keeps_changes W (at_tx W j)"
    and gapless: "gapless (sni_id (ca_start A)) (at_tx W j)"
    and row: "row \<in> recorded_since (sni_id (ca_start A)) (at_tx W j)"
  shows "\<exists>theirs ours st. parse_applied_set (dsnc_changes_made row) = Ok theirs \<and>
    snd (change_set_applied (change_set_new changes) st) = Ok ours \<and> check_set_conflict ours theirs (ca_catalog A) = Ok ()"
proof -
  let ?A = "A\<lparr>ca_changes := change_set_new changes\<rparr>" and ?start = "sni_id (ca_start A)"
  let ?ids = "dsn_snapshot_id ` set (db_snapshots (at_tx W j))" and ?m = "dsnc_snapshot_id row"
  from commit_outcome [OF run] obtain latest where w: "wrote ?A W j latest db"
    and from_start: "if j = 0 then latest = ca_start A else checked ?A W (j - 1) latest" by auto
  from wrote_effects [OF w] have fresh: "i64_add (sni_id latest) 1 \<notin> ?ids" by (auto simp: commit_effects_def)
  from row have m: "row \<in> set (db_snapshot_changes (at_tx W j))" "?start < ?m" "?m \<in> ?ids" by (auto simp: recorded_since_def)
  have filled: "k \<in> ?ids" if "?start < k" "k \<le> ?m" for k using gapless m(3) that by (auto simp: gapless_def)
  show ?thesis
  proof (cases "j = 0")
    case True
    with from_start have "i64_add (sni_id latest) 1 = ?start + 1" using start by (simp add: i64_defs)
    with fresh filled [of "?start + 1"] m(2) show ?thesis by simp
  next
    case False
    with from_start obtain info st where info: "load_latest (at_latest W (j - 1)) = Ok info" "sni_id latest = sni_id info"
      and ok: "check_conflicts ?A (at_changes W (j - 1)) latest st = Ok ()" by (auto simp: checked_def)
    from load_latest_id [OF info(1)] seen info(2) obtain s where s: "s \<in> set (db_snapshots (at_latest W (j - 1)))"
      "dsn_snapshot_id s = sni_id latest" and "?start \<le> sni_id latest" "0 \<le> sni_id latest" "sni_id latest < i64_max"
      by (auto simp: sees_start_def ids_bounded_def)
    then have "i64_add (sni_id latest) 1 = sni_id latest + 1" by (simp add: i64_defs)
    with fresh filled [of "sni_id latest + 1"] \<open>?start \<le> sni_id latest\<close> have le: "?m \<le> sni_id latest" by force
    with s have "?m \<le> dsn_snapshot_id s" by simp
    then have "row \<in> set (db_snapshot_changes (at_changes W (j - 1)))"
      using kept m(1) s(1) unfolding keeps_changes_def by blast
    moreover have "i64_add ?start 1 \<le> ?m" using start m(2) by (simp add: i64_defs)
    ultimately show ?thesis using check_conflicts_all [OF ok _ _ le] by auto
  qed
qed

end
