(* ===== verification/Examples.thy ===== *)
theory Examples
  imports Commit_Safety Catalog_Effects
begin

text \<open>
  Concrete values on which the properties are applied: a catalog with a table, and a commit that
  meets a concurrent writer, evaluated by the simplifier.
\<close>

section \<open>Values\<close>

text \<open>A catalog with the schema \<open>main\<close>, built by the operations.\<close>

definition example_catalog :: catalog where
  "example_catalog = fst (add_schema ''main'' (Relative ''main/'') catalog_new)"

lemma catalog_new_wf: "names_wf catalog_new"
  by (simp add: names_wf_def schemas_ok_def objects_ok_def one_name_space_def tables_of_def schema_entry_def
      catalog_new_def)

lemma example_catalog_wf: "names_wf example_catalog"
  unfolding example_catalog_def by (rule add_schema_wf [OF catalog_new_wf])

lemma example_catalog_schema: "im_get (schemas example_catalog) ''main'' = Some 0"
  by (simp add: example_catalog_def add_schema_def schema_by_name_eq catalog_new_def arena_push_def arena_new_def)

lemma example_catalog_objects: "tables_of example_catalog q = None" "views_of example_catalog q = None"
  using add_schema_new(4,5) [OF catalog_new_wf, of "''main''" "Relative ''main/''"]
  by (simp_all add: example_catalog_def catalog_new_def tables_of_def views_of_def schema_entry_def)

definition example_table :: table_info where
  "example_table = \<lparr>ti_name = \<lparr>qn_schema = ''main'', qn_name = ''t''\<rparr>,
     ti_schema = schema_of [Column ''a'' DInt64 True [] None (Literal None) None],
     ti_partitioning = Some [\<lparr>pc_column = ''a'', pc_transform = Identity\<rparr>], ti_sort_info = None, ti_tags = []\<rparr>"

definition example_added :: "catalog \<times> (schema_ref \<times> table_ref \<times> column_ref list list \<times> column_ref list option) result" where
  "example_added = add_table example_table (Relative ''t/'') None example_catalog"

lemma example_added_eq:
  "example_added = (fst example_added, Ok (0, 0, [[\<lparr>cr_table_ref = 0, cr_column_idx = 0\<rparr>]],
     Some [\<lparr>cr_table_ref = 0, cr_column_idx = 0\<rparr>]))"
  unfolding example_added_def example_catalog_def example_table_def by code_simp

lemma example_added_run:
  "add_table example_table (Relative ''t/'') None example_catalog =
     (fst example_added, Ok (0, 0, [[\<lparr>cr_table_ref = 0, cr_column_idx = 0\<rparr>]],
       Some [\<lparr>cr_table_ref = 0, cr_column_idx = 0\<rparr>]))"
  using example_added_eq by (simp only: example_added_def)

lemma example_added_wf: "names_wf (fst example_added)"
  unfolding example_added_def by (rule add_table_wf [OF example_catalog_wf])

lemma example_added_table: "tables_of (fst example_added) \<lparr>qn_schema = ''main'', qn_name = ''t''\<rparr> = Some 0"
  using add_table_effect(3) [OF example_catalog_wf example_added_run] by (simp add: example_table_def)

text \<open>Comparisons of the types of other crates for the examples.\<close>

definition example_cmp :: ext_cmp where
  "example_cmp = \<lparr>cmp_decimal = \<lambda>_ _. Equal, cmp_time = \<lambda>_ _. Equal, cmp_date = \<lambda>_ _. Equal,
     cmp_date_time = \<lambda>_ _. Equal, cmp_date_time_utc = \<lambda>_ _. Equal, cmp_uuid = \<lambda>_ _. Equal\<rparr>"

text \<open>
  A transaction that creates the schema \<open>main\<close> on a catalog whose only snapshot is \<open>0\<close>. While it
  commits, another writer commits snapshot \<open>1\<close>, so the first attempt finds its ID taken.
\<close>

definition example_now :: date_time_utc where
  "example_now = undefined"

definition example_uuid :: uuid where
  "example_uuid = undefined"

definition example_env :: env where
  "example_env = \<lparr>env_dialect = Sqlite, env_text_eq = (=), env_value_text = (\<lambda>_. ''v''), env_cmp = example_cmp,
     env_uuid = (\<lambda>_. example_uuid), env_num_rows = (\<lambda>_. 0), env_num_columns = (\<lambda>_. 0),
     env_with_system_columns = (\<lambda>b _ _. Ok b)\<rparr>"

definition example_snapshot :: "i64 \<Rightarrow> ducklake_snapshot" where
  "example_snapshot n = \<lparr>dsn_snapshot_id = n, dsn_snapshot_time = example_now, dsn_schema_version = n,
     dsn_next_catalog_id = n, dsn_next_file_id = 0\<rparr>"

definition example_made :: "i64 \<Rightarrow> string \<Rightarrow> ducklake_snapshot_changes" where
  "example_made n made = \<lparr>dsnc_snapshot_id = n, dsnc_changes_made = made, dsnc_author = None,
     dsnc_commit_message = None, dsnc_commit_extra_info = None\<rparr>"

definition store_with :: "ducklake_snapshot list \<Rightarrow> ducklake_snapshot_changes list \<Rightarrow> store" where
  "store_with snapshots made =
     \<lparr>db_schemas = [], db_tables = [], db_views = [], db_macros = [], db_macro_impls = [], db_macro_parameters = [],
      db_columns = [], db_partition_info = [], db_partition_columns = [], db_sort_info = [], db_sort_expressions = [],
      db_tags = [], db_column_tags = [], db_data_files = [], db_delete_files = [], db_partition_values = [],
      db_file_column_stats = [], db_inlined_data_tables = [], db_table_stats = [], db_table_column_stats = [],
      db_snapshots = snapshots, db_snapshot_changes = made, db_schema_versions = [], db_inline_deletes = [],
      db_inline_tables = []\<rparr>"

definition example_store :: store where
  "example_store = store_with [example_snapshot 0, example_snapshot 1]
     [example_made 0 [], example_made 1 (applied_set_to_string (applied_set_new [CreatedSchema ''other'']))]"

definition example_args :: commit_args where
  "example_args = \<lparr>ca_env = example_env, ca_now = example_now, ca_load_stats = (\<lambda>_ _. Ok []),
     ca_catalog = example_catalog, ca_author = \<lparr>ai_author = None, ai_message = None, ai_extra_info = None\<rparr>,
     ca_changes = [], ca_start = snapshot_info_of (example_snapshot 0)\<rparr>"

definition example_schedule :: schedule where
  "example_schedule = \<lparr>at_stats = (\<lambda>_. example_store), at_tx = (\<lambda>_. example_store), at_latest = (\<lambda>_. example_store),
     at_changes = (\<lambda>_. example_store), commit_errors = (\<lambda>_. None)\<rparr>"

definition example_changes :: "change list" where
  "example_changes = [CreateSchema 0 ''main'' (Relative ''main/'')]"

definition example_commit :: commit_outcome where
  "example_commit = commit example_args example_schedule (snapshot_info_of (example_snapshot 0)) example_changes"

section \<open>Evaluation of the example\<close>

text \<open>Statements without keys do nothing.\<close>

lemma max_rows_Ok: "0 < m \<Longrightarrow> \<exists>k. max_rows_per_key_batch d m = Ok k"
  by (erule max_rows_positive) blast

lemma key_batch_nil: "0 < m \<Longrightarrow> key_batch d m b [] f t = (t, Ok ())"
  using max_rows_Ok [of m d] by (auto simp: key_batch_def execute_batches_def batch_queries.simps seq_app)

lemma empty_statements [simp]:
  assumes "0 < m"
  shows "retire_rows d n m k q en se [] t = (t, Ok ())" "update_rows d m k q l f [] t = (t, Ok ())"
    "delete_rows d m k q [] t = (t, Ok ())" "fetch_rows d m k q [] t = Ok []"
  using key_batch_nil [OF assms] max_rows_Ok [OF assms, of d]
  by (auto simp: retire_rows_def update_matching_rows_def update_rows_def delete_rows_def fetch_rows_def
      batch_queries.simps)

lemma persist_table_renames_nil [simp]: "persist_table_renames d n [] t = (t, Ok ())"
  by (simp add: persist_table_renames_def copy_rows_with_updates_def key_batch_nil)

text \<open>Committing on snapshot \<open>n\<close>, which also is the next catalog ID.\<close>

definition example_row :: "i64 \<Rightarrow> ducklake_schema" where
  "example_row n = \<lparr>dsc_schema_id = n, dsc_schema_uuid = Some example_uuid, dsc_begin_snapshot = n + 1,
     dsc_end_snapshot = None, dsc_schema_name = ''main'', dsc_path = ''main/'', dsc_path_is_relative = True\<rparr>"

definition example_state :: "i64 \<Rightarrow> commit_state" where
  "example_state n = commit_state_new (snapshot_info_of (example_snapshot n)) example_catalog True None"

definition example_state_after :: "i64 \<Rightarrow> commit_state" where
  "example_state_after n = fst (state_schema_id 0 (example_state n))"

lemma example_persist:
  "st_snapshot_id st = n + 1 \<Longrightarrow> \<exists>db. persist example_env (tx_changes_default\<lparr>tc_new_schemas := [example_row n]\<rparr>)
     (example_store, st) = ((db, st), Ok ()) \<and> db_snapshots db = db_snapshots example_store
     \<and> db_snapshot_changes db = db_snapshot_changes example_store"
  by (simp add: persist_def seq_app)
    (simp add: on_table_def example_store_def store_with_def persist_store_def steps_def seq_app detach_files_def
      retire_all_def insert_all_def insert_entities_app insert_keyed_def tx_changes_default_def persist_table_tags_def
      persist_column_tags_def persist_tags.simps tag_heads_def persist_files_def persist_inline_data_def
      persist_statistics_def write_statistics_def example_row_def example_env_def latest_registrations_def Let_def)

lemma example_schema_id:
  "n \<in> {0, 1} \<Longrightarrow> state_schema_id 0 (example_state n) = (example_state_after n, Ok n)
     \<and> st_snapshot_id (example_state_after n) = n + 1 \<and> st_schema_version (example_state_after n) = n + 1"
  unfolding example_state_after_def example_state_def example_catalog_def
  by (auto simp: state_schema_id_def resolve_with_def seq_app get_schema_id_def schema_inner_def commit_state_new_def
      add_schema_def schema_by_name_eq catalog_new_def arena_push_def arena_new_def arena_get_def idx_get_def
      catalog_id_def on_catalog_def schema_resolve_id_def Let_def example_snapshot_def snapshot_info_of_def i64_defs)

lemma example_collect:
  "n \<in> {0, 1} \<Longrightarrow> collect_changes example_env example_changes (example_state n)
     = (example_state_after n, Ok (tx_changes_default\<lparr>tc_new_schemas := [example_row n]\<rparr>))"
  using example_schema_id [of n]
  by (auto simp: collect_changes_def apply_change_set_def seq_app example_changes_def check_inline_def
      create_schema_rows_def in_state_def on_table_def snapshot_id_def edit_def table_refs_with_schema_changes_def
      contains_inline_data_writes_and_no_file_writes_def example_row_def example_env_def tx_changes_default_def
      List.map_filter_def unique_def unique_by_def)

lemma example_ids:
  "table_ids_with_inline_data_writes example_changes st = (st, Ok [])" "created_table_ids example_changes st = (st, Ok [])"
  "table_ids_with_schema_changes example_changes st = (st, Ok [])"
  "change_set_applied example_changes st = (st, Ok [CreatedSchema ''main''])"
  by (simp_all add: table_ids_with_inline_data_writes_def created_table_ids_def table_ids_with_schema_changes_def
      change_set_applied_def applied_set_new_def example_changes_def inline_write_refs_def created_tables_def
      table_refs_with_schema_changes_def seq_app unique_def unique_by_def List.map_filter_def)

lemma example_finalize:
  "n \<in> {0, 1} \<Longrightarrow> db_snapshots db = db_snapshots example_store \<Longrightarrow> db_snapshot_changes db = db_snapshot_changes example_store \<Longrightarrow>
   \<exists>db'. finalize_commit example_env example_now [CreatedSchema ''main''] [] au (example_state_after n) db =
     (db', if n = 0 then Err unique_violation else Ok (snapshot_info_of (snapshot_of_state example_now (example_state_after n))))"
  using example_schema_id [of n]
  by (auto simp: finalize_commit_def seq_app Let_def on_table_def insert_entity_def snapshot_of_state_def example_store_def
      store_with_def example_snapshot_def example_made_def insert_entities_app)

lemma example_attempt:
  assumes "n \<in> {0, 1}"
  shows "\<exists>db. apply_changes example_env example_now None example_changes au (example_store, example_state n) =
    ((db, example_state_after n),
     if n = 0 then Err unique_violation else Ok (snapshot_info_of (snapshot_of_state example_now (example_state_after n))))"
proof -
  obtain db where db: "persist example_env (tx_changes_default\<lparr>tc_new_schemas := [example_row n]\<rparr>)
      (example_store, example_state_after n) = ((db, example_state_after n), Ok ())"
    and rows: "db_snapshots db = db_snapshots example_store" "db_snapshot_changes db = db_snapshot_changes example_store"
    using example_persist [of "example_state_after n" n] example_schema_id [OF assms] by blast
  from example_finalize [OF assms rows, of au] obtain db' where
    "finalize_commit example_env example_now [CreatedSchema ''main''] [] au (example_state_after n) db =
     (db', if n = 0 then Err unique_violation else Ok (snapshot_info_of (snapshot_of_state example_now (example_state_after n))))"
    by blast
  with db show ?thesis
    by (simp add: apply_changes_def seq_app on_state_def on_table_def example_collect [OF assms] example_ids
        transactional_def write_commit_def)
qed

abbreviation example_info :: "i64 \<Rightarrow> snapshot_info" where
  "example_info n \<equiv> snapshot_info_of (example_snapshot n)"

abbreviation example_attempt_args :: commit_args where
  "example_attempt_args \<equiv> example_args\<lparr>ca_changes := example_changes\<rparr>"

lemma example_attempt_state: "attempt_state example_attempt_args example_store (example_info n) = Ok (example_state n)"
  by (simp add: attempt_state_def change_set_requires_table_stats_def change_set_changes_schema_def example_args_def
      example_changes_def example_state_def changes_schema_def)

lemma example_conflicts: "check_conflicts example_attempt_args example_store (example_info 1) st = Ok ()"
proof -
  have parsed: "parse_applied_set (applied_set_to_string (applied_set_new [CreatedSchema ''other''])) =
      Ok (applied_set_new [CreatedSchema ''other''])"
    by (rule parse_applied_set_to_string) (simp_all add: schema_name_to_string_def format_identifier_def quoted_def)
  have "check_set_conflict [CreatedSchema ''main''] (applied_set_new [CreatedSchema ''other'']) example_catalog = Ok ()"
    by (simp add: check_set_conflict_def applied_set_new_def unique_def unique_by_def check_conflict_def when_same_def)
  then show ?thesis
    by (simp add: check_conflicts_def get_snapshot_changes_def example_args_def example_store_def store_with_def
        example_made_def example_snapshot_def snapshot_info_of_def i64_defs parsed example_ids)
qed

lemma example_round_0: "commit_body example_attempt_args example_schedule 0 (example_info 0) (example_info 0) =
    Inr (example_info 1, example_info 1)"
proof -
  obtain db where "apply_changes (ca_env example_args) (ca_now example_args) None example_changes (ca_author example_args)
      (example_store, example_state 0) = ((db, example_state_after 0), Err unique_violation)"
    using example_attempt [of 0 "ca_author example_args"] by (auto simp: example_args_def)
  moreover have "load_latest example_store = Ok (example_info 1)"
    by (simp add: load_latest_def example_store_def store_with_def example_snapshot_def)
  moreover have "insert_snapshot (example_info 0) (example_info 1) = (example_info 1, example_info 1)"
    by (simp add: insert_snapshot_def snapshot_info_of_def example_snapshot_def)
  ultimately show ?thesis
    by (simp add: commit_body_def example_attempt_state example_schedule_def retryable_def unique_violation_def
        retry_arm_def example_conflicts)
qed

lemma example_round_1: "\<exists>cache db. commit_body example_attempt_args example_schedule 1 (example_info 1) (example_info 1) =
    Inl (cache, Some (1, db), Ok ())"
  using example_attempt [of 1 "ca_author example_args"]
  by (auto simp: commit_body_def example_attempt_state example_schedule_def) (auto simp: example_args_def)

lemma example_commit_wrote: "\<exists>cache db. example_commit = (cache, Some (1, db), Ok ())"
proof -
  have cs: "change_set_new example_changes = example_changes" "example_changes \<noteq> []"
    unfolding example_changes_def by code_simp+
  have start: "ca_start example_args = example_info 0" by (simp add: example_args_def)
  show ?thesis
    using example_round_1
    by (auto simp: example_commit_def commit_def cs Let_def start commit_round.simps [of _ _ 0] commit_round.simps [of _ _ "Suc 0"]
        example_round_0 max_retry_count_def)
qed

end
