(* ===== verification/Panics.thy ===== *)
theory Panics
  imports Data_Writes
begin

text \<open>
  Two sequences of operations that a transaction accepts and that panic when they are
  committed: updating a column with nested columns, and dropping the partitioning of a table
  created with one in the same transaction.
\<close>

section \<open>Updates of nested columns\<close>

lemma collect_panics:
  assumes "\<And>x e. x \<in> set xs \<Longrightarrow> f x \<noteq> Err e" and "x \<in> set xs" and "\<not> is_ok (f x)"
  shows "\<exists>m. collect f xs = Panic m"
  using assms
proof (induction xs)
  case (Cons a xs)
  show ?case
  proof (cases "f a")
    case (Ok y)
    with Cons.prems(2,3) have "x \<in> set xs" by (auto simp: is_ok_iff)
    with Cons.IH Cons.prems(1,3) obtain m where "collect f xs = Panic m" by (meson list.set_intros(2))
    with Ok show ?thesis by simp
  qed (use Cons.prems(1) in auto)
qed simp

lemma flat_column_row_no_Err: "flat_column_row E t n par ids (i, fc) \<noteq> Err e"
proof (cases "i < length ids")
  case True
  show ?thesis
  proof (cases "fc_parent_index fc")
    case None
    show ?thesis by (simp only: flat_row_simps True None res.distinct not_False_eq_True)
  next
    case (Some k)
    show ?thesis
      by (cases "k < length ids") (simp_all only: flat_row_simps True Some idx_get_def if_True if_False res.distinct not_False_eq_True)
  qed
next
  case False
  show ?thesis by (simp only: flat_row_simps False idx_get_def if_False res.distinct not_False_eq_True)
qed

lemma flat_column_row_out_of_range:
  assumes "length ids \<le> i"
  shows "\<not> is_ok (flat_column_row E t n par ids (i, fc))"
  using assms by (auto simp: is_ok_iff elim: flat_column_row_cases)

lemma update_nested_column_panics:
  assumes "1 < length (flatten c)" and "state_table_id (cr_table_ref r) st = (st1, Ok t)"
    and "state_column_id r st1 = (st1, Ok i)"
  shows "\<exists>p m. update_table_column E None r c (ch, st) = (p, Panic m)"
proof -
  let ?n = "st_snapshot_id st1"
  have "\<exists>m. collect (flat_column_row E t ?n None [i]) (enumerate 0 (flatten c)) = Panic m"
  proof (rule collect_panics)
    show "(1, flatten c ! 1) \<in> set (enumerate 0 (flatten c))"
      using assms(1) by (simp add: in_set_enumerate_eq)
    show "\<not> is_ok (flat_column_row E t ?n None [i] (1, flatten c ! 1))"
      by (rule flat_column_row_out_of_range) simp
  qed (auto simp: flat_column_row_no_Err)
  then obtain m where m: "collect (flat_column_row E t ?n None [i]) (enumerate 0 (flatten c)) = Panic m" by blast
  have "add_column_to_buffers E t None [r] c st1 = (st1, Panic m)"
    by (simp add: add_column_to_buffers_def seq_app assms(3) m)
  then show ?thesis
    by (simp add: update_table_column_def table_of_column_def in_state_def on_table_def edit_def seq_app assms(2,3))
qed

section \<open>Partitionings of new tables\<close>

definition unpartitioned :: "table_ref \<Rightarrow> commit_state \<Rightarrow> bool" where
  "unpartitioned r st \<longleftrightarrow> (\<exists>t. table_inner (st_catalog st) r = Ok t \<and> ct_partition t = None)"

lemma create_partitioning_panics:
  assumes "unpartitioned r st"
  shows "\<exists>p m. create_partitioning r i refs cols (ch, st) = (p, Panic m)"
proof -
  from assms obtain t where t: "table_inner (st_catalog st) r = Ok t" "ct_partition t = None"
    by (auto simp: unpartitioned_def)
  then have "\<exists>st' m. state_partition_id r st = (st', Panic m)"
    by (simp add: state_partition_id_def resolve_with_def seq_app partition_id_def catalog_id_def on_catalog_def
        table_resolve_partition_id_def)
  then show ?thesis by (auto simp: create_partitioning_def seq_app in_state_def on_table_def)
qed

lemma unpartitioned_table_id: "preserves (unpartitioned r) (state_table_id q)"
  unfolding state_table_id_def resolve_with_def
  by (intro preserves_seq preserves_query)
    (auto simp: catalog_id_def on_catalog_def preserves_def case_prod_beta Let_def seq_app table_resolve_id_def
      unpartitioned_def table_inner_def arena_register_id_def arena_get_def arena_modify_def idx_get_def nth_list_update
      split: option.split res.split if_splits)

lemma unpartitioned_other:
  "preserves (unpartitioned r) (state_schema_id s)" "preserves (unpartitioned r) (state_column_id c)"
  "preserves (unpartitioned r) (add_column_to_buffers E t par rs col)"
proof -
  show column: "preserves (unpartitioned r) (state_column_id c)" for c by (simp add: state_column_id_def)
  show "preserves (unpartitioned r) (state_schema_id s)"
    unfolding state_schema_id_def resolve_with_def
    by (intro preserves_seq preserves_query)
      (auto simp: catalog_id_def on_catalog_def preserves_def case_prod_beta Let_def seq_app schema_resolve_id_def
        unpartitioned_def table_inner_def split: option.split res.split)
  show "preserves (unpartitioned r) (add_column_to_buffers E t par rs col)"
    unfolding add_column_to_buffers_def
    by (intro preserves_seq preserves_collect_op column) (auto intro!: preserves_seq column split: option.split)
qed

lemma preserves_snd_in_state: "preserves P m \<Longrightarrow> preserves (\<lambda>p. P (snd p)) (in_state m)"
  unfolding in_state_def by (rule preserves_on_table) (auto simp: preserves_def)

lemma preserves_snd_edit: "preserves (\<lambda>p. P (snd p)) (edit f)" "preserves (\<lambda>p. P (snd p)) snapshot_id"
  by (simp_all add: preserves_def edit_def snapshot_id_def)

lemma create_partitioned_table_fails:
  assumes "crt_partition_column_refs t = Some refs" and "crt_partition_columns t = Some cols"
  shows "run_ok (\<lambda>p. unpartitioned (crt_table_ref t) (snd p)) (create_table_rows E t) (\<lambda>_ _. False)"
proof -
  let ?I = "\<lambda>p. unpartitioned (crt_table_ref t) (snd p)"
  have fails: "run_ok ?I (create_partitioning_opt (crt_table_ref t) i (crt_partition_column_refs t) (crt_partition_columns t)) (\<lambda>_ _. False)" for i
  proof (rule run_okI)
    fix p p' u
    assume "?I p" and run: "create_partitioning_opt (crt_table_ref t) i (crt_partition_column_refs t) (crt_partition_columns t) p = (p', Ok u)"
    then obtain q m where "create_partitioning (crt_table_ref t) i refs cols p = (q, Panic m)"
      using create_partitioning_panics [of "crt_table_ref t" "snd p" i refs cols "fst p"] by auto
    with run show False by (simp add: create_partitioning_opt_def assms)
  qed
  show ?thesis
    unfolding create_table_rows_def
    by (intro run_ok_keep [OF preserves_snd_in_state] run_ok_keep [OF preserves_snd_edit(1)] run_ok_keep [OF preserves_snd_edit(2)]
        preserves_collect_op unpartitioned_table_id run_ok_seq [OF fails])
      (auto intro: unpartitioned_other simp: run_ok_def)
qed

end
