(* ===== verification/Column_Load.thy ===== *)
theory Column_Load
  imports Column_Growth Values Entities "HOL-Library.Option_ord"
begin

text \<open>
  \<open>CatalogColumns::from_ducklake\<close>: the columns of a table from the rows of the metadata tables.
  The rows are sorted by their order, with a stable sort that puts rows without an order first; the
  position after sorting is the index in the arena.
\<close>

section \<open>Groups of rows\<close>

text \<open>\<open>into_group_map_by\<close>, and \<open>map.remove(&k).unwrap_or_default()\<close>.\<close>

definition group_push :: "'k \<Rightarrow> 'a \<Rightarrow> ('k, 'a list) imap \<Rightarrow> ('k, 'a list) imap" where
  "group_push k x m = im_insert k ((case im_get m k of None \<Rightarrow> [] | Some ys \<Rightarrow> ys) @ [x]) m"

definition group_map_by :: "('a \<Rightarrow> 'k) \<Rightarrow> 'a list \<Rightarrow> ('k, 'a list) imap" where
  "group_map_by f xs = fold (\<lambda>x. group_push (f x) x) xs []"

definition group_of :: "('k, 'a list) imap \<Rightarrow> 'k \<Rightarrow> 'a list" where
  "group_of m k = (case im_get m k of None \<Rightarrow> [] | Some ys \<Rightarrow> ys)"

lemma group_of_push: "group_of (group_push k x m) k' = (if k' = k then group_of m k @ [x] else group_of m k')"
  by (simp add: group_of_def group_push_def)

lemma group_of_fold:
  "group_of (fold (\<lambda>x. group_push (f x) x) xs m) k = group_of m k @ filter (\<lambda>x. f x = k) xs"
  by (induction xs arbitrary: m) (auto simp: group_of_push)

lemma group_of_map_by [simp]: "group_of (group_map_by f xs) k = filter (\<lambda>x. f x = k) xs"
  by (simp add: group_map_by_def group_of_fold) (simp add: group_of_def)

lemma group_of_remove [simp]: "group_of (im_remove k m) k' = (if k' = k then [] else group_of m k')"
  by (simp add: group_of_def)

section \<open>One column\<close>

type_synonym child_rows = "(i64, (ducklake_column \<times> usize) list) imap"

text \<open>Removing the children of a column from the groups.\<close>

definition take_children :: "i64 \<Rightarrow> (child_rows, ducklake_error, (ducklake_column \<times> usize) list) op" where
  "take_children i m = (im_remove i m, Ok (group_of m i))"

definition struct_fields :: "(ducklake_column \<times> usize) list \<Rightarrow> (string, usize) imap result" where
  "struct_fields children =
     fold_res (\<lambda>(field, idx) fs.
        if im_contains (dc_column_name field) fs then Err (column_already_exists (dc_column_name field))
        else Ok (im_insert (dc_column_name field) idx fs))
       (sort_key (\<lambda>p. dc_column_order (fst p)) children) []"

definition list_children_message :: "nat \<Rightarrow> string" where
  "list_children_message n = ''list must have exactly one child element but found '' @ show_int (int n)"

definition map_children_message :: "nat \<Rightarrow> string" where
  "map_children_message n =
     ''map must have exactly two child elements (key and value) but found '' @ show_int (int n)"

text \<open>\<open>pop\<close> takes the last element.\<close>

definition map_entry :: "(ducklake_column \<times> usize) list \<Rightarrow> catalog_data_type result" where
  "map_entry children =
     (let (ks, vs) = (filter (\<lambda>p. dc_column_name (fst p) = ''key'') children,
                      filter (\<lambda>p. dc_column_name (fst p) \<noteq> ''key'') children) in
      if ks = [] then Err (InvalidDataType (''map must have a child element named '' @ sq ''key''))
      else if vs = [] then Err (InvalidDataType (''map must have a child element named '' @ sq ''value''))
      else Ok (CMap (snd (last ks)) (snd (last vs))))"

definition dtype_from_ducklake :: "ducklake_column \<Rightarrow> (child_rows, ducklake_error, catalog_data_type) op" where
  "dtype_from_ducklake col =
     (if dc_column_type col = ''list'' then
        seq (take_children (dc_column_id col)) (\<lambda>children. lift_res
          (case children of
             [c] \<Rightarrow> Ok (CList (snd c))
           | _ \<Rightarrow> Err (InvalidDataType (list_children_message (length children)))))
      else if dc_column_type col = ''struct'' then
        seq (take_children (dc_column_id col)) (\<lambda>children.
          lift_res (and_then (struct_fields children) (\<lambda>fs. Ok (CStruct fs))))
      else if dc_column_type col = ''map'' then
        seq (take_children (dc_column_id col)) (\<lambda>children. lift_res
          (if length children \<noteq> 2 then Err (InvalidDataType (map_children_message (length children)))
           else map_entry children))
      else lift_res (and_then (parse_primitive (dc_column_type col)) (\<lambda>t. Ok (CPrimitive t))))"

definition unsupported_default :: "string \<Rightarrow> ducklake_error" where
  "unsupported_default name = InvalidDefault name ''default value for non-primitive type is not supported''"

definition default_literal :: "ext_text \<Rightarrow> string \<Rightarrow> catalog_data_type \<Rightarrow> string option \<Rightarrow> value option result" where
  "default_literal X name t v =
     (case v of
        None \<Rightarrow> Ok None
      | Some s \<Rightarrow> (case t of
          CPrimitive p \<Rightarrow> value_parse X p s
        | _ \<Rightarrow> Err (unsupported_default name)))"

definition default_from_ducklake :: "ext_text \<Rightarrow> ducklake_column \<Rightarrow> catalog_data_type \<Rightarrow> column_default result" where
  "default_from_ducklake X col t =
     (if dc_default_value_type col = Some ''literal''
      then and_then (default_literal X (dc_column_name col) t (dc_default_value col)) (\<lambda>v. Ok (Literal v))
      else if dc_default_value_type col = Some ''expression'' then
        (case dc_default_value col of
           Some e \<Rightarrow> Ok (Expression (case dc_default_value_dialect col of None \<Rightarrow> [] | Some d \<Rightarrow> d) e)
         | None \<Rightarrow> Err (InvalidDefault (dc_column_name col) ''expression default value is missing expression''))
      else Ok (Literal None))"

definition tag_of_column_tag :: "ducklake_column_tag \<Rightarrow> tag" where
  "tag_of_column_tag r = \<lparr>tag_key = dct_key r, tag_value = dct_value r\<rparr>"

text \<open>The tags of the column are taken out of the remaining ones.\<close>

definition column_from_ducklake ::
  "ext_text \<Rightarrow> ducklake_column \<Rightarrow> usize option
    \<Rightarrow> (child_rows \<times> ducklake_column_tag list, ducklake_error, catalog_column) op"
where
  "column_from_ducklake X col parent st =
     (case dtype_from_ducklake col (fst st) of
        (ch, Ok t) \<Rightarrow>
          (let mine = (\<lambda>tg. dct_column_id tg = dc_column_id col);
               r = and_then (default_literal X (dc_column_name col) t (dc_initial_default col)) (\<lambda>initial.
                   and_then (default_from_ducklake X col t) (\<lambda>d.
                     Ok \<lparr>cc_id = dc_column_id col, cc_name = dc_column_name col, cc_dtype = t,
                         cc_parent_column = parent, cc_nullable = dc_nulls_allowed col,
                         cc_tags = tags_from_list (map tag_of_column_tag (filter mine (snd st))),
                         cc_initial_default = initial, cc_default_value = d\<rparr>)) in
           (if is_ok r then (ch, filter (\<lambda>tg. \<not> mine tg) (snd st)) else (ch, snd st), r))
      | (ch, Err e) \<Rightarrow> ((ch, snd st), Err e)
      | (ch, Panic m) \<Rightarrow> ((ch, snd st), Panic m))"

section \<open>All columns of a table\<close>

definition id_to_arena_idx :: "ducklake_column list \<Rightarrow> (i64, usize) imap" where
  "id_to_arena_idx cols = fold (\<lambda>(idx, col). im_insert (dc_column_id col) idx) (enumerate 0 cols) []"

definition children_by_parent_id :: "ducklake_column list \<Rightarrow> child_rows" where
  "children_by_parent_id cols =
     fold (\<lambda>(idx, col) m.
        case dc_parent_column col of None \<Rightarrow> m | Some p \<Rightarrow> group_push p (col, idx) m)
       (enumerate 0 cols) []"

type_synonym load_state = "catalog_columns \<times> child_rows \<times> ducklake_column_tag list"

text \<open>A root column is pushed before its name is found to be taken.\<close>

definition load_column :: "ext_text \<Rightarrow> (i64, usize) imap \<Rightarrow> ducklake_column \<Rightarrow> load_state \<Rightarrow> load_state result" where
  "load_column X ids col st =
     and_then (case dc_parent_column col of
                 None \<Rightarrow> Ok None
               | Some p \<Rightarrow> and_then (expect ''no entry found for key'' (im_get ids p)) (\<lambda>i. Ok (Some i))) (\<lambda>parent.
       (case column_from_ducklake X col parent (snd st) of
          (rest, Ok c) \<Rightarrow>
            (let (cs, idx) = push_column c (fst st) in
             if parent \<noteq> None then Ok (cs, rest)
             else if im_contains (dc_column_name col) (cs_root_columns cs)
             then Err (column_already_exists (dc_column_name col))
             else Ok (cs\<lparr>cs_root_columns := im_insert (dc_column_name col) idx (cs_root_columns cs)\<rparr>, rest))
        | (rest, Err e) \<Rightarrow> Err e
        | (rest, Panic m) \<Rightarrow> Panic m))"

definition columns_from_ducklake ::
  "ext_text \<Rightarrow> ducklake_column list \<Rightarrow> ducklake_column_tag list \<Rightarrow> catalog_columns result"
where
  "columns_from_ducklake X rows tags =
     (let cols = sort_key dc_column_order rows in
      and_then (fold_res (load_column X (id_to_arena_idx cols)) cols
                  (columns_new None, children_by_parent_id cols, tags)) (\<lambda>st. Ok (fst st)))"

end
