(* ===== verification/Column_Load_Trip.thy ===== *)
theory Column_Load_Trip
  imports Column_Load
begin

text \<open>
  The rows of the columns of a table, as a commit writes them for a new table, load back to the
  arena of these columns.
\<close>

section \<open>The rows of the nodes of a forest\<close>

lemma child_offsets_nodes: "map (\<lambda>o'. nodes cs ! (o' - n)) (child_offsets cs n) = cs"
proof (induction cs n rule: child_offsets.induct)
  case (2 c cs n)
  have "map (\<lambda>o'. nodes (c # cs) ! (o' - n)) (child_offsets cs (n + length (preorder c)))
      = map (\<lambda>o'. nodes cs ! (o' - (n + length (preorder c)))) (child_offsets cs (n + length (preorder c)))"
    using child_offsets_in by (fastforce simp: nth_append)
  with 2 show ?case by (simp add: preorder.simps [of c])
qed simp

lemma nodes_of_subtree:
  assumes "i < length (nodes cs)" and "j < length (nodes (col_children (nodes cs ! i)))"
  shows "nodes cs ! (Suc i + j) = nodes (col_children (nodes cs ! i)) ! j \<and> Suc i + j < length (nodes cs)"
  using assms
proof (induction cs arbitrary: i rule: erase_ids.induct)
  case (2 c cs)
  let ?a = "length (nodes (col_children c))"
  consider "i = 0" | i' where "i = Suc i'" "i' < ?a" | i' where "i = Suc (?a + i')" "i' < length (nodes cs)"
    using "2.prems"(1) by (cases i) (auto simp: length_preorder, metis add_diff_inverse_nat add_less_cancel_left not_less_eq)
  then show ?case
  proof cases
    case 1
    with "2.prems" show ?thesis unfolding nodes_Cons by (simp add: nth_append)
  next
    case (2 i')
    then have "nodes (c # cs) ! i = nodes (col_children c) ! i'" unfolding nodes_Cons by (simp add: nth_append)
    with "2.IH"(1) [of i'] "2.prems"(2) 2 show ?thesis unfolding nodes_Cons by (simp add: nth_append)
  next
    case (3 i')
    then have "nodes (c # cs) ! i = nodes cs ! i'" unfolding nodes_Cons by (simp add: nth_append)
    with "2.IH"(2) [of i'] "2.prems"(2) 3 show ?thesis unfolding nodes_Cons by (simp add: nth_append add.assoc)
  qed
qed simp

lemma children_nodes:
  assumes "i < length (nodes cs)"
  shows "map ((!) (nodes cs)) (child_offsets (col_children (nodes cs ! i)) (Suc i)) = col_children (nodes cs ! i)"
    (is "map _ ?offs = ?ks")
proof -
  have "map ((!) (nodes cs)) ?offs = map (\<lambda>o'. nodes ?ks ! (o' - Suc i)) ?offs"
  proof (intro map_cong refl)
    fix o' assume "o' \<in> set ?offs"
    then have "Suc i \<le> o'" "o' - Suc i < length (nodes ?ks)" using child_offsets_in by fastforce+
    with nodes_of_subtree [OF assms, of "o' - Suc i"] show "nodes cs ! o' = nodes ?ks ! (o' - Suc i)" by simp
  qed
  then show ?thesis by (simp add: child_offsets_nodes)
qed

lemma child_offsets_range:
  assumes "i < length (nodes cs)" and "o' \<in> set (child_offsets (col_children (nodes cs ! i)) (Suc i))"
  shows "i < o' \<and> o' < length (nodes cs)"
proof -
  from child_offsets_in [OF assms(2)]
  have "Suc i \<le> o'" "o' - Suc i < length (nodes (col_children (nodes cs ! i)))" by auto
  with nodes_of_subtree [OF assms(1), of "o' - Suc i"] show ?thesis by simp
qed

lemma child_offsets_sorted: "sorted (child_offsets cs n)" "distinct (child_offsets cs n)"
proof -
  have "sorted_wrt (<) (child_offsets cs n)"
    by (induction cs n rule: child_offsets.induct) (use child_offsets_in in \<open>fastforce simp: length_preorder\<close>)+
  then show "sorted (child_offsets cs n)" "distinct (child_offsets cs n)"
    by (simp_all add: strict_sorted_iff)
qed

text \<open>The roots are the entries without a parent; a parent is an entry of the forest.\<close>

lemma roots_of_flat_list:
  "map fst (filter (\<lambda>(j, e). fc_parent_index e = None) (enumerate n (flat_list cs p n))) =
    (if p = None then child_offsets cs n else [])"
proof (induction cs p n rule: flat_list.induct)
  case (2 c cs p n)
  then show ?case by (cases p) (simp_all add: enumerate_append_eq length_flat_list length_preorder)
qed simp

lemma flat_list_parent:
  "e \<in> set (flat_list cs p n) \<Longrightarrow>
    fc_parent_index e = p \<or> (\<exists>r. fc_parent_index e = Some r \<and> n \<le> r \<and> r < n + length (nodes cs))"
proof (induction cs p n rule: flat_list.induct)
  case (2 c cs p n)
  from 2(3) consider "e = \<lparr>fc_column = c, fc_parent_index = p\<rparr>"
    | "e \<in> set (flat_list (col_children c) (Some n) (Suc n))"
    | "e \<in> set (flat_list cs p (n + length (preorder c)))" by auto
  then show ?case
  proof cases
    case 2
    from "2.IH"(1) [OF this] show ?thesis by (auto simp: length_preorder)
  next
    case 3
    from "2.IH"(2) [OF this] show ?thesis by (auto simp: length_preorder)
  qed simp
qed simp

lemma enumerate_nth: "enumerate 0 xs = map (\<lambda>i. (i, xs ! i)) [0..<length xs]"
  by (rule nth_equalityI) (simp_all add: nth_enumerate_eq)

lemma kids_nth: "kids 0 fl q = filter (\<lambda>i. fc_parent_index (fl ! i) = Some q) [0..<length fl]"
  by (simp add: kids_def enumerate_nth filter_map comp_def)

section \<open>Rows that load back\<close>

definition loadable :: "column \<Rightarrow> bool" where
  "loadable c \<longleftrightarrow> struct_ok c \<and>
     (case col_dtype c of
        DList _ \<Rightarrow> True
      | DStruct _ \<Rightarrow> True
      | DMap k v \<Rightarrow> col_name k = ''key'' \<and> col_name v \<noteq> ''key''
      | t \<Rightarrow> dtype_ok t)"

definition row_loads :: "ext_text \<Rightarrow> (nat \<Rightarrow> i64) \<Rightarrow> nat \<Rightarrow> flattened_column \<Rightarrow> ducklake_column \<Rightarrow> bool" where
  "row_loads X ids i e r \<longleftrightarrow>
     dc_column_id r = ids i \<and> dc_column_order r = Some (ids i) \<and> dc_column_name r = col_name (fc_column e) \<and>
     dc_column_type r = dtype_to_string (col_dtype (fc_column e)) \<and>
     dc_nulls_allowed r = col_nullable (fc_column e) \<and>
     dc_parent_column r = map_option ids (fc_parent_index e) \<and>
     default_literal X (dc_column_name r) (entry_dtype (fc_column e) (Suc i)) (dc_initial_default r)
       = Ok (col_initial_default (fc_column e)) \<and>
     default_from_ducklake X r (entry_dtype (fc_column e) (Suc i)) = Ok (col_default (fc_column e))"

definition forest_rows ::
  "ext_text \<Rightarrow> (nat \<Rightarrow> i64) \<Rightarrow> column list \<Rightarrow> ducklake_column list \<Rightarrow> ducklake_column_tag list \<Rightarrow> bool"
where
  "forest_rows X ids cols rows tags \<longleftrightarrow>
     length rows = length (nodes cols) \<and> strict_mono ids \<and> distinct (map col_name cols) \<and>
     (\<forall>i < length rows. row_loads X ids i (flat_list cols None 0 ! i) (rows ! i) \<and> loadable (nodes cols ! i) \<and>
        tags_from_list (map tag_of_column_tag (filter (\<lambda>t. dct_column_id t = ids i) tags)) = col_tags (nodes cols ! i))"

lemma forest_rows_nth:
  assumes "forest_rows X ids cols rows tags" and "i < length rows"
  shows "dc_column_id (rows ! i) = ids i" "dc_column_order (rows ! i) = Some (ids i)"
    "dc_column_name (rows ! i) = col_name (nodes cols ! i)"
    "dc_column_type (rows ! i) = dtype_to_string (col_dtype (nodes cols ! i))"
    "dc_nulls_allowed (rows ! i) = col_nullable (nodes cols ! i)"
    "dc_parent_column (rows ! i) = map_option ids (fc_parent_index (flat_list cols None 0 ! i))"
    "default_literal X (col_name (nodes cols ! i)) (entry_dtype (nodes cols ! i) (Suc i)) (dc_initial_default (rows ! i))
       = Ok (col_initial_default (nodes cols ! i))"
    "default_from_ducklake X (rows ! i) (entry_dtype (nodes cols ! i) (Suc i)) = Ok (col_default (nodes cols ! i))"
    "loadable (nodes cols ! i)"
    "tags_from_list (map tag_of_column_tag (filter (\<lambda>t. dct_column_id t = ids i) tags)) = col_tags (nodes cols ! i)"
proof -
  have "fc_column (flat_list cols None 0 ! i) = nodes cols ! i"
    using assms map_flat_list [of cols None 0] by (metis forest_rows_def length_flat_list nth_map)
  with assms show "dc_column_id (rows ! i) = ids i" "dc_column_order (rows ! i) = Some (ids i)"
    "dc_column_name (rows ! i) = col_name (nodes cols ! i)"
    "dc_column_type (rows ! i) = dtype_to_string (col_dtype (nodes cols ! i))"
    "dc_nulls_allowed (rows ! i) = col_nullable (nodes cols ! i)"
    "dc_parent_column (rows ! i) = map_option ids (fc_parent_index (flat_list cols None 0 ! i))"
    "default_literal X (col_name (nodes cols ! i)) (entry_dtype (nodes cols ! i) (Suc i)) (dc_initial_default (rows ! i))
       = Ok (col_initial_default (nodes cols ! i))"
    "default_from_ducklake X (rows ! i) (entry_dtype (nodes cols ! i) (Suc i)) = Ok (col_default (nodes cols ! i))"
    "loadable (nodes cols ! i)"
    "tags_from_list (map tag_of_column_tag (filter (\<lambda>t. dct_column_id t = ids i) tags)) = col_tags (nodes cols ! i)"
    by (auto simp: forest_rows_def row_loads_def)
qed

section \<open>Groups and indices of the rows\<close>

lemma group_of_children:
  "group_of (children_by_parent_id rs) p =
    map (\<lambda>i. (rs ! i, i)) (filter (\<lambda>i. dc_parent_column (rs ! i) = Some p) [0..<length rs])"
proof -
  have "group_of (fold (\<lambda>(idx, col) m.
        case dc_parent_column col of None \<Rightarrow> m | Some p \<Rightarrow> group_push p (col, idx) m) es m) p
    = group_of m p @ map (\<lambda>(i, r). (r, i)) (filter (\<lambda>(i, r). dc_parent_column r = Some p) es)" for es m
    by (induction es arbitrary: m) (auto simp: group_of_push split: option.split)
  from this [of "enumerate 0 rs" "[]"] have "group_of (children_by_parent_id rs) p =
      group_of [] p @ map (\<lambda>(i, r). (r, i)) (filter (\<lambda>(i, r). dc_parent_column r = Some p) (enumerate 0 rs))"
    unfolding children_by_parent_id_def .
  moreover have "group_of [] p = ([] :: (ducklake_column \<times> usize) list)" by (simp add: group_of_def)
  ultimately show ?thesis by (simp add: enumerate_nth filter_map comp_def)
qed

lemma children_of_row:
  assumes rows: "forest_rows X ids cols rows tags" and k: "k < length rows"
  shows "group_of (children_by_parent_id rows) (ids k) =
    map (\<lambda>i. (rows ! i, i)) (child_offsets (col_children (nodes cols ! k)) (Suc k))"
proof -
  let ?fl = "flat_list cols None 0"
  have len: "length rows = length ?fl" "strict_mono ids"
    using rows by (auto simp: forest_rows_def length_flat_list)
  have "filter (\<lambda>i. dc_parent_column (rows ! i) = Some (ids k)) [0..<length rows] = kids 0 ?fl k"
    unfolding kids_nth len(1) using forest_rows_nth(6) [OF rows] len
    by (intro filter_cong refl) (auto simp: strict_mono_eq)
  with kids_inside [of k cols None 0] k rows show ?thesis
    by (simp add: group_of_children forest_rows_def)
qed

lemma id_to_arena_idx_nth:
  assumes "distinct (map dc_column_id rs)" and "k < length rs"
  shows "im_get (id_to_arena_idx rs) (dc_column_id (rs ! k)) = Some k"
proof -
  have "im_get (fold (\<lambda>(idx, col). im_insert (dc_column_id col) idx) es m) i
    = (case map_of (rev (map (\<lambda>(idx, col). (dc_column_id col, idx)) es)) i of None \<Rightarrow> im_get m i | Some j \<Rightarrow> Some j)" for es m i
    by (induction es arbitrary: m) (auto simp: map_add_def split: option.split)
  from this [of "enumerate 0 rs" "[]"]
  have "im_get (id_to_arena_idx rs) i = map_of (rev (map (\<lambda>j. (dc_column_id (rs ! j), j)) [0..<length rs])) i" for i
    unfolding id_to_arena_idx_def by (simp add: enumerate_nth comp_def split: option.split)
  moreover have "distinct (map fst (rev (map (\<lambda>j. (dc_column_id (rs ! j), j)) [0..<length rs])))"
  proof -
    have "map dc_column_id rs = map (\<lambda>j. dc_column_id (rs ! j)) [0..<length rs]"
      by (rule nth_equalityI) simp_all
    with assms(1) show ?thesis by (simp add: comp_def flip: rev_map)
  qed
  ultimately show ?thesis using assms(2) by (auto intro!: map_of_is_SomeI)
qed

section \<open>The type of a row\<close>

lemma primitive_name: "dtype_ok t \<Longrightarrow> dtype_to_string t \<notin> {''list'', ''struct'', ''map''}"
  by (cases t) (auto split: timestamp_precision.splits)

lemma sort_children:
  assumes "\<And>i. i \<in> set is \<Longrightarrow> dc_column_order (rows ! i) = Some (ids i)" and "strict_mono ids" and "sorted is"
  shows "sort_key (\<lambda>p. dc_column_order (fst p)) (map (\<lambda>i. (rows ! i, i)) is) = map (\<lambda>i. (rows ! i, i)) is"
proof (rule sort_key_id_if_sorted)
  have "map (\<lambda>p. dc_column_order (fst p)) (map (\<lambda>i. (rows ! i, i)) is) = map (\<lambda>i. Some (ids i)) is"
    using assms(1) by simp
  moreover have "sorted (map (\<lambda>i. Some (ids i)) is)"
    using assms(2,3) by (auto simp: sorted_map strict_mono_less_eq elim!: sorted_wrt_mono_rel [rotated])
  ultimately show "sorted (map (\<lambda>p. dc_column_order (fst p)) (map (\<lambda>i. (rows ! i, i)) is))" by (simp only:)
qed

lemma struct_fields_distinct:
  assumes "sort_key (\<lambda>p. dc_column_order (fst p)) ch = ch" and "distinct (map (\<lambda>p. dc_column_name (fst p)) ch)"
  shows "struct_fields ch = Ok (map (\<lambda>p. (dc_column_name (fst p), snd p)) ch)"
proof -
  let ?f = "\<lambda>(field, idx) fs. if im_contains (dc_column_name field) fs then Err (column_already_exists (dc_column_name field))
        else Ok (im_insert (dc_column_name field) idx fs)"
  have "distinct (map fst m @ map (\<lambda>p. dc_column_name (fst p)) ch) \<Longrightarrow>
      fold_res ?f ch m = Ok (m @ map (\<lambda>p. (dc_column_name (fst p), snd p)) ch)" for m
  proof (induction ch arbitrary: m)
    case (Cons p ch)
    then have "dc_column_name (fst p) \<notin> fst ` set m" by auto
    with Cons show ?case by (cases p) (simp add: im_insert_new)
  qed simp
  from this [of "[]"] assms show ?thesis by (simp add: struct_fields_def)
qed

lemma map_pair_zip: "map (\<lambda>i. (f i, i)) xs = zip (map f xs) xs"
  by (induction xs) simp_all

lemma dtype_of_row:
  assumes rows: "forest_rows X ids cols rows tags" and k: "k < length rows"
    and m: "group_of m (ids k) = group_of (children_by_parent_id rows) (ids k)"
  shows "\<exists>m'. dtype_from_ducklake (rows ! k) m = (m', Ok (entry_dtype (nodes cols ! k) (Suc k))) \<and>
    (\<forall>i. i \<noteq> ids k \<longrightarrow> group_of m' i = group_of m i)"
proof -
  let ?c = "nodes cols ! k"
  let ?offs = "child_offsets (col_children ?c) (Suc k)"
  have N: "length rows = length (nodes cols)" "strict_mono ids" using rows by (auto simp: forest_rows_def)
  note row = forest_rows_nth [OF rows k]
  have ch: "group_of m (ids k) = map (\<lambda>i. (rows ! i, i)) ?offs" using m children_of_row [OF rows k] by simp
  have offs: "i < length rows" if "i \<in> set ?offs" for i
    using child_offsets_range [OF k [unfolded N(1)] that] N by simp
  have name: "dc_column_name (rows ! i) = col_name (nodes cols ! i)" if "i \<in> set ?offs" for i
    using forest_rows_nth(3) [OF rows offs [OF that]] .
  have names: "map (\<lambda>i. dc_column_name (rows ! i)) ?offs = map col_name (col_children ?c)"
  proof -
    have "map (\<lambda>i. dc_column_name (rows ! i)) ?offs = map col_name (map ((!) (nodes cols)) ?offs)"
      using name by simp
    then show ?thesis using children_nodes k N by simp
  qed
  have other: "dtype_from_ducklake (rows ! k) m = (m, Ok (entry_dtype ?c (Suc k)))" if t: "dtype_ok (col_dtype ?c)"
    using primitive_name [OF t] parse_primitive_to_string [OF t] t
    by (cases "col_dtype ?c") (auto simp: dtype_from_ducklake_def row(1,4) entry_dtype_def)
  show ?thesis
  proof (cases "col_dtype ?c")
    case (DList x)
    then have "col_children ?c = [x]" by (simp add: col_children_def)
    with DList ch show ?thesis
      by (simp add: dtype_from_ducklake_def row(1,4) take_children_def seq_app entry_dtype_def)
  next
    case (DStruct fs)
    then have kids: "col_children ?c = fs" by (simp add: col_children_def)
    have "distinct (map col_name fs)" using row(9) DStruct by (simp add: loadable_def struct_ok_def)
    moreover have "map (\<lambda>p. dc_column_name (fst p)) (map (\<lambda>i. (rows ! i, i)) ?offs) = map col_name fs"
      using names kids by (simp add: comp_def)
    ultimately have "struct_fields (map (\<lambda>i. (rows ! i, i)) ?offs) = Ok (map (\<lambda>p. (dc_column_name (fst p), snd p)) (map (\<lambda>i. (rows ! i, i)) ?offs))"
      using forest_rows_nth(2) [OF rows offs] N(2) child_offsets_sorted(1)
      by (intro struct_fields_distinct sort_children) auto
    also have "map (\<lambda>p. (dc_column_name (fst p), snd p)) (map (\<lambda>i. (rows ! i, i)) ?offs) = zip (map col_name fs) ?offs"
      using map_pair_zip [of "\<lambda>i. dc_column_name (rows ! i)" ?offs] names kids by (simp add: comp_def)
    finally show ?thesis
      using DStruct ch kids by (simp add: dtype_from_ducklake_def row(1,4) take_children_def seq_app entry_dtype_def)
  next
    case (DMap kc vc)
    then have kids: "col_children ?c = [kc, vc]" by (simp add: col_children_def)
    then have "dc_column_name (rows ! (?offs ! 0)) = col_name kc" "dc_column_name (rows ! (?offs ! 1)) = col_name vc"
      using names by simp_all
    moreover have "col_name kc = ''key''" "col_name vc \<noteq> ''key''"
      using row(9) DMap by (simp_all add: loadable_def)
    ultimately show ?thesis
      using DMap ch kids
      by (simp add: dtype_from_ducklake_def row(1,4) take_children_def seq_app entry_dtype_def map_entry_def)
  qed (use other row(9) in \<open>auto simp: loadable_def\<close>)
qed

section \<open>Loading all rows\<close>

abbreviation parent_at :: "column list \<Rightarrow> nat \<Rightarrow> usize option" where
  "parent_at cols i \<equiv> fc_parent_index (flat_list cols None 0 ! i)"

lemma roots_at: "filter (\<lambda>i. parent_at cols i = None) [0..<length (nodes cols)] = child_offsets cols 0"
  using roots_of_flat_list [of 0 cols None]
  by (simp add: enumerate_nth filter_map comp_def length_flat_list)

lemma parent_at_less: "i < length (nodes cols) \<Longrightarrow> parent_at cols i = Some p \<Longrightarrow> p < length (nodes cols)"
  using flat_list_parent [of "flat_list cols None 0 ! i" cols None 0] by (auto simp: length_flat_list)

lemma root_names:
  assumes "distinct (map col_name cols)"
  shows "map (\<lambda>i. col_name (nodes cols ! i)) (child_offsets cols 0) = map col_name cols"
proof -
  have "map (\<lambda>i. col_name (nodes cols ! i)) (child_offsets cols 0) = map col_name (map (\<lambda>i. nodes cols ! (i - 0)) (child_offsets cols 0))"
    by simp
  then show ?thesis by (simp only: child_offsets_nodes)
qed

definition loaded ::
  "(nat \<Rightarrow> i64) \<Rightarrow> column list \<Rightarrow> ducklake_column list \<Rightarrow> ducklake_column_tag list \<Rightarrow> nat \<Rightarrow> load_state \<Rightarrow> bool"
where
  "loaded ids cols rows tags k st \<longleftrightarrow>
     (let (cs, ch, tg) = st in
      length (cs_arena cs) = k \<and> cs_next_column_id cs = None \<and>
      (\<forall>i < k. entry_is (cs_arena cs ! i) (nodes cols ! i) (Suc i) (ids i) \<and>
         cc_parent_column (cs_arena cs ! i) = parent_at cols i) \<and>
      cs_root_columns cs = map (\<lambda>i. (col_name (nodes cols ! i), i)) (filter (\<lambda>i. parent_at cols i = None) [0..<k]) \<and>
      (\<forall>x. im_get (cs_by_id cs) x = (if \<exists>i<k. x = ids i then Some (inv ids x) else None)) \<and>
      (\<forall>i. k \<le> i \<longrightarrow> group_of ch (ids i) = group_of (children_by_parent_id rows) (ids i)) \<and>
      (\<forall>i. k \<le> i \<longrightarrow> filter (\<lambda>t. dct_column_id t = ids i) tg = filter (\<lambda>t. dct_column_id t = ids i) tags))"

lemma column_of_row:
  assumes rows: "forest_rows X ids cols rows tags" and k: "k < length rows"
    and m: "group_of ch (ids k) = group_of (children_by_parent_id rows) (ids k)"
    and tg: "filter (\<lambda>t. dct_column_id t = ids k) tg = filter (\<lambda>t. dct_column_id t = ids k) tags"
  shows "\<exists>ch' c. column_from_ducklake X (rows ! k) parent (ch, tg)
      = ((ch', filter (\<lambda>t. dct_column_id t \<noteq> ids k) tg), Ok c) \<and>
    (\<forall>i. i \<noteq> ids k \<longrightarrow> group_of ch' i = group_of ch i) \<and>
    entry_is c (nodes cols ! k) (Suc k) (ids k) \<and> cc_parent_column c = parent"
proof -
  note row = forest_rows_nth [OF rows k]
  obtain ch' where "dtype_from_ducklake (rows ! k) ch = (ch', Ok (entry_dtype (nodes cols ! k) (Suc k)))"
    "\<forall>i. i \<noteq> ids k \<longrightarrow> group_of ch' i = group_of ch i"
    using dtype_of_row [OF rows k m] by blast
  with row tg show ?thesis by (simp add: column_from_ducklake_def Let_def entry_is_def)
qed

lemma load_step:
  assumes rows: "forest_rows X ids cols rows tags" and k: "k < length rows"
    and st: "loaded ids cols rows tags k st"
  shows "\<exists>st'. load_column X (id_to_arena_idx rows) (rows ! k) st = Ok st' \<and> loaded ids cols rows tags (Suc k) st'"
proof -
  note row = forest_rows_nth [OF rows k]
  have N: "length rows = length (nodes cols)" "strict_mono ids" "distinct (map col_name cols)"
    using rows by (auto simp: forest_rows_def)
  have inj: "ids i = ids j \<longleftrightarrow> i = j" for i j using N(2) by (simp add: strict_mono_eq)
  have inv: "inv ids (ids i) = i" for i using inj by (simp add: inv_f_f inj_on_def)
  obtain cs ch tg where st_eq: "st = (cs, ch, tg)" by (cases st)
  note s = st [unfolded loaded_def st_eq, simplified]
  have "map dc_column_id rows = map ids [0..<length rows]"
    using forest_rows_nth(1) [OF rows] by (intro nth_equalityI) simp_all
  then have "distinct (map dc_column_id rows)" by (simp add: distinct_map inj_on_def inj)
  then have lookup: "im_get (id_to_arena_idx rows) (ids p) = Some p" if "p < length rows" for p
    using id_to_arena_idx_nth [of rows p] forest_rows_nth(1) [OF rows] that by simp
  obtain ch' c where c: "column_from_ducklake X (rows ! k) (parent_at cols k) (ch, tg)
      = ((ch', filter (\<lambda>t. dct_column_id t \<noteq> ids k) tg), Ok c)"
    "\<forall>i. i \<noteq> ids k \<longrightarrow> group_of ch' i = group_of ch i"
    "entry_is c (nodes cols ! k) (Suc k) (ids k)" "cc_parent_column c = parent_at cols k"
    using column_of_row [OF rows k, of ch tg "parent_at cols k"] s by blast
  have parent: "(case dc_parent_column (rows ! k) of None \<Rightarrow> Ok None
      | Some p \<Rightarrow> and_then (expect ''no entry found for key'' (im_get (id_to_arena_idx rows) p)) (\<lambda>i. Ok (Some i)))
      = Ok (parent_at cols k)"
    using row(6) lookup parent_at_less [of k cols] k N(1) by (auto split: option.split)
  have taken: "col_name (nodes cols ! k) \<notin> fst ` set (cs_root_columns cs)" if "parent_at cols k = None"
  proof -
    have "filter (\<lambda>i. parent_at cols i = None) [0..<length (nodes cols)] =
      filter (\<lambda>i. parent_at cols i = None) [0..<k] @ k # filter (\<lambda>i. parent_at cols i = None) [Suc k..<length (nodes cols)]"
      using k N(1) that upt_add_eq_append [of 0 k "length (nodes cols) - k"] upt_conv_Cons [of k "length (nodes cols)"]
      by simp
    with root_names [OF N(3)] N(3) have "distinct (map (\<lambda>i. col_name (nodes cols ! i))
      (filter (\<lambda>i. parent_at cols i = None) [0..<k] @ k # filter (\<lambda>i. parent_at cols i = None) [Suc k..<length (nodes cols)]))"
      by (metis roots_at)
    with s show ?thesis by auto
  qed
  have ids: "im_get (im_insert (cc_id c) k (cs_by_id cs)) x = (if \<exists>i<Suc k. x = ids i then Some (inv ids x) else None)" for x
    using s c(3) inv by (auto simp: entry_is_def less_Suc_eq)
  have entries: "\<forall>i<Suc k. entry_is ((cs_arena cs @ [c]) ! i) (nodes cols ! i) (Suc i) (ids i) \<and>
      cc_parent_column ((cs_arena cs @ [c]) ! i) = parent_at cols i"
    using s c(3,4) by (auto simp: nth_append less_Suc_eq)
  have rest: "Suc k \<le> i \<Longrightarrow> group_of ch' (ids i) = group_of (children_by_parent_id rows) (ids i)"
    "Suc k \<le> i \<Longrightarrow> filter (\<lambda>t. dct_column_id t = ids i) (filter (\<lambda>t. dct_column_id t \<noteq> ids k) tg)
      = filter (\<lambda>t. dct_column_id t = ids i) tags" for i
    using s c(2) inj [of i k] by (auto simp: filter_filter intro: trans [OF filter_cong])
  show ?thesis
    using s ids entries rest taken row(3)
    by (auto simp: load_column_def parent st_eq c(1) push_column_def Let_def loaded_def im_insert_new split: if_splits)
qed

lemma load_all:
  assumes rows: "forest_rows X ids cols rows tags"
  shows "\<exists>cs ch tg. columns_from_ducklake X rows tags = Ok cs \<and> loaded ids cols rows tags (length rows) (cs, ch, tg)"
proof -
  have "map dc_column_order rows = map (\<lambda>i. Some (ids i)) [0..<length rows]"
    using forest_rows_nth(2) [OF rows] by (intro nth_equalityI) simp_all
  then have "sorted (map dc_column_order rows)"
    using rows by (auto simp: forest_rows_def sorted_map strict_mono_less_eq elim!: sorted_wrt_mono_rel [rotated])
  then have sorted: "sort_key dc_column_order rows = rows" by (rule sort_key_id_if_sorted)
  have "\<exists>st. fold_res (load_column X (id_to_arena_idx rows)) (take k rows) (columns_new None, children_by_parent_id rows, tags)
      = Ok st \<and> loaded ids cols rows tags k st" if "k \<le> length rows" for k
    using that
  proof (induction k)
    case 0
    then show ?case by (simp add: loaded_def columns_new_def)
  next
    case (Suc k)
    then obtain st where st: "fold_res (load_column X (id_to_arena_idx rows)) (take k rows)
        (columns_new None, children_by_parent_id rows, tags) = Ok st" "loaded ids cols rows tags k st"
      by auto
    with load_step [OF rows _ st(2)] Suc.prems show ?case by (auto simp: take_Suc_conv_app_nth)
  qed
  from this [of "length rows"] obtain cs ch tg where
    "fold_res (load_column X (id_to_arena_idx rows)) rows (columns_new None, children_by_parent_id rows, tags) = Ok (cs, ch, tg)"
    "loaded ids cols rows tags (length rows) (cs, ch, tg)" by auto
  then show ?thesis by (auto simp: columns_from_ducklake_def sorted)
qed

text \<open>The loaded columns are well formed and give back the schema.\<close>

lemma entry_children: "loadable c \<Longrightarrow> cdt_children (entry_dtype c n) = child_offsets (col_children c) n"
  by (cases "col_dtype c") (auto simp: entry_dtype_def col_children_def loadable_def struct_ok_def)

lemma child_iff_parent:
  assumes "k < length (nodes cols)"
  shows "i \<in> set (child_offsets (col_children (nodes cols ! k)) (Suc k)) \<longleftrightarrow>
    i < length (nodes cols) \<and> parent_at cols i = Some k"
proof -
  have "child_offsets (col_children (nodes cols ! k)) (Suc k) = kids 0 (flat_list cols None 0) k"
    using kids_inside [of k cols None 0] assms by simp
  then show ?thesis by (auto simp: kids_nth length_flat_list)
qed

lemma loaded_wf:
  assumes rows: "forest_rows X ids cols rows tags" and st: "loaded ids cols rows tags (length rows) (cs, ch, tg)"
  shows "columns_wf cs"
proof -
  have N: "length rows = length (nodes cols)" "strict_mono ids" "distinct (map col_name cols)"
    using rows by (auto simp: forest_rows_def)
  note s = st [unfolded loaded_def, simplified]
  have roots: "cs_root_columns cs = map (\<lambda>i. (col_name (nodes cols ! i), i)) (child_offsets cols 0)"
    using s roots_at [of cols] N(1) by simp
  have at: "cc_dtype (cs_arena cs ! i) = entry_dtype (nodes cols ! i) (Suc i)"
    "cc_name (cs_arena cs ! i) = col_name (nodes cols ! i)" "cc_id (cs_arena cs ! i) = ids i"
    "cc_parent_column (cs_arena cs ! i) = parent_at cols i" if "i < length (nodes cols)" for i
    using s that N(1) by (auto simp: entry_is_def)
  have kids: "cdt_children (cc_dtype (cs_arena cs ! i)) = child_offsets (col_children (nodes cols ! i)) (Suc i)"
    if "i < length (nodes cols)" for i
    using at(1) [OF that] entry_children forest_rows_nth(9) [OF rows] that N(1) by simp
  have len: "length (cs_arena cs) = length (nodes cols)" using s N(1) by simp
  have struct: "im_wf fs \<and> (\<forall>(n, j) \<in> set fs. cc_name (cs_arena cs ! j) = n)"
    if i: "i < length (nodes cols)" and fs: "cc_dtype (cs_arena cs ! i) = CStruct fs" for i fs
  proof -
    let ?offs = "child_offsets (col_children (nodes cols ! i)) (Suc i)"
    obtain cs' where t: "col_dtype (nodes cols ! i) = DStruct cs'"
      using fs at(1) [OF i] by (cases "col_dtype (nodes cols ! i)") (auto simp: entry_dtype_def Let_def)
    then have fs: "fs = zip (map col_name cs') ?offs" "col_children (nodes cols ! i) = cs'"
      using fs at(1) [OF i] by (auto simp: entry_dtype_def col_children_def)
    have "distinct (map col_name cs')"
      using forest_rows_nth(9) [OF rows, of i] i N(1) t by (simp add: loadable_def struct_ok_def)
    moreover have "map (\<lambda>j. cc_name (cs_arena cs ! j)) ?offs = map col_name cs'"
    proof -
      have "map (\<lambda>j. cc_name (cs_arena cs ! j)) ?offs = map col_name (map ((!) (nodes cols)) ?offs)"
        using at(2) child_offsets_range [OF i] by auto
      also have "\<dots> = map col_name cs'" using children_nodes [OF i] unfolding fs(2) by (rule arg_cong)
      finally show ?thesis .
    qed
    moreover from this have "fs = map (\<lambda>j. (cc_name (cs_arena cs ! j), j)) ?offs"
      unfolding fs(1) map_pair_zip by (simp only:)
    ultimately show ?thesis by (auto simp: comp_def)
  qed
  have "forest_wf (cs_arena cs)"
    unfolding forest_wf_def len
    using kids child_iff_parent child_offsets_range at(4) struct parent_at_less by (metis (no_types, lifting))
  moreover have "i \<in> set (child_offsets cols 0) \<longleftrightarrow> i < length (nodes cols) \<and> parent_at cols i = None" for i
    by (auto simp flip: roots_at)
  then have "roots_wf cs"
    unfolding roots_wf_def roots len using at root_names [OF N(3)] N(3) by (auto simp: comp_def)
  moreover have "column_ids_wf cs"
    using s at(3) N inv_f_f [of ids] by (auto simp: column_ids_wf_def len strict_mono_imp_inj_on)
  ultimately show ?thesis by (simp add: columns_wf_def)
qed

lemma loaded_schema:
  assumes rows: "forest_rows X ids cols rows tags" and st: "loaded ids cols rows tags (length rows) (cs, ch, tg)"
  shows "schema_from_columns cs = Ok (schema_of (with_ids cols ids))"
proof (rule schema_from_columns_laid_out)
  have N: "length rows = length (nodes cols)" "strict_mono ids" "distinct (map col_name cols)"
    using rows by (auto simp: forest_rows_def)
  note s = st [unfolded loaded_def, simplified]
  show "laid_out cs cols 0 ids" "length (cs_arena cs) = length (nodes cols)"
    using s N(1) by (auto simp: laid_out_def)
  show "cs_root_columns cs = zip (map col_name cols) (child_offsets cols 0)"
    using s roots_at [of cols] N(1) map_pair_zip [of "\<lambda>i. col_name (nodes cols ! i)"] root_names [OF N(3)] by simp
  have "im_get (cs_by_id cs) (cc_id e) \<noteq> None" if "e \<in> set (cs_arena cs)" for e
    using that s by (auto simp: in_set_conv_nth entry_is_def)
  then show "\<forall>e\<in>set (cs_arena cs). cc_id e \<in> fst ` set (cs_by_id cs)"
    by (simp add: map_of_eq_None_iff)
  show "distinct (map col_name cols)" by (rule N(3))
qed

end
