(* ===== verification/Created_Tables.thy ===== *)
theory Created_Tables
  imports Column_Load_Trip Panics Literal_Trips
begin

text \<open>
  The rows a commit writes for the columns of a new table: one row per nested column, in preorder,
  with consecutive IDs. They load back to the columns of the transaction's catalog.
\<close>

section \<open>Flattening at an offset\<close>

abbreviation shift :: "usize \<Rightarrow> flattened_column \<Rightarrow> flattened_column" where
  "shift k e \<equiv> e\<lparr>fc_parent_index := map_option ((+) k) (fc_parent_index e)\<rparr>"

lemma flat_list_shift: "flat_list cs (map_option ((+) k) p) (k + n) = map (shift k) (flat_list cs p n)"
proof (induction cs p n rule: flat_list.induct)
  case (2 c cs p n)
  from "2.IH"(1) have "flat_list (col_children c) (Some (k + n)) (Suc (k + n)) = map (shift k) (flat_list (col_children c) (Some n) (Suc n))"
    by simp
  with "2.IH"(2) show ?case by (simp add: add.assoc)
qed simp

lemma flatten_at: "flat_list [c] None k = map (shift k) (flatten c)"
  using flat_list_shift [of "[c]" k None 0] by (simp add: flatten_flat_list del: flat_list.simps)

lemma flat_list_first: "flat_list (c # cs) None k = flat_list [c] None k @ flat_list cs None (k + length (preorder c))"
  by simp

declare flat_list.simps [simp del]

section \<open>The indices below a root column\<close>

lemma upt_range_split:
  "n # [Suc n..<Suc n + a] @ [n + Suc a..<n + Suc a + b] = [n..<n + (Suc a + b)]"
proof -
  have "[n..<n + (Suc a + b)] = n # [Suc n..<Suc n + a + b]" by (subst upt_conv_Cons) (simp_all add: add.assoc del: upt_Suc)
  also have "[Suc n..<Suc n + a + b] = [Suc n..<Suc n + a] @ [Suc n + a..<Suc n + a + b]"
    by (rule upt_add_eq_append) simp
  finally show ?thesis by (simp add: add.assoc del: upt_Suc)
qed

lemma aggregate_laid_out:
  assumes "laid_out cs cols n ids" and "length (nodes cols) \<le> fuel" and "list_all loadable (nodes cols)"
  shows "fold_res (aggregate_column_indices fuel cs) (child_offsets cols n) acc = Ok (acc @ [n..<n + length (nodes cols)])"
  using assms
proof (induction cols ids arbitrary: n fuel acc rule: with_ids.induct)
  case (2 c cols ids)
  note lay = laid_out_Cons [OF "2.prems"(1)]
  obtain m where fuel: "fuel = Suc m" and m: "length (nodes (col_children c)) \<le> m"
    using "2.prems"(2) by (cases fuel) (auto simp: length_preorder)
  have c: "loadable c" "list_all loadable (nodes (col_children c))" "list_all loadable (nodes cols)"
    using "2.prems"(3) by (simp_all add: preorder.simps [of c])
  have "cdt_children (cc_dtype (cs_arena cs ! n)) = child_offsets (col_children c) (Suc n)"
    using lay(1) entry_children [OF c(1)] by (simp add: entry_is_def)
  then have first: "aggregate_column_indices fuel cs n acc = Ok (acc @ n # [Suc n..<Suc n + length (nodes (col_children c))])"
    using "2.IH"(1) [OF lay(3) m c(2)] lay(2) by (simp add: fuel)
  have rest: "fold_res (aggregate_column_indices fuel cs) (child_offsets cols (n + length (preorder c))) acc'
      = Ok (acc' @ [n + length (preorder c)..<n + length (preorder c) + length (nodes cols)])" for acc'
    using "2.IH"(2) [OF lay(4) _ c(3)] "2.prems"(2) by simp
  have "n # [Suc n..<Suc n + length (nodes (col_children c))] @ [n + length (preorder c)..<n + length (preorder c) + length (nodes cols)]
      = [n..<n + length (nodes (c # cols))]"
    using upt_range_split [of n "length (nodes (col_children c))" "length (nodes cols)"]
    by (simp add: length_preorder del: upt_Suc)
  with first rest show ?case by (simp del: upt_Suc)
qed simp

definition root_ranges :: "column list \<Rightarrow> usize \<Rightarrow> usize list list" where
  "root_ranges cols n = map (\<lambda>(c, o'). [o'..<o' + length (preorder c)]) (zip cols (child_offsets cols n))"

lemma root_ranges_simps [simp]:
  "root_ranges [] n = []"
  "root_ranges (c # cols) n = [n..<n + length (preorder c)] # root_ranges cols (n + length (preorder c))"
  by (simp_all add: root_ranges_def)

lemma collect_ranges:
  assumes "laid_out cs cols n ids" and "length (nodes cols) \<le> fuel" and "list_all loadable (nodes cols)"
  shows "collect (\<lambda>i. aggregate_column_indices fuel cs i []) (child_offsets cols n) = Ok (root_ranges cols n)"
  using assms
proof (induction cols arbitrary: n ids)
  case (Cons c cols)
  have "laid_out cs ([c] @ cols) n ids" using Cons.prems(1) by simp
  then have lay: "laid_out cs [c] n ids" "laid_out cs cols (n + length (preorder c)) (\<lambda>i. ids (length (preorder c) + i))"
    unfolding laid_out_append by simp_all
  from aggregate_laid_out [OF lay(1), of fuel "[]"] Cons.prems(2,3)
  have "aggregate_column_indices fuel cs n [] = Ok [n..<n + length (preorder c)]" by simp
  with Cons.IH [OF lay(2)] Cons.prems(2,3) show ?case by simp
qed simp

section \<open>The rows of a new table\<close>

definition has_columns :: "table_ref \<Rightarrow> catalog_columns \<Rightarrow> commit_state \<Rightarrow> bool" where
  "has_columns r cs st \<longleftrightarrow> (\<exists>t. table_inner (st_catalog st) r = Ok t \<and> ct_columns t = cs)"

abbreviation arena_id :: "catalog_columns \<Rightarrow> nat \<Rightarrow> i64" where
  "arena_id cs i \<equiv> cc_id (cs_arena cs ! i)"

lemma column_ids_at:
  assumes "has_columns r cs st" and "\<And>i. i \<in> set is \<Longrightarrow> i < length (cs_arena cs)"
  shows "collect_op state_column_id (column_refs r is) st = (st, Ok (map (arena_id cs) is))"
  using assms by (induction "is") (auto simp: column_refs_def state_column_id_def column_inner_def has_columns_def seq_app)

definition column_rows ::
  "env \<Rightarrow> i64 \<Rightarrow> i64 \<Rightarrow> (nat \<Rightarrow> i64) \<Rightarrow> (nat \<times> flattened_column) list \<Rightarrow> ducklake_column list"
where
  "column_rows E t n ids es =
     map (\<lambda>(i, e). column_row E t n (map_option ids (fc_parent_index e)) (ids i) (fc_column e)) es"

definition columns_tag_rows :: "i64 \<Rightarrow> i64 \<Rightarrow> (nat \<Rightarrow> i64) \<Rightarrow> (nat \<times> flattened_column) list \<Rightarrow> ducklake_column_tag list" where
  "columns_tag_rows t n ids es = concat (map (\<lambda>(i, e). column_tag_rows t n (ids i) (col_tags (fc_column e))) es)"

lemma enumerate_map_shift: "enumerate (k + n) (map f xs) = map (\<lambda>(i, e). (k + i, f e)) (enumerate n xs)"
  by (induction xs arbitrary: n) (simp_all flip: add_Suc_right)

lemma buffers_of_root:
  assumes st: "has_columns r cs st" and lay: "laid_out cs [c] k ids"
  shows "add_column_to_buffers E t None (column_refs r [k..<k + length (preorder c)]) c st =
    (st, Ok (column_rows E t (st_snapshot_id st) (arena_id cs) (enumerate k (flat_list [c] None k)),
             columns_tag_rows t (st_snapshot_id st) (arena_id cs) (enumerate k (flat_list [c] None k))))"
proof -
  let ?n = "st_snapshot_id st" and ?ids = "map (arena_id cs) [k..<k + length (preorder c)]"
  let ?g = "\<lambda>(i, e). (column_row E t ?n (map_option (\<lambda>p. arena_id cs (k + p)) (fc_parent_index e)) (arena_id cs (k + i)) (fc_column e),
      column_tag_rows t ?n (arena_id cs (k + i)) (col_tags (fc_column e)))"
  have len: "length (flatten c) = length (preorder c)" by (rule length_flatten)
  have range: "k + length (preorder c) \<le> length (cs_arena cs)" using lay by (simp add: laid_out_def)
  have parent: "p < length (preorder c)" if "e \<in> set (flatten c)" "fc_parent_index e = Some p" for e p
    using flat_list_parent [of e "[c]" None 0] that by (auto simp: flatten_flat_list)
  have get: "idx_get ?ids i = Ok (arena_id cs (k + i))" if "i < length (preorder c)" for i
    using that by simp
  have "collect (flat_column_row E t ?n None ?ids) (enumerate 0 (flatten c)) = Ok (map ?g (enumerate 0 (flatten c)))"
  proof (rule collect_Ok_map)
    fix x assume mem: "x \<in> set (enumerate 0 (flatten c))"
    obtain i e where x: "x = (i, e)" by fastforce
    with mem have i: "i < length (preorder c)" and e: "e \<in> set (flatten c)"
      by (auto simp: in_set_enumerate_eq len [symmetric])
    show "flat_column_row E t ?n None ?ids x = Ok (?g x)"
    proof (cases "fc_parent_index e")
      case None
      then show ?thesis
        unfolding x flat_column_row_def Let_def prod.case get [OF i] and_then.simps
        by (simp only: option.case option.map and_then.simps)
    next
      case (Some p)
      then show ?thesis
        unfolding x flat_column_row_def Let_def prod.case get [OF i] and_then.simps
        by (simp only: option.case option.map and_then.simps get [OF parent [OF e Some]])
    qed
  qed
  moreover have "map fst (map ?g (enumerate 0 (flatten c))) = column_rows E t ?n (arena_id cs) (enumerate k (flat_list [c] None k))"
    "concat (map snd (map ?g (enumerate 0 (flatten c)))) = columns_tag_rows t ?n (arena_id cs) (enumerate k (flat_list [c] None k))"
    using enumerate_map_shift [of k 0 "shift k" "flatten c"]
    by (simp_all add: flatten_at column_rows_def columns_tag_rows_def comp_def case_prod_beta option.map_comp)
  ultimately show ?thesis
    using column_ids_at [OF st, of "[k..<k + length (preorder c)]"] range
    by (simp add: add_column_to_buffers_def seq_app)
qed

lemma buffers_of_roots:
  assumes "has_columns r cs st" and "laid_out cs cols k ids"
  shows "\<exists>bs. collect_op (\<lambda>(c, refs). add_column_to_buffers E t None refs c)
        (zip cols (map (column_refs r) (root_ranges cols k))) st = (st, Ok bs) \<and>
    concat (map fst bs) = column_rows E t (st_snapshot_id st) (arena_id cs) (enumerate k (flat_list cols None k)) \<and>
    concat (map snd bs) = columns_tag_rows t (st_snapshot_id st) (arena_id cs) (enumerate k (flat_list cols None k))"
  using assms
proof (induction cols arbitrary: k ids)
  case Nil
  then show ?case by (simp add: column_rows_def columns_tag_rows_def flat_list.simps)
next
  case (Cons c cols)
  have "laid_out cs ([c] @ cols) k ids" using Cons.prems(2) by simp
  then have lay: "laid_out cs [c] k ids" "laid_out cs cols (k + length (preorder c)) (\<lambda>i. ids (length (preorder c) + i))"
    unfolding laid_out_append by simp_all
  have "enumerate k (flat_list (c # cols) None k) =
      enumerate k (flat_list [c] None k) @ enumerate (k + length (preorder c)) (flat_list cols None (k + length (preorder c)))"
    by (simp add: flat_list_first [of c cols] enumerate_append_eq length_flat_list)
  then show ?case
    using Cons.IH [OF Cons.prems(1) lay(2)] buffers_of_root [OF Cons.prems(1) lay(1), of E t]
    by (auto simp: seq_app column_rows_def columns_tag_rows_def)
qed

section \<open>Creating the table\<close>

lemma has_columns_ids:
  "preserves (has_columns r cs) (state_table_id q)" "preserves (has_columns r cs) (state_schema_id s)"
  "preserves (has_columns r cs) (state_partition_id q)" "preserves (has_columns r cs) (state_column_id c)"
  "preserves (has_columns r cs) sort_info_id"
proof -
  show "preserves (has_columns r cs) (state_table_id q)"
    unfolding state_table_id_def resolve_with_def
    by (intro preserves_seq preserves_query)
      (auto simp: catalog_id_def on_catalog_def preserves_def case_prod_beta Let_def seq_app table_resolve_id_def
        has_columns_def table_inner_def arena_register_id_def arena_get_def arena_modify_def idx_get_def nth_list_update
        split: option.split res.split if_splits)
  show "preserves (has_columns r cs) (state_schema_id s)"
    unfolding state_schema_id_def resolve_with_def
    by (intro preserves_seq preserves_query)
      (auto simp: catalog_id_def on_catalog_def preserves_def case_prod_beta Let_def seq_app schema_resolve_id_def
        has_columns_def table_inner_def split: option.split res.split)
  show "preserves (has_columns r cs) (state_partition_id q)"
    unfolding state_partition_id_def resolve_with_def
    by (intro preserves_seq preserves_query)
      (auto simp: catalog_id_def on_catalog_def preserves_def case_prod_beta Let_def seq_app table_resolve_partition_id_def
        has_columns_def table_inner_def modify_table_def arena_register_id_def arena_get_def arena_modify_def idx_get_def nth_list_update
        split: option.split res.split if_splits)
  show "preserves (has_columns r cs) (state_column_id c)" by (simp add: state_column_id_def)
  show "preserves (has_columns r cs) sort_info_id"
    by (simp add: sort_info_id_def catalog_id_def preserves_def has_columns_def)
qed

definition building ::
  "table_ref \<Rightarrow> catalog_columns \<Rightarrow> i64 \<Rightarrow> ducklake_column list \<Rightarrow> ducklake_column_tag list \<Rightarrow> tx_changes \<times> commit_state \<Rightarrow> bool"
where
  "building r cs n C T p \<longleftrightarrow> has_columns r cs (snd p) \<and> at_snapshot n (snd p)
     \<and> tc_new_columns (fst p) = C \<and> tc_new_column_tags (fst p) = T"

lemma building_in_state:
  "preserves (has_columns r cs) m \<Longrightarrow> preserves (at_snapshot n) m \<Longrightarrow> preserves (building r cs n C T) (in_state m)"
  unfolding in_state_def by (rule preserves_on_table) (auto simp: preserves_def building_def)

lemma building_edit:
  "(\<And>c. tc_new_columns (f c) = tc_new_columns c \<and> tc_new_column_tags (f c) = tc_new_column_tags c) \<Longrightarrow>
    preserves (building r cs n C T) (edit f)"
  by (auto simp: preserves_def edit_def building_def)

lemma building_ids [intro, simp]:
  "preserves (building r cs n C T) (in_state (state_table_id q))"
  "preserves (building r cs n C T) (in_state (state_schema_id s))"
  "preserves (building r cs n C T) (in_state (state_partition_id q))"
  "preserves (building r cs n C T) (in_state sort_info_id)" "preserves (building r cs n C T) snapshot_id"
  by (auto intro: building_in_state has_columns_ids) (simp add: snapshot_id_def preserves_def)

lemma building_partitioning: "preserves (building r cs n C T) (create_partitioning_opt q i refs cols)"
  unfolding create_partitioning_opt_def create_partitioning_def
  by (auto intro!: preserves_seq building_in_state preserves_collect_op has_columns_ids building_edit split: option.split)

lemma building_sort_info: "preserves (building r cs n C T) (create_sort_info i es)"
  unfolding create_sort_info_def by (auto intro!: preserves_seq building_edit)

lemma create_table_columns:
  assumes lay: "laid_out cs (crt_columns t) 0 ids"
    and refs: "crt_column_refs t = map (column_refs r) (root_ranges (crt_columns t) 0)"
  shows "run_ok (building r cs n C T) (create_table_rows E t) (\<lambda>_ p. \<exists>i. building r cs n
      (C @ column_rows E i n (arena_id cs) (enumerate 0 (flat_list (crt_columns t) None 0))
         @ map (retired_column_row i n) (crt_retired_columns t))
      (T @ columns_tag_rows i n (arena_id cs) (enumerate 0 (flat_list (crt_columns t) None 0))) p)"
    (is "run_ok _ _ (\<lambda>_ p. \<exists>i. building r cs n (C @ ?C i @ ?R i) (T @ ?T i) p)")
proof -
  have snap: "run_ok (building r cs n C T) snapshot_id (\<lambda>x p. x = n \<and> building r cs n C T p)"
    by (simp add: run_ok_def snapshot_id_def building_def)
  have buffers: "run_ok (building r cs n C T) (in_state (collect_op (\<lambda>(c, refs). add_column_to_buffers E i None refs c)
      (zip (crt_columns t) (crt_column_refs t))))
      (\<lambda>bs p. (concat (map fst bs) = ?C i \<and> concat (map snd bs) = ?T i) \<and> building r cs n C T p)" for i
  proof (rule run_okI)
    fix p p' bs
    assume b: "building r cs n C T p" and run: "in_state (collect_op (\<lambda>(c, refs). add_column_to_buffers E i None refs c)
      (zip (crt_columns t) (crt_column_refs t))) p = (p', Ok bs)"
    with buffers_of_roots [of r cs "snd p" "crt_columns t" 0 ids E i] lay
    show "(concat (map fst bs) = ?C i \<and> concat (map snd bs) = ?T i) \<and> building r cs n C T p'"
      by (auto simp: building_def refs elim!: in_state_OkE)
  qed
  have add: "run_ok (building r cs n C T) (edit (tc_new_columns_update (\<lambda>rows. rows @ ?C i @ ?R i)))
      (\<lambda>_. building r cs n (C @ ?C i @ ?R i) T)"
    "run_ok (building r cs n C' T) (edit (tc_new_column_tags_update (\<lambda>rows. rows @ ?T i)))
      (\<lambda>_. building r cs n C' (T @ ?T i))" for i C'
    by (simp_all add: run_ok_def edit_def building_def)
  have finish: "run_ok (building r cs n C' T') (edit (tc_new_tags_update f)) (\<lambda>_. building r cs n C' T')" for C' T' f
    by (intro run_ok_preserves building_edit) simp
  have tail: "run_ok (building r cs n (C @ ?C i @ ?R i) (T @ ?T i))
     (seq (create_partitioning_opt (crt_table_ref t) i (crt_partition_column_refs t) (crt_partition_columns t)) (\<lambda>_.
      seq (case crt_sort_info t of None \<Rightarrow> ret () | Some es \<Rightarrow> create_sort_info i es) (\<lambda>_.
        edit (tc_new_tags_update (\<lambda>rows. rows @ tag_rows i n (crt_tags t))))))
     (\<lambda>_ p. \<exists>i. building r cs n (C @ ?C i @ ?R i) (T @ ?T i) p)" for i
    by (intro run_ok_keep building_partitioning)
      (auto intro: building_sort_info run_okI dest: run_okD [OF finish] split: option.split)
  show ?thesis
    unfolding create_table_rows_def
    by (rule run_ok_keep [OF building_ids(1)], rule run_ok_keep [OF building_ids(2)], rule run_ok_seq [OF snap],
        rule run_ok_pure, hypsubst, rule run_ok_keep [OF building_edit], simp, rule run_ok_seq [OF buffers],
        rule run_ok_pure, elim conjE, simp only:, rule run_ok_seq [OF add(1)], rule run_ok_seq [OF add(2)], rule tail)
qed

section \<open>Loading the rows\<close>

text \<open>
  A column whose row loads back: its type has a name, its tags have distinct keys, and its defaults
  are values of the type that print and parse; a nested column has no literal default.
\<close>

definition default_ok :: "ext_text \<Rightarrow> data_type \<Rightarrow> value option \<Rightarrow> bool" where
  "default_ok X t v = (case v of None \<Rightarrow> True | Some x \<Rightarrow> \<not> is_nested t \<and> value_ok X x t)"

definition column_storable :: "ext_text \<Rightarrow> column \<Rightarrow> bool" where
  "column_storable X c \<longleftrightarrow> loadable c \<and> im_wf (col_tags c) \<and>
     default_ok X (col_dtype c) (col_initial_default c) \<and>
     (case col_default c of Literal v \<Rightarrow> default_ok X (col_dtype c) v | Expression _ _ \<Rightarrow> True)"

lemma entry_dtype_primitive: "\<not> is_nested (col_dtype c) \<Longrightarrow> entry_dtype c n = CPrimitive (col_dtype c)"
  by (cases "col_dtype c") (simp_all add: entry_dtype_def)

lemma default_literal_back:
  "default_ok X (col_dtype c) v \<Longrightarrow>
    default_literal X m (entry_dtype c n) (map_option (value_text X) v) = Ok v"
  using value_trips by (auto simp: default_ok_def default_literal_def entry_dtype_primitive split: option.splits)

lemma defaults_load:
  assumes "column_storable X c" and E: "env_value_text E = value_text X"
  shows "default_from_ducklake X (column_row E t n p i c) (entry_dtype c k) = Ok (col_default c)"
proof (cases "col_default c")
  case (Literal v)
  show ?thesis
  proof (cases "is_nested (col_dtype c)")
    case True
    then have "v = None" using assms(1) Literal by (auto simp: column_storable_def default_ok_def split: option.splits)
    then show ?thesis
      using Literal True by (simp add: column_row_def to_default_value_columns_def default_from_ducklake_def Let_def)
  next
    case False
    have "default_literal X m (entry_dtype c k) (Some (case v of None \<Rightarrow> NULL_STRING | Some x \<Rightarrow> value_text X x)) = Ok v" for m
      using assms(1) Literal False value_trips
      by (cases v) (auto simp: default_literal_def entry_dtype_primitive value_parse_NULL column_storable_def default_ok_def)
    then have "default_literal X m (entry_dtype c k) (Some (case v of None \<Rightarrow> NULL_STRING | Some x \<Rightarrow> env_value_text E x)) = Ok v" for m
      by (simp only: E)
    with Literal False show ?thesis
      by (simp add: column_row_def to_default_value_columns_def default_from_ducklake_def Let_def)
  qed
next
  case (Expression d e)
  then show ?thesis by (simp add: column_row_def to_default_value_columns_def default_from_ducklake_def Let_def)
qed

lemma tags_back: "im_wf m \<Longrightarrow> tags_from_list (map (\<lambda>(k, v). \<lparr>tag_key = k, tag_value = v\<rparr>) m) = m"
proof -
  assume "im_wf m"
  then have "fold (\<lambda>(k, v). im_insert k v) m [] = m" using fold_insert_distinct [of "[]" m] by simp
  moreover have "fold tags_insert (map (\<lambda>(k, v). \<lparr>tag_key = k, tag_value = v\<rparr>) m) acc = fold (\<lambda>(k, v). im_insert k v) m acc" for acc
    by (induction m arbitrary: acc) (auto simp: tags_insert_def)
  ultimately show ?thesis by (simp add: tags_from_list_def)
qed

lemma column_tags_back:
  assumes "strict_mono ids" and "i < length es"
  shows "filter (\<lambda>r. dct_column_id r = ids i) (columns_tag_rows t n ids (enumerate 0 es))
    = column_tag_rows t n (ids i) (col_tags (fc_column (es ! i)))"
proof -
  have own: "filter (\<lambda>r. dct_column_id r = a) (column_tag_rows t n b tags) = (if a = b then column_tag_rows t n b tags else [])" for a b tags
    by (auto simp: column_tag_rows_def filter_empty_conv filter_id_conv)
  have "filter (\<lambda>r. dct_column_id r = ids i) (concat (map (\<lambda>(j, e). column_tag_rows t n (ids j) (col_tags (fc_column e))) (enumerate k es)))
      = (if k \<le> i \<and> i < k + length es then column_tag_rows t n (ids i) (col_tags (fc_column (es ! (i - k)))) else [])" for k
    using assms(1) by (induction es arbitrary: k) (auto simp: own strict_mono_eq nth_Cons' less_Suc_eq)
  from this [of 0] assms(2) show ?thesis by (simp add: columns_tag_rows_def)
qed

lemma rows_of_forest:
  assumes cols: "distinct (map col_name cols)" "list_all (column_storable X) (nodes cols)"
    and E: "env_value_text E = value_text X" and ids: "strict_mono ids"
  shows "forest_rows X ids cols (column_rows E t n ids (enumerate 0 (flat_list cols None 0)))
    (columns_tag_rows t n ids (enumerate 0 (flat_list cols None 0)))"
proof -
  let ?fl = "flat_list cols None 0"
  have len: "length ?fl = length (nodes cols)" by (rule length_flat_list)
  have "row_loads X ids i (?fl ! i) (column_rows E t n ids (enumerate 0 ?fl) ! i) \<and> loadable (nodes cols ! i) \<and>
      tags_from_list (map tag_of_column_tag (filter (\<lambda>r. dct_column_id r = ids i) (columns_tag_rows t n ids (enumerate 0 ?fl))))
        = col_tags (nodes cols ! i)" if i: "i < length (nodes cols)" for i
  proof -
    have ok: "column_storable X (nodes cols ! i)" using cols(2) i by (simp add: list_all_length)
    have c: "fc_column (?fl ! i) = nodes cols ! i" using map_flat_list [of cols None 0] i len by (metis nth_map)
    have row: "column_rows E t n ids (enumerate 0 ?fl) ! i
        = column_row E t n (map_option ids (fc_parent_index (?fl ! i))) (ids i) (nodes cols ! i)"
      using i c len by (simp add: column_rows_def nth_enumerate_eq)
    have "row_loads X ids i (?fl ! i) (column_rows E t n ids (enumerate 0 ?fl) ! i)"
      unfolding row row_loads_def c
      using defaults_load [OF ok E] default_literal_back [of X "nodes cols ! i" "col_initial_default (nodes cols ! i)"] ok E
      by (simp add: column_row_def Let_def column_storable_def)
    moreover have "tags_from_list (map tag_of_column_tag (column_tag_rows t n (ids i) (col_tags (nodes cols ! i)))) = col_tags (nodes cols ! i)"
      using tags_back [of "col_tags (nodes cols ! i)"] ok
      by (simp add: column_storable_def column_tag_rows_def comp_def case_prod_beta' tag_of_column_tag_def)
    ultimately show ?thesis
      using ok column_tags_back [OF ids, of i ?fl t n] i len c by (simp add: column_storable_def)
  qed
  then show ?thesis
    using cols(1) ids by (simp add: forest_rows_def column_rows_def len)
qed

lemma created_columns_load:
  assumes cols: "distinct (map col_name cols)" "list_all (column_storable X) (nodes cols)"
    and small: "int (length (nodes cols)) < i64_max" and E: "env_value_text E = value_text X"
    and cs: "columns_from_schema (schema_of cols) None = Ok cs"
  shows "\<exists>cs'. columns_from_ducklake X (column_rows E t n (arena_id cs) (enumerate 0 (flat_list cols None 0)))
      (columns_tag_rows t n (arena_id cs) (enumerate 0 (flat_list cols None 0))) = Ok cs' \<and>
    columns_wf cs' \<and> schema_from_columns cs' = schema_from_columns cs"
proof -
  let ?ids = "\<lambda>i. 1 + int i" and ?fl = "flat_list cols None 0"
  have ok: "struct_ok x" if "x \<in> set (nodes cols)" for x
    using that cols(2) by (auto simp: list_all_iff column_storable_def loadable_def)
  have "ids_available False 1 (nodes cols)" using small by (simp add: ids_available_def i64_min_def)
  with columns_from_schema_inv [OF cols(1) ok, of None] cs
  have inv: "root_inv False 1 (ids_for False 1 (nodes cols)) cols cs" by auto
  then have arena: "arena_id cs i = ?ids i" if "i < length (nodes cols)" for i
    using that by (auto simp: root_inv_def laid_out_def entry_is_def ids_for_def)
  have entries: "(i, e) \<in> set (enumerate 0 ?fl) \<Longrightarrow> arena_id cs i = ?ids i \<and>
      map_option (arena_id cs) (fc_parent_index e) = map_option ?ids (fc_parent_index e)" for i e
    using arena flat_list_parent [of e cols None 0] nth_mem [of i ?fl]
    by (cases "fc_parent_index e") (auto simp: in_set_enumerate_eq length_flat_list)
  have "column_rows E t n (arena_id cs) (enumerate 0 ?fl) = column_rows E t n ?ids (enumerate 0 ?fl)"
    "columns_tag_rows t n (arena_id cs) (enumerate 0 ?fl) = columns_tag_rows t n ?ids (enumerate 0 ?fl)"
    unfolding column_rows_def columns_tag_rows_def using entries
    by (auto intro!: map_cong arg_cong [where f = concat])
  moreover have rows: "forest_rows X ?ids cols (column_rows E t n ?ids (enumerate 0 ?fl)) (columns_tag_rows t n ?ids (enumerate 0 ?fl))"
    by (rule rows_of_forest [OF cols E]) (simp add: strict_mono_def)
  moreover have "schema_from_columns cs = Ok (schema_of (with_ids cols ?ids))"
    by (rule fresh_columns(2) [OF cols(1) ok small cs])
  ultimately show ?thesis using load_all [OF rows] loaded_wf [OF rows] loaded_schema [OF rows] by fastforce
qed

end
