(* ===== verification/Transactions.thy ===== *)
theory Transactions
  imports Store Values "HOL-Library.List_Lexorder" "HOL-Library.Char_ord"
begin

text \<open>
  The operations of a transaction on schemas, views and tables (\<open>transaction/schema.rs\<close>,
  \<open>transaction/view.rs\<close>, \<open>transaction/table.rs\<close>): each checks its arguments against the catalog of
  the transaction, changes that catalog and records a change for the commit.
\<close>

section \<open>State\<close>

datatype if_exists_strategy = Fail | Skip

record transaction =
  tn_catalog :: catalog
  tn_changes :: "change list"

text \<open>What the operations read from elsewhere: metadata, statistics, the database and parsers.\<close>

record tx_env =
  xe_urls :: url_ops
  xe_cwd :: string
  xe_text :: ext_text
  xe_select :: "string \<Rightarrow> string result"
  xe_next_column_id :: "i64 \<Rightarrow> i64 result"
  xe_table_stats :: "(i64, table_stats) imap result"
  xe_dialect :: db_dialect
  xe_encrypted :: bool
  xe_data_path :: ducklake_path
  xe_read_statistics :: "io_path \<Rightarrow> string option \<Rightarrow> data_file_statistics result"
  xe_match_to_schema :: "record_batch \<Rightarrow> schema \<Rightarrow> record_batch result"
  xe_batch_statistics :: "schema \<Rightarrow> record_batch \<Rightarrow> (i64, array_column_stats) imap"

type_synonym 'a tx_op = "(transaction, ducklake_error, 'a) op"

definition in_catalog :: "'a catalog_op \<Rightarrow> 'a tx_op" where
  "in_catalog m = on_table tn_catalog tn_catalog_update m"

definition look :: "(catalog \<Rightarrow> 'a result) \<Rightarrow> 'a tx_op" where
  "look f = query (\<lambda>s. f (tn_catalog s))"

definition record_change :: "change \<Rightarrow> unit tx_op" where
  "record_change c = update (tn_changes_update (\<lambda>cs. cs @ [c]))"

text \<open>\<open>TransactionGuard\<close>: the catalog and the changes are restored unless the guard is committed.\<close>

definition guarded :: "'a tx_op \<Rightarrow> 'a tx_op" where
  "guarded m s = (case m s of (s', Ok x) \<Rightarrow> (s', Ok x) | (s', Err e) \<Rightarrow> (s, Err e) | (s', Panic p) \<Rightarrow> (s, Panic p))"

lemma in_catalog_app: "in_catalog m t = (case m (tn_catalog t) of (c, r) \<Rightarrow> (t\<lparr>tn_catalog := c\<rparr>, r))"
  by (simp add: in_catalog_def on_table_def Let_def split: prod.split)

lemma look_app: "look f t = (t, f (tn_catalog t))"
  by (simp add: look_def query_def)

lemma record_change_app: "record_change c t = (t\<lparr>tn_changes := tn_changes t @ [c]\<rparr>, Ok ())"
  by (simp add: record_change_def update_def)

lemmas tx_apps = in_catalog_app look_app record_change_app lift_res_app

text \<open>\<open>matches!(strategy, Skip) && condition\<close>: return early.\<close>

definition skip_if :: "if_exists_strategy \<Rightarrow> (catalog \<Rightarrow> bool) \<Rightarrow> unit tx_op \<Rightarrow> unit tx_op" where
  "skip_if strategy cond m s = (if strategy = Skip \<and> cond (tn_catalog s) then ret () s else m s)"

text \<open>\<open>From<url::ParseError>\<close> and parsing a path.\<close>

definition from_url_parse_error :: "url_parse_error \<Rightarrow> ducklake_error" where
  "from_url_parse_error e =
     Parsing (case e of RelativeUrlWithoutBase \<Rightarrow> ''relative URL without a base'' | OtherUrlParseError m \<Rightarrow> m)"

definition parse_path :: "url_ops \<Rightarrow> string \<Rightarrow> ducklake_path result" where
  "parse_path U s = map_err from_url_parse_error (path_from_str U s)"

section \<open>Tables: creation and deletion\<close>

definition transfer_next_column_id :: "column list \<Rightarrow> ducklake_column list option \<Rightarrow> i64 option" where
  "transfer_next_column_id columns retired =
     map_option (\<lambda>rs.
       let ids = List.map_filter (\<lambda>e. col_field_id (fc_column e)) (concat (map flatten columns)) @ map dc_column_id rs in
       i64_add (if ids = [] then 0 else Max (set ids)) 1) retired"

definition create_table_inner ::
  "tx_env \<Rightarrow> qualified_name \<Rightarrow> column list \<Rightarrow> partition_column list option \<Rightarrow> sort_expression list option
    \<Rightarrow> string option \<Rightarrow> tags option \<Rightarrow> if_exists_strategy \<Rightarrow> ducklake_column list option \<Rightarrow> unit tx_op"
where
  "create_table_inner V name columns parts sorts path tags strategy retired =
     skip_if strategy (\<lambda>c. is_ok (table_by_name c name))
       (seq (lift_res (parse_path (xe_urls V) (case path of None \<Rightarrow> qn_name name | Some p \<Rightarrow> p))) (\<lambda>p.
        let path = ensure_directory (xe_urls V) p; tags = (case tags of None \<Rightarrow> [] | Some ts \<Rightarrow> ts) in
        seq (lift_res (schema_try_from columns)) (\<lambda>sch.
        seq (in_catalog (add_table \<lparr>ti_name = name, ti_schema = sch, ti_partitioning = parts, ti_sort_info = sorts,
               ti_tags = tags\<rparr> path (transfer_next_column_id columns retired))) (\<lambda>(s, t, refs, part_refs).
          record_change (CreateTable \<lparr>crt_schema_ref = s, crt_table_ref = t, crt_column_refs = refs,
            crt_partition_column_refs = part_refs, crt_name = name, crt_columns = columns,
            crt_retired_columns = (case retired of None \<Rightarrow> [] | Some rs \<Rightarrow> rs), crt_partition_columns = parts,
            crt_sort_info = sorts, crt_path = path, crt_tags = tags\<rparr>)))))"

definition create_table_tx ::
  "tx_env \<Rightarrow> qualified_name \<Rightarrow> column list \<Rightarrow> partition_column list option \<Rightarrow> sort_expression list option
    \<Rightarrow> string option \<Rightarrow> tags option \<Rightarrow> if_exists_strategy \<Rightarrow> unit tx_op"
where
  "create_table_tx V name columns parts sorts path tags strategy =
     create_table_inner V name columns parts sorts path tags strategy None"

definition create_transfer_table :: "tx_env \<Rightarrow> qualified_name \<Rightarrow> table_info \<Rightarrow> ducklake_column list \<Rightarrow> unit tx_op" where
  "create_transfer_table V name info retired =
     create_table_inner V name (im_values (ti_schema info)) (ti_partitioning info) (ti_sort_info info) None
       (Some (ti_tags info)) Fail (Some retired)"

definition delete_table_inner :: "qualified_name \<Rightarrow> bool \<Rightarrow> unit tx_op" where
  "delete_table_inner name detach_files =
     seq (look (\<lambda>c. table_by_name c name)) (\<lambda>t.
     seq (in_catalog (table_delete t)) (\<lambda>_. record_change (DeleteTable t detach_files)))"

definition delete_table :: "qualified_name \<Rightarrow> if_exists_strategy \<Rightarrow> unit tx_op" where
  "delete_table name strategy =
     skip_if strategy (\<lambda>c. \<not> is_ok (table_by_name c name)) (delete_table_inner name False)"

definition delete_table_transferring_file_ownership :: "qualified_name \<Rightarrow> unit tx_op" where
  "delete_table_transferring_file_ownership name = delete_table_inner name True"

section \<open>Views\<close>

definition create_view_tx ::
  "tx_env \<Rightarrow> qualified_name \<Rightarrow> string \<Rightarrow> string list option \<Rightarrow> tags option \<Rightarrow> if_exists_strategy \<Rightarrow> unit tx_op"
where
  "create_view_tx V name sql aliases tags strategy =
     skip_if strategy (\<lambda>c. is_ok (view_by_name c name))
       (seq (lift_res (xe_select V sql)) (\<lambda>sql.
        let tags = (case tags of None \<Rightarrow> [] | Some ts \<Rightarrow> ts) in
        seq (in_catalog (add_view \<lparr>vi_name = name, vi_sql = sql, vi_dialect = ''duckdb'', vi_column_aliases = aliases,
               vi_tags = tags\<rparr>)) (\<lambda>(s, v).
          record_change (CreateView \<lparr>crv_schema_ref = s, crv_view_ref = v, crv_name = name, crv_sql = sql,
            crv_dialect = ''duckdb'', crv_column_aliases = aliases, crv_tags = tags\<rparr>))))"

definition delete_view :: "qualified_name \<Rightarrow> if_exists_strategy \<Rightarrow> unit tx_op" where
  "delete_view name strategy =
     skip_if strategy (\<lambda>c. \<not> is_ok (view_by_name c name))
       (seq (look (\<lambda>c. view_by_name c name)) (\<lambda>v.
        seq (in_catalog (view_delete v)) (\<lambda>_. record_change (DeleteView v))))"

definition delete_macro :: "qualified_name \<Rightarrow> macro_type \<Rightarrow> if_exists_strategy \<Rightarrow> unit tx_op" where
  "delete_macro name ty strategy =
     skip_if strategy (\<lambda>c. \<not> is_ok (macro_by_name c name ty))
       (seq (look (\<lambda>c. macro_by_name c name ty)) (\<lambda>m.
        seq (in_catalog (macro_delete m)) (\<lambda>_. record_change (DeleteMacro m ty))))"

section \<open>Schemas\<close>

definition list_tables_of :: "string \<Rightarrow> catalog \<Rightarrow> qualified_name list result" where
  "list_tables_of name c =
     and_then (schema_by_name c name) (\<lambda>s. and_then (list_tables c s) (\<lambda>ts. collect (table_name c) ts))"

definition list_views_of :: "string \<Rightarrow> catalog \<Rightarrow> qualified_name list result" where
  "list_views_of name c =
     and_then (schema_by_name c name) (\<lambda>s. and_then (list_views c s) (\<lambda>vs. collect (view_name c) vs))"

definition list_macros_of :: "string \<Rightarrow> catalog \<Rightarrow> (qualified_name \<times> macro_type) list result" where
  "list_macros_of name c =
     and_then (schema_by_name c name) (\<lambda>s. and_then (list_macros c s) (\<lambda>ms.
       collect (\<lambda>m. and_then (macro_inner c m) (\<lambda>x. Ok (cm_name x, cm_macro_type x))) ms))"

definition create_schema :: "tx_env \<Rightarrow> string \<Rightarrow> string option \<Rightarrow> if_exists_strategy \<Rightarrow> unit tx_op" where
  "create_schema V name path strategy =
     skip_if strategy (\<lambda>c. is_ok (schema_by_name c name))
       (seq (lift_res (parse_path (xe_urls V) (case path of None \<Rightarrow> name | Some p \<Rightarrow> p))) (\<lambda>p.
        let path = ensure_directory (xe_urls V) p in
        seq (in_catalog (add_schema name path)) (\<lambda>s. record_change (CreateSchema s name path))))"

definition delete_schema_objects :: "string \<Rightarrow> unit tx_op" where
  "delete_schema_objects name =
     seq (look (list_tables_of name)) (\<lambda>ts.
     seq (for_each (\<lambda>t. delete_table t Fail) ts) (\<lambda>_.
     seq (look (list_views_of name)) (\<lambda>vs.
     seq (for_each (\<lambda>v. delete_view v Fail) vs) (\<lambda>_.
     seq (look (list_macros_of name)) (\<lambda>ms.
       for_each (\<lambda>(m, ty). delete_macro m ty Fail) ms)))))"

definition delete_schema :: "string \<Rightarrow> bool \<Rightarrow> if_exists_strategy \<Rightarrow> unit tx_op" where
  "delete_schema name cascade strategy =
     skip_if strategy (\<lambda>c. \<not> is_ok (schema_by_name c name))
       (seq (if cascade then delete_schema_objects name else ret ()) (\<lambda>_.
        seq (look (\<lambda>c. schema_by_name c name)) (\<lambda>s.
        seq (in_catalog (schema_delete s)) (\<lambda>_. record_change (DeleteSchema s)))))"

section \<open>Data\<close>

record write_file_request =
  wdf_path :: string
  wdf_encryption_key :: "string option"
  wdf_statistics :: "data_file_statistics option"
  wdf_partition_values :: "(string, value option) imap option"

record scan_delete_file =
  sdel_path :: string
  sdel_encryption_key :: "string option"
  sdel_num_deletes :: usize
  sdel_file_size_bytes :: "usize option"
  sdel_footer_size_bytes :: "usize option"

record transfer_data_file =
  tdf_data_file :: write_file_request
  tdf_partition_values :: "string option list option"
  tdf_delete_files :: "scan_delete_file list"
  tdf_inline_deletes :: "i64 list"

definition encryption_mismatch :: "bool \<Rightarrow> ducklake_error" where
  "encryption_mismatch encrypted = InvalidChanges
     (if encrypted then ''cannot register an unencrypted file in an encrypted catalog''
      else ''cannot register an encrypted file in an unencrypted catalog'')"

text \<open>The statistics of one column: no nulls where the column forbids them, and a column of the table.\<close>

definition check_column_stats ::
  "catalog \<Rightarrow> table_ref \<Rightarrow> (i64, column) imap \<Rightarrow> ('s \<Rightarrow> usize option) \<Rightarrow> i64 \<times> 's \<Rightarrow> (column_ref \<times> 's) result"
where
  "check_column_stats c t columns nulls p =
     (case im_get columns (fst p) of
        Some col \<Rightarrow>
          if \<not> col_nullable col \<and> (case nulls (snd p) of None \<Rightarrow> 0 | Some n \<Rightarrow> n) > 0
          then Err (InvalidNullValue (col_name col))
          else and_then (column_by_id c t (fst p)) (\<lambda>r. Ok (r, snd p))
      | None \<Rightarrow> and_then (column_by_id c t (fst p)) (\<lambda>r. Ok (r, snd p)))"

definition column_stats_map :: "(column_ref \<times> 's) list \<Rightarrow> (column_ref, 's) imap" where
  "column_stats_map ps = fold (\<lambda>(r, s). im_insert r s) ps []"

definition partition_values_for ::
  "ext_text \<Rightarrow> partition_column list option \<Rightarrow> (string, value option) imap option \<Rightarrow> string option list option"
where
  "partition_values_for X target p =
     (case (target, p) of
        (Some cols, Some m) \<Rightarrow>
          (if list_all (\<lambda>c. im_contains (pc_column c) m) cols
           then Some (map (\<lambda>c. map_option (value_text X) (the (im_get m (pc_column c)))) cols) else None)
      | _ \<Rightarrow> None)"

definition commit_delete_file_of :: "url_ops \<Rightarrow> scan_delete_file \<Rightarrow> commit_delete_file result" where
  "commit_delete_file_of U d =
     and_then (parse_path U (sdel_path d)) (\<lambda>p.
       Ok \<lparr>cdel_path = p, cdel_encryption_key = sdel_encryption_key d, cdel_num_deletes = sdel_num_deletes d,
           cdel_file_size_bytes = sdel_file_size_bytes d, cdel_footer_size_bytes = sdel_footer_size_bytes d\<rparr>)"

definition commit_data_file_of ::
  "tx_env \<Rightarrow> catalog \<Rightarrow> table_ref \<Rightarrow> table_info \<Rightarrow> (transfer_data_file \<times> ducklake_path) \<times> data_file_statistics
    \<Rightarrow> commit_data_file result"
where
  "commit_data_file_of V c t info x =
     (let f = fst (fst x); stats = snd x in
      and_then (collect (check_column_stats c t (columns_by_id (ti_schema info)) fcs_null_count) (dfs_column_stats stats)) (\<lambda>cols.
      and_then (collect (commit_delete_file_of (xe_urls V)) (tdf_delete_files f)) (\<lambda>dels.
        Ok \<lparr>cdf_path = snd (fst x), cdf_encryption_key = wdf_encryption_key (tdf_data_file f),
            cdf_partition_values =
              (if tdf_partition_values f \<noteq> None then tdf_partition_values f
               else partition_values_for (xe_text V) (ti_partitioning info) (wdf_partition_values (tdf_data_file f))),
            cdf_num_rows = dfs_num_rows stats, cdf_file_size_bytes = dfs_file_size_bytes stats,
            cdf_footer_size_bytes = dfs_footer_size_bytes stats, cdf_column_stats = column_stats_map cols,
            cdf_delete_files = dels, cdf_inline_deletes = tdf_inline_deletes f\<rparr>)))"

definition file_statistics :: "tx_env \<Rightarrow> transfer_data_file \<times> ducklake_path \<Rightarrow> data_file_statistics result" where
  "file_statistics V x =
     (let f = tdf_data_file (fst x) in
      case wdf_statistics f of
        Some s \<Rightarrow> Ok s
      | None \<Rightarrow> and_then (path_resolve (xe_urls V) (xe_cwd V) (snd x)) (\<lambda>p.
                  xe_read_statistics V p (wdf_encryption_key f)))"

definition write_table_transfer_data_files :: "tx_env \<Rightarrow> qualified_name \<Rightarrow> transfer_data_file list \<Rightarrow> unit tx_op" where
  "write_table_transfer_data_files V name files =
     seq (look (\<lambda>c. table_by_name c name)) (\<lambda>t.
     seq (look (\<lambda>c. data_path (xe_urls V) c t (xe_data_path V))) (\<lambda>base.
     seq (look (\<lambda>c. get_table_info c t)) (\<lambda>info.
     if list_ex (\<lambda>f. (wdf_encryption_key (tdf_data_file f) \<noteq> None) \<noteq> xe_encrypted V) files
     then raise (encryption_mismatch (xe_encrypted V))
     else seq (lift_res (collect (\<lambda>f. parse_path (xe_urls V) (wdf_path (tdf_data_file f))) files)) (\<lambda>paths.
          seq (lift_res (collect (path_join (xe_urls V) base) paths)) (\<lambda>full.
          seq (lift_res (collect (file_statistics V) (zip files full))) (\<lambda>stats.
          seq (look (\<lambda>c. collect (commit_data_file_of V c t info) (zip (zip files paths) stats))) (\<lambda>fs.
            record_change (WriteTableDataFiles t fs))))))))"

definition write_table_data_files :: "tx_env \<Rightarrow> qualified_name \<Rightarrow> write_file_request list \<Rightarrow> unit tx_op" where
  "write_table_data_files V name files =
     write_table_transfer_data_files V name
       (map (\<lambda>f. \<lparr>tdf_data_file = f, tdf_partition_values = None, tdf_delete_files = [], tdf_inline_deletes = []\<rparr>) files)"

definition inline_data_of :: "tx_env \<Rightarrow> catalog \<Rightarrow> table_ref \<Rightarrow> schema \<Rightarrow> record_batch \<Rightarrow> commit_inline_data result" where
  "inline_data_of V c t sch batch =
     and_then (xe_match_to_schema V batch sch) (\<lambda>b.
     and_then (collect (check_column_stats c t (columns_by_id sch) acs_null_count) (xe_batch_statistics V sch b)) (\<lambda>cols.
       Ok \<lparr>cid_record_batch = b, cid_column_stats = column_stats_map cols\<rparr>))"

definition write_table_inline_data_tx :: "tx_env \<Rightarrow> qualified_name \<Rightarrow> record_batch list \<Rightarrow> unit tx_op" where
  "write_table_inline_data_tx V name batches =
     seq (look (\<lambda>c. table_by_name c name)) (\<lambda>t.
     seq (look (\<lambda>c. table_schema c t)) (\<lambda>sch.
     if \<not> dialect_supports_data_inlining (xe_dialect V) sch
     then raise (InvalidChanges ''cannot inline data for this table; write Parquet files instead'')
     else seq (look (\<lambda>c. collect (inline_data_of V c t sch) batches)) (\<lambda>data.
            record_change (WriteTableInlineData t data))))"

end
