(* ===== verification/Macros.thy ===== *)
theory Macros
  imports Transactions
begin

text \<open>
  Creating a macro (\<open>transaction/macro_.rs\<close>): its implementations are checked and their parameter types
  and default types are replaced by the names the catalog uses. Whether a text is an SQL expression or
  a query is decided by the SQL parser, a parameter here.
\<close>

section \<open>Messages of errors\<close>

text \<open>The messages of \<open>error.rs\<close>, as \<open>Display\<close> prints them.\<close>

primrec error_to_string :: "ducklake_error \<Rightarrow> string" where
  "error_to_string (UnsupportedVersion v) = ''the DuckLake SDK does not currently support version '' @ v"
| "error_to_string (OutdatedVersion a b) =
     ''the catalog version is outdated (current: '' @ a @ '', expected: '' @ b @ '') and automatic upgrades disabled''"
| "error_to_string (AlreadyExists entity name) = entity @ '' with name '' @ sq name @ '' already exists''"
| "error_to_string (NotFound entity name) = entity @ '' with name '' @ sq name @ '' does not exist''"
| "error_to_string (EntityNotFound i) = ''entity with id '' @ sq (show_int i) @ '' was not found''"
| "error_to_string (ColumnNotFound i) = ''column with id '' @ sq (show_int i) @ '' was not found''"
| "error_to_string (InvalidChanges m) = ''invalid changes: '' @ m"
| "error_to_string (InvalidDataType m) = ''invalid data type: '' @ m"
| "error_to_string (InvalidPartitions m) = ''invalid partitions: '' @ m"
| "error_to_string (InvalidTimeZone m) = ''invalid time zone '' @ sq m"
| "error_to_string (InvalidDatabaseOptions m) = ''invalid database options: '' @ m"
| "error_to_string (InvalidPartitionTransform m) = ''invalid partition transform: '' @ m"
| "error_to_string (InvalidSortDirection m) = ''invalid sort direction: '' @ m"
| "error_to_string (InvalidNullOrder m) = ''invalid null order: '' @ m"
| "error_to_string (InvalidSchemaName name reason) = ''invalid schema name '' @ sq name @ '': '' @ reason"
| "error_to_string (InvalidQualifiedName name reason) = ''invalid qualified name '' @ sq name @ '': '' @ reason"
| "error_to_string (InvalidView reason) = ''invalid view definition: '' @ reason"
| "error_to_string (InvalidMacro reason) = ''invalid macro definition: '' @ reason"
| "error_to_string (InvalidColumnName name reason) = ''invalid column name '' @ sq name @ '': '' @ reason"
| "error_to_string (InvalidCast old new) =
     ''cannot cast column from type '' @ sq (dtype_to_string old) @ '' to type '' @ sq (dtype_to_string new)"
| "error_to_string (DuplicateColumnName name) = ''duplicate column name '' @ sq name"
| "error_to_string CatalogNotInitialized = ''catalog is not initialized yet, call `Ducklake::create` first''"
| "error_to_string CatalogAlreadyInitialized = ''catalog is already initialized, use `Ducklake::connect` instead''"
| "error_to_string UnknownVersion = ''catalog is already initialized but does not declare a version''"
| "error_to_string (TransactionConflict m) = ''transaction conflict: '' @ m"
| "error_to_string (UnsupportedDatabase m) = ''connection url '' @ sq m @ '' specifies unsupported database scheme''"
| "error_to_string RetriesExceeded =
     ''failed to commit transaction because of high write concurrency: the number of retries was exceeded''"
| "error_to_string (Database e) = ''database error: '' @ de_message e"
| "error_to_string (Arrow m) = ''arrow error: '' @ m"
| "error_to_string (Parsing m) = ''parsing error: '' @ m"
| "error_to_string (InvalidVersion m) = ''invalid version: '' @ m"
| "error_to_string (InvalidPath path reason) = ''invalid path '' @ sq path @ '' (reason: '' @ reason @ '')''"
| "error_to_string (ReadOnlyMetadata key) = ''metadata key '' @ sq key @ '' cannot be set''"
| "error_to_string (InvalidDefault column reason) =
     ''invalid default value for column '' @ sq column @ '': '' @ reason"
| "error_to_string (InvalidNullabilityChange column) =
     ''cannot mark column '' @ sq column @ '' as non-nullable because it already contains nulls''"
| "error_to_string (InvalidNullValue column) = ''cannot insert null value into non-nullable column '' @ sq column"
| "error_to_string (UnsupportedUrlScheme m) = ''URL scheme '' @ sq m @ '' is not currently supported for file paths''"
| "error_to_string (UnsupportedArrowDataType m) = ''unsupported Arrow data type: '' @ m"
| "error_to_string InvalidEncryptionKey = ''encryption key must be valid base64''"
| "error_to_string (Parquet m) = ''parquet error: '' @ m"
| "error_to_string (ObjectStore m) = ''object store error: '' @ m"
| "error_to_string ReadonlyDucklake = ''the DuckLake connection is read-only, no changes may be performed''"
| "error_to_string SnapshotPinned = ''the connection is pinned to a snapshot''"
| "error_to_string (InvalidTableTransfer m) = ''invalid table transfer: '' @ m"
| "error_to_string TableChangedDuringTransfer = ''the table changed while it was being transferred''"
| "error_to_string (SchemaError m) = ''schema error: '' @ m"

section \<open>Parameters\<close>

text \<open>What other crates decide: the SQL dialects and parsers, and the digits of a decimal.\<close>

record macro_env =
  me_text :: ext_text
  me_dialect_known :: "string \<Rightarrow> bool"
  me_parses_as_expression :: "string \<Rightarrow> string \<Rightarrow> bool"
  me_parses_as_query :: "string \<Rightarrow> string \<Rightarrow> bool"
  me_decimal_scale :: "decimal \<Rightarrow> nat"
  me_decimal_mantissa :: "decimal \<Rightarrow> int"

definition invalid_macro :: "string \<Rightarrow> 'a result" where
  "invalid_macro reason = Err (InvalidMacro reason)"

definition normalize_data_type :: "string \<Rightarrow> string \<Rightarrow> string result" where
  "normalize_data_type data_type name =
     (let normalized = to_ascii_lowercase data_type in
      if normalized \<in> {''list'', ''struct'', ''map''}
      then invalid_macro (''nested type '' @ sq data_type @ '' for parameter '' @ sq name
             @ '' cannot be safely reconstructed from DuckLake macro metadata'')
      else map_err (\<lambda>_. InvalidMacro (''invalid DuckLake type '' @ sq data_type @ '' for parameter '' @ sq name))
             (and_then (parse_primitive normalized) (\<lambda>t.
                case t of
                  DDecimal p s \<Rightarrow>
                    if \<not> (1 \<le> p \<and> p \<le> 38) \<or> s > p then Err (InvalidDataType normalized) else Ok (dtype_to_string t)
                | _ \<Rightarrow> Ok (dtype_to_string t))))"

definition is_ascii_hexdigit :: "char \<Rightarrow> bool" where
  "is_ascii_hexdigit c \<longleftrightarrow> (let n = (of_char c :: nat) in (48 \<le> n \<and> n \<le> 57) \<or> (65 \<le> n \<and> n \<le> 70) \<or> (97 \<le> n \<and> n \<le> 102))"

definition is_ascii_graphic :: "char \<Rightarrow> bool" where
  "is_ascii_graphic c \<longleftrightarrow> (let n = (of_char c :: nat) in 33 \<le> n \<and> n \<le> 126)"

text \<open>The bytes from the index on.\<close>

fun is_macro_blob :: "string \<Rightarrow> bool" where
  "is_macro_blob [] = True"
| "is_macro_blob (c # cs) =
     (if c = bslash
      then (case cs of
              x # h # l # rest \<Rightarrow>
                x = CHR ''x'' \<and> is_ascii_hexdigit h \<and> is_ascii_hexdigit l \<and> is_macro_blob rest
            | _ \<Rightarrow> False)
      else (is_ascii_graphic c \<or> c = CHR '' '') \<and> is_macro_blob cs)"

definition decimal_fits :: "macro_env \<Rightarrow> int \<Rightarrow> int \<Rightarrow> decimal \<Rightarrow> bool" where
  "decimal_fits M precision scale v =
     (let fractional = me_decimal_scale M v;
          mantissa_digits = length (show_nat (nat \<bar>me_decimal_mantissa M v\<bar>));
          integer_digits = (if me_decimal_mantissa M v = 0 then 0 else mantissa_digits - fractional) in
      \<not> (int fractional > scale \<or> int integer_digits > (precision - scale) mod 256))"

definition validate_default_value :: "macro_env \<Rightarrow> string \<Rightarrow> string \<Rightarrow> unit result" where
  "validate_default_value M data_type v =
     (if data_type = ''varchar'' then Ok ()
      else if data_type = ''boolean'' \<and> (eq_ignore_ascii_case v ''true'' \<or> eq_ignore_ascii_case v ''false'') then Ok ()
      else if data_type = ''blob'' \<and> is_macro_blob v then Ok ()
      else if data_type = ''interval'' \<or> data_type = ''json''
      then invalid_macro (''defaults of type '' @ sq data_type
             @ '' are not supported because their macro serialization cannot be validated safely'')
      else and_then (parse_primitive data_type) (\<lambda>t.
           and_then (value_parse (me_text M) t v) (\<lambda>o'.
           and_then (ok_or (InvalidMacro (''NULL is not a valid default for type '' @ sq (dtype_to_string t))) o') (\<lambda>x.
             case (t, x) of
               (DDecimal precision scale, VDecimal d) \<Rightarrow>
                 if decimal_fits M precision scale d then Ok ()
                 else invalid_macro (''value is out of range for decimal('' @ show_int precision @ '', ''
                        @ show_int scale @ '')'')
             | _ \<Rightarrow> Ok ()))))"

definition check_default :: "macro_env \<Rightarrow> string \<Rightarrow> string \<Rightarrow> string \<Rightarrow> unit result" where
  "check_default M name v data_type =
     (if data_type = ''unknown'' then Ok ()
      else map_err (\<lambda>e. InvalidMacro (''invalid default value for parameter '' @ sq name @ '' as '' @ data_type
             @ '': '' @ error_to_string e))
           (validate_default_value M data_type v))"

definition normalize_parameter :: "macro_env \<Rightarrow> macro_parameter \<Rightarrow> macro_parameter result" where
  "normalize_parameter M p =
     and_then (if eq_ignore_ascii_case (mp_data_type p) ''unknown'' then Ok ''unknown''
               else normalize_data_type (mp_data_type p) (mp_name p)) (\<lambda>t.
     case mp_default_value p of
       None \<Rightarrow>
         if \<not> eq_ignore_ascii_case (mp_default_value_type p) ''unknown''
         then invalid_macro (''parameter '' @ sq (mp_name p) @ '' has a default type but no default value'')
         else Ok (p\<lparr>mp_data_type := t, mp_default_value_type := ''unknown''\<rparr>)
     | Some v \<Rightarrow>
         if mp_default_value_type p = ''unknown''
         then invalid_macro (''default value for parameter '' @ sq (mp_name p) @ '' requires a default value type'')
         else and_then (normalize_data_type (mp_default_value_type p) (mp_name p)) (\<lambda>d.
              and_then (check_default M (mp_name p) v d) (\<lambda>_.
              and_then (check_default M (mp_name p) v t) (\<lambda>_.
                Ok (p\<lparr>mp_data_type := t, mp_default_value_type := d\<rparr>)))))"

section \<open>Implementations\<close>

text \<open>The parameters in order: the names seen so far, and whether one of them had a default.\<close>

fun normalize_parameters ::
  "macro_env \<Rightarrow> string set \<Rightarrow> bool \<Rightarrow> macro_parameter list \<Rightarrow> macro_parameter list result"
where
  "normalize_parameters M names saw_default [] = Ok []"
| "normalize_parameters M names saw_default (p # ps) =
     (if mp_name p = [] \<or> to_ascii_lowercase (mp_name p) \<in> names
      then invalid_macro (''invalid or duplicate parameter '' @ sq (mp_name p))
      else if saw_default \<and> mp_default_value p = None
      then invalid_macro ''required parameters must precede default parameters''
      else and_then (normalize_parameter M p) (\<lambda>q.
           and_then (normalize_parameters M (insert (to_ascii_lowercase (mp_name p)) names)
                       (saw_default \<or> mp_default_value q \<noteq> None) ps) (\<lambda>qs.
             Ok (q # qs))))"

definition validate_implementation :: "macro_env \<Rightarrow> macro_type \<Rightarrow> macro_implementation \<Rightarrow> macro_implementation result" where
  "validate_implementation M ty i =
     (if \<not> me_dialect_known M (mi_dialect i) then invalid_macro (''invalid SQL dialect '' @ sq (mi_dialect i))
      else if \<not> (case ty of Scalar \<Rightarrow> me_parses_as_expression M (mi_dialect i) (mi_sql i)
                   | Table \<Rightarrow> me_parses_as_query M (mi_dialect i) (mi_sql i))
      then invalid_macro ''macro SQL must be one scalar expression or one table query''
      else and_then (normalize_parameters M {} False (mi_parameters i)) (\<lambda>ps. Ok (i\<lparr>mi_parameters := ps\<rparr>)))"

definition signature :: "macro_implementation \<Rightarrow> string \<times> string list" where
  "signature i = (to_ascii_lowercase (mi_dialect i), map mp_data_type (mi_parameters i))"

fun validate_each ::
  "macro_env \<Rightarrow> macro_type \<Rightarrow> (string \<times> string list) set \<Rightarrow> macro_implementation list \<Rightarrow> macro_implementation list result"
where
  "validate_each M ty signatures [] = Ok []"
| "validate_each M ty signatures (i # is) =
     and_then (validate_implementation M ty i) (\<lambda>j.
       if signature j \<in> signatures
       then invalid_macro ''macro implementations must have unique parameter type signatures''
       else and_then (validate_each M ty (insert (signature j) signatures) is) (\<lambda>js. Ok (j # js)))"

definition validate_implementations ::
  "macro_env \<Rightarrow> macro_type \<Rightarrow> macro_implementation list \<Rightarrow> macro_implementation list result"
where
  "validate_implementations M ty is =
     (if is = [] then invalid_macro ''a macro must have at least one implementation'' else validate_each M ty {} is)"

definition create_macro_tx ::
  "macro_env \<Rightarrow> qualified_name \<Rightarrow> macro_type \<Rightarrow> macro_implementation list \<Rightarrow> if_exists_strategy \<Rightarrow> unit tx_op"
where
  "create_macro_tx M name ty is strategy =
     skip_if strategy (\<lambda>c. is_ok (macro_by_name c name ty))
       (seq (lift_res (validate_implementations M ty is)) (\<lambda>is.
        seq (in_catalog (add_macro \<lparr>mac_name = name, mac_macro_type = ty, mac_implementations = is\<rparr>)) (\<lambda>(s, m).
          record_change (CreateMacro \<lparr>crm_schema_ref = s, crm_macro_ref = m, crm_name = name, crm_macro_type = ty,
            crm_implementations = is\<rparr>))))"

end
