(* ===== verification/Load.thy ===== *)
theory Load
  imports Column_Load Store
begin

text \<open>
  \<open>catalog/load.rs\<close>: the catalog of a snapshot from the rows of the metadata tables that are visible
  at it. The queries are the filters of the tables; their results come in the order of the rows,
  which the code only relies on where it sorts them.
\<close>

section \<open>Rows of a table\<close>

definition partition_column_from_ducklake ::
  "catalog_columns \<Rightarrow> ducklake_partition_column \<Rightarrow> catalog_partition_column result"
where
  "partition_column_from_ducklake columns col =
     and_then (parse_partition_transform (dpc_transform col)) (\<lambda>t.
     and_then (expect ''unwrap on None'' (im_get (cs_by_id columns) (dpc_column_id col))) (\<lambda>idx.
       Ok \<lparr>cpc_column = idx, cpc_transform = t\<rparr>))"

definition partition_from_ducklake ::
  "ducklake_partition_info \<Rightarrow> ducklake_partition_column list \<Rightarrow> catalog_columns \<Rightarrow> catalog_table_partition result"
where
  "partition_from_ducklake info cols columns =
     and_then (collect (partition_column_from_ducklake columns) (sort_key dpc_partition_key_index cols)) (\<lambda>cs.
       Ok \<lparr>ctp_id = Some (dpi_partition_id info), ctp_columns = cs\<rparr>)"

definition sort_column_from_ducklake ::
  "ducklake_sort_info \<Rightarrow> catalog_columns \<Rightarrow> ducklake_sort_expression \<Rightarrow> catalog_sort_column result"
where
  "sort_column_from_ducklake info columns e =
     and_then (ok_or (InvalidChanges (''sort '' @ show_int (dsi_sort_id info) @ '' has an empty expression''))
                (dse_expression e)) (\<lambda>name.
     and_then (column_by_name columns name) (\<lambda>idx.
     and_then (parse_sort_direction (case dse_sort_direction e of None \<Rightarrow> ''ASC'' | Some d \<Rightarrow> d)) (\<lambda>d.
     and_then (parse_null_order (case dse_null_order e of None \<Rightarrow> ''NULLS_LAST'' | Some n \<Rightarrow> n)) (\<lambda>n.
       Ok \<lparr>cso_column = idx, cso_dialect = (case dse_dialect e of None \<Rightarrow> ''duckdb'' | Some x \<Rightarrow> x),
           cso_direction = d, cso_null_order = n\<rparr>))))"

definition sort_from_ducklake ::
  "ducklake_sort_info \<Rightarrow> ducklake_sort_expression list \<Rightarrow> catalog_columns \<Rightarrow> catalog_sort_column list result"
where
  "sort_from_ducklake info es columns =
     collect (sort_column_from_ducklake info columns) (sort_key dse_sort_key_index es)"

definition default_empty_string :: "string \<Rightarrow> string \<Rightarrow> string" where
  "default_empty_string s on_empty = (if s = [] then on_empty else s)"

definition tag_of_row :: "ducklake_tag \<Rightarrow> tag" where
  "tag_of_row r = \<lparr>tag_key = dtg_key r, tag_value = dtg_value r\<rparr>"

section \<open>Macros\<close>

definition parameter_from_ducklake :: "ducklake_macro_parameters \<Rightarrow> macro_parameter" where
  "parameter_from_ducklake p =
     \<lparr>mp_name = dmp_parameter_name p, mp_data_type = dmp_parameter_type p,
      mp_default_value =
        (case dmp_default_value p of
           Some v \<Rightarrow> if dmp_default_value_type p = ''unknown'' \<and> to_ascii_lowercase v = to_ascii_lowercase NULL_STRING
                     then None else Some v
         | None \<Rightarrow> None),
      mp_default_value_type = dmp_default_value_type p\<rparr>"

type_synonym parameter_groups = "(i64 \<times> i64, ducklake_macro_parameters list) imap"

definition implementation_from_ducklake ::
  "i64 \<Rightarrow> qualified_name \<Rightarrow> macro_type \<Rightarrow> ducklake_macro_impl
    \<Rightarrow> (parameter_groups, ducklake_error, macro_implementation) op"
where
  "implementation_from_ducklake i name ty m ps =
     (case parse_macro_type (dmi_type m) of
        Ok t \<Rightarrow>
          (if t \<noteq> ty
           then (ps, Err (InvalidMacro (''macro '' @ qn_to_string name @ '' mixes scalar and table implementations'')))
           else (im_remove (i, dmi_impl_id m) ps,
                 Ok \<lparr>mi_dialect = dmi_dialect m, mi_sql = dmi_sql m,
                     mi_parameters = map parameter_from_ducklake
                       (sort_key dmp_column_id (group_of ps (i, dmi_impl_id m)))\<rparr>))
      | Err e \<Rightarrow> (ps, Err e)
      | Panic p \<Rightarrow> (ps, Panic p))"

fun implementations_from_ducklake ::
  "i64 \<Rightarrow> qualified_name \<Rightarrow> macro_type \<Rightarrow> ducklake_macro_impl list
    \<Rightarrow> (parameter_groups, ducklake_error, macro_implementation list) op"
where
  "implementations_from_ducklake i name ty [] = ret []"
| "implementations_from_ducklake i name ty (m # ms) =
     seq (implementation_from_ducklake i name ty m) (\<lambda>x.
     seq (implementations_from_ducklake i name ty ms) (\<lambda>xs. ret (x # xs)))"

definition macro_from_ducklake ::
  "i64 \<Rightarrow> qualified_name \<Rightarrow> ducklake_macro_impl list \<Rightarrow> (parameter_groups, ducklake_error, catalog_macro) op"
where
  "macro_from_ducklake i name impls =
     (let sorted = sort_key dmi_impl_id impls in
      seq (lift_res (ok_or (InvalidMacro (''macro '' @ qn_to_string name @ '' has no implementations''))
                      (case sorted of [] \<Rightarrow> None | m # _ \<Rightarrow> Some m))) (\<lambda>first.
      seq (lift_res (parse_macro_type (dmi_type first))) (\<lambda>ty.
      seq (implementations_from_ducklake i name ty sorted) (\<lambda>xs.
        ret \<lparr>cm_id = Some i, cm_name = name, cm_macro_type = ty, cm_implementations = xs\<rparr>))))"

section \<open>The catalog\<close>

record load_groups =
  lg_columns :: "(i64, ducklake_column list) imap"
  lg_column_tags :: "(i64, ducklake_column_tag list) imap"
  lg_partition_infos :: "(i64, ducklake_partition_info list) imap"
  lg_partition_columns :: "(i64, ducklake_partition_column list) imap"
  lg_sort_infos :: "(i64, ducklake_sort_info list) imap"
  lg_sort_expressions :: "(i64, ducklake_sort_expression list) imap"
  lg_tags :: "(i64, ducklake_tag list) imap"
  lg_macro_impls :: "(i64, ducklake_macro_impl list) imap"
  lg_macro_parameters :: parameter_groups

type_synonym 'a load_op = "(catalog \<times> load_groups, ducklake_error, 'a) op"

text \<open>\<open>groups.remove(&key).unwrap_or_default()\<close>.\<close>

definition take_group ::
  "(load_groups \<Rightarrow> ('k, 'r list) imap) \<Rightarrow> ((('k, 'r list) imap \<Rightarrow> ('k, 'r list) imap) \<Rightarrow> load_groups \<Rightarrow> load_groups)
    \<Rightarrow> 'k \<Rightarrow> 'r list load_op"
where
  "take_group get upd k p = ((fst p, upd (im_remove k) (snd p)), Ok (group_of (get (snd p)) k))"

text \<open>\<open>expect\<close> on a \<open>Result\<close>.\<close>

definition expect_ok :: "string \<Rightarrow> 'a result \<Rightarrow> 'a result" where
  "expect_ok msg r = (case r of Ok x \<Rightarrow> Ok x | _ \<Rightarrow> Panic msg)"

definition set_schema :: "url_ops \<Rightarrow> ducklake_schema \<Rightarrow> unit catalog_op" where
  "set_schema U row =
     seq (lift_res (path_new U (default_empty_string (dsc_path row) (dsc_schema_name row @ [slash])) (dsc_path_is_relative row)))
       (\<lambda>path. update (\<lambda>c.
          let (a, idx) = arena_push \<lparr>csc_id = Some (dsc_schema_id row), csc_name = dsc_schema_name row, csc_tables = [],
                           csc_views = [], csc_macros = [], csc_path = path\<rparr> (Some (dsc_schema_id row)) (schema_arena c)
          in c\<lparr>schema_arena := a, schemas := im_insert (dsc_schema_name row) idx (schemas c)\<rparr>))"

definition parent_of_row :: "string \<Rightarrow> i64 \<Rightarrow> (schema_ref \<times> string) load_op" where
  "parent_of_row msg i = query (\<lambda>p.
     and_then (expect_ok msg (schema_by_id (fst p) i)) (\<lambda>s.
     and_then (schema_inner (fst p) s) (\<lambda>sch. Ok (s, csc_name sch))))"

definition load_partition :: "ducklake_table \<Rightarrow> catalog_columns \<Rightarrow> catalog_table_partition option load_op" where
  "load_partition row columns =
     seq (take_group lg_partition_infos lg_partition_infos_update (dt_table_id row)) (\<lambda>infos.
     if length infos > 1
     then raise (InvalidPartitions (''expected at most one partition for table '' @ dt_table_name row @ '' but found ''
            @ show_int (int (length infos))))
     else (case infos of
        [] \<Rightarrow> ret None
      | info # _ \<Rightarrow>
          seq (take_group lg_partition_columns lg_partition_columns_update (dt_table_id row)) (\<lambda>cols.
            let mine = filter (\<lambda>c. dpc_partition_id c = dpi_partition_id info) cols in
            if mine = []
            then raise (InvalidPartitions (''partition info exists for table '' @ dt_table_name row
                   @ '' but no partition columns found''))
            else seq (lift_res (partition_from_ducklake info mine columns)) (\<lambda>p. ret (Some p)))))"

definition load_sort_info :: "ducklake_table \<Rightarrow> catalog_columns \<Rightarrow> catalog_sort_column list option load_op" where
  "load_sort_info row columns =
     seq (take_group lg_sort_infos lg_sort_infos_update (dt_table_id row)) (\<lambda>infos.
     if length infos > 1
     then raise (InvalidChanges (''expected at most one active sort for table '' @ dt_table_name row))
     else (case infos of
        [] \<Rightarrow> ret None
      | info # _ \<Rightarrow>
          seq (take_group lg_sort_expressions lg_sort_expressions_update (dt_table_id row)) (\<lambda>es.
          seq (lift_res (sort_from_ducklake info (filter (\<lambda>e. dse_sort_id e = dsi_sort_id info) es) columns)) (\<lambda>s.
            ret (Some s)))))"

definition set_table :: "ext_text \<Rightarrow> url_ops \<Rightarrow> ducklake_table \<Rightarrow> unit load_op" where
  "set_table X U row =
     seq (parent_of_row ''table references the ID of non-existent schema'' (dt_schema_id row)) (\<lambda>(s, schema_name).
     seq (take_group lg_columns lg_columns_update (dt_table_id row)) (\<lambda>columns.
     seq (take_group lg_column_tags lg_column_tags_update (dt_table_id row)) (\<lambda>column_tags.
     seq (lift_res (columns_from_ducklake X columns column_tags)) (\<lambda>cs.
     seq (load_partition row cs) (\<lambda>partition.
     seq (load_sort_info row cs) (\<lambda>sort_info.
     seq (take_group lg_tags lg_tags_update (dt_table_id row)) (\<lambda>tags.
     seq (lift_res (path_new U (default_empty_string (dt_path row) (dt_table_name row @ [slash])) (dt_path_is_relative row))) (\<lambda>path.
     update (\<lambda>(c, g).
       let (a, idx) = arena_push \<lparr>ct_id = Some (dt_table_id row),
                        ct_name = \<lparr>qn_schema = schema_name, qn_name = dt_table_name row\<rparr>, ct_columns = cs,
                        ct_partition = partition, ct_sort_info = sort_info,
                        ct_tags = tags_from_list (map tag_of_row tags), ct_path = path\<rparr>
                       (Some (dt_table_id row)) (table_arena c)
       in (modify_schema s (\<lambda>sch. sch\<lparr>csc_tables := im_insert (dt_table_name row) idx (csc_tables sch)\<rparr>)
             (c\<lparr>table_arena := a\<rparr>), g))))))))))"

definition column_aliases_of :: "ducklake_view \<Rightarrow> string list option result" where
  "column_aliases_of row =
     (case dv_column_aliases row of
        None \<Rightarrow> Ok None
      | Some s \<Rightarrow>
          (if s = [] then Ok None
           else and_then (expect ''column_aliases must be a list of quoted identifiers'' (parse_identifier_list s))
                  (\<lambda>as. Ok (Some as))))"

definition set_view :: "ducklake_view \<Rightarrow> unit load_op" where
  "set_view row =
     seq (parent_of_row ''view references the ID of non-existent schema'' (dv_schema_id row)) (\<lambda>(s, schema_name).
     seq (lift_res (column_aliases_of row)) (\<lambda>aliases.
     seq (take_group lg_tags lg_tags_update (dv_view_id row)) (\<lambda>tags.
     update (\<lambda>(c, g).
       let (a, idx) = arena_push \<lparr>cv_id = Some (dv_view_id row),
                        cv_name = \<lparr>qn_schema = schema_name, qn_name = dv_view_name row\<rparr>, cv_sql = dv_sql row,
                        cv_dialect = dv_dialect row, cv_column_aliases = aliases,
                        cv_tags = tags_from_list (map tag_of_row tags)\<rparr> (Some (dv_view_id row)) (view_arena c)
       in (modify_schema s (\<lambda>sch. sch\<lparr>csc_views := im_insert (dv_view_name row) idx (csc_views sch)\<rparr>)
             (c\<lparr>view_arena := a\<rparr>), g)))))"

definition set_macro :: "ducklake_macro \<Rightarrow> unit load_op" where
  "set_macro row =
     seq (parent_of_row ''macro references the ID of a non-existent schema'' (dma_schema_id row)) (\<lambda>(s, schema_name).
     seq (take_group lg_macro_impls lg_macro_impls_update (dma_macro_id row)) (\<lambda>impls.
     seq (on_table (\<lambda>p. lg_macro_parameters (snd p)) (\<lambda>f p. (fst p, lg_macro_parameters_update f (snd p)))
            (macro_from_ducklake (dma_macro_id row) \<lparr>qn_schema = schema_name, qn_name = dma_macro_name row\<rparr> impls)) (\<lambda>m.
     update (\<lambda>(c, g).
       let (a, idx) = arena_push m (Some (dma_macro_id row)) (macro_arena c)
       in (modify_schema s (\<lambda>sch. sch\<lparr>csc_macros :=
               im_insert (macro_key (dma_macro_name row) (cm_macro_type m)) idx (csc_macros sch)\<rparr>)
             (c\<lparr>macro_arena := a\<rparr>), g)))))"

section \<open>The queries\<close>

definition schemas_at :: "i64 \<Rightarrow> store \<Rightarrow> ducklake_schema list" where
  "schemas_at n db = filter (\<lambda>r. visible_at (dsc_begin_snapshot r) (dsc_end_snapshot r) n) (db_schemas db)"

definition tables_at :: "i64 \<Rightarrow> store \<Rightarrow> ducklake_table list" where
  "tables_at n db = filter (\<lambda>r. visible_at (dt_begin_snapshot r) (dt_end_snapshot r) n) (db_tables db)"

definition views_at :: "i64 \<Rightarrow> store \<Rightarrow> ducklake_view list" where
  "views_at n db = filter (\<lambda>r. visible_at (dv_begin_snapshot r) (dv_end_snapshot r) n) (db_views db)"

definition macros_at :: "i64 \<Rightarrow> store \<Rightarrow> ducklake_macro list" where
  "macros_at n db = filter (\<lambda>r. visible_at (dma_begin_snapshot r) (dma_end_snapshot r) n) (db_macros db)"

definition sort_infos_at :: "i64 \<Rightarrow> store \<Rightarrow> ducklake_sort_info list" where
  "sort_infos_at n db = filter (\<lambda>r. visible_at (dsi_begin_snapshot r) (dsi_end_snapshot r) n) (db_sort_info db)"

definition fetch_groups :: "i64 \<Rightarrow> store \<Rightarrow> load_groups" where
  "fetch_groups n db =
     (let macro_ids = map dma_macro_id (macros_at n db); sort_ids = map dsi_sort_id (sort_infos_at n db) in
      \<lparr>lg_columns = group_map_by dc_table_id
         (filter (\<lambda>r. visible_at (dc_begin_snapshot r) (dc_end_snapshot r) n) (db_columns db)),
       lg_column_tags = group_map_by dct_table_id
         (filter (\<lambda>r. visible_at (dct_begin_snapshot r) (dct_end_snapshot r) n) (db_column_tags db)),
       lg_partition_infos = group_map_by dpi_table_id
         (filter (\<lambda>r. visible_at (dpi_begin_snapshot r) (dpi_end_snapshot r) n) (db_partition_info db)),
       lg_partition_columns = group_map_by dpc_table_id (db_partition_columns db),
       lg_sort_infos = group_map_by dsi_table_id (sort_infos_at n db),
       lg_sort_expressions = group_map_by dse_table_id (filter (\<lambda>r. dse_sort_id r \<in> set sort_ids) (db_sort_expressions db)),
       lg_tags = group_map_by dtg_object_id
         (filter (\<lambda>r. visible_at (dtg_begin_snapshot r) (dtg_end_snapshot r) n) (db_tags db)),
       lg_macro_impls = group_map_by dmi_macro_id (filter (\<lambda>r. dmi_macro_id r \<in> set macro_ids) (db_macro_impls db)),
       lg_macro_parameters = group_map_by (\<lambda>r. (dmp_macro_id r, dmp_impl_id r))
         (filter (\<lambda>r. dmp_macro_id r \<in> set macro_ids) (db_macro_parameters db))\<rparr>)"

definition load_all_rows :: "ext_text \<Rightarrow> url_ops \<Rightarrow> i64 \<Rightarrow> store \<Rightarrow> unit load_op" where
  "load_all_rows X U n db =
     seq (on_table fst (\<lambda>f p. (f (fst p), snd p)) (for_each (set_schema U) (schemas_at n db))) (\<lambda>_.
     seq (for_each (set_table X U) (tables_at n db)) (\<lambda>_.
     seq (for_each set_view (views_at n db)) (\<lambda>_.
       for_each set_macro (macros_at n db))))"

definition catalog_load :: "ext_text \<Rightarrow> url_ops \<Rightarrow> store \<Rightarrow> i64 \<Rightarrow> catalog result" where
  "catalog_load X U db n =
     (case load_all_rows X U n db (catalog_new, fetch_groups n db) of
        ((c, _), Ok _) \<Rightarrow> Ok c
      | (_, Err e) \<Rightarrow> Err e
      | (_, Panic m) \<Rightarrow> Panic m)"

text \<open>The next free column ID of a table, on demand; a table without columns has no maximum.\<close>

definition load_next_column_id :: "i64 \<Rightarrow> store \<Rightarrow> i64 result" where
  "load_next_column_id table db =
     (case map dc_column_id (filter (\<lambda>r. dc_table_id r = table) (db_columns db)) of
        [] \<Rightarrow> Err (Database \<lparr>de_unique_violation = False, de_table_already_exists = False, de_message = ''unexpected null''\<rparr>)
      | is \<Rightarrow> Ok (i64_add (Max (set is)) 1))"

end
