(* ===== verification/Macro_Trip.thy ===== *)
theory Macro_Trip
  imports Macros Load Data_Writes
begin

text \<open>
  The implementations a transaction accepts for a macro load back from the rows of the commit as the
  transaction normalised them, in whatever order the database returns the rows.
\<close>

section \<open>Sorting rows by their number\<close>

lemma sort_key_unique:
  fixes f :: "'a \<Rightarrow> 'b::linorder"
  assumes "mset xs = mset ys" and "sorted (map f ys)" and "distinct (map f ys)"
  shows "sort_key f xs = ys"
proof -
  have "mset (map f (sort_key f xs)) = mset (map f ys)" using assms(1) by simp
  then have "map f (sort_key f xs) = map f ys"
    using properties_for_sort [of "map f (sort_key f xs)" "map f ys"] properties_for_sort [of "map f ys" "map f ys"] assms(2)
    by simp
  moreover have "inj_on f (set (sort_key f xs) \<union> set ys)"
    using assms(1,3) mset_eq_setD [OF assms(1)] by (simp add: distinct_map)
  ultimately show ?thesis by (rule map_inj_on)
qed

section \<open>Accepted parameters\<close>

text \<open>A default has a type, and only a default has one.\<close>

definition parameter_normal :: "macro_parameter \<Rightarrow> bool" where
  "parameter_normal q \<longleftrightarrow> (mp_default_value q = None) = (mp_default_value_type q = ''unknown'')"

lemma dtype_to_string_known: "dtype_to_string t \<noteq> ''unknown''"
  by (cases t) (auto split: timestamp_precision.splits)

lemma normalize_data_type_known:
  assumes "normalize_data_type s n = Ok d"
  shows "d \<noteq> ''unknown''"
proof -
  obtain t where "d = dtype_to_string t"
    using assms by (cases "parse_primitive (to_ascii_lowercase s)")
      (auto simp: normalize_data_type_def invalid_macro_def Let_def simp del: dtype_to_string.simps split: if_splits data_type.splits)
  with dtype_to_string_known show ?thesis by simp
qed

lemma normalize_parameter_normal: "normalize_parameter M p = Ok q \<Longrightarrow> parameter_normal q"
  using normalize_data_type_known
  by (auto simp: normalize_parameter_def parameter_normal_def invalid_macro_def split: if_splits option.splits elim!: and_then.elims)

lemma normalize_parameters_normal: "normalize_parameters M ns d ps = Ok qs \<Longrightarrow> list_all parameter_normal qs"
  by (induction M ns d ps arbitrary: qs rule: normalize_parameters.induct)
    (auto simp: invalid_macro_def normalize_parameter_normal split: if_splits elim!: and_then.elims)

lemma validate_implementation_normal:
  "validate_implementation M ty i = Ok j \<Longrightarrow> list_all parameter_normal (mi_parameters j)"
  by (auto simp: invalid_macro_def validate_implementation_def dest!: normalize_parameters_normal split: if_splits elim!: and_then.elims)

lemma validate_each_normal:
  "validate_each M ty sigs is = Ok js \<Longrightarrow> list_all (\<lambda>j. list_all parameter_normal (mi_parameters j)) js"
  by (induction M ty sigs "is" arbitrary: js rule: validate_each.induct)
    (auto simp: invalid_macro_def validate_implementation_normal split: if_splits elim!: and_then.elims)

lemma validated_normal:
  assumes "validate_implementations M ty is = Ok js"
  shows "js \<noteq> [] \<and> list_all (\<lambda>j. list_all parameter_normal (mi_parameters j)) js"
proof -
  have each: "validate_each M ty {} is = Ok js" and "is \<noteq> []"
    using assms by (auto simp: validate_implementations_def invalid_macro_def split: if_splits)
  then have "js \<noteq> []" by (cases "is") (auto simp: invalid_macro_def split: if_splits elim!: and_then.elims)
  with validate_each_normal [OF each] show ?thesis by simp
qed

section \<open>The rows of an accepted macro\<close>

abbreviation impl_rows :: "i64 \<Rightarrow> macro_type \<Rightarrow> macro_implementation list \<Rightarrow> ducklake_macro_impl list" where
  "impl_rows i ty js \<equiv> map (\<lambda>p. fst (macro_impl_rows i ty p)) (enumerate 0 js)"

abbreviation parameter_rows :: "i64 \<Rightarrow> macro_type \<Rightarrow> macro_implementation list \<Rightarrow> ducklake_macro_parameters list" where
  "parameter_rows i ty js \<equiv> concat (map (\<lambda>p. snd (macro_impl_rows i ty p)) (enumerate 0 js))"

lemma edit_app: "edit f p = ((f (fst p), snd p), Ok ())"
  by (simp add: edit_def update_def)

lemma snapshot_id_app: "snapshot_id p = (p, Ok (st_snapshot_id (snd p)))"
  by (simp add: snapshot_id_def query_def)

definition macro_rows_are ::
  "ducklake_macro_impl list \<Rightarrow> ducklake_macro_parameters list \<Rightarrow> tx_changes \<times> commit_state \<Rightarrow> bool"
where
  "macro_rows_are I P p \<longleftrightarrow> tc_new_macro_impls (fst p) = I \<and> tc_new_macro_parameters (fst p) = P"

lemma create_macro_run:
  assumes "create_macro_rows m p = (p', Ok ())" and "macro_rows_are I P p"
  shows "\<exists>i. dma_macro_id (last (tc_new_macros (fst p'))) = i \<and>
    macro_rows_are (I @ impl_rows i (crm_macro_type m) (crm_implementations m))
      (P @ parameter_rows i (crm_macro_type m) (crm_implementations m)) p'"
proof -
  have loop: "for_each (\<lambda>p. case macro_impl_rows i ty p of (row, parameters) \<Rightarrow>
         seq (edit (tc_new_macro_impls_update (\<lambda>rows. rows @ [row]))) (\<lambda>_.
           edit (tc_new_macro_parameters_update (\<lambda>rows. rows @ parameters)))) xs p
      = ((tc_new_macro_impls_update (\<lambda>rows. rows @ map (\<lambda>p. fst (macro_impl_rows i ty p)) xs)
          (tc_new_macro_parameters_update (\<lambda>rows. rows @ concat (map (\<lambda>p. snd (macro_impl_rows i ty p)) xs)) (fst p)), snd p), Ok ())"
    for i ty xs and p :: "tx_changes \<times> commit_state"
    by (induction xs arbitrary: p) (auto simp: seq_def edit_app ret_def case_prod_beta Let_def comp_def)
  show ?thesis
    using assms
    by (auto simp: create_macro_rows_def loop macro_rows_are_def edit_app snapshot_id_app
        elim!: seq_OkE in_state_OkE)
qed

section \<open>Loading\<close>

lemma parameter_back:
  "parameter_normal q \<Longrightarrow> parameter_from_ducklake
     \<lparr>dmp_macro_id = i, dmp_impl_id = k, dmp_column_id = c, dmp_parameter_name = mp_name q,
      dmp_parameter_type = mp_data_type q, dmp_default_value = Some (literal_format (\<lambda>s. s) (mp_default_value q)),
      dmp_default_value_type = mp_default_value_type q\<rparr> = q"
  by (cases "mp_default_value q") (auto simp: parameter_normal_def parameter_from_ducklake_def literal_format_def)

lemma map_enumerate_back: "(\<And>k x. x \<in> set xs \<Longrightarrow> f (k, x) = x) \<Longrightarrow> map f (enumerate n xs) = xs"
  by (induction xs arbitrary: n) auto

lemma enumerate_column_ids:
  assumes "length xs < 2 ^ 63"
  shows "map (\<lambda>p. usize_as_i64 (fst p)) (enumerate 0 xs) = map int [0..<length xs]"
proof -
  have "map (\<lambda>p. usize_as_i64 (fst p)) (enumerate 0 xs) = map usize_as_i64 (map fst (enumerate 0 xs))"
    by (simp only: map_map comp_def)
  with assms show ?thesis by (auto simp: map_fst_enumerate)
qed

lemma parameters_back:
  assumes "mset rows = mset (snd (macro_impl_rows i ty (k, j)))" and "list_all parameter_normal (mi_parameters j)"
    and "length (mi_parameters j) < 2 ^ 63"
  shows "map parameter_from_ducklake (sort_key dmp_column_id rows) = mi_parameters j"
proof -
  let ?rows = "snd (macro_impl_rows i ty (k, j))"
  have ids: "map dmp_column_id ?rows = map int [0..<length (mi_parameters j)]"
    using assms(3) enumerate_column_ids by (simp add: macro_impl_rows_def comp_def case_prod_beta)
  have "sorted (map int [0..<n])" for n by (simp add: sorted_map sorted_wrt_upt)
  then have "sort_key dmp_column_id rows = ?rows"
    using assms(1) by (intro sort_key_unique) (simp_all only: ids, simp_all add: distinct_map inj_on_def)
  moreover have "map parameter_from_ducklake ?rows = mi_parameters j"
    using assms(2) by (simp add: macro_impl_rows_def list_all_iff map_enumerate_back parameter_back)
  ultimately show ?thesis by simp
qed

text \<open>The parameters of the implementation of number \<open>k\<close> among the groups.\<close>

definition groups_hold :: "parameter_groups \<Rightarrow> i64 \<Rightarrow> macro_type \<Rightarrow> (nat \<times> macro_implementation) list \<Rightarrow> bool" where
  "groups_hold ps i ty kjs \<longleftrightarrow>
     list_all (\<lambda>kj. mset (group_of ps (i, usize_as_i64 (fst kj))) = mset (snd (macro_impl_rows i ty kj))
       \<and> list_all parameter_normal (mi_parameters (snd kj)) \<and> length (mi_parameters (snd kj)) < 2 ^ 63) kjs"

lemma parse_macro_type_back [simp]: "parse_macro_type (macro_type_to_string ty) = Ok ty"
  by (cases ty) (simp_all add: parse_macro_type_def)

lemma implementations_back:
  assumes "groups_hold ps i ty kjs" and "distinct (map (\<lambda>kj. usize_as_i64 (fst kj)) kjs)"
  shows "snd (implementations_from_ducklake i name ty (map (\<lambda>kj. fst (macro_impl_rows i ty kj)) kjs) ps) = Ok (map snd kjs)"
  using assms
proof (induction kjs arbitrary: ps)
  case (Cons kj kjs)
  obtain k j where kj: "kj = (k, j)" by fastforce
  have one: "implementation_from_ducklake i name ty (fst (macro_impl_rows i ty kj)) ps = (im_remove (i, usize_as_i64 k) ps, Ok j)"
    using Cons.prems(1) parameters_back [of "group_of ps (i, usize_as_i64 k)" i ty k j]
    by (auto simp: implementation_from_ducklake_def groups_hold_def kj) (simp_all add: macro_impl_rows_def)
  have "groups_hold (im_remove (i, usize_as_i64 k) ps) i ty kjs"
    using Cons.prems by (auto simp: groups_hold_def kj list_all_iff image_iff)
  with Cons.IH Cons.prems(2) have "snd (implementations_from_ducklake i name ty (map (\<lambda>kj. fst (macro_impl_rows i ty kj)) kjs)
      (im_remove (i, usize_as_i64 k) ps)) = Ok (map snd kjs)" by simp
  with one show ?case by (auto simp: seq_def kj split: prod.splits)
qed (simp add: ret_def)

lemma accepted_macros_back:
  assumes accepted: "validate_implementations M ty is = Ok js" and small: "length js < 2 ^ 63"
    "list_all (\<lambda>j. length (mi_parameters j) < 2 ^ 63) js"
    and impls: "mset I = mset (impl_rows i ty js)" and params: "mset P = mset (parameter_rows i ty js)"
  shows "snd (macro_from_ducklake i name I (group_map_by (\<lambda>r. (dmp_macro_id r, dmp_impl_id r)) P))
    = Ok \<lparr>cm_id = Some i, cm_name = name, cm_macro_type = ty, cm_implementations = js\<rparr>"
proof -
  let ?kjs = "enumerate 0 js" and ?ps = "group_map_by (\<lambda>r. (dmp_macro_id r, dmp_impl_id r)) P"
  have normal: "js \<noteq> []" "list_all (\<lambda>j. list_all parameter_normal (mi_parameters j)) js"
    using validated_normal [OF accepted] by simp_all
  have ids: "map dmi_impl_id (impl_rows i ty js) = map int [0..<length js]"
    using enumerate_column_ids [OF small(1)] by (simp add: macro_impl_rows_def comp_def case_prod_beta)
  have "sorted (map int [0..<n])" for n by (simp add: sorted_map sorted_wrt_upt)
  then have sorted: "sort_key dmi_impl_id I = impl_rows i ty js"
    using impls by (intro sort_key_unique) (simp_all only: ids, simp_all add: distinct_map inj_on_def)
  have distinct: "distinct (map (\<lambda>kj. usize_as_i64 (fst kj)) ?kjs)"
    using enumerate_column_ids [OF small(1)] by (simp add: distinct_map inj_on_def)
  have own: "filter (\<lambda>r. (dmp_macro_id r, dmp_impl_id r) = (i, usize_as_i64 k)) (snd (macro_impl_rows i ty kj))
      = (if usize_as_i64 (fst kj) = usize_as_i64 k then snd (macro_impl_rows i ty kj) else [])" for k kj
    by (auto simp: macro_impl_rows_def case_prod_beta filter_empty_conv filter_id_conv)
  have pick: "filter (\<lambda>r. (dmp_macro_id r, dmp_impl_id r) = (i, usize_as_i64 (fst kj))) (concat (map (\<lambda>p. snd (macro_impl_rows i ty p)) kjs))
      = snd (macro_impl_rows i ty kj)"
    if "distinct (map (\<lambda>kj. usize_as_i64 (fst kj)) kjs)" and "kj \<in> set kjs" for kj kjs
    using that
  proof (induction kjs)
    case (Cons x xs)
    have "filter (\<lambda>r. (dmp_macro_id r, dmp_impl_id r) = (i, usize_as_i64 (fst x))) (concat (map (\<lambda>p. snd (macro_impl_rows i ty p)) xs)) = []"
      using Cons.prems(1) by (auto simp: filter_concat own image_iff simp del: prod.inject)
    then show ?case using Cons by (auto simp: own image_iff simp del: prod.inject)
  qed simp
  have "mset (group_of ?ps (i, usize_as_i64 (fst kj))) = mset (snd (macro_impl_rows i ty kj))" if "kj \<in> set ?kjs" for kj
    by (simp only: group_of_map_by mset_filter params) (simp only: mset_filter [symmetric] pick [OF distinct that])
  then have holds: "groups_hold ?ps i ty ?kjs"
    using normal(2) small(2) by (auto simp: groups_hold_def list_all_iff in_set_enumerate_eq)
  obtain j0 js0 where js: "js = j0 # js0" using normal(1) by (cases js) auto
  from implementations_back [OF holds distinct, of name]
  have loaded: "snd (implementations_from_ducklake i name ty (impl_rows i ty js) ?ps) = Ok js" by simp
  have "impl_rows i ty js = fst (macro_impl_rows i ty (0, j0)) # map (\<lambda>p. fst (macro_impl_rows i ty p)) (enumerate 1 js0)"
    by (simp add: js)
  then obtain x xs where first: "impl_rows i ty js = x # xs" "dmi_type x = macro_type_to_string ty"
    by (simp add: macro_impl_rows_def)
  from loaded first(1) obtain ps' where "implementations_from_ducklake i name ty (x # xs) ?ps = (ps', Ok js)"
    by (metis prod.collapse)
  then show ?thesis
    unfolding macro_from_ducklake_def sorted first(1)
    using first(2) by (simp add: Let_def seq_def ret_def lift_res_def ok_or_def del: implementations_from_ducklake.simps)
qed

lemma created_macro_loads:
  assumes create: "create_macro_tx M name ty is Fail t = (t', Ok ())" and change: "last (tn_changes t') = CreateMacro m"
    and small: "length (crm_implementations m) < 2 ^ 63" "list_all (\<lambda>j. length (mi_parameters j) < 2 ^ 63) (crm_implementations m)"
    and start: "tc_new_macro_impls (fst p) = []" "tc_new_macro_parameters (fst p) = []"
    and run: "create_macro_rows m p = (p', Ok ())"
    and rows: "mset I = mset (tc_new_macro_impls (fst p'))" "mset P = mset (tc_new_macro_parameters (fst p'))"
  shows "snd (macro_from_ducklake (dma_macro_id (last (tc_new_macros (fst p')))) name I
      (group_map_by (\<lambda>r. (dmp_macro_id r, dmp_impl_id r)) P))
    = Ok \<lparr>cm_id = Some (dma_macro_id (last (tc_new_macros (fst p')))), cm_name = name, cm_macro_type = ty,
        cm_implementations = crm_implementations m\<rparr>"
proof -
  from create change have m: "validate_implementations M ty is = Ok (crm_implementations m)" "crm_macro_type m = ty"
    by (auto simp: create_macro_tx_def skip_if_def tx_apps split: prod.splits elim!: seq_OkE)
  from start have "macro_rows_are [] [] p" by (simp add: macro_rows_are_def)
  from create_macro_run [OF run this] obtain i where i: "dma_macro_id (last (tc_new_macros (fst p'))) = i"
    and out: "macro_rows_are (impl_rows i ty (crm_implementations m)) (parameter_rows i ty (crm_implementations m)) p'"
    by (auto simp: m(2))
  from out rows have "mset I = mset (impl_rows i ty (crm_implementations m))" "mset P = mset (parameter_rows i ty (crm_implementations m))"
    by (simp_all add: macro_rows_are_def)
  from accepted_macros_back [OF m(1) small this] show ?thesis by (simp only: i)
qed

end
