(* ===== verification/Table_Trip.thy ===== *)
theory Table_Trip
  imports Created_Tables Transactions Macro_Trip
begin

text \<open>
  From \<open>create_table_tx\<close> to the rows of the commit and back: the columns of a table that a transaction
  creates load from its rows as they were given, with the field IDs filled in.
\<close>

lemma schema_try_from_loop_distinct:
  "schema_try_from_loop cs acc = Ok sch \<Longrightarrow> distinct (map fst acc) \<Longrightarrow>
    distinct (map col_name cs) \<and> col_name ` set cs \<inter> fst ` set acc = {}"
proof (induction cs acc rule: schema_try_from_loop.induct)
  case (2 c cs acc)
  then have "col_name c \<notin> fst ` set acc" by (auto simp: im_contains_def map_of_eq_None_iff split: if_splits)
  moreover from this have "im_insert (col_name c) c acc = acc @ [(col_name c, c)]" by (rule im_insert_new)
  ultimately show ?case using 2 by (auto split: if_splits)
qed simp

lemma schema_try_from_OkD:
  assumes "schema_try_from cols = Ok sch"
  shows "distinct (map col_name cols)" "sch = schema_of cols"
proof -
  show "distinct (map col_name cols)"
    using schema_try_from_loop_distinct [of cols "[]"] assms by (simp add: schema_try_from_def)
  with assms show "sch = schema_of cols" by (simp add: schema_try_from_def schema_try_from_loop_Ok)
qed

lemma create_table_OkE:
  assumes "create_table_tx V name cols parts sorts path tags Fail t = (t', Ok ())"
  obtains c' s r refs pr where
    "schema_try_from cols = Ok (schema_of cols)" and "distinct (map col_name cols)"
    and "\<exists>q. add_table \<lparr>ti_name = name, ti_schema = schema_of cols, ti_partitioning = parts, ti_sort_info = sorts,
           ti_tags = (case tags of None \<Rightarrow> [] | Some ts \<Rightarrow> ts)\<rparr> q None (tn_catalog t) = (c', Ok (s, r, refs, pr))"
    and "tn_catalog t' = c'" and "\<exists>x. tn_changes t' = tn_changes t @ [CreateTable x] \<and> crt_columns x = cols
      \<and> crt_table_ref x = r \<and> crt_column_refs x = refs \<and> crt_retired_columns x = []"
proof -
  let ?tags = "case tags of None \<Rightarrow> [] | Some ts \<Rightarrow> ts"
  from assms obtain q sch u s i refs pr where sch: "schema_try_from cols = Ok sch"
    and add: "in_catalog (add_table \<lparr>ti_name = name, ti_schema = sch, ti_partitioning = parts, ti_sort_info = sorts,
        ti_tags = ?tags\<rparr> q None) t = (u, Ok (s, i, refs, pr))"
    and rec: "record_change (CreateTable \<lparr>crt_schema_ref = s, crt_table_ref = i, crt_column_refs = refs,
            crt_partition_column_refs = pr, crt_name = name, crt_columns = cols,
            crt_retired_columns = [], crt_partition_columns = parts,
            crt_sort_info = sorts, crt_path = q, crt_tags = ?tags\<rparr>) u = (t', Ok ())"
    unfolding create_table_tx_def create_table_inner_def skip_if_def transfer_next_column_id_def Let_def
    by (auto elim!: seq_OkE simp: lift_res_app)
  note d = schema_try_from_OkD [OF sch]
  show ?thesis
    by (rule that [of "tn_catalog u" s i refs pr])
      (use sch d add rec in \<open>auto simp: tx_apps split: prod.splits\<close>)
qed

section \<open>Rows in any order\<close>

lemma columns_from_any_order:
  assumes "mset rows = mset rows'" and "distinct (map dc_column_order rows')"
  shows "columns_from_ducklake X rows tags = columns_from_ducklake X rows' tags"
proof -
  have "distinct (map dc_column_order (sort_key dc_column_order rows'))"
    using assms(2) by (simp add: distinct_map)
  then have "sort_key dc_column_order rows = sort_key dc_column_order rows'"
    using assms(1) by (intro sort_key_unique) simp_all
  then show ?thesis by (simp add: columns_from_ducklake_def)
qed

lemma column_orders:
  "map dc_column_order (column_rows E i n ids (enumerate k es)) = map (\<lambda>j. Some (ids j)) [k..<k + length es]"
proof -
  have "map dc_column_order (column_rows E i n ids xs) = map (\<lambda>j. Some (ids j)) (map fst xs)" for xs
    by (auto simp: column_rows_def column_row_def Let_def)
  from this [of "enumerate k es"] show ?thesis by (simp only: map_fst_enumerate)
qed

section \<open>A created table\<close>

text \<open>The catalog and the change after a successful \<open>create_table\<close>.\<close>

lemma created_table_state:
  assumes wf: "names_wf (tn_catalog t)"
    and create: "create_table_tx V name cols parts sorts path tags Fail t = (t', Ok ())"
    and ok: "\<And>y. y \<in> set (nodes cols) \<Longrightarrow> struct_ok y" and small: "int (length (nodes cols)) < i64_max"
  obtains r cs idxs tb x where "names_wf (tn_catalog t')" and "tables_of (tn_catalog t') name = Some r"
    and "table_inner (tn_catalog t') r = Ok tb" and "ct_columns tb = cs" and "ct_id tb = None"
    and "distinct (map col_name cols)" and "columns_from_schema (schema_of cols) None = Ok cs"
    and "root_inv False 1 (ids_for False 1 (nodes cols)) cols cs" and "root_column_indices cs = Ok idxs"
    and "tn_changes t' = tn_changes t @ [CreateTable x]" and "crt_columns x = cols" and "crt_table_ref x = r"
    and "crt_column_refs x = map (column_refs r) idxs" and "crt_retired_columns x = []"
proof -
  let ?info = "\<lparr>ti_name = name, ti_schema = schema_of cols, ti_partitioning = parts, ti_sort_info = sorts,
    ti_tags = (case tags of None \<Rightarrow> [] | Some ts \<Rightarrow> ts)\<rparr>"
  from create obtain c s r refs pr where names: "distinct (map col_name cols)"
    and added: "\<exists>q. add_table ?info q None (tn_catalog t) = (c, Ok (s, r, refs, pr))" and c: "tn_catalog t' = c"
    and recorded: "\<exists>x. tn_changes t' = tn_changes t @ [CreateTable x] \<and> crt_columns x = cols
      \<and> crt_table_ref x = r \<and> crt_column_refs x = refs \<and> crt_retired_columns x = []"
    by (rule create_table_OkE)
  from added c obtain q where add: "add_table ?info q None (tn_catalog t) = (tn_catalog t', Ok (s, r, refs, pr))" by blast
  note effect = add_table_effect [OF wf add]
  from effect(8) obtain ps where ps: "table_parts ?info None = Ok ps"
    and r: "r = length (ar_items (table_arena (tn_catalog t)))"
    and items: "ar_items (table_arena (tn_catalog t')) = ar_items (table_arena (tn_catalog t)) @ [table_of_parts ?info q ps]"
    and refs: "refs = map (column_refs r) (snd (snd (snd ps)))"
    by blast
  obtain cs pt so idxs where parts: "ps = (cs, pt, so, idxs)" by (cases ps)
  from ps parts have cs: "columns_from_schema (schema_of cols) None = Ok cs" and idxs: "root_column_indices cs = Ok idxs"
    by (auto simp: table_parts_def elim!: and_then.elims)
  have "ids_available False 1 (nodes cols)" using small by (simp add: ids_available_def i64_min_def)
  with columns_from_schema_inv [OF names ok, of None] cs
  have inv: "root_inv False 1 (ids_for False 1 (nodes cols)) cols cs" by auto
  have inner: "table_inner (tn_catalog t') r = Ok (table_of_parts ?info q (cs, pt, so, idxs))"
    by (simp add: table_inner_def arena_get_def items r parts)
  have wf': "names_wf (tn_catalog t')" using add_table_wf [OF wf, of ?info q None] add by simp
  have reg: "tables_of (tn_catalog t') name = Some r" by (simp add: effect(3))
  from recorded refs parts obtain x where x: "tn_changes t' = tn_changes t @ [CreateTable x]" "crt_columns x = cols"
    "crt_table_ref x = r" "crt_column_refs x = map (column_refs r) idxs" "crt_retired_columns x = []"
    by auto
  show thesis by (rule that [OF wf' reg inner _ _ names cs inv idxs x]) simp_all
qed

lemma created_table_loads:
  assumes wf: "names_wf (tn_catalog t)"
    and create: "create_table_tx V name cols parts sorts path tags Fail t = (t', Ok ())"
    and change: "last (tn_changes t') = CreateTable x"
    and storable: "list_all (column_storable X) (nodes cols)" and small: "int (length (nodes cols)) < i64_max"
    and E: "env_value_text E = value_text X"
    and start: "st_catalog (snd p) = tn_catalog t'" "tc_new_columns (fst p) = []" "tc_new_column_tags (fst p) = []"
    and run: "create_table_rows E x p = (p', Ok ())"
    and rows: "mset rows = mset (tc_new_columns (fst p'))"
  shows "\<exists>cs. columns_from_ducklake X rows (tc_new_column_tags (fst p')) = Ok cs \<and> columns_wf cs
    \<and> schema_from_columns cs = Ok (schema_of (with_ids cols (\<lambda>i. 1 + int i)))"
proof -
  have ok: "struct_ok y" if "y \<in> set (nodes cols)" for y
    using that storable by (auto simp: list_all_iff column_storable_def loadable_def)
  from wf create ok small obtain r cs idxs tb y where inner: "table_inner (tn_catalog t') r = Ok tb" "ct_columns tb = cs"
    and names: "distinct (map col_name cols)" and cs: "columns_from_schema (schema_of cols) None = Ok cs"
    and inv: "root_inv False 1 (ids_for False 1 (nodes cols)) cols cs" and idxs: "root_column_indices cs = Ok idxs"
    and y: "tn_changes t' = tn_changes t @ [CreateTable y]" "crt_columns y = cols" "crt_table_ref y = r"
      "crt_column_refs y = map (column_refs r) idxs" "crt_retired_columns y = []"
    by (rule created_table_state)
  from y change have x: "crt_columns x = cols" "crt_column_refs x = map (column_refs r) idxs" "crt_retired_columns x = []"
    by auto
  from inv have lay: "laid_out cs cols 0 (ids_for False 1 (nodes cols))" and len: "length (cs_arena cs) = length (nodes cols)"
    and roots: "im_values (cs_root_columns cs) = child_offsets cols 0"
    by (auto simp: root_inv_def length_child_offsets)
  have loadable: "list_all loadable (nodes cols)" using storable by (auto simp: list_all_iff column_storable_def)
  have "idxs = root_ranges cols 0"
    using idxs collect_ranges [OF lay _ loadable, of "arena_fuel cs"] by (simp add: root_column_indices_def roots len)
  with x have refs': "crt_column_refs x = map (column_refs r) (root_ranges (crt_columns x) 0)" by simp
  have "building r cs (st_snapshot_id (snd p)) [] [] p"
    using start by (simp add: building_def has_columns_def inner)
  moreover from lay x have "laid_out cs (crt_columns x) 0 (ids_for False 1 (nodes cols))" by simp
  ultimately have "\<exists>i. building r cs (st_snapshot_id (snd p)) ([] @ column_rows E i (st_snapshot_id (snd p)) (arena_id cs)
        (enumerate 0 (flat_list (crt_columns x) None 0)) @ map (retired_column_row i (st_snapshot_id (snd p))) (crt_retired_columns x))
      ([] @ columns_tag_rows i (st_snapshot_id (snd p)) (arena_id cs) (enumerate 0 (flat_list (crt_columns x) None 0))) p'"
    using run_okD [OF create_table_columns [OF _ refs'] run] by blast
  with x
  obtain i n where built: "building r cs n (column_rows E i n (arena_id cs) (enumerate 0 (flat_list cols None 0)))
      (columns_tag_rows i n (arena_id cs) (enumerate 0 (flat_list cols None 0))) p'"
    by auto
  have arena: "map (\<lambda>j. Some (arena_id cs j)) [0..<length (nodes cols)] = map (\<lambda>j. Some (1 + int j)) [0..<length (nodes cols)]"
    using inv by (auto simp: root_inv_def laid_out_def entry_is_def ids_for_def)
  have "distinct (map dc_column_order (column_rows E i n (arena_id cs) (enumerate 0 (flat_list cols None 0))))"
    unfolding column_orders length_flat_list add_0 arena by (auto simp: distinct_map inj_on_def)
  moreover from built have out: "tc_new_columns (fst p') = column_rows E i n (arena_id cs) (enumerate 0 (flat_list cols None 0))"
    "tc_new_column_tags (fst p') = columns_tag_rows i n (arena_id cs) (enumerate 0 (flat_list cols None 0))"
    by (simp_all add: building_def)
  ultimately have "columns_from_ducklake X rows (tc_new_column_tags (fst p'))
      = columns_from_ducklake X (tc_new_columns (fst p')) (tc_new_column_tags (fst p'))"
    using rows by (intro columns_from_any_order) simp_all
  with created_columns_load [OF names storable small E cs, of i n] show ?thesis
    unfolding out using fresh_columns(2) [OF names ok small cs] by auto
qed

end
