(* ===== verification/Table_Changes.thy ===== *)
theory Table_Changes
  imports Transactions
begin

text \<open>
  The operations of a transaction on the metadata of a table (\<open>transaction/table.rs\<close>): renaming, adding,
  removing and updating columns, partitioning, sort order, tags, and updating the whole schema or a
  nested data type, which is undone as a whole when a part of it fails.
\<close>

section \<open>Differences\<close>

text \<open>\<open>merge_join_by\<close> on two lists sorted by the key.\<close>

datatype 'a diff = OnlyLeft 'a | OnlyRight 'a | Both 'a 'a

fun merge_join :: "('a \<Rightarrow> 'k::linorder) \<Rightarrow> 'a list \<Rightarrow> 'a list \<Rightarrow> 'a diff list" where
  "merge_join k [] ys = map OnlyRight ys"
| "merge_join k xs [] = map OnlyLeft xs"
| "merge_join k (x # xs) (y # ys) =
     (if k x < k y then OnlyLeft x # merge_join k xs (y # ys)
      else if k y < k x then OnlyRight y # merge_join k (x # xs) ys
      else Both x y # merge_join k xs ys)"

definition iter_vec_diff :: "('a \<Rightarrow> 'k::linorder) \<Rightarrow> 'a list \<Rightarrow> 'a list \<Rightarrow> 'a diff list" where
  "iter_vec_diff k xs ys = merge_join k (sort_key k xs) (sort_key k ys)"

definition iter_index_map_diff :: "('k::linorder, 'v) imap \<Rightarrow> ('k, 'v) imap \<Rightarrow> ('k \<times> 'v) diff list" where
  "iter_index_map_diff = iter_vec_diff fst"

lemma merge_join_Both: "Both x y \<in> set (merge_join k xs ys) \<Longrightarrow> x \<in> set xs \<and> y \<in> set ys \<and> k x = k y"
  by (induction k xs ys rule: merge_join.induct) (auto split: if_splits)

lemma iter_vec_diff_Both: "Both x y \<in> set (iter_vec_diff k xs ys) \<Longrightarrow> x \<in> set xs \<and> y \<in> set ys \<and> k x = k y"
  unfolding iter_vec_diff_def by (drule merge_join_Both) simp

section \<open>Tables\<close>

definition rename_table :: "qualified_name \<Rightarrow> string \<Rightarrow> unit tx_op" where
  "rename_table old_name new_name =
     (if qn_name old_name = new_name then ret ()
      else seq (look (\<lambda>c. table_by_name c old_name)) (\<lambda>t.
           seq (in_catalog (table_rename t new_name)) (\<lambda>_.
             record_change (RenameTable t \<lparr>qn_schema = qn_schema old_name, qn_name = new_name\<rparr>))))"

definition update_table_partitioning_tx :: "qualified_name \<Rightarrow> partition_column list option \<Rightarrow> unit tx_op" where
  "update_table_partitioning_tx name columns =
     seq (look (\<lambda>c. table_by_name c name)) (\<lambda>t.
     seq (in_catalog (table_update_partitioning t columns)) (\<lambda>refs.
       record_change (UpdateTablePartitioning t refs columns)))"

definition update_table_sort_info_tx :: "qualified_name \<Rightarrow> sort_expression list option \<Rightarrow> unit tx_op" where
  "update_table_sort_info_tx name es =
     seq (look (\<lambda>c. table_by_name c name)) (\<lambda>t.
     seq (in_catalog (table_update_sort_info t es)) (\<lambda>_. record_change (UpdateTableSortInfo t es)))"

definition add_table_tag_tx :: "qualified_name \<Rightarrow> string \<Rightarrow> string \<Rightarrow> unit tx_op" where
  "add_table_tag_tx name key value =
     (let tg = \<lparr>tag_key = key, tag_value = value\<rparr> in
      seq (look (\<lambda>c. table_by_name c name)) (\<lambda>t.
      seq (in_catalog (table_add_tag t tg)) (\<lambda>_. record_change (AddTableTag t tg))))"

definition remove_table_tag_tx :: "qualified_name \<Rightarrow> string \<Rightarrow> unit tx_op" where
  "remove_table_tag_tx name key =
     seq (look (\<lambda>c. table_by_name c name)) (\<lambda>t.
     seq (in_catalog (table_remove_tag t key)) (\<lambda>_. record_change (RemoveTableTag t key)))"

section \<open>Columns\<close>

definition column_of :: "qualified_name \<Rightarrow> column_name \<Rightarrow> catalog \<Rightarrow> column_ref result" where
  "column_of name path c = and_then (table_by_name c name) (\<lambda>t. column_by_path c t path)"

text \<open>The change with the column as it is in the catalog.\<close>

definition record_column_update :: "column_ref \<Rightarrow> unit tx_op" where
  "record_column_update r =
     seq (look (\<lambda>c. parent_ref c r)) (\<lambda>p.
     seq (look (\<lambda>c. column_info c r)) (\<lambda>col. record_change (UpdateTableColumn p r col)))"

definition add_table_column_tx :: "tx_env \<Rightarrow> qualified_name \<Rightarrow> column \<Rightarrow> column_name \<Rightarrow> unit tx_op" where
  "add_table_column_tx V name col path =
     seq (look (\<lambda>c. table_by_name c name)) (\<lambda>t.
     seq (in_catalog (ensure_next_column_id (xe_next_column_id V) t)) (\<lambda>_.
     seq (in_catalog (table_add_column t path col)) (\<lambda>(p, refs).
       record_change (AddTableColumn p refs col))))"

definition remove_table_column_tx :: "qualified_name \<Rightarrow> column_name \<Rightarrow> unit tx_op" where
  "remove_table_column_tx name path =
     seq (look (column_of name path)) (\<lambda>r.
     seq (in_catalog (column_remove r)) (\<lambda>refs. for_each (\<lambda>q. record_change (RemoveTableColumn q)) refs))"

definition rename_table_column :: "qualified_name \<Rightarrow> column_name \<Rightarrow> string \<Rightarrow> unit tx_op" where
  "rename_table_column name path new_name =
     (if path = [] then lift_res (Panic ''unwrap on None'')
      else if last path = new_name then ret ()
      else seq (look (column_of name path)) (\<lambda>r.
           seq (in_catalog (column_rename r new_name)) (\<lambda>_.
           seq (look (\<lambda>c. parent_ref c r)) (\<lambda>p.
           seq (look (\<lambda>c. column_info c r)) (\<lambda>col.
           seq (look (\<lambda>c. and_then (sort_info_includes_column c (cr_table_ref r) r) (\<lambda>sorted.
                  if sorted
                  then and_then (table_sort_info c (cr_table_ref r)) (\<lambda>s. expect ''unwrap on None'' (map_option Some s))
                  else Ok None))) (\<lambda>es.
           seq (record_change (UpdateTableColumn p r col)) (\<lambda>_.
             case es of None \<Rightarrow> ret () | Some e \<Rightarrow> record_change (UpdateTableSortInfo (cr_table_ref r) (Some e)))))))))"

definition update_table_column_default :: "qualified_name \<Rightarrow> column_name \<Rightarrow> column_default \<Rightarrow> unit tx_op" where
  "update_table_column_default name path d =
     seq (look (column_of name path)) (\<lambda>r.
     seq (in_catalog (update_default_value r d)) (\<lambda>_. record_column_update r))"

text \<open>A column that has seen a null, as far as the statistics know, cannot forbid nulls.\<close>

definition seen_null :: "tx_env \<Rightarrow> catalog \<Rightarrow> column_ref \<Rightarrow> bool result" where
  "seen_null V c r =
     and_then (xe_table_stats V) (\<lambda>stats.
     and_then (table_inner c (cr_table_ref r)) (\<lambda>t.
     and_then (expect ''unwrap on None'' (ct_id t)) (\<lambda>i.
     and_then (column_inner c r) (\<lambda>col.
       Ok (case Option.bind (im_get stats i) (get_column_stats (cc_id col)) of
             None \<Rightarrow> False
           | Some s \<Rightarrow> cst_contains_null s = Some True)))))"

definition update_table_column_nullability :: "tx_env \<Rightarrow> qualified_name \<Rightarrow> column_name \<Rightarrow> bool \<Rightarrow> unit tx_op" where
  "update_table_column_nullability V name path nullable =
     seq (look (column_of name path)) (\<lambda>r.
     seq (look (\<lambda>c. column_inner c r)) (\<lambda>col.
     if cc_nullable col = nullable then ret ()
     else seq (if nullable then ret False else look (\<lambda>c. seen_null V c r)) (\<lambda>has_null.
          if has_null then raise (InvalidNullabilityChange (column_name_to_string path))
          else seq (in_catalog (update_nullability r nullable)) (\<lambda>_. record_column_update r))))"

text \<open>
  Updating a data type: a promotion replaces the type; fields of structs are added, removed or
  updated in the order of their names. The comparison at the start is a shortcut: for equal types
  there is nothing to do below either.
\<close>

lemma for_each_cong [fundef_cong]:
  "xs = ys \<Longrightarrow> (\<And>x. x \<in> set ys \<Longrightarrow> f x = g x) \<Longrightarrow> for_each f xs = for_each g ys"
  by (induction xs arbitrary: ys) auto

function update_dtype_recursive ::
  "tx_env \<Rightarrow> qualified_name \<Rightarrow> column_name \<Rightarrow> data_type \<Rightarrow> data_type \<Rightarrow> unit tx_op"
where
  "update_dtype_recursive V name path old_type new_type =
     (if old_type = new_type then ret ()
      else if can_promote_to old_type new_type then
        seq (look (column_of name path)) (\<lambda>r.
        seq (in_catalog (update_primitive_data_type r new_type)) (\<lambda>_. record_column_update r))
      else (case (old_type, new_type) of
        (DStruct old_fields, DStruct new_fields) \<Rightarrow>
          for_each (\<lambda>item.
            case item of
              Both old new \<Rightarrow> update_dtype_recursive V name (path @ [col_name old]) (col_dtype old) (col_dtype new)
            | OnlyLeft old \<Rightarrow> remove_table_column_tx name (path @ [col_name old])
            | OnlyRight new \<Rightarrow> add_table_column_tx V name new path)
            (iter_vec_diff col_name old_fields new_fields)
      | (DList old, DList new) \<Rightarrow> update_dtype_recursive V name (path @ [''element'']) (col_dtype old) (col_dtype new)
      | (DMap ok ov, DMap nk nv) \<Rightarrow>
          seq (update_dtype_recursive V name (path @ [''key'']) (col_dtype ok) (col_dtype nk)) (\<lambda>_.
            update_dtype_recursive V name (path @ [''value'']) (col_dtype ov) (col_dtype nv))
      | _ \<Rightarrow> raise (InvalidCast old_type new_type)))"
  by pat_completeness auto
termination
  by (relation "measure (\<lambda>(V, name, path, old_type, new_type). size old_type)")
    (auto dest!: iter_vec_diff_Both intro: size_col_dtype_list size_col_dtype simp: less_SucI)

declare update_dtype_recursive.simps [simp del]

definition update_table_column_dtype :: "tx_env \<Rightarrow> qualified_name \<Rightarrow> column_name \<Rightarrow> data_type \<Rightarrow> unit tx_op" where
  "update_table_column_dtype V name path dtype =
     seq (look (\<lambda>c. and_then (column_of name path c) (column_info c))) (\<lambda>existing.
       guarded (update_dtype_recursive V name path (col_dtype existing) dtype))"

definition update_schema_item :: "tx_env \<Rightarrow> qualified_name \<Rightarrow> (string \<times> column) diff \<Rightarrow> unit tx_op" where
  "update_schema_item V name item =
     (case item of
        Both old (n, col) \<Rightarrow>
          seq (update_table_column_dtype V name [n] (col_dtype col)) (\<lambda>_.
          seq (update_table_column_default name [n] (col_default col)) (\<lambda>_.
            update_table_column_nullability V name [n] (col_nullable col)))
      | OnlyLeft (n, old) \<Rightarrow> remove_table_column_tx name [n]
      | OnlyRight (n, col) \<Rightarrow> add_table_column_tx V name col [])"

definition update_table_schema :: "tx_env \<Rightarrow> qualified_name \<Rightarrow> column list \<Rightarrow> unit tx_op" where
  "update_table_schema V name new_columns =
     seq (look (\<lambda>c. and_then (table_by_name c name) (table_schema c))) (\<lambda>old.
       guarded (seq (lift_res (schema_try_from new_columns)) (\<lambda>new.
         for_each (update_schema_item V name) (iter_index_map_diff old new))))"

section \<open>Tags of columns\<close>

definition add_table_column_tag_tx :: "qualified_name \<Rightarrow> column_name \<Rightarrow> string \<Rightarrow> string \<Rightarrow> unit tx_op" where
  "add_table_column_tag_tx name path key value =
     (let tg = \<lparr>tag_key = key, tag_value = value\<rparr> in
      seq (look (column_of name path)) (\<lambda>r.
      seq (in_catalog (column_add_tag r tg)) (\<lambda>_. record_change (AddTableColumnTag r tg))))"

definition remove_table_column_tag_tx :: "qualified_name \<Rightarrow> column_name \<Rightarrow> string \<Rightarrow> unit tx_op" where
  "remove_table_column_tag_tx name path key =
     seq (look (column_of name path)) (\<lambda>r.
     seq (in_catalog (column_remove_tag r key)) (\<lambda>_. record_change (RemoveTableColumnTag r key)))"

end
