(* ===== verification/Schema_Cascade.thy ===== *)
theory Schema_Cascade
  imports Transactions Catalog_Effects
begin

text \<open>
  Deleting a schema with everything in it (\<open>delete_schema\<close> with \<open>cascade\<close>): tables, views and macros
  are three kinds of objects that can be listed by schema and deleted one by one; the interface and
  the loop over it are stated once.
\<close>

section \<open>The catalogs a transaction can have\<close>

text \<open>The maps of a schema are hash maps: no key occurs twice.\<close>

definition hash_maps :: "catalog \<Rightarrow> bool" where
  "hash_maps c \<longleftrightarrow> list_all (\<lambda>s. im_wf (csc_tables s) \<and> im_wf (csc_views s) \<and> im_wf (csc_macros s)) (ar_items (schema_arena c))"

definition catalog_ok :: "catalog \<Rightarrow> bool" where
  "catalog_ok c \<longleftrightarrow> names_wf c \<and> hash_maps c"

text \<open>The objects of one kind, by schema and key.\<close>

definition entries :: "(catalog_schema \<Rightarrow> ('k, usize) imap) \<Rightarrow> catalog \<Rightarrow> string \<times> 'k \<Rightarrow> usize option" where
  "entries sel c nk = schema_entry sel c (fst nk) (snd nk)"

abbreviation name_key :: "qualified_name \<Rightarrow> string \<times> string" where
  "name_key q \<equiv> (qn_schema q, qn_name q)"

abbreviation typed_key :: "qualified_name \<times> macro_type \<Rightarrow> string \<times> string \<times> macro_type" where
  "typed_key x \<equiv> (qn_schema (fst x), macro_key (qn_name (fst x)) (snd x))"

lemma entries_of:
  "tables_of c q = entries csc_tables c (name_key q)" "views_of c q = entries csc_views c (name_key q)"
  "macros_of c q ty = entries csc_macros c (typed_key (q, ty))"
  by (simp_all add: tables_of_def views_of_def macros_of_def entries_def)

lemma entries_tables: "entries csc_tables c = (\<lambda>(n, k). tables_of c \<lparr>qn_schema = n, qn_name = k\<rparr>)"
  and entries_views: "entries csc_views c = (\<lambda>(n, k). views_of c \<lparr>qn_schema = n, qn_name = k\<rparr>)"
  by (auto simp: entries_def tables_of_def views_of_def)

lemma deletes_keep_hash_maps:
  assumes "hash_maps c"
  shows "hash_maps (fst (table_delete r c))" "hash_maps (fst (view_delete r c))" "hash_maps (fst (macro_delete r c))"
  using assms
  by (auto simp: table_delete_def view_delete_def macro_delete_def update_parent_schema_def seq_app hash_maps_def list_all_length
      split: res.split)

lemma deletes_keep_schemas:
  "schemas (fst (table_delete r c)) = schemas c" "schemas (fst (view_delete r c)) = schemas c"
  "schemas (fst (macro_delete r c)) = schemas c"
  by (auto simp: table_delete_def view_delete_def macro_delete_def update_parent_schema_def seq_app split: res.split)

section \<open>Objects that are listed and deleted by schema\<close>

locale schema_contents =
  fixes key :: "'x \<Rightarrow> string \<times> 'k" and look_up :: "catalog \<Rightarrow> string \<times> 'k \<Rightarrow> usize option"
    and list_of :: "string \<Rightarrow> catalog \<Rightarrow> 'x list result"
    and del :: "'x \<Rightarrow> unit tx_op" and deletion :: "'x \<Rightarrow> usize \<Rightarrow> change" and frame :: "catalog \<Rightarrow> 'f"
  assumes deletes: "catalog_ok (tn_catalog t) \<Longrightarrow> look_up (tn_catalog t) (key x) = Some r \<Longrightarrow>
      \<exists>c'. del x t = (t\<lparr>tn_catalog := c', tn_changes := tn_changes t @ [deletion x r]\<rparr>, Ok ()) \<and> catalog_ok c'
        \<and> look_up c' = (look_up (tn_catalog t))(key x := None) \<and> frame c' = frame (tn_catalog t)"
    and lists: "catalog_ok c \<Longrightarrow> im_get (schemas c) n = Some s \<Longrightarrow>
      \<exists>xs. list_of n c = Ok xs \<and> distinct (map key xs) \<and> key ` set xs = {k. fst k = n \<and> look_up c k \<noteq> None}"
    and same_deletion: "key x = key y \<Longrightarrow> deletion x r = deletion y r"
begin

lemma delete_all:
  assumes "catalog_ok (tn_catalog t)" and "distinct (map key xs)" and "\<forall>x\<in>set xs. look_up (tn_catalog t) (key x) \<noteq> None"
  shows "\<exists>c'. for_each del xs t = (t\<lparr>tn_catalog := c',
        tn_changes := tn_changes t @ map (\<lambda>x. deletion x (the (look_up (tn_catalog t) (key x)))) xs\<rparr>, Ok ())
      \<and> catalog_ok c' \<and> look_up c' = (\<lambda>k. if k \<in> key ` set xs then None else look_up (tn_catalog t) k)
      \<and> frame c' = frame (tn_catalog t)"
  using assms
proof (induction xs arbitrary: t)
  case Nil
  then show ?case by (intro exI [of _ "tn_catalog t"]) auto
next
  case (Cons x xs)
  from Cons.prems obtain r where r: "look_up (tn_catalog t) (key x) = Some r" by auto
  from deletes [OF Cons.prems(1) r] obtain c' where
    one: "del x t = (t\<lparr>tn_catalog := c', tn_changes := tn_changes t @ [deletion x r]\<rparr>, Ok ())" and ok: "catalog_ok c'"
    and lk: "look_up c' = (look_up (tn_catalog t))(key x := None)" and fr: "frame c' = frame (tn_catalog t)" by blast
  let ?t = "t\<lparr>tn_catalog := c', tn_changes := tn_changes t @ [deletion x r]\<rparr>"
  have cat: "tn_catalog ?t = c'" by simp
  have "\<forall>y\<in>set xs. look_up c' (key y) \<noteq> None" using Cons.prems by (auto simp: lk image_iff)
  moreover have "distinct (map key xs)" using Cons.prems(2) by simp
  ultimately obtain c'' where
    rest: "for_each del xs ?t = (?t\<lparr>tn_catalog := c'',
        tn_changes := tn_changes ?t @ map (\<lambda>x. deletion x (the (look_up c' (key x)))) xs\<rparr>, Ok ())"
    and ok'': "catalog_ok c''" and lk'': "look_up c'' = (\<lambda>k. if k \<in> key ` set xs then None else look_up c' k)"
    and fr'': "frame c'' = frame c'" using Cons.IH [of ?t, unfolded cat] ok by blast
  have "map (\<lambda>y. deletion y (the (look_up c' (key y)))) xs = map (\<lambda>y. deletion y (the (look_up (tn_catalog t) (key y)))) xs"
    using Cons.prems(2) by (auto simp: lk image_iff)
  with one rest r have "for_each del (x # xs) t = (t\<lparr>tn_catalog := c'',
      tn_changes := tn_changes t @ map (\<lambda>x. deletion x (the (look_up (tn_catalog t) (key x)))) (x # xs)\<rparr>, Ok ())"
    by (simp add: seq_app)
  moreover have "look_up c'' = (\<lambda>k. if k \<in> key ` set (x # xs) then None else look_up (tn_catalog t) k)"
    by (auto simp: lk'' lk)
  ultimately show ?case by (intro exI [of _ c''] conjI) (simp_all only: ok'' fr'' fr)
qed

lemma clear_schema:
  assumes ok: "catalog_ok (tn_catalog t)" and s: "im_get (schemas (tn_catalog t)) n = Some s"
  shows "\<exists>c' ds. seq (look (list_of n)) (for_each del) t = (t\<lparr>tn_catalog := c', tn_changes := tn_changes t @ ds\<rparr>, Ok ())
      \<and> catalog_ok c' \<and> look_up c' = (\<lambda>k. if fst k = n then None else look_up (tn_catalog t) k)
      \<and> frame c' = frame (tn_catalog t)
      \<and> set ds = {deletion x r |x r. fst (key x) = n \<and> look_up (tn_catalog t) (key x) = Some r}"
proof -
  from lists [OF ok s] obtain xs where xs: "list_of n (tn_catalog t) = Ok xs" "distinct (map key xs)"
    "key ` set xs = {k. fst k = n \<and> look_up (tn_catalog t) k \<noteq> None}" by blast
  have mem: "fst (key x) = n \<and> look_up (tn_catalog t) (key x) \<noteq> None" if "x \<in> set xs" for x
    using that xs(3) by blast
  let ?ds = "map (\<lambda>x. deletion x (the (look_up (tn_catalog t) (key x)))) xs"
  from delete_all [OF ok xs(2)] mem obtain c' where
    run: "for_each del xs t = (t\<lparr>tn_catalog := c', tn_changes := tn_changes t @ ?ds\<rparr>, Ok ())" and ok': "catalog_ok c'"
    and lk: "look_up c' = (\<lambda>k. if k \<in> key ` set xs then None else look_up (tn_catalog t) k)"
    and fr: "frame c' = frame (tn_catalog t)" by blast
  have "deletion x r \<in> set ?ds" if "fst (key x) = n" "look_up (tn_catalog t) (key x) = Some r" for x r
  proof -
    have "key x \<in> key ` set xs" using that xs(3) by simp
    then obtain y where "y \<in> set xs" "key y = key x" by auto
    then show ?thesis using that(2) same_deletion [of y x r] by (auto intro!: image_eqI [of _ _ y])
  qed
  then have "set ?ds = {deletion x r |x r. fst (key x) = n \<and> look_up (tn_catalog t) (key x) = Some r}"
    using mem by fastforce
  moreover have "look_up c' = (\<lambda>k. if fst k = n then None else look_up (tn_catalog t) k)"
    by (auto simp: lk xs(3))
  ultimately show ?thesis
    by (intro exI [of _ c'] exI [of _ ?ds]) (use run ok' fr xs(1) in \<open>simp add: seq_app look_app\<close>)
qed

end

section \<open>Tables, views and macros\<close>

lemma catalog_okD:
  assumes "catalog_ok c"
  shows "names_wf c" "hash_maps c" "schemas_ok c"
  using assms by (auto simp: catalog_ok_def names_wf_schemas)

lemma schema_maps:
  assumes "catalog_ok c" and "im_get (schemas c) n = Some s"
  shows "im_wf (csc_tables (ar_items (schema_arena c) ! s))" "im_wf (csc_views (ar_items (schema_arena c) ! s))"
    "im_wf (csc_macros (ar_items (schema_arena c) ! s))" and "schema_inner c s = Ok (ar_items (schema_arena c) ! s)"
  using catalog_okD [OF assms(1)] schemas_ok_get(1) [OF _ assms(2)]
  by (auto simp: hash_maps_def list_all_length schema_inner_def arena_get_def)

lemma objects_listed:
  fixes sel :: "catalog_schema \<Rightarrow> ('k, usize) imap" and name_of :: "usize \<Rightarrow> 'x result"
  assumes s: "im_get (schemas c) n = Some s" and wf: "im_wf (sel (ar_items (schema_arena c) ! s))"
    and names: "\<And>k r. entries sel c (n, k) = Some r \<Longrightarrow> \<exists>x. name_of r = Ok x \<and> key x = (n, k)"
  shows "\<exists>xs. collect name_of (im_values (sel (ar_items (schema_arena c) ! s))) = Ok xs
    \<and> distinct (map key xs) \<and> key ` set xs = {k. fst k = n \<and> entries sel c k \<noteq> None}"
proof -
  let ?m = "sel (ar_items (schema_arena c) ! s)"
  have get: "entries sel c (n, k) = im_get ?m k" for k by (simp add: entries_def schema_entry_def s)
  have "\<exists>xs. collect name_of (map snd m') = Ok xs \<and> map key xs = map (\<lambda>p. (n, fst p)) m'" if "set m' \<subseteq> set ?m" for m'
    using that
  proof (induction m')
    case (Cons p m')
    then have "entries sel c (n, fst p) = Some (snd p)" using wf by (simp add: get map_of_eq_Some_iff)
    with names obtain x where "name_of (snd p) = Ok x" "key x = (n, fst p)" by blast
    moreover from Cons obtain xs where "collect name_of (map snd m') = Ok xs" "map key xs = map (\<lambda>p. (n, fst p)) m'"
      by auto
    ultimately show ?case by auto
  qed simp
  from this [of ?m] obtain xs where xs: "collect name_of (im_values ?m) = Ok xs" "map key xs = map (\<lambda>p. (n, fst p)) ?m"
    by auto
  have "distinct (map (Pair n) (map fst ?m))" using wf by (simp only: distinct_map) (simp add: inj_on_def)
  then have "distinct (map key xs)" by (simp add: xs(2) comp_def)
  moreover have "key ` set xs = {k. fst k = n \<and> entries sel c k \<noteq> None}"
  proof (rule set_eqI)
    fix k
    have "key ` set xs = Pair n ` fst ` set ?m" using xs(2) by (metis image_image list.set_map)
    then have "k \<in> key ` set xs \<longleftrightarrow> fst k = n \<and> snd k \<in> fst ` set ?m" by (cases k) auto
    moreover have "snd k \<in> fst ` set ?m \<longleftrightarrow> entries sel c (n, snd k) \<noteq> None" by (simp add: get map_of_eq_None_iff)
    ultimately show "k \<in> key ` set xs \<longleftrightarrow> k \<in> {k. fst k = n \<and> entries sel c k \<noteq> None}" by (cases k) auto
  qed
  ultimately show ?thesis using xs(1) by blast
qed

lemma entries_schema: "entries sel c nk = Some r \<Longrightarrow> im_get (schemas c) (fst nk) \<noteq> None"
  unfolding entries_def by (rule schema_entry_schema)

lemma table_deletion:
  assumes ok: "catalog_ok c" and r: "entries csc_tables c (name_key q) = Some r"
  shows "\<exists>c'. table_delete r c = (c', Ok ()) \<and> catalog_ok c' \<and> entries csc_tables c' = (entries csc_tables c)(name_key q := None)
    \<and> entries csc_views c' = entries csc_views c \<and> entries csc_macros c' = entries csc_macros c \<and> schemas c' = schemas c"
proof -
  note wf = catalog_okD [OF ok]
  from r have tab: "tables_of c q = Some r" by (simp add: entries_of)
  from names_wf_table(4) [OF wf(1) tab] obtain s where s: "im_get (schemas c) (qn_schema q) = Some s" by auto
  note run = table_delete_run [OF wf(1) tab s] and eff = table_delete_effect [OF wf(1) tab]
  have "entries csc_tables (fst (table_delete r c)) = (entries csc_tables c)(name_key q := None)"
    using tabs.entry_remove [OF wf(3) s] by (auto simp: run entries_def fun_eq_iff)
  moreover have "entries csc_views (fst (table_delete r c)) = entries csc_views c" "entries csc_macros (fst (table_delete r c)) = entries csc_macros c"
    using tabs.entry_other [OF wf(3) s, of csc_views] tabs.entry_other [OF wf(3) s, of csc_macros]
    by (simp_all add: run entries_def fun_eq_iff)
  ultimately show ?thesis
    using eff(1,2) deletes_keep_hash_maps(1) [OF wf(2)] deletes_keep_schemas(1) by (auto simp: catalog_ok_def prod_eq_iff)
qed

lemma view_deletion:
  assumes ok: "catalog_ok c" and r: "entries csc_views c (name_key q) = Some r"
  shows "\<exists>c'. view_delete r c = (c', Ok ()) \<and> catalog_ok c' \<and> entries csc_views c' = (entries csc_views c)(name_key q := None)
    \<and> entries csc_tables c' = entries csc_tables c \<and> entries csc_macros c' = entries csc_macros c \<and> schemas c' = schemas c"
proof -
  note wf = catalog_okD [OF ok]
  from r have vw: "views_of c q = Some r" by (simp add: entries_of)
  from names_wf_view(4) [OF wf(1) vw] obtain s where s: "im_get (schemas c) (qn_schema q) = Some s" by auto
  note run = view_delete_run [OF wf(1) vw s] and eff = view_delete_effect [OF wf(1) vw]
  have "entries csc_views (fst (view_delete r c)) = (entries csc_views c)(name_key q := None)"
    using vws.entry_remove [OF wf(3) s] by (auto simp: run entries_def fun_eq_iff)
  moreover have "entries csc_tables (fst (view_delete r c)) = entries csc_tables c" "entries csc_macros (fst (view_delete r c)) = entries csc_macros c"
    using vws.entry_other [OF wf(3) s, of csc_tables] vws.entry_other [OF wf(3) s, of csc_macros]
    by (simp_all add: run entries_def fun_eq_iff)
  ultimately show ?thesis
    using eff(1,2) deletes_keep_hash_maps(2) [OF wf(2)] deletes_keep_schemas(2) by (auto simp: catalog_ok_def prod_eq_iff)
qed

lemma macro_deletion:
  assumes ok: "catalog_ok c" and r: "entries csc_macros c (typed_key x) = Some r"
  shows "\<exists>c'. macro_delete r c = (c', Ok ()) \<and> catalog_ok c' \<and> entries csc_macros c' = (entries csc_macros c)(typed_key x := None)
    \<and> entries csc_tables c' = entries csc_tables c \<and> entries csc_views c' = entries csc_views c \<and> schemas c' = schemas c"
proof -
  note wf = catalog_okD [OF ok]
  from r have mc: "macros_of c (fst x) (snd x) = Some r" by (simp add: entries_of)
  then have "im_get (schemas c) (qn_schema (fst x)) \<noteq> None" unfolding macros_of_def by (rule schema_entry_schema)
  then obtain s where s: "im_get (schemas c) (qn_schema (fst x)) = Some s" by auto
  note run = macro_delete_run [OF wf(1) mc s] and eff = macro_delete_effect [OF wf(1) mc]
  have "entries csc_macros (fst (macro_delete r c)) = (entries csc_macros c)(typed_key x := None)"
    using macs.entry_remove [OF wf(3) s] by (auto simp: run entries_def fun_eq_iff)
  moreover have "entries csc_tables (fst (macro_delete r c)) = entries csc_tables c" "entries csc_views (fst (macro_delete r c)) = entries csc_views c"
    using macs.entry_other [OF wf(3) s, of csc_tables] macs.entry_other [OF wf(3) s, of csc_views]
    by (simp_all add: run entries_def fun_eq_iff)
  ultimately show ?thesis
    using eff(1,2) deletes_keep_hash_maps(3) [OF wf(2)] deletes_keep_schemas(3) by (auto simp: catalog_ok_def prod_eq_iff)
qed

section \<open>The three kinds\<close>

interpretation tables_in: schema_contents name_key "entries csc_tables" list_tables_of
    "\<lambda>q. delete_table q Fail" "\<lambda>q r. DeleteTable r False" "\<lambda>c. (schemas c, entries csc_views c, entries csc_macros c)"
proof
  fix t :: transaction and x :: qualified_name and r
  assume ok: "catalog_ok (tn_catalog t)" and r: "entries csc_tables (tn_catalog t) (name_key x) = Some r"
  have "table_by_name (tn_catalog t) x = Ok r"
    using r entries_schema [OF r] by (simp add: table_by_name_eq [OF catalog_okD(3) [OF ok]] entries_of ok_or_def)
  with table_deletion [OF ok r]
  show "\<exists>c'. delete_table x Fail t = (t\<lparr>tn_catalog := c', tn_changes := tn_changes t @ [DeleteTable r False]\<rparr>, Ok ())
      \<and> catalog_ok c' \<and> entries csc_tables c' = (entries csc_tables (tn_catalog t))(name_key x := None)
      \<and> (schemas c', entries csc_views c', entries csc_macros c')
        = (schemas (tn_catalog t), entries csc_views (tn_catalog t), entries csc_macros (tn_catalog t))"
    by (auto simp: delete_table_def skip_if_def delete_table_inner_def seq_app tx_apps)
next
  fix c n s
  assume ok: "catalog_ok c" and s: "im_get (schemas c) n = Some s"
  have "\<exists>x. table_name c r = Ok x \<and> name_key x = (n, k)" if "entries csc_tables c (n, k) = Some r" for k r
    using that names_wf_table(3) [OF catalog_okD(1) [OF ok], of "\<lparr>qn_schema = n, qn_name = k\<rparr>" r] by (simp add: entries_of)
  with objects_listed [OF s, of csc_tables "table_name c" name_key] schema_maps [OF ok s] s
  show "\<exists>xs. list_tables_of n c = Ok xs \<and> distinct (map name_key xs)
      \<and> name_key ` set xs = {k. fst k = n \<and> entries csc_tables c k \<noteq> None}"
    by (simp add: list_tables_of_def schema_by_name_def ok_or_def list_tables_def)
qed (auto simp: macro_key_def)

interpretation views_in: schema_contents name_key "entries csc_views" list_views_of
    "\<lambda>q. delete_view q Fail" "\<lambda>q. DeleteView" "\<lambda>c. (schemas c, entries csc_tables c, entries csc_macros c)"
proof
  fix t :: transaction and x :: qualified_name and r
  assume ok: "catalog_ok (tn_catalog t)" and r: "entries csc_views (tn_catalog t) (name_key x) = Some r"
  have "view_by_name (tn_catalog t) x = Ok r"
    using r entries_schema [OF r] by (simp add: view_by_name_eq [OF catalog_okD(3) [OF ok]] entries_of ok_or_def)
  with view_deletion [OF ok r]
  show "\<exists>c'. delete_view x Fail t = (t\<lparr>tn_catalog := c', tn_changes := tn_changes t @ [DeleteView r]\<rparr>, Ok ())
      \<and> catalog_ok c' \<and> entries csc_views c' = (entries csc_views (tn_catalog t))(name_key x := None)
      \<and> (schemas c', entries csc_tables c', entries csc_macros c')
        = (schemas (tn_catalog t), entries csc_tables (tn_catalog t), entries csc_macros (tn_catalog t))"
    by (auto simp: delete_view_def skip_if_def seq_app tx_apps)
next
  fix c n s
  assume ok: "catalog_ok c" and s: "im_get (schemas c) n = Some s"
  have "\<exists>x. view_name c r = Ok x \<and> name_key x = (n, k)" if "entries csc_views c (n, k) = Some r" for k r
    using that names_wf_view(3) [OF catalog_okD(1) [OF ok], of "\<lparr>qn_schema = n, qn_name = k\<rparr>" r] by (simp add: entries_of)
  with objects_listed [OF s, of csc_views "view_name c" name_key] schema_maps [OF ok s] s
  show "\<exists>xs. list_views_of n c = Ok xs \<and> distinct (map name_key xs)
      \<and> name_key ` set xs = {k. fst k = n \<and> entries csc_views c k \<noteq> None}"
    by (simp add: list_views_of_def schema_by_name_def ok_or_def list_views_def)
qed (auto simp: macro_key_def)

interpretation macros_in: schema_contents typed_key "entries csc_macros" list_macros_of
    "\<lambda>(q, ty). delete_macro q ty Fail" "\<lambda>x r. DeleteMacro r (snd x)" "\<lambda>c. (schemas c, entries csc_tables c, entries csc_views c)"
proof
  fix t :: transaction and x :: "qualified_name \<times> macro_type" and r
  assume ok: "catalog_ok (tn_catalog t)" and r: "entries csc_macros (tn_catalog t) (typed_key x) = Some r"
  have "macro_by_name (tn_catalog t) (fst x) (snd x) = Ok r"
    using r entries_schema [OF r] by (simp add: macro_by_name_eq [OF catalog_okD(3) [OF ok]] entries_of ok_or_def)
  with macro_deletion [OF ok r]
  show "\<exists>c'. (case x of (q, ty) \<Rightarrow> delete_macro q ty Fail) t
        = (t\<lparr>tn_catalog := c', tn_changes := tn_changes t @ [DeleteMacro r (snd x)]\<rparr>, Ok ())
      \<and> catalog_ok c' \<and> entries csc_macros c' = (entries csc_macros (tn_catalog t))(typed_key x := None)
      \<and> (schemas c', entries csc_tables c', entries csc_views c')
        = (schemas (tn_catalog t), entries csc_tables (tn_catalog t), entries csc_views (tn_catalog t))"
    by (auto simp: delete_macro_def skip_if_def seq_app tx_apps case_prod_beta)
next
  fix c n s
  assume ok: "catalog_ok c" and s: "im_get (schemas c) n = Some s"
  let ?name = "\<lambda>m. and_then (macro_inner c m) (\<lambda>x. Ok (cm_name x, cm_macro_type x))"
  have "\<exists>x. ?name r = Ok x \<and> typed_key x = (n, k)" if "entries csc_macros c (n, k) = Some r" for k r
  proof -
    from that have "macro_owner c r = Some (n, k)"
      using catalog_okD(1) [OF ok] by (auto simp: entries_def names_wf_def dest: objects_okD)
    then show ?thesis by (auto simp: macro_owner_def macro_inner_def arena_get_def Let_def split: if_splits)
  qed
  with objects_listed [OF s, of csc_macros ?name typed_key] schema_maps [OF ok s] s
  show "\<exists>xs. list_macros_of n c = Ok xs \<and> distinct (map typed_key xs)
      \<and> typed_key ` set xs = {k. fst k = n \<and> entries csc_macros c k \<noteq> None}"
    by (simp add: list_macros_of_def schema_by_name_def ok_or_def list_macros_def)
qed (auto simp: macro_key_def)

section \<open>Deleting the schema\<close>

definition deletions :: "catalog \<Rightarrow> string \<Rightarrow> change set" where
  "deletions c n =
     {DeleteTable r False |q r. qn_schema q = n \<and> tables_of c q = Some r}
     \<union> {DeleteView r |q r. qn_schema q = n \<and> views_of c q = Some r}
     \<union> {DeleteMacro r ty |q ty r. qn_schema q = n \<and> macros_of c q ty = Some r}"

lemma cascade_empties:
  fixes n :: string
  assumes ok: "catalog_ok (tn_catalog t)" and s: "im_get (schemas (tn_catalog t)) n = Some s"
  shows "\<exists>c' ds. delete_schema_objects n t = (t\<lparr>tn_catalog := c', tn_changes := tn_changes t @ ds\<rparr>, Ok ()) \<and> catalog_ok c'
    \<and> schemas c' = schemas (tn_catalog t)
    \<and> entries csc_tables c' = (\<lambda>k. if fst k = n then None else entries csc_tables (tn_catalog t) k)
    \<and> entries csc_views c' = (\<lambda>k. if fst k = n then None else entries csc_views (tn_catalog t) k)
    \<and> entries csc_macros c' = (\<lambda>k. if fst k = n then None else entries csc_macros (tn_catalog t) k)
    \<and> set ds = deletions (tn_catalog t) n"
proof -
  let ?c = "tn_catalog t"
  from tables_in.clear_schema [OF ok s] obtain c1 ts where
    t1: "seq (look (list_tables_of n)) (for_each (\<lambda>q. delete_table q Fail)) t = (t\<lparr>tn_catalog := c1, tn_changes := tn_changes t @ ts\<rparr>, Ok ())"
    and ok1: "catalog_ok c1" and e1: "entries csc_tables c1 = (\<lambda>k. if fst k = n then None else entries csc_tables ?c k)"
    and f1: "schemas c1 = schemas ?c" "entries csc_views c1 = entries csc_views ?c" "entries csc_macros c1 = entries csc_macros ?c"
    and ts: "set ts = {DeleteTable r False |x r. qn_schema x = n \<and> entries csc_tables ?c (name_key x) = Some r}"
    by auto
  let ?t1 = "t\<lparr>tn_catalog := c1, tn_changes := tn_changes t @ ts\<rparr>"
  have c1: "tn_catalog ?t1 = c1" by simp
  have "im_get (schemas c1) n = Some s" using s f1 by simp
  from views_in.clear_schema [of ?t1 n s, unfolded c1, OF ok1 this] obtain c2 vs where
    t2: "seq (look (list_views_of n)) (for_each (\<lambda>q. delete_view q Fail)) ?t1 = (?t1\<lparr>tn_catalog := c2, tn_changes := tn_changes ?t1 @ vs\<rparr>, Ok ())"
    and ok2: "catalog_ok c2" and e2: "entries csc_views c2 = (\<lambda>k. if fst k = n then None else entries csc_views c1 k)"
    and f2: "schemas c2 = schemas c1" "entries csc_tables c2 = entries csc_tables c1" "entries csc_macros c2 = entries csc_macros c1"
    and vs: "set vs = {DeleteView r |x r. qn_schema x = n \<and> entries csc_views c1 (name_key x) = Some r}"
    by auto
  let ?t2 = "?t1\<lparr>tn_catalog := c2, tn_changes := tn_changes ?t1 @ vs\<rparr>"
  have c2: "tn_catalog ?t2 = c2" by simp
  have "im_get (schemas c2) n = Some s" using s f1 f2 by simp
  from macros_in.clear_schema [of ?t2 n s, unfolded c2, OF ok2 this] obtain c3 ms where
    t3: "seq (look (list_macros_of n)) (for_each (\<lambda>(q, ty). delete_macro q ty Fail)) ?t2 = (?t2\<lparr>tn_catalog := c3, tn_changes := tn_changes ?t2 @ ms\<rparr>, Ok ())"
    and ok3: "catalog_ok c3" and e3: "entries csc_macros c3 = (\<lambda>k. if fst k = n then None else entries csc_macros c2 k)"
    and f3: "schemas c3 = schemas c2" "entries csc_tables c3 = entries csc_tables c2" "entries csc_views c3 = entries csc_views c2"
    and ms: "set ms = {DeleteMacro r (snd x) |x r. qn_schema (fst x) = n \<and> entries csc_macros c2 (typed_key x) = Some r}"
    by auto
  let ?ds = "ts @ vs @ ms"
  have split: "delete_schema_objects n t = seq (seq (look (list_tables_of n)) (for_each (\<lambda>q. delete_table q Fail))) (\<lambda>_.
      seq (seq (look (list_views_of n)) (for_each (\<lambda>q. delete_view q Fail))) (\<lambda>_.
        seq (look (list_macros_of n)) (for_each (\<lambda>(q, ty). delete_macro q ty Fail)))) t"
    by (simp add: delete_schema_objects_def seq_app split: res.split)
  have "delete_schema_objects n t = (t\<lparr>tn_catalog := c3, tn_changes := tn_changes t @ ?ds\<rparr>, Ok ())"
    unfolding split by (subst seq_app, simp only: t1 fst_conv snd_conv res.case, subst seq_app, simp only: t2 fst_conv snd_conv res.case t3) simp
  moreover have "set ?ds = deletions ?c n"
    by (auto simp: ts vs ms deletions_def entries_of f1 f2)
  ultimately show ?thesis
    using ok3 by (intro exI [of _ c3] exI [of _ ?ds]) (simp add: e1 e2 e3 f1 f2 f3 cong: if_cong)
qed

lemma cascade_deletes:
  fixes n :: string
  assumes ok: "catalog_ok (tn_catalog t)" and s: "im_get (schemas (tn_catalog t)) n = Some s"
  shows "\<exists>c' ds. delete_schema n True strategy t = (t\<lparr>tn_catalog := c', tn_changes := tn_changes t @ ds @ [DeleteSchema s]\<rparr>, Ok ())
    \<and> names_wf c' \<and> im_get (schemas c') = (im_get (schemas (tn_catalog t)))(n := None)
    \<and> tables_of c' = (\<lambda>q. if qn_schema q = n then None else tables_of (tn_catalog t) q)
    \<and> views_of c' = (\<lambda>q. if qn_schema q = n then None else views_of (tn_catalog t) q)
    \<and> macros_of c' = (\<lambda>q ty. if qn_schema q = n then None else macros_of (tn_catalog t) q ty)
    \<and> set ds = deletions (tn_catalog t) n"
proof -
  let ?c = "tn_catalog t"
  from cascade_empties [OF ok s] obtain c1 ds where
    t1: "delete_schema_objects n t = (t\<lparr>tn_catalog := c1, tn_changes := tn_changes t @ ds\<rparr>, Ok ())" and ok1: "catalog_ok c1"
    and f: "schemas c1 = schemas ?c"
    and e: "entries csc_tables c1 = (\<lambda>k. if fst k = n then None else entries csc_tables ?c k)"
      "entries csc_views c1 = (\<lambda>k. if fst k = n then None else entries csc_views ?c k)"
      "entries csc_macros c1 = (\<lambda>k. if fst k = n then None else entries csc_macros ?c k)"
    and ds: "set ds = deletions ?c n"
    by auto
  note wf1 = catalog_okD [OF ok1]
  have s1: "im_get (schemas c1) n = Some s" using s f by simp
  have "schema_entry csc_macros c1 n k = None" for k using fun_cong [OF e(3), of "(n, k)"] by (simp add: entries_def)
  then have empty: "schema_empty c1 n" by (auto simp: schema_empty_def entries_of e)
  note del = schema_delete_cases [OF wf1(1) s1] and eff = schema_delete_effect [OF wf1(1) s1 empty]
  have run: "delete_schema n True strategy t = (t\<lparr>tn_catalog := fst (schema_delete s c1), tn_changes := tn_changes t @ ds @ [DeleteSchema s]\<rparr>, Ok ())"
    using s s1 by (simp add: delete_schema_def skip_if_def seq_app t1 tx_apps del empty schema_by_name_def ok_or_def)
  show ?thesis
    by (intro exI [of _ "fst (schema_delete s c1)"] exI [of _ ds] conjI run eff(1) ds)
      (simp_all only: eff(2-5) f, auto simp: entries_of e fun_eq_iff)
qed

end
