(* ===== verification/Catalog_Steps.thy ===== *)
theory Catalog_Steps
  imports Schema_Cascade Catalog_Tables
begin

text \<open>
  Every operation on the catalog keeps its invariant, whatever it returns: names lead to the objects
  that carry them, and the maps of a schema have distinct keys.
\<close>

section \<open>Objects that keep their names\<close>

lemma hash_maps_schemas: "schema_arena c' = schema_arena c \<Longrightarrow> hash_maps c' = hash_maps c"
  by (simp add: hash_maps_def)

lemma ok_modify_table: "(\<And>t. ct_name (f t) = ct_name t) \<Longrightarrow> catalog_ok c \<Longrightarrow> catalog_ok (modify_table r f c)"
  using modify_table_names(2) [of f] hash_maps_schemas [of "modify_table r f c" c]
  by (simp add: catalog_ok_def) (simp add: modify_table_def)

lemma kept_query [intro]: "preserves I (query f)"
  by (simp add: preserves_def)

lemma kept_modify_table [intro]: "(\<And>t. ct_name (f t) = ct_name t) \<Longrightarrow> preserves catalog_ok (update (modify_table r f))"
  by (simp add: preserves_def ok_modify_table)

lemma kept_table_columns_op [intro]: "preserves catalog_ok (table_columns_op r m)"
  unfolding table_columns_op_def
  by (intro preserves_seq kept_query) (simp add: preserves_def case_prod_beta Let_def ok_modify_table)

lemma kept_modify_column [intro]: "preserves catalog_ok (modify_column r f)"
  unfolding modify_column_def by (intro preserves_seq kept_query kept_modify_table) simp

lemma kept_table_metadata:
  "preserves catalog_ok (ensure_next_column_id load r)" "preserves catalog_ok (table_add_column r path col)"
  "preserves catalog_ok (table_update_partitioning r p)" "preserves catalog_ok (table_update_sort_info r s)"
  "preserves catalog_ok (table_add_tag r tg)" "preserves catalog_ok (table_remove_tag r key)"
  unfolding ensure_next_column_id_def table_add_column_def table_update_partitioning_def table_update_sort_info_def
    table_add_tag_def table_remove_tag_def
  by (auto intro!: preserves_seq kept_modify_table kept_query kept_table_columns_op split: if_splits)
    (auto simp: preserves_def case_prod_beta Let_def ok_modify_table)

lemma kept_columns:
  "preserves catalog_ok (update_primitive_data_type q ty)" "preserves catalog_ok (update_default_value q d)"
  "preserves catalog_ok (update_nullability q b)" "preserves catalog_ok (column_rename q n)"
  "preserves catalog_ok (column_add_tag q tg)" "preserves catalog_ok (column_remove_tag q key)"
  "preserves catalog_ok (column_remove q)"
  unfolding update_primitive_data_type_def update_default_value_def update_nullability_def column_rename_def
    column_add_tag_def column_remove_tag_def column_remove_def
  by (auto intro!: preserves_seq split: if_splits)

section \<open>Objects that come and go\<close>

lemma hash_maps_modify_schema:
  assumes "hash_maps c"
    and "\<And>s. im_wf (csc_tables s) \<Longrightarrow> im_wf (csc_views s) \<Longrightarrow> im_wf (csc_macros s) \<Longrightarrow>
      im_wf (csc_tables (f s)) \<and> im_wf (csc_views (f s)) \<and> im_wf (csc_macros (f s))"
  shows "hash_maps (modify_schema r f c)"
  using assms by (auto simp: hash_maps_def list_all_length)

lemma hash_maps_add:
  assumes "hash_maps c"
  shows "hash_maps (fst (update_schema_named n (\<lambda>s. s\<lparr>csc_tables := im_insert k i (csc_tables s)\<rparr>) c))"
    "hash_maps (fst (update_schema_named n (\<lambda>s. s\<lparr>csc_views := im_insert k i (csc_views s)\<rparr>) c))"
    "hash_maps (fst (update_schema_named n (\<lambda>s. s\<lparr>csc_macros := im_insert k' i (csc_macros s)\<rparr>) c))"
  using assms by (auto simp: update_schema_named_def seq_app hash_maps_modify_schema split: res.split)

lemma hash_maps_push:
  "hash_maps (fst (push_table t c)) = hash_maps c" "hash_maps (fst (push_view v c)) = hash_maps c"
  "hash_maps (fst (push_macro m c)) = hash_maps c"
  by (simp_all add: push_table_def push_view_def push_macro_def hash_maps_def Let_def case_prod_beta)

lemma kept_reject [intro]: "preserves I (reject_existing a b e)"
  by (simp add: reject_existing_def preserves_def)

lemma hash_maps_new:
  "preserves hash_maps (add_table info path next_id)" "preserves hash_maps (add_view vinfo)"
  "preserves hash_maps (add_macro minfo)" "preserves hash_maps (add_schema n path)" "preserves hash_maps (schema_delete s)"
  "preserves hash_maps (table_rename t n)"
proof -
  have steps: "preserves hash_maps (push_table t)" "preserves hash_maps (push_view v)" "preserves hash_maps (push_macro m)"
    "preserves hash_maps (update_schema_named n (\<lambda>s. s\<lparr>csc_tables := im_insert k i (csc_tables s)\<rparr>))"
    "preserves hash_maps (update_schema_named n (\<lambda>s. s\<lparr>csc_views := im_insert k i (csc_views s)\<rparr>))"
    "preserves hash_maps (update_schema_named n (\<lambda>s. s\<lparr>csc_macros := im_insert k' i (csc_macros s)\<rparr>))"
    for t v m n k k' i
    by (simp_all add: preserves_def hash_maps_push hash_maps_add)
  show "preserves hash_maps (add_table info path next_id)" "preserves hash_maps (add_view vinfo)"
    "preserves hash_maps (add_macro minfo)"
    unfolding add_table_def add_view_def add_macro_def by (auto intro!: preserves_seq steps kept_reject)
  show "preserves hash_maps (add_schema n path)"
    by (auto simp: preserves_def add_schema_def arena_push_def hash_maps_def Let_def split: res.split)
  show "preserves hash_maps (schema_delete s)"
    unfolding schema_delete_def by (auto intro!: preserves_seq kept_query) (auto simp: preserves_def hash_maps_def)
  have rename: "preserves hash_maps (update (modify_schema r (\<lambda>s. s\<lparr>csc_tables := im_insert n i (im_remove k (csc_tables s))\<rparr>)))"
    "preserves hash_maps (update (modify_table r f))" for r n i k f
    by (simp_all add: preserves_def hash_maps_modify_schema) (simp add: hash_maps_def modify_table_def)
  show "preserves hash_maps (table_rename t n)"
    unfolding table_rename_def by (auto intro!: preserves_seq kept_query rename)
qed

text \<open>The invariant of the names, for the operations that register and remove objects.\<close>

lemma push_macro_step:
  assumes wf: "names_wf c"
  shows "names_wf (fst (push_macro m c))" "same_names c (fst (push_macro m c))"
    and "push_macro m c = (fst (push_macro m c), Ok (length (ar_items (macro_arena c))))"
    and "macro_owner (fst (push_macro m c)) (length (ar_items (macro_arena c)))
           = Some (qn_schema (cm_name m), macro_key (qn_name (cm_name m)) (cm_macro_type m))"
proof -
  obtain c1 r where push: "push_macro m c = (c1, r)" by force
  note names = push_macro_names [OF push]
  show "names_wf (fst (push_macro m c))" "same_names c (fst (push_macro m c))"
    "push_macro m c = (fst (push_macro m c), Ok (length (ar_items (macro_arena c))))"
    using names wf by (simp_all add: push)
  show "macro_owner (fst (push_macro m c)) (length (ar_items (macro_arena c)))
           = Some (qn_schema (cm_name m), macro_key (qn_name (cm_name m)) (cm_macro_type m))"
    by (simp add: push_macro_def arena_push_def macro_owner_def Let_def)
qed

lemma add_macro_wf:
  assumes wf: "names_wf c"
  shows "names_wf (fst (add_macro info c))"
proof -
  let ?m = "\<lparr>cm_id = None, cm_name = mac_name info, cm_macro_type = mac_macro_type info, cm_implementations = mac_implementations info\<rparr>"
  let ?n = "qn_schema (mac_name info)" and ?k = "macro_key (qn_name (mac_name info)) (mac_macro_type info)"
  note st = push_macro_step [OF wf, of ?m]
  let ?c = "fst (push_macro ?m c)" and ?i = "length (ar_items (macro_arena c))"
  have "names_wf (fst (update_schema_named ?n (\<lambda>s. s\<lparr>csc_macros := im_insert ?k ?i (csc_macros s)\<rparr>) ?c))"
    using macros_insert_wf(1) [OF st(1), of ?n _ ?i ?k] st(1,4)
    by (auto simp: update_schema_named_cases [OF names_wf_schemas [OF st(1)]] schema_field_updates split: option.split)
  moreover have "snd (push_macro ?m c) = Ok ?i" using st(3) by (metis snd_conv)
  ultimately show ?thesis
    using wf st(1) by (auto simp: add_macro_def reject_existing_def seq_app split: res.split)
qed

lemma table_rename_wf:
  assumes "names_wf c" and "tables_of c q = Some r"
  shows "names_wf (fst (table_rename r n c))"
  using table_rename_cases [OF assms, of n] assms(1)
  by (cases "tables_of c (q\<lparr>qn_name := n\<rparr>)"; cases "views_of c (q\<lparr>qn_name := n\<rparr>)") auto

lemma schema_delete_wf:
  assumes "names_wf c" and "im_get (schemas c) n = Some s"
  shows "names_wf (fst (schema_delete s c))"
  using schema_delete_cases [OF assms] schema_delete_effect(1) [OF assms] assms(1) by (cases "schema_empty c n") auto

lemma kept_new:
  "preserves catalog_ok (add_table info path next_id)" "preserves catalog_ok (add_view vinfo)"
  "preserves catalog_ok (add_macro minfo)" "preserves catalog_ok (add_schema n path)"
  using hash_maps_new(1-4)
  by (simp_all add: preserves_def catalog_ok_def add_table_wf add_view_wf add_macro_wf add_schema_wf)

end
