(* ===== verification/Sessions.thy ===== *)
theory Sessions
  imports Catalog_Steps Table_Changes Macros "HOL-Library.Sublist"
begin

text \<open>
  A transaction as its client sees it: a sequence of calls of the public operations, some of which
  fail. Whatever the calls are, the catalog keeps its invariant, the recorded changes only grow, and a
  call that fails records nothing.
\<close>

section \<open>Calls\<close>

datatype tx_call =
    CreateSchemaCall string "string option" if_exists_strategy
  | DeleteSchemaCall string bool if_exists_strategy
  | CreateTableCall qualified_name "column list" "partition_column list option" "sort_expression list option"
      "string option" "tags option" if_exists_strategy
  | DeleteTableCall qualified_name if_exists_strategy
  | CreateViewCall qualified_name string "string list option" "tags option" if_exists_strategy
  | DeleteViewCall qualified_name if_exists_strategy
  | CreateMacroCall qualified_name macro_type "macro_implementation list" if_exists_strategy
  | DeleteMacroCall qualified_name macro_type if_exists_strategy
  | RenameTableCall qualified_name string
  | UpdateSchemaCall qualified_name "column list"
  | AddColumnCall qualified_name column
  | RemoveColumnCall qualified_name column_name
  | RenameColumnCall qualified_name column_name string
  | UpdateColumnDtypeCall qualified_name column_name data_type
  | UpdateColumnDefaultCall qualified_name column_name column_default
  | UpdateColumnNullabilityCall qualified_name column_name bool
  | UpdatePartitioningCall qualified_name "partition_column list option"
  | UpdateSortInfoCall qualified_name "sort_expression list option"
  | AddTableTagCall qualified_name string string
  | RemoveTableTagCall qualified_name string
  | AddColumnTagCall qualified_name column_name string string
  | RemoveColumnTagCall qualified_name column_name string
  | WriteDataFilesCall qualified_name "write_file_request list"
  | WriteInlineDataCall qualified_name "record_batch list"

primrec run_call :: "tx_env \<Rightarrow> macro_env \<Rightarrow> tx_call \<Rightarrow> unit tx_op" where
  "run_call V M (CreateSchemaCall n p st) = create_schema V n p st"
| "run_call V M (DeleteSchemaCall n cascade st) = delete_schema n cascade st"
| "run_call V M (CreateTableCall n cols parts sorts path tags st) = create_table_tx V n cols parts sorts path tags st"
| "run_call V M (DeleteTableCall n st) = delete_table n st"
| "run_call V M (CreateViewCall n sql aliases tags st) = create_view_tx V n sql aliases tags st"
| "run_call V M (DeleteViewCall n st) = delete_view n st"
| "run_call V M (CreateMacroCall n ty is st) = create_macro_tx M n ty is st"
| "run_call V M (DeleteMacroCall n ty st) = delete_macro n ty st"
| "run_call V M (RenameTableCall n new) = rename_table n new"
| "run_call V M (UpdateSchemaCall n cols) = update_table_schema V n cols"
| "run_call V M (AddColumnCall n col) = add_table_column_tx V n col []"
| "run_call V M (RemoveColumnCall n path) = remove_table_column_tx n path"
| "run_call V M (RenameColumnCall n path new) = rename_table_column n path new"
| "run_call V M (UpdateColumnDtypeCall n path ty) = update_table_column_dtype V n path ty"
| "run_call V M (UpdateColumnDefaultCall n path d) = update_table_column_default n path d"
| "run_call V M (UpdateColumnNullabilityCall n path b) = update_table_column_nullability V n path b"
| "run_call V M (UpdatePartitioningCall n p) = update_table_partitioning_tx n p"
| "run_call V M (UpdateSortInfoCall n es) = update_table_sort_info_tx n es"
| "run_call V M (AddTableTagCall n k v) = add_table_tag_tx n k v"
| "run_call V M (RemoveTableTagCall n k) = remove_table_tag_tx n k"
| "run_call V M (AddColumnTagCall n path k v) = add_table_column_tag_tx n path k v"
| "run_call V M (RemoveColumnTagCall n path k) = remove_table_column_tag_tx n path k"
| "run_call V M (WriteDataFilesCall n fs) = write_table_data_files V n fs"
| "run_call V M (WriteInlineDataCall n bs) = write_table_inline_data_tx V n bs"

section \<open>The invariant of a session\<close>

text \<open>The catalog is well formed, and the changes extend the ones at the beginning.\<close>

definition in_session :: "change list \<Rightarrow> transaction \<Rightarrow> bool" where
  "in_session cs t \<longleftrightarrow> catalog_ok (tn_catalog t) \<and> prefix cs (tn_changes t)"

named_theorems kept \<open>operations that keep the invariant of a session\<close>

lemma kept_look [kept]: "preserves I (look f)"
  by (simp add: preserves_def look_app)

lemma kept_record [kept]: "preserves (in_session cs) (record_change c)"
  by (simp add: preserves_def record_change_app in_session_def prefix_prefix)

lemma kept_in_catalog [kept]: "preserves catalog_ok m \<Longrightarrow> preserves (in_session cs) (in_catalog m)"
  by (simp add: preserves_def in_catalog_app in_session_def case_prod_beta)

lemma kept_guarded [kept]: "preserves I m \<Longrightarrow> preserves I (guarded m)"
  by (fastforce simp: preserves_def guarded_def split: prod.split res.split)

lemma kept_skip_if [kept]: "preserves I m \<Longrightarrow> preserves I (skip_if strategy p m)"
  by (simp add: preserves_def skip_if_def)

lemma kept_if [kept]: "(b \<Longrightarrow> preserves I m) \<Longrightarrow> (\<not> b \<Longrightarrow> preserves I m') \<Longrightarrow> preserves I (if b then m else m')"
  by simp

lemmas kept_rules = kept preserves_seq preserves_basic preserves_for_each kept_table_metadata kept_columns kept_new

text \<open>An operation on a reference that was just looked up.\<close>

lemma kept_looked_up:
  assumes "\<And>c r. catalog_ok c \<Longrightarrow> f c = Ok r \<Longrightarrow> catalog_ok (fst (m r c))" and "\<And>r x. preserves (in_session cs) (g r x)"
  shows "preserves (in_session cs) (seq (look f) (\<lambda>r. seq (in_catalog (m r)) (g r)))"
proof (rule preservesI)
  fix t assume t: "in_session cs t"
  show "in_session cs (fst (seq (look f) (\<lambda>r. seq (in_catalog (m r)) (g r)) t))"
  proof (cases "f (tn_catalog t)")
    case (Ok r)
    let ?t = "t\<lparr>tn_catalog := fst (m r (tn_catalog t))\<rparr>"
    have ok: "in_session cs ?t" using t assms(1) [OF _ Ok] by (simp add: in_session_def)
    show ?thesis
    proof (cases "snd (m r (tn_catalog t))")
      case (Ok x)
      with \<open>f _ = Ok r\<close> have "fst (seq (look f) (\<lambda>r. seq (in_catalog (m r)) (g r)) t) = fst (g r x ?t)"
        by (simp add: seq_app tx_apps case_prod_beta)
      with preservesD [OF assms(2) ok] show ?thesis by simp
    qed (use \<open>f _ = Ok r\<close> ok in \<open>simp_all add: seq_app tx_apps case_prod_beta\<close>)
  qed (use t in \<open>simp_all add: seq_app tx_apps\<close>)
qed

lemma registered:
  assumes "catalog_ok c"
  shows "table_by_name c q = Ok r \<Longrightarrow> tables_of c q = Some r" "view_by_name c q = Ok v \<Longrightarrow> views_of c q = Some v"
    and "macro_by_name c q ty = Ok m \<Longrightarrow> macros_of c q ty = Some m" "schema_by_name c n = Ok s \<Longrightarrow> im_get (schemas c) n = Some s"
  using catalog_okD(3) [OF assms] by (auto simp: by_name_eqs ok_or_def split: option.splits if_splits)

lemma kept_registered:
  assumes "catalog_ok c"
  shows "table_by_name c q = Ok r \<Longrightarrow> catalog_ok (fst (table_delete r c))"
    and "view_by_name c q = Ok r \<Longrightarrow> catalog_ok (fst (view_delete r c))"
    and "macro_by_name c q ty = Ok r \<Longrightarrow> catalog_ok (fst (macro_delete r c))"
    and "table_by_name c q = Ok r \<Longrightarrow> catalog_ok (fst (table_rename r new c))"
    and "schema_by_name c n = Ok r \<Longrightarrow> catalog_ok (fst (schema_delete r c))"
proof -
  note reg = registered [OF assms] and wf = catalog_okD(1,2) [OF assms]
  note maps = deletes_keep_hash_maps [OF wf(2)] preservesD [OF hash_maps_new(5) wf(2)] preservesD [OF hash_maps_new(6) wf(2)]
  show "table_by_name c q = Ok r \<Longrightarrow> catalog_ok (fst (table_delete r c))"
    using table_delete_effect(2) [OF wf(1) reg(1)] maps by (simp add: catalog_ok_def)
  show "view_by_name c q = Ok r \<Longrightarrow> catalog_ok (fst (view_delete r c))"
    using view_delete_effect(2) [OF wf(1) reg(2)] maps by (simp add: catalog_ok_def)
  show "macro_by_name c q ty = Ok r \<Longrightarrow> catalog_ok (fst (macro_delete r c))"
    using macro_delete_effect(2) [OF wf(1) reg(3)] maps by (simp add: catalog_ok_def)
  show "table_by_name c q = Ok r \<Longrightarrow> catalog_ok (fst (table_rename r new c))"
    using table_rename_wf [OF wf(1) reg(1)] maps by (simp add: catalog_ok_def)
  show "schema_by_name c n = Ok r \<Longrightarrow> catalog_ok (fst (schema_delete r c))"
    using schema_delete_wf [OF wf(1) reg(4)] maps by (simp add: catalog_ok_def)
qed

lemma kept_deletes [kept]:
  "preserves (in_session cs) (delete_table q st)" "preserves (in_session cs) (delete_view q st)"
  "preserves (in_session cs) (delete_macro q ty st)" "preserves (in_session cs) (rename_table q new)"
  unfolding delete_table_def delete_table_inner_def delete_view_def delete_macro_def rename_table_def
  by (intro kept_skip_if kept_if kept_looked_up kept_registered kept_record preserves_basic; assumption)+

lemma kept_delete_schema [kept]: "preserves (in_session cs) (delete_schema n cascade st)"
  unfolding delete_schema_def delete_schema_objects_def
  by (intro kept_skip_if preserves_seq [OF kept_if] kept_looked_up kept_registered)
    (auto intro!: kept kept_rules split: prod.split)

lemma kept_creates [kept]:
  "preserves (in_session cs) (create_schema V n p st)"
  "preserves (in_session cs) (create_table_tx V q cols parts sorts path tags st)"
  "preserves (in_session cs) (create_view_tx V q sql aliases tags st)" "preserves (in_session cs) (create_macro_tx M q ty is st)"
  unfolding create_schema_def create_table_tx_def create_table_inner_def create_view_tx_def create_macro_tx_def Let_def
  by (auto intro!: kept_rules split: prod.split)

lemma kept_record_update [kept]: "preserves (in_session cs) (record_column_update r)"
  unfolding record_column_update_def by (auto intro!: kept kept_rules)

lemma kept_table_updates [kept]:
  "preserves (in_session cs) (update_table_partitioning_tx q p)" "preserves (in_session cs) (update_table_sort_info_tx q es)"
  "preserves (in_session cs) (add_table_tag_tx q k v)" "preserves (in_session cs) (remove_table_tag_tx q k)"
  unfolding update_table_partitioning_tx_def update_table_sort_info_tx_def add_table_tag_tx_def remove_table_tag_tx_def Let_def
  by (auto intro!: kept kept_rules)

lemma kept_column_updates [kept]:
  "preserves (in_session cs) (add_table_column_tx V q col path)" "preserves (in_session cs) (remove_table_column_tx q path)"
  "preserves (in_session cs) (rename_table_column q path new)" "preserves (in_session cs) (update_table_column_default q path d)"
  "preserves (in_session cs) (update_table_column_nullability V q path b)"
  "preserves (in_session cs) (add_table_column_tag_tx q path k v)" "preserves (in_session cs) (remove_table_column_tag_tx q path k)"
  unfolding add_table_column_tx_def remove_table_column_tx_def rename_table_column_def update_table_column_default_def
    update_table_column_nullability_def add_table_column_tag_tx_def remove_table_column_tag_tx_def Let_def
  by (auto intro!: kept kept_rules split: prod.split option.split)

lemma kept_writes [kept]:
  "preserves (in_session cs) (write_table_data_files V q fs)" "preserves (in_session cs) (write_table_inline_data_tx V q bs)"
  unfolding write_table_data_files_def write_table_transfer_data_files_def write_table_inline_data_tx_def
  by (auto intro!: kept kept_rules)

lemma kept_for_each_member: "(\<And>x. x \<in> set xs \<Longrightarrow> preserves I (f x)) \<Longrightarrow> preserves I (for_each f xs)"
  by (induction xs) (auto intro!: preserves_seq)

text \<open>The nested types a change of type recurses into; all other pairs are an error.\<close>

lemma dtype_pair_cases:
  obtains (structs) fs gs where "old = DStruct fs" "new = DStruct gs" | (lists) a b where "old = DList a" "new = DList b"
  | (maps) a b c d where "old = DMap a b" "new = DMap c d"
  | (others) "\<And>f g h (e :: unit tx_op). (case (old, new) of (DStruct fs, DStruct gs) \<Rightarrow> f fs gs | (DList a, DList b) \<Rightarrow> g a b
      | (DMap a b, DMap c d) \<Rightarrow> h a b c d | _ \<Rightarrow> e) = e"
  by (cases old) (simp_all split: data_type.split, (cases new; simp)+)

lemma kept_dtype_recursive [kept]: "preserves (in_session cs) (update_dtype_recursive V q path old new)"
proof (induction V q path old new rule: update_dtype_recursive.induct)
  case (1 V q path old new)
  show ?case
  proof (cases "old = new \<or> can_promote_to old new")
    case True
    then show ?thesis by (subst update_dtype_recursive.simps) (auto intro!: kept kept_rules)
  next
    case False
    then show ?thesis
    proof (cases old new rule: dtype_pair_cases)
      case (structs fs gs)
      then show ?thesis using False 1
        by (subst update_dtype_recursive.simps) (auto intro!: kept_for_each_member kept split: diff.split)
    next
      case (lists a b)
      then show ?thesis using False 1 by (subst update_dtype_recursive.simps) simp
    next
      case (maps a b c d)
      then show ?thesis using False 1 by (subst update_dtype_recursive.simps) (simp add: preserves_seq)
    next
      case others
      then show ?thesis using False by (subst update_dtype_recursive.simps) simp
    qed
  qed
qed

lemma kept_schema_updates [kept]:
  "preserves (in_session cs) (update_table_column_dtype V q path ty)" "preserves (in_session cs) (update_table_schema V q cols)"
  unfolding update_table_column_dtype_def update_table_schema_def update_schema_item_def
  by (auto intro!: kept kept_rules split: diff.split prod.split)

lemma kept_call: "preserves (in_session cs) (run_call V M call)"
  by (cases call) (auto intro: kept)

section \<open>Calls that fail\<close>

definition silent :: "'a tx_op \<Rightarrow> bool" where
  "silent m \<longleftrightarrow> (\<forall>t. tn_changes (fst (m t)) = tn_changes t)"

definition succeeds :: "'a tx_op \<Rightarrow> bool" where
  "succeeds m \<longleftrightarrow> (\<forall>t. is_ok (snd (m t)))"

text \<open>When the operation fails, the changes are as before.\<close>

definition clean :: "'a tx_op \<Rightarrow> bool" where
  "clean m \<longleftrightarrow> (\<forall>t. is_ok (snd (m t)) \<or> tn_changes (fst (m t)) = tn_changes t)"

lemma silent_rules:
  "silent (look f)" "silent (ret x)" "silent (raise e)" "silent (lift_res r)" "silent (in_catalog m)"
  by (simp_all add: silent_def tx_apps case_prod_beta)

lemma silent_seq: "silent m \<Longrightarrow> (\<And>x. silent (f x)) \<Longrightarrow> silent (seq m f)"
  by (auto simp: silent_def seq_app split: res.split)

lemma succeeds_rules: "succeeds (ret x)" "succeeds (record_change c)"
  by (simp_all add: succeeds_def tx_apps)

lemma succeeds_seq: "succeeds m \<Longrightarrow> (\<And>x. succeeds (f x)) \<Longrightarrow> succeeds (seq m f)"
  unfolding succeeds_def seq_app by (metis is_ok.elims(2) res.simps(10))

lemma succeeds_for_each: "(\<And>x. succeeds (f x)) \<Longrightarrow> succeeds (for_each f xs)"
  by (induction xs) (auto intro: succeeds_rules succeeds_seq)

lemma clean_silent: "silent m \<Longrightarrow> clean m" and clean_succeeds: "succeeds m \<Longrightarrow> clean m"
  by (simp_all add: clean_def silent_def succeeds_def)

lemma clean_seq: "silent m \<Longrightarrow> (\<And>x. clean (f x)) \<Longrightarrow> clean (seq m f)"
  unfolding clean_def silent_def seq_app by (auto split: res.split) (metis)+

lemma clean_guarded: "clean (guarded m)"
  by (auto simp: clean_def guarded_def split: prod.split res.split)

lemma clean_skip_if: "clean m \<Longrightarrow> clean (skip_if strategy p m)"
  by (simp add: clean_def skip_if_def)

lemma clean_if: "(b \<Longrightarrow> clean m) \<Longrightarrow> (\<not> b \<Longrightarrow> clean m') \<Longrightarrow> clean (if b then m else m')"
  by simp

lemma silent_if: "silent m \<Longrightarrow> silent m' \<Longrightarrow> silent (if b then m else m')"
  by simp

lemma clean_recorded: "(\<And>x. succeeds (f x)) \<Longrightarrow> clean (seq (record_change c) f)"
  by (intro clean_succeeds succeeds_seq succeeds_rules)

lemmas clean_base = silent_rules [THEN clean_silent] succeeds_rules [THEN clean_succeeds]
lemmas clean_rules = clean_base clean_seq silent_rules silent_seq silent_if clean_guarded clean_skip_if clean_if

lemma clean_deletes: "clean (delete_table q st)" "clean (delete_view q st)" "clean (delete_macro q ty st)" "clean (rename_table q new)"
  unfolding delete_table_def delete_table_inner_def delete_view_def delete_macro_def rename_table_def
  by (auto intro!: clean_rules)

lemma clean_creates:
  "clean (create_schema V n p st)" "clean (create_table_tx V q cols parts sorts path tags st)"
  "clean (create_view_tx V q sql aliases tags st)" "clean (create_macro_tx M q ty is st)"
  unfolding create_schema_def create_table_tx_def create_table_inner_def create_view_tx_def create_macro_tx_def Let_def
  by (auto intro!: clean_rules split: prod.split)

lemma clean_record_update: "clean (record_column_update r)"
  unfolding record_column_update_def by (auto intro!: clean_rules)

lemma clean_updates:
  "clean (update_table_partitioning_tx q p)" "clean (update_table_sort_info_tx q es)"
  "clean (add_table_tag_tx q k v)" "clean (remove_table_tag_tx q k)"
  "clean (add_table_column_tx V q col path)" "clean (update_table_column_default q path d)"
  "clean (update_table_column_nullability V q path b)"
  "clean (add_table_column_tag_tx q path k v)" "clean (remove_table_column_tag_tx q path k)"
  unfolding update_table_partitioning_tx_def update_table_sort_info_tx_def add_table_tag_tx_def remove_table_tag_tx_def
    add_table_column_tx_def update_table_column_default_def update_table_column_nullability_def
    add_table_column_tag_tx_def remove_table_column_tag_tx_def Let_def
  by (auto intro!: clean_rules clean_record_update split: prod.split)

lemma clean_column_changes:
  "clean (remove_table_column_tx q path)" "clean (rename_table_column q path new)"
proof -
  show "clean (remove_table_column_tx q path)"
    unfolding remove_table_column_tx_def by (intro clean_seq silent_rules clean_succeeds succeeds_for_each succeeds_rules)
  have "clean (seq (record_change c) (\<lambda>_. case es of None \<Rightarrow> ret () | Some e \<Rightarrow> record_change (d e)))" for c es d
    by (rule clean_recorded) (auto intro: succeeds_rules split: option.split)
  note last = this
  show "clean (rename_table_column q path new)"
    unfolding rename_table_column_def
    by (intro clean_if clean_base) (rule last silent_rules clean_seq)+
qed

lemma clean_writes: "clean (write_table_data_files V q fs)" "clean (write_table_inline_data_tx V q bs)"
  unfolding write_table_data_files_def write_table_transfer_data_files_def write_table_inline_data_tx_def
  by (auto intro!: clean_rules)

lemma clean_schema_updates: "clean (update_table_column_dtype V q path ty)" "clean (update_table_schema V q cols)"
  unfolding update_table_column_dtype_def update_table_schema_def by (auto intro!: clean_rules)

lemma clean_delete_schema:
  assumes ok: "catalog_ok (tn_catalog t)" and run: "delete_schema n cascade st t = (t', r)" and "\<not> is_ok r"
  shows "tn_changes t' = tn_changes t"
proof (cases "cascade \<and> im_get (schemas (tn_catalog t)) n \<noteq> None")
  case True
  with cascade_deletes [OF ok, of n _ st] run assms(3) show ?thesis by auto
next
  case False
  then show ?thesis
  proof (cases cascade)
    case True
    with False have "schema_by_name (tn_catalog t) n = Err (schema_not_found n)" by (simp add: schema_by_name_def ok_or_def)
    with True run show ?thesis
      by (auto simp: delete_schema_def delete_schema_objects_def skip_if_def seq_app tx_apps list_tables_of_def split: if_splits)
  next
    case no: False
    have "clean (delete_schema n False st)"
      unfolding delete_schema_def by (auto intro!: clean_rules)
    with no run assms(3) show ?thesis by (auto simp: clean_def) (metis fst_conv snd_conv)
  qed
qed

lemma failed_call:
  assumes ok: "catalog_ok (tn_catalog t)" and run: "run_call V M call t = (t', r)" and "\<not> is_ok r"
  shows "tn_changes t' = tn_changes t"
proof (cases "\<exists>n cascade st. call = DeleteSchemaCall n cascade st")
  case True
  with assms show ?thesis by (auto intro: clean_delete_schema)
next
  case False
  then have "clean (run_call V M call)"
    by (cases call) (auto intro: clean_deletes clean_creates clean_updates clean_column_changes clean_writes clean_schema_updates)
  with run assms(3) show ?thesis unfolding clean_def by (metis fst_conv snd_conv)
qed

section \<open>Sessions\<close>

text \<open>A client may go on after an error; a panic ends the session.\<close>

inductive session :: "tx_env \<Rightarrow> macro_env \<Rightarrow> transaction \<Rightarrow> transaction \<Rightarrow> bool" for V M t where
  session_start: "session V M t t"
| session_call: "session V M t u \<Longrightarrow> run_call V M call u = (u', r) \<Longrightarrow> (\<And>m. r \<noteq> Panic m) \<Longrightarrow> session V M t u'"

lemma session_invariant:
  assumes "session V M t u" and "catalog_ok (tn_catalog t)"
  shows "in_session (tn_changes t) u"
  using assms
proof (induction rule: session.induct)
  case session_start
  then show ?case by (simp add: in_session_def)
next
  case (session_call u call u' r)
  then show ?case using preservesD [OF kept_call] by (metis fst_conv)
qed

end
