(* ===== verification/Session_Examples.thy ===== *)
theory Session_Examples
  imports Sessions Table_Trip Examples
begin

text \<open>Concrete transactions on which the properties of sessions and of loading are applied.\<close>

section \<open>What comes from other crates\<close>

definition example_urls :: url_ops where
  "example_urls = \<lparr>is_absolute_path = (\<lambda>_. False), url_from_file_path = (\<lambda>_. None), url_to_file_path = (\<lambda>_. None),
     url_parse = (\<lambda>_. Err RelativeUrlWithoutBase), url_join = (\<lambda>_ _. None), url_path = (\<lambda>u. u),
     url_set_path = (\<lambda>_ p. p), url_scheme = (\<lambda>_. ''file''), url_host_str = (\<lambda>_. None)\<rparr>"

definition example_text :: ext_text where
  "example_text = undefined"

definition example_tx_env :: tx_env where
  "example_tx_env = \<lparr>xe_urls = example_urls, xe_cwd = ''/'', xe_text = example_text, xe_select = Ok,
     xe_next_column_id = Ok, xe_table_stats = Ok [], xe_dialect = Sqlite, xe_encrypted = False,
     xe_data_path = Relative ''data/'', xe_read_statistics = (\<lambda>_ _. Err (EntityNotFound 0)),
     xe_match_to_schema = (\<lambda>b _. Ok b), xe_batch_statistics = (\<lambda>_ _. [])\<rparr>"

definition example_macro_env :: macro_env where
  "example_macro_env = \<lparr>me_text = example_text, me_dialect_known = (\<lambda>d. d = ''duckdb''),
     me_parses_as_expression = (\<lambda>_ _. True), me_parses_as_query = (\<lambda>_ _. True), me_decimal_scale = (\<lambda>_. 0),
     me_decimal_mantissa = (\<lambda>_. 0)\<rparr>"

section \<open>A transaction on a catalog with a table\<close>

definition example_name :: qualified_name where
  "example_name = \<lparr>qn_schema = ''main'', qn_name = ''t''\<rparr>"

definition example_tx :: transaction where
  "example_tx = \<lparr>tn_catalog = fst example_added, tn_changes = []\<rparr>"

lemma catalog_new_ok: "catalog_ok catalog_new"
  using catalog_new_wf by (simp add: catalog_ok_def hash_maps_def catalog_new_def arena_new_def)

lemma example_catalog_ok: "catalog_ok example_catalog"
  unfolding example_catalog_def by (rule preservesD [OF kept_new(4) catalog_new_ok])

lemma example_tx_ok: "catalog_ok (tn_catalog example_tx)"
  unfolding example_tx_def transaction.simps example_added_def by (rule preservesD [OF kept_new(1) example_catalog_ok])

lemma example_tx_schema: "im_get (schemas (tn_catalog example_tx)) ''main'' = Some 0"
  unfolding example_tx_def example_added_def example_catalog_def example_table_def by code_simp

definition example_deleted :: "transaction \<times> unit result" where
  "example_deleted = run_call example_tx_env example_macro_env (DeleteTableCall example_name Fail) example_tx"

lemma example_deleted_eq: "example_deleted = (fst example_deleted, Ok ())"
  unfolding example_deleted_def example_tx_def example_added_def example_catalog_def example_table_def example_name_def by code_simp

lemma example_deleted_again:
  "snd (run_call example_tx_env example_macro_env (DeleteTableCall example_name Fail) (fst example_deleted))
    = Err (table_not_found example_name)"
  unfolding example_deleted_def example_tx_def example_added_def example_catalog_def example_table_def example_name_def by code_simp

section \<open>A new table\<close>

definition example_new_columns :: "column list" where
  "example_new_columns = [Column ''a'' DInt64 False [(''k'', ''v'')] None (Literal None) None,
     Column ''s'' (DStruct [Column ''x'' (DList (new_column ''e'' DVarchar)) True [] None (Literal None) None]) True [] None (Literal None) None]"

definition example_create :: "transaction \<times> unit result" where
  "example_create = create_table_tx example_tx_env \<lparr>qn_schema = ''main'', qn_name = ''u''\<rparr> example_new_columns None None None None Fail example_tx"

lemma example_create_eq: "example_create = (fst example_create, Ok ())"
  unfolding example_create_def example_new_columns_def example_tx_def example_added_def example_catalog_def example_table_def by code_simp

definition example_create_state :: "tx_changes \<times> commit_state" where
  "example_create_state = (tx_changes_default,
     commit_state_new (snapshot_info_of (example_snapshot 0)) (tn_catalog (fst example_create)) True None)"

definition example_text_env :: env where
  "example_text_env = example_env\<lparr>env_value_text := value_text example_text\<rparr>"

definition example_created :: "create_table" where
  "example_created = (case last (tn_changes (fst example_create)) of CreateTable x \<Rightarrow> x | _ \<Rightarrow> undefined)"

lemmas example_create_defs = example_create_def example_new_columns_def example_tx_def example_added_def example_catalog_def
  example_table_def

lemma example_create_change: "last (tn_changes (fst example_create)) = CreateTable example_created"
  unfolding example_created_def example_create_defs by code_simp

definition example_create_rows :: "(tx_changes \<times> commit_state) \<times> unit result" where
  "example_create_rows = create_table_rows example_text_env example_created example_create_state"

lemma example_create_rows_eq: "example_create_rows = (fst example_create_rows, Ok ())"
  unfolding example_create_rows_def example_created_def example_create_state_def example_text_env_def example_create_defs by code_simp

lemma example_new_columns_storable: "list_all (column_storable X) (nodes example_new_columns)" "int (length (nodes example_new_columns)) < i64_max"
  by (simp_all add: example_new_columns_def preorder.simps col_children_def column_storable_def loadable_def i64_max_def default_ok_def new_column_def struct_ok_def)

section \<open>A new macro\<close>

definition example_parameter :: macro_parameter where
  "example_parameter = \<lparr>mp_name = ''x'', mp_data_type = ''int64'', mp_default_value = None, mp_default_value_type = ''unknown''\<rparr>"

definition example_macros :: "macro_implementation list" where
  "example_macros = [\<lparr>mi_dialect = ''duckdb'', mi_sql = ''x + 1'', mi_parameters = [example_parameter]\<rparr>]"

definition example_macro_call :: "transaction \<times> unit result" where
  "example_macro_call = create_macro_tx example_macro_env \<lparr>qn_schema = ''main'', qn_name = ''m''\<rparr> Scalar example_macros Fail example_tx"

lemmas example_macro_defs = example_macro_call_def example_macros_def example_parameter_def example_create_defs

lemma example_macro_call_eq: "example_macro_call = (fst example_macro_call, Ok ())"
  unfolding example_macro_defs by code_simp

definition example_macro :: create_macro where
  "example_macro = (case last (tn_changes (fst example_macro_call)) of CreateMacro x \<Rightarrow> x | _ \<Rightarrow> undefined)"

lemma example_macro_change: "last (tn_changes (fst example_macro_call)) = CreateMacro example_macro"
  unfolding example_macro_def example_macro_defs by code_simp

lemma example_macro_implementations: "crm_implementations example_macro = example_macros"
  unfolding example_macro_def example_macro_defs by code_simp

definition example_macro_rows :: "(tx_changes \<times> commit_state) \<times> unit result" where
  "example_macro_rows = create_macro_rows example_macro (tx_changes_default,
     commit_state_new (snapshot_info_of (example_snapshot 0)) (tn_catalog (fst example_macro_call)) True None)"

lemma example_macro_rows_eq: "example_macro_rows = (fst example_macro_rows, Ok ())"
  unfolding example_macro_rows_def example_macro_def example_macro_defs by code_simp

section \<open>A nullable column of the new table\<close>

definition example_new_ref :: column_ref where
  "example_new_ref = \<lparr>cr_table_ref = 1, cr_column_idx = 1\<rparr>"

lemma example_new_column:
  "column_of \<lparr>qn_schema = ''main'', qn_name = ''u''\<rparr> [''s''] (tn_catalog (fst example_create)) = Ok example_new_ref"
  "column_inner (tn_catalog (fst example_create)) example_new_ref
    = Ok \<lparr>cc_id = 2, cc_name = ''s'', cc_dtype = CStruct [(''x'', 2)], cc_parent_column = None, cc_nullable = True, cc_tags = [],
        cc_initial_default = None, cc_default_value = Literal None\<rparr>"
  unfolding example_new_ref_def example_create_defs by code_simp+

section \<open>Two inline writes\<close>

definition example_batch :: record_batch where
  "example_batch = undefined"

definition example_first_write :: "transaction \<times> unit result" where
  "example_first_write = write_table_inline_data_tx example_tx_env example_name [example_batch] example_tx"

lemma example_first_write_run:
  "write_table_inline_data_tx example_tx_env example_name [example_batch] example_tx = (fst example_first_write, Ok ())"
  unfolding example_first_write_def example_name_def example_create_defs by code_simp

definition example_second_write :: "transaction \<times> unit result" where
  "example_second_write = write_table_inline_data_tx example_tx_env example_name [example_batch, example_batch] (fst example_first_write)"

lemma example_second_write_run:
  "write_table_inline_data_tx example_tx_env example_name [example_batch, example_batch] (fst example_first_write)
    = (fst example_second_write, Ok ())"
  unfolding example_second_write_def example_first_write_def example_name_def example_create_defs by code_simp

end
