(* ===== verification/Lost_Work.thy ===== *)
theory Lost_Work
  imports Table_Changes Table_Trip
begin

text \<open>
  Two sequences of operations that the checks of the operations let through: a second inline write
  to a table replaces the first one, and a nullability change of a table of the same transaction panics.
\<close>

section \<open>Inline writes\<close>

text \<open>What is dropped from a change set depends on the keys of the changes only.\<close>

lemma cancelled_keys: "change_key ` set cs = change_key ` set ds \<Longrightarrow> cancelled cs c = cancelled ds c"
  by (cases c) (simp_all cong: option.case_cong)

lemma change_set_replaces:
  assumes "change_key a = change_key b"
  shows "change_set_new (cs @ [a, b]) = change_set_new (cs @ [b])"
proof -
  have "last_by change_key (cs @ [a, b]) = last_by change_key (cs @ [b])"
    using last_by_snoc [of change_key "cs @ [a]" b] assms by (simp add: last_by_snoc)
  moreover have "change_key ` set (cs @ [a, b]) = change_key ` set (cs @ [b])" using assms by simp
  ultimately show ?thesis by (simp add: change_set_filter cancelled_keys [of "cs @ [a, b]" "cs @ [b]"] del: set_append)
qed

lemma inline_write_run:
  assumes "write_table_inline_data_tx V q batches t = (t', Ok ())"
  shows "\<exists>r data. table_by_name (tn_catalog t) q = Ok r \<and> length data = length batches
    \<and> t' = t\<lparr>tn_changes := tn_changes t @ [WriteTableInlineData r data]\<rparr>"
proof -
  have "length ys = length xs" if "collect f xs = Ok ys" for f :: "record_batch \<Rightarrow> commit_inline_data result" and xs ys
    using that by (induction xs arbitrary: ys) (auto elim!: and_then.elims)
  with assms show ?thesis
    by (auto simp: write_table_inline_data_tx_def tx_apps split: if_splits elim!: seq_OkE) blast
qed

lemma second_inline_write:
  assumes "write_table_inline_data_tx V q as t = (t1, Ok ())" and "write_table_inline_data_tx V q bs t1 = (t2, Ok ())"
  shows "\<exists>r xs ys. length xs = length as \<and> length ys = length bs
    \<and> tn_changes t2 = tn_changes t @ [WriteTableInlineData r xs, WriteTableInlineData r ys]
    \<and> change_set_new (tn_changes t2) = change_set_new (tn_changes t @ [WriteTableInlineData r ys])"
proof -
  from inline_write_run [OF assms(1)] obtain r xs where first: "table_by_name (tn_catalog t) q = Ok r" "length xs = length as"
    "t1 = t\<lparr>tn_changes := tn_changes t @ [WriteTableInlineData r xs]\<rparr>" by blast
  from inline_write_run [OF assms(2)] first obtain ys where "length ys = length bs"
    "t2 = t1\<lparr>tn_changes := tn_changes t1 @ [WriteTableInlineData r ys]\<rparr>" by auto
  with first show ?thesis
    using change_set_replaces [of "WriteTableInlineData r xs" "WriteTableInlineData r ys" "tn_changes t"]
    by (intro exI [of _ r] exI [of _ xs] exI [of _ ys]) simp
qed

section \<open>Nullability\<close>

lemma new_table_without_id:
  assumes wf: "names_wf (tn_catalog t)" and create: "create_table_tx V name cols parts sorts path tags Fail t = (t', Ok ())"
    and by_name: "table_by_name (tn_catalog t') name = Ok r"
  shows "\<exists>tb. table_inner (tn_catalog t') r = Ok tb \<and> ct_id tb = None"
proof -
  from create obtain c s i refs pr q where c: "tn_catalog t' = c"
    and add: "add_table \<lparr>ti_name = name, ti_schema = schema_of cols, ti_partitioning = parts, ti_sort_info = sorts,
      ti_tags = (case tags of None \<Rightarrow> [] | Some ts \<Rightarrow> ts)\<rparr> q None (tn_catalog t) = (c, Ok (s, i, refs, pr))"
    by (rule create_table_OkE) blast
  note effect = add_table_effect [OF wf add]
  let ?info = "\<lparr>ti_name = name, ti_schema = schema_of cols, ti_partitioning = parts, ti_sort_info = sorts,
    ti_tags = (case tags of None \<Rightarrow> [] | Some ts \<Rightarrow> ts)\<rparr>"
  have "names_wf c" using add_table_wf [OF wf, of ?info q None] by (simp only: add fst_conv)
  then have ok: "schemas_ok (tn_catalog t')" by (simp only: c names_wf_schemas)
  have "tables_of (tn_catalog t') name = Some i" by (simp add: effect(3) c)
  with by_name have "r = i" by (simp add: table_by_name_eq [OF ok] ok_or_def split: if_splits)
  with effect(8) c show ?thesis by (auto simp: table_inner_def arena_get_def)
qed

lemma column_by_path_table: "column_by_path c t path = Ok r \<Longrightarrow> cr_table_ref r = t"
  by (auto simp: column_by_path_def elim!: and_then.elims)

lemma new_table_nullability:
  assumes wf: "names_wf (tn_catalog t)" and create: "create_table_tx V name cols parts sorts path tags Fail t = (t', Ok ())"
    and col: "column_of name col (tn_catalog t') = Ok r" "column_inner (tn_catalog t') r = Ok x" "cc_nullable x"
    and stats: "xe_table_stats V = Ok stats"
  shows "update_table_column_nullability V name col False t' = (t', Panic ''unwrap on None'')"
proof -
  from col(1) have "table_by_name (tn_catalog t') name = Ok (cr_table_ref r)"
    by (auto simp: column_of_def elim!: and_then.elims dest: column_by_path_table)
  from new_table_without_id [OF wf create this] have "seen_null V (tn_catalog t') r = Panic ''unwrap on None''"
    using stats by (auto simp: seen_null_def expect_def)
  with col show ?thesis by (simp add: update_table_column_nullability_def seq_app tx_apps)
qed

end
