(* ===== verification/Maintenance.thy ===== *)
theory Maintenance
  imports Load TableStats
begin

text \<open>
  \<open>maintenance/expire_snapshots.rs\<close> and \<open>maintenance/utils.rs\<close>: expiring snapshots. The snapshots
  are deleted, the data and delete files no remaining snapshot reaches are scheduled for deletion, and
  so are the rows of the metadata tables. The statements run in one database transaction; a lookup
  table is the list of the IDs inserted into it.
\<close>

section \<open>State\<close>

record ducklake_column_mapping =
  dcm_mapping_id :: i64
  dcm_table_id :: i64
  dcm_type :: "string option"

record ducklake_name_mapping =
  dnm_mapping_id :: i64
  dnm_column_id :: i64
  dnm_source_name :: "string option"
  dnm_target_field_id :: "i64 option"
  dnm_parent_column :: "i64 option"
  dnm_is_partition :: "bool option"

record ducklake_file_variant_stats =
  dfvs_data_file_id :: i64
  dfvs_table_id :: i64
  dfvs_column_id :: i64
  dfvs_variant_path :: "string option"
  dfvs_shredded_type :: "string option"
  dfvs_column_size_bytes :: "i64 option"
  dfvs_value_count :: "i64 option"
  dfvs_null_count :: "i64 option"
  dfvs_min_value :: "string option"
  dfvs_max_value :: "string option"
  dfvs_contains_nan :: "bool option"
  dfvs_extra_stats :: "string option"

text \<open>The whole metadata database: the tables that a commit works on, and the others.\<close>

record lake =
  lk_db :: store
  lk_column_mappings :: "ducklake_column_mapping list"
  lk_name_mappings :: "ducklake_name_mapping list"
  lk_variant_stats :: "ducklake_file_variant_stats list"
  lk_scheduled :: "ducklake_files_scheduled_for_deletion list"
  lk_metadata :: "ducklake_metadata list"

type_synonym 'a lake_op = "(lake, ducklake_error, 'a) op"

record maintenance_env =
  mt_dialect :: db_dialect
  mt_urls :: url_ops
  mt_cwd :: string
  mt_cmp :: ext_cmp
  mt_now :: date_time_utc
  mt_data_path :: ducklake_path

datatype dry_run = DryRunYes | DryRunNo

datatype snapshot_filter = OlderThan date_time_utc | Versions "i64 list"

record snapshot_metadata =
  sm_id :: i64
  sm_timestamp :: date_time_utc

section \<open>Statements\<close>

text \<open>\<open>DELETE FROM table WHERE cond\<close>; the condition may have subqueries.\<close>

definition delete_from :: "(('r list \<Rightarrow> 'r list) \<Rightarrow> lake \<Rightarrow> lake) \<Rightarrow> (lake \<Rightarrow> 'r \<Rightarrow> bool) \<Rightarrow> unit lake_op" where
  "delete_from put cond = update (\<lambda>l. put (filter (\<lambda>r. \<not> cond l r)) l)"

definition in_db :: "(('t \<Rightarrow> 't) \<Rightarrow> store \<Rightarrow> store) \<Rightarrow> ('t \<Rightarrow> 't) \<Rightarrow> lake \<Rightarrow> lake" where
  "in_db put f = lk_db_update (put f)"

text \<open>\<open>LookupTableHandle::new\<close> and \<open>condition_is_in\<close>.\<close>

definition lookup_table_new :: "db_dialect \<Rightarrow> i64 list \<Rightarrow> i64 list result" where
  "lookup_table_new d ids =
     (case insert_rows d 1 (\<lambda>_. True) ids [] of (rows, r) \<Rightarrow> and_then r (\<lambda>_. Ok rows))"

definition condition_is_in :: "i64 list \<Rightarrow> i64 \<Rightarrow> bool" where
  "condition_is_in lookup i \<longleftrightarrow> i \<in> set lookup"

text \<open>The row has ended, and no snapshot is in its range.\<close>

definition condition_inactive_snapshot :: "ducklake_snapshot list \<Rightarrow> i64 \<Rightarrow> i64 option \<Rightarrow> bool" where
  "condition_inactive_snapshot snapshots begin_snapshot end_snapshot \<longleftrightarrow>
     (case end_snapshot of
        None \<Rightarrow> False
      | Some e \<Rightarrow> \<not> list_ex (\<lambda>s. begin_snapshot \<le> dsn_snapshot_id s \<and> dsn_snapshot_id s < e) snapshots)"

definition inactive :: "lake \<Rightarrow> i64 \<Rightarrow> i64 option \<Rightarrow> bool" where
  "inactive l = condition_inactive_snapshot (db_snapshots (lk_db l))"

definition condition_not_exists_in_reference :: "'k \<Rightarrow> 'k list \<Rightarrow> bool" where
  "condition_not_exists_in_reference k ks \<longleftrightarrow> \<not> list_ex (\<lambda>k'. k' = k) ks"

section \<open>Snapshots\<close>

fun filter_condition :: "maintenance_env \<Rightarrow> snapshot_filter \<Rightarrow> (ducklake_snapshot \<Rightarrow> bool) result" where
  "filter_condition M (OlderThan t) = Ok (\<lambda>s. cmp_date_time_utc (mt_cmp M) (dsn_snapshot_time s) t = Less)"
| "filter_condition M (Versions vs) =
     and_then (lookup_table_new (mt_dialect M) vs) (\<lambda>lookup. Ok (\<lambda>s. condition_is_in lookup (dsn_snapshot_id s)))"

definition find_expired_snapshots :: "maintenance_env \<Rightarrow> snapshot_filter \<Rightarrow> lake \<Rightarrow> ducklake_snapshot list result" where
  "find_expired_snapshots M f l =
     and_then (filter_condition M f) (\<lambda>cond.
       let snapshots = db_snapshots (lk_db l) in
       Ok (filter (\<lambda>s. cond s \<and> dsn_snapshot_id s \<noteq> Max (set (map dsn_snapshot_id snapshots))) snapshots))"

definition delete_snapshots :: "i64 list \<Rightarrow> unit lake_op" where
  "delete_snapshots ids = delete_from (in_db db_snapshots_update) (\<lambda>l s. condition_is_in ids (dsn_snapshot_id s))"

section \<open>Tables\<close>

text \<open>The tables none of whose versions is reached by a snapshot.\<close>

definition find_expired_tables :: "db_dialect \<Rightarrow> lake \<Rightarrow> i64 list result" where
  "find_expired_tables d l =
     (let ts = db_tables (lk_db l); gone = (\<lambda>t. inactive l (dt_begin_snapshot t) (dt_end_snapshot t)) in
      lookup_table_new d (unique (map dt_table_id
        (filter (\<lambda>t. gone t \<and> \<not> list_ex (\<lambda>t'. dt_table_id t' = dt_table_id t \<and> \<not> gone t') ts) ts))))"

definition no_such_table :: "string \<Rightarrow> ducklake_error" where
  "no_such_table name = Database \<lparr>de_unique_violation = False, de_table_already_exists = False,
     de_message = ''no such table: '' @ name\<rparr>"

definition drop_inlined_data_table :: "string \<Rightarrow> unit lake_op" where
  "drop_inlined_data_table name =
     seq (query (\<lambda>l. Ok (im_contains name (db_inline_tables (lk_db l))))) (\<lambda>there.
       if there then update (in_db db_inline_tables_update (im_remove name)) else raise (no_such_table name))"

definition delete_tables :: "i64 list \<Rightarrow> unit lake_op" where
  "delete_tables ids =
     (let gone = condition_is_in ids in
      seq (query (\<lambda>l. Ok (map didt_table_name (filter (\<lambda>r. gone (didt_table_id r)) (db_inlined_data_tables (lk_db l)))))) (\<lambda>names.
      seq (for_each drop_inlined_data_table names) (\<lambda>_.
      seq (delete_from lk_column_mappings_update (\<lambda>l r. gone (dcm_table_id r))) (\<lambda>_.
      seq (delete_from (in_db db_column_tags_update) (\<lambda>l r. gone (dct_table_id r))) (\<lambda>_.
      seq (delete_from (in_db db_columns_update) (\<lambda>l r. gone (dc_table_id r))) (\<lambda>_.
      seq (delete_from (in_db db_inlined_data_tables_update) (\<lambda>l r. gone (didt_table_id r))) (\<lambda>_.
      seq (delete_from (in_db db_partition_columns_update) (\<lambda>l r. gone (dpc_table_id r))) (\<lambda>_.
      seq (delete_from (in_db db_partition_info_update) (\<lambda>l r. gone (dpi_table_id r))) (\<lambda>_.
      seq (delete_from (in_db db_schema_versions_update)
             (\<lambda>l r. case dsv_table_id r of None \<Rightarrow> False | Some i \<Rightarrow> gone i)) (\<lambda>_.
      seq (delete_from (in_db db_sort_expressions_update) (\<lambda>l r. gone (dse_table_id r))) (\<lambda>_.
      seq (delete_from (in_db db_sort_info_update) (\<lambda>l r. gone (dsi_table_id r))) (\<lambda>_.
      seq (delete_from (in_db db_table_column_stats_update) (\<lambda>l r. gone (dtcs_table_id r))) (\<lambda>_.
      seq (delete_from (in_db db_table_stats_update) (\<lambda>l r. gone (dts_table_id r))) (\<lambda>_.
        delete_from (in_db db_tables_update) (\<lambda>l r. gone (dt_table_id r))))))))))))))))"

section \<open>Data files\<close>

text \<open>
  The path of a table that the catalog does not know, from its rows; the database returns the first
  row of the join in its order.
\<close>

definition query_table_data_path :: "url_ops \<Rightarrow> store \<Rightarrow> i64 \<Rightarrow> ducklake_path \<Rightarrow> ducklake_path result" where
  "query_table_data_path U db table base =
     (case [(s, t). t \<leftarrow> db_tables db, dt_table_id t = table, s \<leftarrow> db_schemas db, dsc_schema_id s = dt_schema_id t] of
        [] \<Rightarrow> Err (Database \<lparr>de_unique_violation = False, de_table_already_exists = False, de_message = ''no rows returned''\<rparr>)
      | (s, t) # _ \<Rightarrow>
          and_then (path_new U (dsc_path s) (dsc_path_is_relative s)) (\<lambda>schema_path.
          and_then (path_new U (dt_path t) (dt_path_is_relative t)) (\<lambda>table_path.
          and_then (path_join U base schema_path) (\<lambda>p. path_join U p table_path))))"

definition table_data_path :: "maintenance_env \<Rightarrow> catalog \<Rightarrow> store \<Rightarrow> i64 \<Rightarrow> ducklake_path result" where
  "table_data_path M c db table =
     (case table_by_id c table of
        Ok r \<Rightarrow> data_path (mt_urls M) c r (mt_data_path M)
      | Err _ \<Rightarrow> query_table_data_path (mt_urls M) db table (mt_data_path M)
      | Panic m \<Rightarrow> Panic m)"

definition build_deletion_file_path ::
  "url_ops \<Rightarrow> ducklake_path \<Rightarrow> i64 \<Rightarrow> (i64, ducklake_path) imap \<Rightarrow> ducklake_path \<Rightarrow> ducklake_path result"
where
  "build_deletion_file_path U path table paths base =
     (if path_is_absolute path then Ok path
      else and_then (expect ''unwrap on None'' (im_get paths table)) (\<lambda>table_path.
           and_then (path_join U table_path path) (\<lambda>full.
             case strip_prefix (path_as_str base) (path_as_str full) of
               Some rest \<Rightarrow> Ok (Relative rest)
             | None \<Rightarrow> Ok full)))"

type_synonym file_row = "i64 \<times> i64 \<times> string \<times> bool"

definition expired_data_files :: "lake \<Rightarrow> file_row list" where
  "expired_data_files l = map (\<lambda>r. (ddf_data_file_id r, ddf_table_id r, ddf_path r, ddf_path_is_relative r))
     (filter (\<lambda>r. inactive l (ddf_begin_snapshot r) (ddf_end_snapshot r)) (db_data_files (lk_db l)))"

definition expired_delete_files :: "lake \<Rightarrow> file_row list" where
  "expired_delete_files l = map (\<lambda>r. (ddel_delete_file_id r, ddel_table_id r, ddel_path r, ddel_path_is_relative r))
     (filter (\<lambda>r. inactive l (ddel_begin_snapshot r) (ddel_end_snapshot r)) (db_delete_files (lk_db l)))"

definition file_scheduled ::
  "maintenance_env \<Rightarrow> (i64, ducklake_path) imap \<Rightarrow> file_row \<Rightarrow> ducklake_files_scheduled_for_deletion result"
where
  "file_scheduled M paths = (\<lambda>(i, table, path, relative).
     and_then (path_new (mt_urls M) path relative) (\<lambda>p.
     and_then (build_deletion_file_path (mt_urls M) p table paths (mt_data_path M)) (\<lambda>full.
       Ok \<lparr>dfsd_data_file_id = i, dfsd_path = path_as_str full, dfsd_path_is_relative = path_is_relative full,
           dfsd_schedule_start = mt_now M\<rparr>)))"

definition mark_data_files_for_deletion :: "maintenance_env \<Rightarrow> catalog \<Rightarrow> unit lake_op" where
  "mark_data_files_for_deletion M c =
     seq (query (\<lambda>l. Ok (expired_data_files l @ expired_delete_files l))) (\<lambda>files.
     seq (query (\<lambda>l. collect (\<lambda>i. and_then (table_data_path M c (lk_db l) i) (\<lambda>p. Ok (i, p)))
            (unique (map (\<lambda>f. fst (snd f)) files)))) (\<lambda>paths.
     seq (lift_res (collect (file_scheduled M paths) files)) (\<lambda>rows.
     seq (on_table lk_scheduled lk_scheduled_update (insert_entities (mt_dialect M) 4 rows)) (\<lambda>_.
     seq (lift_res (lookup_table_new (mt_dialect M) (map fst files))) (\<lambda>ids.
     seq (delete_from (in_db db_data_files_update) (\<lambda>l r. condition_is_in ids (ddf_data_file_id r))) (\<lambda>_.
       delete_from (in_db db_delete_files_update) (\<lambda>l r. condition_is_in ids (ddel_delete_file_id r))))))))"

section \<open>Other metadata tables\<close>

definition delete_expired_catalog_objects :: "unit lake_op" where
  "delete_expired_catalog_objects =
     seq (delete_from (in_db db_schemas_update) (\<lambda>l r. inactive l (dsc_begin_snapshot r) (dsc_end_snapshot r))) (\<lambda>_.
     seq (delete_from (in_db db_tags_update) (\<lambda>l r. inactive l (dtg_begin_snapshot r) (dtg_end_snapshot r))) (\<lambda>_.
     seq (delete_from (in_db db_macros_update) (\<lambda>l r. inactive l (dma_begin_snapshot r) (dma_end_snapshot r))) (\<lambda>_.
     seq (delete_from (in_db db_views_update) (\<lambda>l r. inactive l (dv_begin_snapshot r) (dv_end_snapshot r))) (\<lambda>_.
     seq (delete_from (in_db db_snapshot_changes_update) (\<lambda>l r.
            condition_not_exists_in_reference (dsnc_snapshot_id r) (map dsn_snapshot_id (db_snapshots (lk_db l))))) (\<lambda>_.
     seq (delete_from lk_name_mappings_update (\<lambda>l r.
            condition_not_exists_in_reference (dnm_mapping_id r) (map dcm_mapping_id (lk_column_mappings l)))) (\<lambda>_.
     seq (delete_from (in_db db_macro_impls_update) (\<lambda>l r.
            condition_not_exists_in_reference (dmi_macro_id r) (map dma_macro_id (db_macros (lk_db l))))) (\<lambda>_.
     seq (delete_from (in_db db_macro_parameters_update) (\<lambda>l r.
            condition_not_exists_in_reference (dmp_macro_id r) (map dma_macro_id (db_macros (lk_db l))))) (\<lambda>_.
     seq (delete_from (in_db db_file_column_stats_update) (\<lambda>l r.
            condition_not_exists_in_reference (dfcs_data_file_id r) (map ddf_data_file_id (db_data_files (lk_db l))))) (\<lambda>_.
     seq (delete_from lk_variant_stats_update (\<lambda>l r.
            condition_not_exists_in_reference (dfvs_data_file_id r) (map ddf_data_file_id (db_data_files (lk_db l))))) (\<lambda>_.
     seq (delete_from (in_db db_partition_values_update) (\<lambda>l r.
            condition_not_exists_in_reference (dfpv_data_file_id r) (map ddf_data_file_id (db_data_files (lk_db l))))) (\<lambda>_.
     seq (delete_from lk_metadata_update (\<lambda>l r. dmd_scope r = Some ''table'' \<and>
            condition_not_exists_in_reference (dmd_scope_id r) (map (\<lambda>t. Some (dt_table_id t)) (db_tables (lk_db l))))) (\<lambda>_.
       delete_from lk_metadata_update (\<lambda>l r. dmd_scope r = Some ''schema'' \<and>
            condition_not_exists_in_reference (dmd_scope_id r) (map (\<lambda>s. Some (dsc_schema_id s)) (db_schemas (lk_db l))))))))))))))))"

section \<open>Expiry\<close>

definition expire_snapshot_ids :: "maintenance_env \<Rightarrow> catalog \<Rightarrow> i64 list \<Rightarrow> unit lake_op" where
  "expire_snapshot_ids M c ids =
     seq (delete_snapshots ids) (\<lambda>_.
     seq (query (find_expired_tables (mt_dialect M))) (\<lambda>tables.
     seq (mark_data_files_for_deletion M c) (\<lambda>_.
     seq (delete_tables tables) (\<lambda>_.
       delete_expired_catalog_objects))))"

text \<open>
  The catalog is loaded before the transaction starts. An error, also of the final \<open>COMMIT\<close>, rolls
  the transaction back.
\<close>

definition expire_snapshots_filtered ::
  "maintenance_env \<Rightarrow> snapshot_filter \<Rightarrow> dry_run \<Rightarrow> catalog result \<Rightarrow> ducklake_error option
    \<Rightarrow> (lake, ducklake_error, snapshot_metadata list) op"
where
  "expire_snapshots_filtered M f dry latest commit_error l =
     (let body =
        seq (query (find_expired_snapshots M f)) (\<lambda>snapshots.
        seq (case dry of
               DryRunYes \<Rightarrow> ret ()
             | DryRunNo \<Rightarrow> seq (lift_res latest) (\<lambda>c.
                 seq (lift_res (lookup_table_new (mt_dialect M) (map dsn_snapshot_id snapshots))) (\<lambda>ids.
                   expire_snapshot_ids M c ids))) (\<lambda>_.
          ret (map (\<lambda>s. \<lparr>sm_id = dsn_snapshot_id s, sm_timestamp = dsn_snapshot_time s\<rparr>) snapshots)))
      in if dry = DryRunNo \<and> \<not> is_ok latest then (l, and_then latest (\<lambda>_. Ok []))
         else case body l of
           (l', Ok xs) \<Rightarrow> (case (dry, commit_error) of
               (DryRunYes, _) \<Rightarrow> (l, Ok xs)
             | (DryRunNo, Some e) \<Rightarrow> (l, Err e)
             | (DryRunNo, None) \<Rightarrow> (l', Ok xs))
         | (_, Err e) \<Rightarrow> (l, Err e)
         | (_, Panic m) \<Rightarrow> (l, Panic m))"

end
