(* ===== verification/Metadata.thy ===== *)
theory Metadata
  imports Maintenance
begin

text \<open>
  \<open>caches/metadata.rs\<close>: the options of a catalog, of its schemas and of its tables, kept in memory and
  updated together with the rows of \<open>ducklake_metadata\<close>. The options are defined in \<open>spec/metadata.rs\<close>.
\<close>

section \<open>Keys\<close>

definition READ_ONLY_KEYS :: "string list" where
  "READ_ONLY_KEYS = [''version'', ''created_by'', ''table'', ''data_path'', ''encrypted'']"

section \<open>Loading\<close>

record metadata =
  md_global :: "(string, string) imap"
  md_schema :: "(i64, (string, string) imap) imap"
  md_table :: "(i64, (string, string) imap) imap"

definition insert_scoped ::
  "ducklake_metadata \<Rightarrow> (i64, (string, string) imap) imap \<Rightarrow> (i64, (string, string) imap) imap result"
where
  "insert_scoped e m =
     and_then (expect ''unwrap on None'' (dmd_scope_id e)) (\<lambda>i.
       Ok (im_insert i (im_insert (dmd_key e) (dmd_value e) (case im_get m i of None \<Rightarrow> [] | Some kv \<Rightarrow> kv)) m))"

definition metadata_new :: "ducklake_metadata list \<Rightarrow> metadata result" where
  "metadata_new entries =
     (let global = filter (\<lambda>e. dmd_scope e = None) entries;
          others = filter (\<lambda>e. dmd_scope e \<noteq> None) entries in
      and_then (fold_res insert_scoped (filter (\<lambda>e. dmd_scope e = Some ''schema'') others) []) (\<lambda>schema.
      and_then (fold_res insert_scoped (filter (\<lambda>e. dmd_scope e \<noteq> Some ''schema'') others) []) (\<lambda>table.
        Ok \<lparr>md_global = fold (\<lambda>e. im_insert (dmd_key e) (dmd_value e)) global [], md_schema = schema, md_table = table\<rparr>)))"

definition metadata_load :: "lake \<Rightarrow> metadata result" where
  "metadata_load l = metadata_new (lk_metadata l)"

section \<open>Accessors\<close>

text \<open>The value of a table, of its schema, or of the catalog.\<close>

definition get_key :: "metadata \<Rightarrow> string \<Rightarrow> i64 option \<Rightarrow> i64 option \<Rightarrow> string option" where
  "get_key m key schema_id table_id =
     (case Option.bind (Option.bind table_id (im_get (md_table m))) (\<lambda>kv. im_get kv key) of
        Some v \<Rightarrow> Some v
      | None \<Rightarrow>
          (case Option.bind (Option.bind schema_id (im_get (md_schema m))) (\<lambda>kv. im_get kv key) of
             Some v \<Rightarrow> Some v
           | None \<Rightarrow> im_get (md_global m) key))"

definition metadata_data_path :: "url_ops \<Rightarrow> metadata \<Rightarrow> ducklake_path result" where
  "metadata_data_path U m =
     (case im_get (md_global m) ''data_path'' of
        None \<Rightarrow> Ok path_default
      | Some s \<Rightarrow> (case path_from_str U s of Ok p \<Rightarrow> Ok p | Err _ \<Rightarrow> Panic ''unwrap on an Err value'' | Panic p \<Rightarrow> Panic p))"

definition metadata_encrypted :: "metadata \<Rightarrow> bool" where
  "metadata_encrypted m = (im_get (md_global m) ''encrypted'' = Some ''true'')"

record global_metadata =
  gmd_data_path :: string
  gmd_encrypted :: bool

definition global_metadata_of :: "url_ops \<Rightarrow> metadata \<Rightarrow> global_metadata result" where
  "global_metadata_of U m =
     and_then (metadata_data_path U m) (\<lambda>p. Ok \<lparr>gmd_data_path = path_as_str p, gmd_encrypted = metadata_encrypted m\<rparr>)"

text \<open>\<open>literals::parse(s).ok().flatten()\<close>.\<close>

definition interval_option :: "ext_text \<Rightarrow> string \<Rightarrow> interval option result" where
  "interval_option X s =
     (case literal_parse (interval_parse X) s of Ok v \<Rightarrow> Ok v | Err _ \<Rightarrow> Ok None | Panic p \<Rightarrow> Panic p)"

definition expire_older_than :: "ext_text \<Rightarrow> metadata \<Rightarrow> interval option result" where
  "expire_older_than X m =
     (case im_get (md_global m) ''expire_older_than'' of None \<Rightarrow> Ok None | Some s \<Rightarrow> interval_option X s)"

definition default_delete_older_than :: "ext_text \<Rightarrow> interval" where
  "default_delete_older_than X = \<lparr>iv_months = x_months_new X 0, iv_delta = x_delta_microseconds X (2 * 86400 * 1000000)\<rparr>"

definition delete_older_than :: "ext_text \<Rightarrow> metadata \<Rightarrow> interval result" where
  "delete_older_than X m =
     and_then (case im_get (md_global m) ''delete_older_than'' of None \<Rightarrow> Ok None | Some s \<Rightarrow> interval_option X s) (\<lambda>v.
       Ok (case v of None \<Rightarrow> default_delete_older_than X | Some i \<Rightarrow> i))"

text \<open>The options of a table; a text that does not parse counts as absent.\<close>

record table_metadata =
  tmd_data_inlining_row_limit :: int
  tmd_target_file_size :: int
  tmd_parquet_row_group_size_bytes :: "int option"
  tmd_parquet_row_group_size :: int
  tmd_parquet_compression :: string
  tmd_parquet_compression_level :: i64
  tmd_parquet_version :: i64
  tmd_hive_file_pattern :: bool
  tmd_rewrite_delete_threshold :: f64
  tmd_auto_compact :: bool

definition parsed :: "('e, 'a) res \<Rightarrow> 'a option" where
  "parsed r = (case r of Ok x \<Rightarrow> Some x | _ \<Rightarrow> None)"

definition unwrap_or :: "'a \<Rightarrow> 'a option \<Rightarrow> 'a" where
  "unwrap_or d v = (case v of None \<Rightarrow> d | Some x \<Rightarrow> x)"

definition table_metadata_of :: "ext_text \<Rightarrow> metadata \<Rightarrow> i64 option \<Rightarrow> i64 option \<Rightarrow> table_metadata" where
  "table_metadata_of X m schema_id table_id =
     (let key = (\<lambda>k. get_key m k schema_id table_id);
          num = (\<lambda>k. Option.bind (key k) (\<lambda>s. parsed (parse_uint 64 s)));
          signed = (\<lambda>k. Option.bind (key k) (\<lambda>s. parsed (parse_i64 s)));
          flag = (\<lambda>k. map_option (\<lambda>s. s = ''true'') (key k)) in
      \<lparr>tmd_data_inlining_row_limit = unwrap_or 10 (num ''data_inlining_row_limit''),
       tmd_target_file_size = unwrap_or (512 * 1024 * 1024) (num ''target_file_size''),
       tmd_parquet_row_group_size_bytes = num ''parquet_row_group_size_bytes'',
       tmd_parquet_row_group_size = unwrap_or 122880 (num ''parquet_row_group_size''),
       tmd_parquet_compression = unwrap_or ''snappy'' (key ''parquet_compression''),
       tmd_parquet_compression_level = unwrap_or 3 (signed ''parquet_compression_level''),
       tmd_parquet_version = unwrap_or 1 (signed ''parquet_version''),
       tmd_hive_file_pattern = unwrap_or True (flag ''hive_file_pattern''),
       tmd_rewrite_delete_threshold = unwrap_or 0x3FEE666666666666
         (Option.bind (key ''rewrite_delete_threshold'') (\<lambda>s. parsed (x_f64_parse X s))),
       tmd_auto_compact = unwrap_or True (flag ''auto_compact'')\<rparr>)"

section \<open>Updates\<close>

text \<open>
  The database and the cache of one connection. \<open>teq\<close> is the equality of texts of the database;
  an error of the database, the last argument, rolls the transaction back.
\<close>

type_synonym metadata_state = "lake \<times> metadata"
type_synonym 'a metadata_op = "(metadata_state, ducklake_error, 'a) op"

definition entry_matches :: "(string \<Rightarrow> string \<Rightarrow> bool) \<Rightarrow> string \<Rightarrow> string option \<Rightarrow> i64 option \<Rightarrow> ducklake_metadata \<Rightarrow> bool" where
  "entry_matches teq key scope scope_id e \<longleftrightarrow>
     teq (dmd_key e) key \<and>
     (case (scope, dmd_scope e) of (None, None) \<Rightarrow> True | (Some a, Some b) \<Rightarrow> teq b a | _ \<Rightarrow> False) \<and>
     dmd_scope_id e = scope_id"

definition metadata_update ::
  "(string \<Rightarrow> string \<Rightarrow> bool) \<Rightarrow> string \<Rightarrow> string option \<Rightarrow> string option \<Rightarrow> i64 option \<Rightarrow> ducklake_error option \<Rightarrow> unit lake_op"
where
  "metadata_update teq key value scope scope_id failure l =
     (if key \<in> set READ_ONLY_KEYS then (l, Err (ReadOnlyMetadata key))
      else case failure of
        Some e \<Rightarrow> (l, Err e)
      | None \<Rightarrow>
          (lk_metadata_update (\<lambda>rows. filter (\<lambda>e. \<not> entry_matches teq key scope scope_id e) rows
             @ (case value of None \<Rightarrow> [] | Some v \<Rightarrow>
                 [\<lparr>dmd_key = key, dmd_value = v, dmd_scope = scope, dmd_scope_id = scope_id\<rparr>])) l, Ok ()))"

definition in_lake :: "unit lake_op \<Rightarrow> unit metadata_op" where
  "in_lake m = on_table fst (\<lambda>f p. (f (fst p), snd p)) m"

definition in_cache :: "(metadata \<Rightarrow> metadata) \<Rightarrow> unit metadata_op" where
  "in_cache f = update (\<lambda>p. (fst p, f (snd p)))"

definition set_global :: "(string \<Rightarrow> string \<Rightarrow> bool) \<Rightarrow> ducklake_error option \<Rightarrow> string \<Rightarrow> string \<Rightarrow> unit metadata_op" where
  "set_global teq failure key value =
     seq (in_lake (metadata_update teq key (Some value) None None failure)) (\<lambda>_.
       in_cache (md_global_update (im_insert key value)))"

definition set_entry :: "i64 \<Rightarrow> string \<Rightarrow> string \<Rightarrow> (i64, (string, string) imap) imap \<Rightarrow> (i64, (string, string) imap) imap" where
  "set_entry i key value m = im_insert i (im_insert key value (case im_get m i of None \<Rightarrow> [] | Some kv \<Rightarrow> kv)) m"

definition unset_entry :: "i64 \<Rightarrow> string \<Rightarrow> (i64, (string, string) imap) imap \<Rightarrow> (i64, (string, string) imap) imap" where
  "unset_entry i key m = (case im_get m i of None \<Rightarrow> m | Some kv \<Rightarrow> im_insert i (im_remove key kv) m)"

definition set_schema_option :: "(string \<Rightarrow> string \<Rightarrow> bool) \<Rightarrow> ducklake_error option \<Rightarrow> i64 \<Rightarrow> string \<Rightarrow> string \<Rightarrow> unit metadata_op" where
  "set_schema_option teq failure i key value =
     seq (in_lake (metadata_update teq key (Some value) (Some ''schema'') (Some i) failure)) (\<lambda>_.
       in_cache (md_schema_update (set_entry i key value)))"

definition set_table_option :: "(string \<Rightarrow> string \<Rightarrow> bool) \<Rightarrow> ducklake_error option \<Rightarrow> i64 \<Rightarrow> string \<Rightarrow> string \<Rightarrow> unit metadata_op" where
  "set_table_option teq failure i key value =
     seq (in_lake (metadata_update teq key (Some value) (Some ''table'') (Some i) failure)) (\<lambda>_.
       in_cache (md_table_update (set_entry i key value)))"

definition unset_global :: "(string \<Rightarrow> string \<Rightarrow> bool) \<Rightarrow> ducklake_error option \<Rightarrow> string \<Rightarrow> unit metadata_op" where
  "unset_global teq failure key =
     seq (in_lake (metadata_update teq key None None None failure)) (\<lambda>_.
       in_cache (md_global_update (im_remove key)))"

definition unset_schema_option :: "(string \<Rightarrow> string \<Rightarrow> bool) \<Rightarrow> ducklake_error option \<Rightarrow> i64 \<Rightarrow> string \<Rightarrow> unit metadata_op" where
  "unset_schema_option teq failure i key =
     seq (in_lake (metadata_update teq key None (Some ''schema'') (Some i) failure)) (\<lambda>_.
       in_cache (md_schema_update (unset_entry i key)))"

definition unset_table_option :: "(string \<Rightarrow> string \<Rightarrow> bool) \<Rightarrow> ducklake_error option \<Rightarrow> i64 \<Rightarrow> string \<Rightarrow> unit metadata_op" where
  "unset_table_option teq failure i key =
     seq (in_lake (metadata_update teq key None (Some ''table'') (Some i) failure)) (\<lambda>_.
       in_cache (md_table_update (unset_entry i key)))"

section \<open>The cache and the database\<close>

text \<open>The object an option belongs to, and the operations by it.\<close>

datatype option_scope = CatalogScope | SchemaScope i64 | TableScope i64

fun lookup_option :: "metadata \<Rightarrow> option_scope \<Rightarrow> string \<Rightarrow> string option" where
  "lookup_option m CatalogScope key = im_get (md_global m) key"
| "lookup_option m (SchemaScope i) key = Option.bind (im_get (md_schema m) i) (\<lambda>kv. im_get kv key)"
| "lookup_option m (TableScope i) key = Option.bind (im_get (md_table m) i) (\<lambda>kv. im_get kv key)"

fun put_option :: "option_scope \<Rightarrow> ducklake_error option \<Rightarrow> string \<Rightarrow> string \<Rightarrow> unit metadata_op" where
  "put_option CatalogScope failure = set_global (=) failure"
| "put_option (SchemaScope i) failure = set_schema_option (=) failure i"
| "put_option (TableScope i) failure = set_table_option (=) failure i"

fun drop_option :: "option_scope \<Rightarrow> ducklake_error option \<Rightarrow> string \<Rightarrow> unit metadata_op" where
  "drop_option CatalogScope failure = unset_global (=) failure"
| "drop_option (SchemaScope i) failure = unset_schema_option (=) failure i"
| "drop_option (TableScope i) failure = unset_table_option (=) failure i"

fun scope_text :: "option_scope \<Rightarrow> string option" where
  "scope_text CatalogScope = None"
| "scope_text (SchemaScope i) = Some ''schema''"
| "scope_text (TableScope i) = Some ''table''"

fun scope_id_of :: "option_scope \<Rightarrow> i64 option" where
  "scope_id_of CatalogScope = None"
| "scope_id_of (SchemaScope i) = Some i"
| "scope_id_of (TableScope i) = Some i"

definition entry_of :: "option_scope \<Rightarrow> string \<Rightarrow> ducklake_metadata \<Rightarrow> bool" where
  "entry_of sc key e \<longleftrightarrow> dmd_key e = key \<and> dmd_scope e = scope_text sc \<and> dmd_scope_id e = scope_id_of sc"

text \<open>Rows with a scope that the code writes.\<close>

definition entry_ok :: "ducklake_metadata \<Rightarrow> bool" where
  "entry_ok e \<longleftrightarrow> (\<exists>sc. dmd_scope e = scope_text sc \<and> dmd_scope_id e = scope_id_of sc)"

text \<open>The last row of an option has its value.\<close>

definition stored_option :: "ducklake_metadata list \<Rightarrow> option_scope \<Rightarrow> string \<Rightarrow> string option" where
  "stored_option rows sc key = fold (\<lambda>e v. if entry_of sc key e then Some (dmd_value e) else v) rows None"

definition coherent :: "metadata_state \<Rightarrow> bool" where
  "coherent s \<longleftrightarrow> list_all entry_ok (lk_metadata (fst s)) \<and>
     (\<forall>sc key. lookup_option (snd s) sc key = stored_option (lk_metadata (fst s)) sc key)"

lemma stored_option_append:
  "stored_option (rows @ [e]) sc key = (if entry_of sc key e then Some (dmd_value e) else stored_option rows sc key)"
  by (simp add: stored_option_def)

lemma stored_option_filter:
  "(\<And>e. e \<in> set rows \<Longrightarrow> entry_of sc key e \<Longrightarrow> P e) \<Longrightarrow> stored_option (filter P rows) sc key = stored_option rows sc key"
proof (induction rows rule: rev_induct)
  case (snoc e rows)
  then show ?case by (cases "P e") (auto simp: stored_option_append)
qed (simp add: stored_option_def)

lemma stored_option_none: "(\<And>e. e \<in> set rows \<Longrightarrow> \<not> entry_of sc key e) \<Longrightarrow> stored_option rows sc key = None"
  by (induction rows rule: rev_induct) (auto simp: stored_option_append, simp add: stored_option_def)

lemma scopes_distinct: "scope_text sc = scope_text sc' \<Longrightarrow> scope_id_of sc = scope_id_of sc' \<Longrightarrow> sc = sc'"
  by (cases sc; cases sc'; simp)

lemma entry_matches_of: "entry_matches (=) key (scope_text sc) (scope_id_of sc) e \<longleftrightarrow> entry_of sc key e"
  by (auto simp: entry_matches_def entry_of_def split: option.splits)

text \<open>What an update leaves of the stored options.\<close>

lemma update_stored:
  assumes "metadata_update (=) key value (scope_text sc) (scope_id_of sc) failure l = (l', Ok ())"
  shows "stored_option (lk_metadata l') sc' key' =
      (if sc' = sc \<and> key' = key then value else stored_option (lk_metadata l) sc' key')"
    and "list_all entry_ok (lk_metadata l) \<Longrightarrow> list_all entry_ok (lk_metadata l')"
proof -
  let ?rows = "filter (\<lambda>e. \<not> entry_of sc key e) (lk_metadata l)"
  let ?e = "\<lambda>v. \<lparr>dmd_key = key, dmd_value = v, dmd_scope = scope_text sc, dmd_scope_id = scope_id_of sc\<rparr>"
  from assms have l': "lk_metadata l' = ?rows @ (case value of None \<Rightarrow> [] | Some v \<Rightarrow> [?e v])"
    by (auto simp: metadata_update_def entry_matches_of split: if_splits option.splits)
  have e: "entry_of sc' key' (?e v) \<longleftrightarrow> sc' = sc \<and> key' = key" for v
    using scopes_distinct [of sc sc'] by (auto simp: entry_of_def)
  have same: "stored_option ?rows sc' key' = (if sc' = sc \<and> key' = key then None else stored_option (lk_metadata l) sc' key')"
  proof (cases "sc' = sc \<and> key' = key")
    case True
    then have "stored_option ?rows sc' key' = None" by (intro stored_option_none) auto
    with True show ?thesis by simp
  next
    case False
    then show ?thesis using scopes_distinct [of sc sc']
      by (simp only: if_False) (rule stored_option_filter, auto simp: entry_of_def)
  qed
  then show "stored_option (lk_metadata l') sc' key' =
      (if sc' = sc \<and> key' = key then value else stored_option (lk_metadata l) sc' key')"
    by (cases "value") (simp_all add: l' stored_option_append e)
  show "list_all entry_ok (lk_metadata l) \<Longrightarrow> list_all entry_ok (lk_metadata l')"
    unfolding l' by (auto simp: list_all_iff entry_ok_def split: option.splits)
qed

text \<open>The cache after an update.\<close>

fun cached :: "option_scope \<Rightarrow> string \<Rightarrow> string option \<Rightarrow> metadata \<Rightarrow> metadata" where
  "cached CatalogScope key v = md_global_update (case v of None \<Rightarrow> im_remove key | Some x \<Rightarrow> im_insert key x)"
| "cached (SchemaScope i) key v = md_schema_update (case v of None \<Rightarrow> unset_entry i key | Some x \<Rightarrow> set_entry i key x)"
| "cached (TableScope i) key v = md_table_update (case v of None \<Rightarrow> unset_entry i key | Some x \<Rightarrow> set_entry i key x)"

lemma option_runs:
  "put_option sc failure key v = seq (in_lake (metadata_update (=) key (Some v) (scope_text sc) (scope_id_of sc) failure))
     (\<lambda>_. in_cache (cached sc key (Some v)))"
  "drop_option sc failure key = seq (in_lake (metadata_update (=) key None (scope_text sc) (scope_id_of sc) failure))
     (\<lambda>_. in_cache (cached sc key None))"
  by (cases sc; simp add: set_global_def set_schema_option_def set_table_option_def unset_global_def unset_schema_option_def
      unset_table_option_def)+

lemma lookup_cached:
  "lookup_option (cached sc key v m) sc' key' = (if sc' = sc \<and> key' = key then v else lookup_option m sc' key')"
  by (cases sc; cases sc'; cases v) (auto simp: set_entry_def unset_entry_def split: option.splits)

lemma update_coherent:
  assumes "coherent s"
  shows "coherent (fst (seq (in_lake (metadata_update (=) key v (scope_text sc) (scope_id_of sc) failure)) (\<lambda>_. in_cache (cached sc key v)) s))"
proof (cases "metadata_update (=) key v (scope_text sc) (scope_id_of sc) failure (fst s)")
  case (Pair l r)
  show ?thesis
  proof (cases "is_ok r")
    case True
    then have "metadata_update (=) key v (scope_text sc) (scope_id_of sc) failure (fst s) = (l, Ok ())"
      using Pair by (cases r) simp_all
    with update_stored [OF this] assms show ?thesis
      by (simp add: coherent_def seq_app in_lake_def on_table_def in_cache_def update_def lookup_cached)
  next
    case False
    then have "l = fst s" using Pair by (auto simp: metadata_update_def split: if_splits option.splits)
    with Pair False assms show ?thesis
      by (cases r) (simp_all add: seq_app in_lake_def on_table_def)
  qed
qed

lemma options_coherent:
  assumes "coherent s"
  shows "coherent (fst (put_option sc failure key value s))" and "coherent (fst (drop_option sc failure key s))"
  using update_coherent [OF assms] by (simp_all add: option_runs)

text \<open>Loading gives a coherent cache.\<close>

lemma global_loaded: "im_get (fold (\<lambda>e. im_insert (dmd_key e) (dmd_value e)) rows m) key
    = fold (\<lambda>e v. if dmd_key e = key then Some (dmd_value e) else v) rows (im_get m key)"
  by (induction rows arbitrary: m) (auto simp: fun_upd_apply intro!: arg_cong [where f = "\<lambda>x. fold _ _ x"])

lemma scoped_loaded:
  assumes "fold_res insert_scoped rows m = Ok m'"
  shows "Option.bind (im_get m' i) (\<lambda>kv. im_get kv key)
    = fold (\<lambda>e v. if dmd_key e = key \<and> dmd_scope_id e = Some i then Some (dmd_value e) else v) rows (Option.bind (im_get m i) (\<lambda>kv. im_get kv key))"
  using assms
proof (induction rows arbitrary: m)
  case (Cons e rows)
  from Cons.prems obtain m1 where m1: "insert_scoped e m = Ok m1" "fold_res insert_scoped rows m1 = Ok m'"
    by (auto elim!: and_then.elims)
  from m1(1) obtain j where e: "dmd_scope_id e = Some j" by (auto simp: insert_scoped_def expect_def split: option.splits)
  have "Option.bind (im_get m1 i) (\<lambda>kv. im_get kv key)
      = (if dmd_key e = key \<and> j = i then Some (dmd_value e) else Option.bind (im_get m i) (\<lambda>kv. im_get kv key))"
    using m1(1) e by (auto simp: insert_scoped_def expect_def split: option.splits)
  with Cons.IH [OF m1(2)] e show ?case by simp
qed simp

lemma fold_filter: "fold f (filter P xs) = fold (\<lambda>x. if P x then f x else id) xs"
  by (induction xs) (auto simp: fun_eq_iff)

lemma loaded_coherent:
  assumes "list_all entry_ok (lk_metadata l)" and "metadata_load l = Ok m"
  shows "coherent (l, m)"
proof -
  let ?rows = "lk_metadata l"
  from assms(2) obtain s t where s: "fold_res insert_scoped (filter (\<lambda>e. dmd_scope e = Some ''schema'') (filter (\<lambda>e. dmd_scope e \<noteq> None) ?rows)) [] = Ok s"
    and t: "fold_res insert_scoped (filter (\<lambda>e. dmd_scope e \<noteq> Some ''schema'') (filter (\<lambda>e. dmd_scope e \<noteq> None) ?rows)) [] = Ok t"
    and m: "m = \<lparr>md_global = fold (\<lambda>e. im_insert (dmd_key e) (dmd_value e)) (filter (\<lambda>e. dmd_scope e = None) ?rows) [], md_schema = s, md_table = t\<rparr>"
    by (auto simp: metadata_load_def metadata_new_def Let_def elim!: and_then.elims)
  have of: "entry_of CatalogScope key e \<longleftrightarrow> dmd_scope e = None \<and> dmd_key e = key"
    "entry_of (SchemaScope i) key e \<longleftrightarrow> dmd_scope e = Some ''schema'' \<and> dmd_key e = key \<and> dmd_scope_id e = Some i"
    "entry_of (TableScope i) key e \<longleftrightarrow> dmd_scope e \<noteq> None \<and> dmd_scope e \<noteq> Some ''schema'' \<and> dmd_key e = key \<and> dmd_scope_id e = Some i"
    if "e \<in> set ?rows" for e key i
  proof -
    from assms(1) that obtain sc where "dmd_scope e = scope_text sc" "dmd_scope_id e = scope_id_of sc"
      by (auto simp: list_all_iff entry_ok_def)
    then show "entry_of CatalogScope key e \<longleftrightarrow> dmd_scope e = None \<and> dmd_key e = key"
      "entry_of (SchemaScope i) key e \<longleftrightarrow> dmd_scope e = Some ''schema'' \<and> dmd_key e = key \<and> dmd_scope_id e = Some i"
      "entry_of (TableScope i) key e \<longleftrightarrow> dmd_scope e \<noteq> None \<and> dmd_scope e \<noteq> Some ''schema'' \<and> dmd_key e = key \<and> dmd_scope_id e = Some i"
      by (cases sc; auto simp: entry_of_def)+
  qed
  have "lookup_option m sc key = stored_option ?rows sc key" for sc key
  proof (cases sc)
    case CatalogScope
    then have "lookup_option m sc key = fold (\<lambda>e. if dmd_scope e = None then (\<lambda>v. if dmd_key e = key then Some (dmd_value e) else v) else id) ?rows None"
      unfolding fold_filter [symmetric] by (simp add: m global_loaded)
    also have "\<dots> = stored_option ?rows sc key"
      unfolding stored_option_def CatalogScope by (rule fold_cong [OF refl refl]) (auto simp: of)
    finally show ?thesis .
  next
    case (SchemaScope i)
    then have "lookup_option m sc key = fold (\<lambda>e v. if dmd_key e = key \<and> dmd_scope_id e = Some i then Some (dmd_value e) else v)
        (filter (\<lambda>e. dmd_scope e = Some ''schema'') (filter (\<lambda>e. dmd_scope e \<noteq> None) ?rows)) None"
      using scoped_loaded [OF s, of i key] by (simp add: m)
    also have "\<dots> = stored_option ?rows sc key"
      unfolding stored_option_def SchemaScope fold_filter by (rule fold_cong [OF refl refl]) (auto simp: of)
    finally show ?thesis .
  next
    case (TableScope i)
    then have "lookup_option m sc key = fold (\<lambda>e v. if dmd_key e = key \<and> dmd_scope_id e = Some i then Some (dmd_value e) else v)
        (filter (\<lambda>e. dmd_scope e \<noteq> Some ''schema'') (filter (\<lambda>e. dmd_scope e \<noteq> None) ?rows)) None"
      using scoped_loaded [OF t, of i key] by (simp add: m)
    also have "\<dots> = stored_option ?rows sc key"
      unfolding stored_option_def TableScope fold_filter by (rule fold_cong [OF refl refl]) (auto simp: of)
    finally show ?thesis .
  qed
  with assms(1) show ?thesis by (simp add: coherent_def)
qed

section \<open>Sequences of updates\<close>

definition option_call :: "option_scope \<times> string \<times> string option \<times> ducklake_error option \<Rightarrow> metadata_state \<Rightarrow> metadata_state" where
  "option_call = (\<lambda>(sc, key, v, failure) s. fst ((case v of None \<Rightarrow> drop_option sc failure key | Some x \<Rightarrow> put_option sc failure key x) s))"

lemma calls_coherent: "coherent s \<Longrightarrow> coherent (fold option_call calls s)"
proof (induction calls arbitrary: s)
  case (Cons x calls)
  have "coherent (option_call x s)"
    by (cases x; cases "fst (snd (snd x))") (simp_all add: option_call_def options_coherent [OF Cons.prems])
  with Cons.IH show ?case by simp
qed simp

lemma insert_scoped_runs: "\<forall>e\<in>set rows. dmd_scope_id e \<noteq> None \<Longrightarrow> \<exists>m'. fold_res insert_scoped rows m = Ok m'"
proof (induction rows arbitrary: m)
  case (Cons e rows)
  then obtain i where "dmd_scope_id e = Some i" by auto
  with Cons show ?case by (simp add: insert_scoped_def expect_def)
qed simp

lemma entry_ok_scoped: "entry_ok e \<Longrightarrow> dmd_scope e \<noteq> None \<Longrightarrow> dmd_scope_id e \<noteq> None"
  by (auto simp: entry_ok_def) (metis not_Some_eq option_scope.exhaust scope_id_of.simps(2,3) scope_text.simps(1))

lemma coherent_loads: "list_all entry_ok (lk_metadata l) \<Longrightarrow> \<exists>m. metadata_load l = Ok m"
proof -
  assume ok: "list_all entry_ok (lk_metadata l)"
  have "\<exists>m'. fold_res insert_scoped (filter P (filter (\<lambda>e. dmd_scope e \<noteq> None) (lk_metadata l))) m = Ok m'" for P m
    using ok by (intro insert_scoped_runs) (simp add: list_all_iff entry_ok_scoped)
  then show ?thesis by (auto simp: metadata_load_def metadata_new_def Let_def) (metis and_then.simps(1))
qed

text \<open>A cache that was loaded and updated answers as one that is loaded anew.\<close>

lemma reload_agrees:
  assumes "list_all entry_ok (lk_metadata l)" and "metadata_load l = Ok m" and "fold option_call calls (l, m) = (l', m')"
  obtains m'' where "metadata_load l' = Ok m''" and "\<And>sc key. lookup_option m' sc key = lookup_option m'' sc key"
proof -
  from calls_coherent [OF loaded_coherent [OF assms(1,2)], of calls] assms(3) have here: "coherent (l', m')" by simp
  then have ok: "list_all entry_ok (lk_metadata l')" by (simp add: coherent_def)
  from coherent_loads [OF ok] obtain m'' where load: "metadata_load l' = Ok m''" by blast
  from here loaded_coherent [OF ok load] have "lookup_option m' sc key = lookup_option m'' sc key" for sc key
    by (simp add: coherent_def)
  with load that show thesis by blast
qed

lemma get_key_scopes:
  "get_key m key schema table =
     (case Option.bind table (\<lambda>i. lookup_option m (TableScope i) key) of Some v \<Rightarrow> Some v
      | None \<Rightarrow> (case Option.bind schema (\<lambda>i. lookup_option m (SchemaScope i) key) of Some v \<Rightarrow> Some v
          | None \<Rightarrow> lookup_option m CatalogScope key))"
  by (cases table; cases schema) (simp_all add: get_key_def cong: option.case_cong)

lemma get_key_same:
  "(\<And>sc key. lookup_option m sc key = lookup_option m' sc key) \<Longrightarrow> get_key m key schema table = get_key m' key schema table"
  by (simp only: get_key_scopes)

text \<open>The key that is set, and the keys that cannot be.\<close>

lemma put_option_effect:
  "snd (put_option sc failure key v s) = Ok () \<Longrightarrow> lookup_option (snd (fst (put_option sc failure key v s))) sc key = Some v"
  "key \<in> set READ_ONLY_KEYS \<Longrightarrow> put_option sc failure key v s = (s, Err (ReadOnlyMetadata key))"
  by (cases s; auto simp: option_runs seq_app in_lake_def in_cache_def on_table_def update_def Let_def lookup_cached
      split: prod.splits res.splits)
    (cases s; simp add: option_runs seq_app in_lake_def on_table_def metadata_update_def)

end
