(* ===== verification/Cleanup.thy ===== *)
theory Cleanup
  imports Maintenance
begin

text \<open>
  \<open>maintenance/cleanup_old_files.rs\<close> and \<open>maintenance/delete_orphaned_files.rs\<close>: deleting the files
  that are scheduled for deletion and the files no row refers to, and the object stores a path
  resolves to (\<open>io/path.rs\<close>, \<open>io/mod.rs\<close>). A store is the list of its objects with their modification
  times; the paths of the \<open>object_store\<close> crate are texts, its parsers parameters.
\<close>

section \<open>Object stores\<close>

type_synonym location = string

record object_ops =
  oo_from_absolute_path :: "string \<Rightarrow> location option"
  oo_parse :: "string \<Rightarrow> location option"
  oo_config_key :: "string \<Rightarrow> string option"
  oo_lowercase :: "string \<Rightarrow> string"

definition io_path_location :: "object_ops \<Rightarrow> io_path \<Rightarrow> location result" where
  "io_path_location K p =
     (case p of
        Local path \<Rightarrow> expect ''unwrap on an Err value'' (oo_from_absolute_path K path)
      | S3 _ path \<Rightarrow> expect ''unwrap on an Err value'' (oo_parse K path)
      | Azure _ path \<Rightarrow> expect ''unwrap on an Err value'' (oo_parse K path)
      | GCS _ path \<Rightarrow> expect ''unwrap on an Err value'' (oo_parse K path))"

fun display_location :: "io_path \<Rightarrow> location \<Rightarrow> string" where
  "display_location (Local _) l = slash # l"
| "display_location (S3 bucket _) l = ''s3://'' @ bucket @ slash # l"
| "display_location (Azure container _) l = ''az://'' @ container @ slash # l"
| "display_location (GCS bucket _) l = ''gs://'' @ bucket @ slash # l"

text \<open>The key of the cache of clients; options that are not configuration keys are discarded.\<close>

datatype object_store_cache_key =
    LocalKey
  | S3Key string "(string \<times> string) list"
  | GCSKey string "(string \<times> string) list"
  | AzureKey string "(string \<times> string) list"

definition parse_config_options :: "object_ops \<Rightarrow> (string \<times> string) list option \<Rightarrow> (string \<times> string) list" where
  "parse_config_options K options =
     (case options of
        None \<Rightarrow> []
      | Some kvs \<Rightarrow> List.map_filter (\<lambda>(k, v). map_option (\<lambda>c. (c, v)) (oo_config_key K (oo_lowercase K k))) kvs)"

fun object_store_key :: "object_ops \<Rightarrow> (string \<times> string) list option \<Rightarrow> io_path \<Rightarrow> object_store_cache_key" where
  "object_store_key K options (Local _) = LocalKey"
| "object_store_key K options (S3 bucket _) = S3Key bucket (parse_config_options K options)"
| "object_store_key K options (GCS bucket _) = GCSKey bucket (parse_config_options K options)"
| "object_store_key K options (Azure container _) = AzureKey container (parse_config_options K options)"

text \<open>A client is built once per key.\<close>

definition get_cached_object_store ::
  "(object_store_cache_key \<Rightarrow> 'c) \<Rightarrow> object_store_cache_key \<Rightarrow> (object_store_cache_key, 'c) imap
    \<Rightarrow> (object_store_cache_key, 'c) imap \<times> 'c"
where
  "get_cached_object_store build key cache =
     (case im_get cache key of
        Some store \<Rightarrow> (cache, store)
      | None \<Rightarrow> (let store = build key in (im_insert key store cache, store)))"

type_synonym objects = "(location \<times> date_time_utc) list"

text \<open>
  \<open>delete_objects\<close>: an object that is already gone is fine, any other failure of the store ends the
  deletion.
\<close>

fun delete_objects :: "(location \<Rightarrow> string option) \<Rightarrow> location list \<Rightarrow> (objects, ducklake_error, unit) op" where
  "delete_objects fails [] objs = (objs, Ok ())"
| "delete_objects fails (x # xs) objs =
     (case fails x of
        Some e \<Rightarrow> (objs, Err (ObjectStore e))
      | None \<Rightarrow> delete_objects fails xs (filter (\<lambda>ob. fst ob \<noteq> x) objs))"

section \<open>State\<close>

text \<open>
  The database and the store of the data path. Reads of the database and its transaction see the
  same state; other writers of the rows for scheduled files are not considered.
\<close>

record cleanup_state =
  cl_lake :: lake
  cl_objects :: objects

type_synonym 'a cleanup_op = "(cleanup_state, ducklake_error, 'a) op"

record cleanup_env =
  cu_maintenance :: maintenance_env
  cu_object_ops :: object_ops
  cu_writable :: bool
  cu_fails :: "location \<Rightarrow> string option"
  cu_list_error :: "string option"

definition check_writable :: "cleanup_env \<Rightarrow> unit result" where
  "check_writable C = (if cu_writable C then Ok () else Err ReadonlyDucklake)"

definition resolve_location :: "cleanup_env \<Rightarrow> ducklake_path \<Rightarrow> location result" where
  "resolve_location C p =
     and_then (path_resolve (mt_urls (cu_maintenance C)) (mt_cwd (cu_maintenance C)) p) (io_path_location (cu_object_ops C))"

text \<open>A path that is stored relative to the data path of the catalog.\<close>

definition stored_path :: "cleanup_env \<Rightarrow> string \<Rightarrow> bool \<Rightarrow> ducklake_path result" where
  "stored_path C path relative =
     and_then (path_new (mt_urls (cu_maintenance C)) path relative) (\<lambda>p.
       path_join (mt_urls (cu_maintenance C)) (mt_data_path (cu_maintenance C)) p)"

section \<open>Files scheduled for deletion\<close>

datatype cleanup_filter = CleanupAll | CleanupOlderThan date_time_utc

fun cleanup_condition :: "maintenance_env \<Rightarrow> cleanup_filter \<Rightarrow> ducklake_files_scheduled_for_deletion \<Rightarrow> bool" where
  "cleanup_condition M CleanupAll r = True"
| "cleanup_condition M (CleanupOlderThan t) r = (cmp_date_time_utc (mt_cmp M) (dfsd_schedule_start r) t = Less)"

definition delete_files :: "cleanup_env \<Rightarrow> ducklake_path list \<Rightarrow> unit cleanup_op" where
  "delete_files C paths =
     (case paths of
        [] \<Rightarrow> ret ()
      | first # _ \<Rightarrow>
          seq (lift_res (path_resolve (mt_urls (cu_maintenance C)) (mt_cwd (cu_maintenance C)) first)) (\<lambda>_.
          seq (lift_res (collect (resolve_location C) paths)) (\<lambda>locations.
            on_table cl_objects cl_objects_update (delete_objects (cu_fails C) locations))))"

definition cleanup_old_files_filtered :: "cleanup_env \<Rightarrow> cleanup_filter \<Rightarrow> dry_run \<Rightarrow> string list cleanup_op" where
  "cleanup_old_files_filtered C f dry =
     seq (query (\<lambda>s. Ok (filter (cleanup_condition (cu_maintenance C) f) (lk_scheduled (cl_lake s))))) (\<lambda>files.
     seq (lift_res (collect (\<lambda>r. stored_path C (dfsd_path r) (dfsd_path_is_relative r)) files)) (\<lambda>paths.
     case dry of
       DryRunYes \<Rightarrow> ret (map path_as_str paths)
     | DryRunNo \<Rightarrow>
         seq (lift_res (check_writable C)) (\<lambda>_.
         seq (delete_files C paths) (\<lambda>_.
         seq (lift_res (lookup_table_new (mt_dialect (cu_maintenance C)) (map dfsd_data_file_id files))) (\<lambda>ids.
         seq (on_table cl_lake cl_lake_update
                (delete_from lk_scheduled_update (\<lambda>l r. condition_is_in ids (dfsd_data_file_id r)))) (\<lambda>_.
           ret (map path_as_str paths)))))))"

section \<open>Orphaned files\<close>

definition referenced_location :: "cleanup_env \<Rightarrow> catalog \<Rightarrow> i64 \<times> string \<times> bool \<Rightarrow> location result" where
  "referenced_location C c = (\<lambda>(table, path, relative).
     let M = cu_maintenance C in
     and_then (path_new (mt_urls M) path relative) (\<lambda>p.
     and_then (unwrap_res (table_by_id c table)) (\<lambda>r.
     and_then (data_path (mt_urls M) c r (mt_data_path M)) (\<lambda>table_path.
     and_then (path_join (mt_urls M) table_path p) (resolve_location C)))))"

definition table_files :: "lake \<Rightarrow> (i64 \<times> string \<times> bool) list" where
  "table_files l =
     map (\<lambda>r. (ddf_table_id r, ddf_path r, ddf_path_is_relative r)) (db_data_files (lk_db l))
     @ map (\<lambda>r. (ddel_table_id r, ddel_path r, ddel_path_is_relative r)) (db_delete_files (lk_db l))"

text \<open>With the catalog of the head snapshot.\<close>

definition collect_referenced_locations :: "cleanup_env \<Rightarrow> catalog result \<Rightarrow> lake \<Rightarrow> location list result" where
  "collect_referenced_locations C head l =
     and_then head (\<lambda>c.
     and_then (collect (referenced_location C c) (table_files l)) (\<lambda>used.
     and_then (collect (\<lambda>r. and_then (stored_path C (dfsd_path r) (dfsd_path_is_relative r)) (resolve_location C)) (lk_scheduled l)) (\<lambda>scheduled.
       Ok (used @ scheduled))))"

text \<open>\<open>list(prefix)\<close>: the objects below the prefix, segment by segment.\<close>

definition listed :: "location \<Rightarrow> objects \<Rightarrow> objects" where
  "listed below = filter (\<lambda>ob. below = [] \<or> (case strip_prefix below (fst ob) of Some (x # _) \<Rightarrow> x = slash | _ \<Rightarrow> False))"

definition is_orphan :: "cleanup_env \<Rightarrow> location list \<Rightarrow> date_time_utc option \<Rightarrow> location \<times> date_time_utc \<Rightarrow> bool" where
  "is_orphan C referenced max_age ob \<longleftrightarrow>
     fst ob \<notin> set referenced \<and>
     (case max_age of
        None \<Rightarrow> True
      | Some t \<Rightarrow> cmp_date_time_utc (mt_cmp (cu_maintenance C)) (snd ob) t = Less)"

definition delete_orphaned_files_filtered ::
  "cleanup_env \<Rightarrow> catalog result \<Rightarrow> date_time_utc option \<Rightarrow> dry_run \<Rightarrow> string list cleanup_op"
where
  "delete_orphaned_files_filtered C head max_age dry =
     seq (query (\<lambda>s. collect_referenced_locations C head (cl_lake s))) (\<lambda>referenced.
     seq (lift_res (path_resolve (mt_urls (cu_maintenance C)) (mt_cwd (cu_maintenance C)) (mt_data_path (cu_maintenance C)))) (\<lambda>root.
     seq (lift_res (io_path_location (cu_object_ops C) root)) (\<lambda>below.
     seq (case cu_list_error C of None \<Rightarrow> ret () | Some e \<Rightarrow> raise (ObjectStore e)) (\<lambda>_.
     seq (query (\<lambda>s. Ok (map fst (filter (is_orphan C referenced max_age) (listed below (cl_objects s)))))) (\<lambda>orphans.
     seq (case dry of
            DryRunYes \<Rightarrow> ret ()
          | DryRunNo \<Rightarrow> seq (lift_res (check_writable C)) (\<lambda>_.
              on_table cl_objects cl_objects_update (delete_objects (cu_fails C) orphans))) (\<lambda>_.
       ret (map (display_location root) orphans)))))))"

section \<open>Deletions\<close>

lemma delete_objects_subset:
  "delete_objects fails xs objs = (objs', r) \<Longrightarrow>
    set objs' \<subseteq> set objs \<and> (\<forall>ob\<in>set objs. fst ob \<notin> set xs \<longrightarrow> ob \<in> set objs')"
  by (induction fails xs objs rule: delete_objects.induct) (fastforce split: option.splits)+

lemma delete_objects_all:
  "delete_objects fails xs objs = (objs', Ok ()) \<Longrightarrow> objs' = filter (\<lambda>ob. fst ob \<notin> set xs) objs"
  by (induction fails xs objs rule: delete_objects.induct) (auto split: option.splits intro: filter_cong)

text \<open>Clients are shared: a key finds the client that the first request for it built.\<close>

lemma cached_store_stays:
  "get_cached_object_store build key cache = (cache', store) \<Longrightarrow>
    im_get cache' key = Some store \<and> (\<forall>k c. im_get cache k = Some c \<longrightarrow> im_get cache' k = Some c)"
  by (auto simp: get_cached_object_store_def Let_def split: option.splits)

text \<open>An object that is gone was listed as an orphan.\<close>

lemma orphans_deleted:
  assumes "delete_orphaned_files_filtered C head max_age dry s = (s', r)"
  shows "cl_lake s' = cl_lake s" and "set (cl_objects s') \<subseteq> set (cl_objects s)"
    and "ob \<in> set (cl_objects s) \<Longrightarrow> ob \<notin> set (cl_objects s') \<Longrightarrow>
      \<exists>referenced. collect_referenced_locations C head (cl_lake s) = Ok referenced \<and> dry = DryRunNo \<and> cu_writable C
        \<and> (\<exists>t. (fst ob, t) \<in> set (cl_objects s) \<and> is_orphan C referenced max_age (fst ob, t))"
proof -
  let ?orphans = "\<lambda>referenced below. map fst (filter (is_orphan C referenced max_age) (listed below (cl_objects s)))"
  have cases: "s' = s \<or> (dry = DryRunNo \<and> cu_writable C \<and> (\<exists>referenced below objs. collect_referenced_locations C head (cl_lake s) = Ok referenced
      \<and> fst (delete_objects (cu_fails C) (?orphans referenced below) (cl_objects s)) = objs \<and> s' = s\<lparr>cl_objects := objs\<rparr>))"
  proof -
    note run = assms [unfolded delete_orphaned_files_filtered_def] and ops = seq_app lift_res_def ret_def raise_def
    show ?thesis
    proof (cases "collect_referenced_locations C head (cl_lake s)")
      case referenced: (Ok referenced)
      show ?thesis
      proof (cases "path_resolve (mt_urls (cu_maintenance C)) (mt_cwd (cu_maintenance C)) (mt_data_path (cu_maintenance C))")
        case root: (Ok root)
        show ?thesis
        proof (cases "io_path_location (cu_object_ops C) root")
          case below: (Ok below)
          have "s' = s \<or> dry = DryRunNo \<and> cu_writable C \<and> s' = s\<lparr>cl_objects := fst (delete_objects (cu_fails C) (?orphans referenced below) (cl_objects s))\<rparr>"
            using run referenced root below
            by (cases "cu_list_error C"; cases dry; cases "cu_writable C";
                cases "snd (delete_objects (cu_fails C) (?orphans referenced below) (cl_objects s))")
              (simp_all add: ops check_writable_def on_table_def Let_def case_prod_beta)
          with referenced show ?thesis by blast
        qed (use run referenced root in \<open>simp_all add: ops\<close>)
      qed (use run referenced in \<open>simp_all add: ops\<close>)
    qed (use run in \<open>simp_all add: ops\<close>)
  qed
  have sub: "set (fst (delete_objects (cu_fails C) xs (cl_objects s))) \<subseteq> set (cl_objects s)"
    "ob \<in> set (cl_objects s) \<Longrightarrow> fst ob \<notin> set xs \<Longrightarrow> ob \<in> set (fst (delete_objects (cu_fails C) xs (cl_objects s)))" for xs ob
    using delete_objects_subset [of "cu_fails C" xs "cl_objects s"] by (metis prod.collapse)+
  from cases show "cl_lake s' = cl_lake s" by auto
  show "set (cl_objects s') \<subseteq> set (cl_objects s)"
    using cases by (elim disjE exE conjE) (auto dest: subsetD [OF sub(1)])
  assume ob: "ob \<in> set (cl_objects s)" "ob \<notin> set (cl_objects s')"
  with cases obtain referenced below where run: "dry = DryRunNo" "cu_writable C" "collect_referenced_locations C head (cl_lake s) = Ok referenced"
    "ob \<notin> set (fst (delete_objects (cu_fails C) (?orphans referenced below) (cl_objects s)))"
    by auto
  from sub(2) [OF ob(1)] run(4) have "fst ob \<in> set (?orphans referenced below)" by blast
  then obtain t where "(fst ob, t) \<in> set (cl_objects s)" "is_orphan C referenced max_age (fst ob, t)"
    by (auto simp: listed_def)
  with run show "\<exists>referenced. collect_referenced_locations C head (cl_lake s) = Ok referenced \<and> dry = DryRunNo \<and> cu_writable C
        \<and> (\<exists>t. (fst ob, t) \<in> set (cl_objects s) \<and> is_orphan C referenced max_age (fst ob, t))"
    by blast
qed

text \<open>The files of a table that the head snapshot does not have make the collection panic.\<close>

lemma collect_first_panic:
  assumes "x \<in> set xs" and "\<exists>m. f x = Panic m" and "\<And>y e. y \<in> set xs \<Longrightarrow> f y \<noteq> Err e"
  shows "\<exists>m. collect f xs = Panic m"
  using assms
proof (induction xs)
  case (Cons y ys)
  show ?case
  proof (cases "f y")
    case (Ok z)
    with Cons.prems have "x \<in> set ys" by auto
    with Cons obtain m where "collect f ys = Panic m" by auto
    with Ok show ?thesis by simp
  qed (use Cons.prems in \<open>auto\<close>)
qed simp

lemma dropped_table_panics:
  assumes "table_by_id c table = Err e" and "path_new (mt_urls (cu_maintenance C)) path relative = Ok p"
  shows "\<exists>m. referenced_location C c (table, path, relative) = Panic m"
  using assms by (simp add: referenced_location_def Let_def unwrap_res_def)

text \<open>A table of the data files that the head snapshot has dropped makes the whole operation panic.\<close>

lemma orphans_panic:
  assumes f: "f \<in> set (db_data_files (lk_db (cl_lake s)))" and gone: "table_by_id c (ddf_table_id f) = Err e"
    and path: "path_new (mt_urls (cu_maintenance C)) (ddf_path f) (ddf_path_is_relative f) = Ok p"
    and rest: "\<And>x e. x \<in> set (table_files (cl_lake s)) \<Longrightarrow> referenced_location C c x \<noteq> Err e"
  shows "\<exists>m. delete_orphaned_files_filtered C (Ok c) max_age dry s = (s, Panic m)"
proof -
  have "(ddf_table_id f, ddf_path f, ddf_path_is_relative f) \<in> set (table_files (cl_lake s))"
    using f by (auto simp: table_files_def)
  then have "\<exists>m. collect (referenced_location C c) (table_files (cl_lake s)) = Panic m"
    by (rule collect_first_panic) (rule dropped_table_panics [OF gone path], rule rest)
  then obtain m where "collect (referenced_location C c) (table_files (cl_lake s)) = Panic m" by blast
  then show ?thesis by (simp add: delete_orphaned_files_filtered_def collect_referenced_locations_def seq_app)
qed

section \<open>Paths of scheduled files\<close>

text \<open>The path a file is scheduled with leads to the location a scan reads the file from.\<close>

lemma scheduled_path_back:
  assumes base: "mt_data_path (cu_maintenance C) = Absolute b" and table: "im_get paths t = Some table_path"
    and full: "path_join (mt_urls (cu_maintenance C)) table_path (Relative path) = Ok (Absolute u)"
    and join: "\<And>s. u = b @ s \<Longrightarrow> url_join (mt_urls (cu_maintenance C)) b s = Some u"
    and url: "\<not> is_absolute_path (mt_urls (cu_maintenance C)) u" "url_parse (mt_urls (cu_maintenance C)) u = Ok u"
    and row: "file_scheduled (cu_maintenance C) paths (i, t, path, True) = Ok r"
  shows "stored_path C (dfsd_path r) (dfsd_path_is_relative r) = Ok (Absolute u)"
proof (cases "strip_prefix b u")
  case None
  with row base table full have "dfsd_path r = u" "\<not> dfsd_path_is_relative r"
    by (auto simp: file_scheduled_def path_new_def build_deletion_file_path_def path_is_absolute_def expect_def dest: sym [of "Ok _"])
  with url base show ?thesis by (simp add: stored_path_def path_new_def path_join_def)
next
  case (Some s)
  then have "u = b @ s" by (simp add: strip_prefix_Some)
  moreover from row base table full Some have "dfsd_path r = s" "dfsd_path_is_relative r"
    by (auto simp: file_scheduled_def path_new_def build_deletion_file_path_def path_is_absolute_def expect_def dest: sym [of "Ok _"])
  ultimately show ?thesis using base join by (simp add: stored_path_def path_new_def path_join_def expect_def)
qed

end
