(* ===== verification/Load_Simulation.thy ===== *)
theory Load_Simulation
  imports Load
begin

text \<open>
  What the loader of a catalog depends on: the rows of a snapshot, and of the grouped rows only the
  groups of the tables that are visible at it. Stores that agree on these load to the same catalog.
\<close>

section \<open>Groups that agree outside a set of tables\<close>

definition alike :: "i64 set \<Rightarrow> load_groups \<Rightarrow> load_groups \<Rightarrow> bool" where
  "alike D g h \<longleftrightarrow>
     (\<forall>k. k \<notin> D \<longrightarrow> group_of (lg_columns g) k = group_of (lg_columns h) k
        \<and> group_of (lg_column_tags g) k = group_of (lg_column_tags h) k
        \<and> group_of (lg_partition_infos g) k = group_of (lg_partition_infos h) k
        \<and> group_of (lg_partition_columns g) k = group_of (lg_partition_columns h) k
        \<and> group_of (lg_sort_infos g) k = group_of (lg_sort_infos h) k
        \<and> (\<forall>i\<in>set (group_of (lg_sort_infos g) k).
             filter (\<lambda>e. dse_sort_id e = dsi_sort_id i) (group_of (lg_sort_expressions g) k)
               = filter (\<lambda>e. dse_sort_id e = dsi_sort_id i) (group_of (lg_sort_expressions h) k)))
     \<and> lg_tags g = lg_tags h \<and> lg_macro_impls g = lg_macro_impls h \<and> lg_macro_parameters g = lg_macro_parameters h"

text \<open>An operation that cannot tell such groups apart.\<close>

definition simulates :: "i64 set \<Rightarrow> 'a load_op \<Rightarrow> bool" where
  "simulates D m \<longleftrightarrow> (\<forall>c g h. alike D g h \<longrightarrow>
     (\<exists>c' g' h' r. m (c, g) = ((c', g'), r) \<and> m (c, h) = ((c', h'), r) \<and> alike D g' h'))"

named_theorems sim \<open>operations of the loader that simulate\<close>

lemma simulatesI:
  assumes "\<And>c g h. alike D g h \<Longrightarrow> \<exists>c' g' h' r. m (c, g) = ((c', g'), r) \<and> m (c, h) = ((c', h'), r) \<and> alike D g' h'"
  shows "simulates D m"
  using assms by (simp add: simulates_def)

lemma simulatesE:
  assumes "simulates D m" and "alike D g h"
  obtains c' g' h' r where "m (c, g) = ((c', g'), r)" and "m (c, h) = ((c', h'), r)" and "alike D g' h'"
  using assms unfolding simulates_def by blast

lemma sim_seq:
  assumes "simulates D m" and "\<And>x. simulates D (f x)"
  shows "simulates D (seq m f)"
proof (rule simulatesI)
  fix c g h assume "alike D g h"
  with assms(1) obtain c' g' h' r where m: "m (c, g) = ((c', g'), r)" "m (c, h) = ((c', h'), r)" "alike D g' h'"
    by (rule simulatesE)
  show "\<exists>c' g' h' r. seq m f (c, g) = ((c', g'), r) \<and> seq m f (c, h) = ((c', h'), r) \<and> alike D g' h'"
  proof (cases r)
    case (Ok x)
    from assms(2) m(3) obtain c2 g2 h2 r2 where "f x (c', g') = ((c2, g2), r2)" "f x (c', h') = ((c2, h2), r2)" "alike D g2 h2"
      by (rule simulatesE)
    with m Ok show ?thesis by (simp add: seq_app)
  qed (use m in \<open>simp_all add: seq_app\<close>)
qed

lemma sim_basic [sim]:
  "simulates D (ret x)" "simulates D (raise e)" "simulates D (lift_res r)" "simulates D (query (\<lambda>p. f (fst p)))"
  by (auto intro!: simulatesI simp: ret_def raise_def lift_res_def query_def)

lemma sim_update:
  assumes "\<And>c g h. fst (f (c, g)) = fst (f (c, h))" and "\<And>p. snd (f p) = snd p"
  shows "simulates D (update f)"
  using assms by (intro simulatesI) (simp add: update_def prod_eq_iff)

lemma sim_if [sim]: "(b \<Longrightarrow> simulates D m) \<Longrightarrow> (\<not> b \<Longrightarrow> simulates D n) \<Longrightarrow> simulates D (if b then m else n)"
  by simp

lemma sim_for_each: "(\<And>x. x \<in> set xs \<Longrightarrow> simulates D (f x)) \<Longrightarrow> simulates D (for_each f xs)"
  by (induction xs) (auto intro: sim_seq sim)

lemma sim_take_table [sim]:
  assumes "k \<notin> D"
  shows "simulates D (take_group lg_columns lg_columns_update k)" "simulates D (take_group lg_column_tags lg_column_tags_update k)"
    "simulates D (take_group lg_partition_infos lg_partition_infos_update k)"
    "simulates D (take_group lg_partition_columns lg_partition_columns_update k)"
  using assms by (auto intro!: simulatesI simp: take_group_def alike_def)

lemma sim_take_object [sim]:
  "simulates D (take_group lg_tags lg_tags_update k)" "simulates D (take_group lg_macro_impls lg_macro_impls_update k)"
  by (auto intro!: simulatesI simp: take_group_def alike_def)

lemma sim_parameters [sim]:
  "simulates D (on_table (\<lambda>p. lg_macro_parameters (snd p)) (\<lambda>f p. (fst p, lg_macro_parameters_update f (snd p))) m)"
  by (auto intro!: simulatesI simp: on_table_def alike_def Let_def case_prod_beta)

lemma sim_load_sort_info [sim]:
  assumes k: "dt_table_id row \<notin> D"
  shows "simulates D (load_sort_info row columns)"
proof (rule simulatesI)
  fix c g h assume a: "alike D g h"
  let ?k = "dt_table_id row" and ?infos = "group_of (lg_sort_infos g) (dt_table_id row)"
  from a k have infos: "group_of (lg_sort_infos h) ?k = ?infos" by (simp add: alike_def)
  from a k have es: "filter (\<lambda>e. dse_sort_id e = dsi_sort_id i) (group_of (lg_sort_expressions g) ?k)
      = filter (\<lambda>e. dse_sort_id e = dsi_sort_id i) (group_of (lg_sort_expressions h) ?k)" if "i \<in> set ?infos" for i
    using that by (simp add: alike_def)
  show "\<exists>c' g' h' r. load_sort_info row columns (c, g) = ((c', g'), r) \<and> load_sort_info row columns (c, h) = ((c', h'), r) \<and> alike D g' h'"
  proof (cases ?infos)
    case Nil
    with a infos show ?thesis by (auto simp: load_sort_info_def take_group_def seq_app alike_def ret_def)
  next
    case (Cons i rest)
    with es [of i] a infos show ?thesis
      by (auto simp: load_sort_info_def take_group_def seq_app alike_def ret_def lift_res_def raise_def split: res.split)
  qed
qed

lemma sim_load_partition [sim]: "dt_table_id row \<notin> D \<Longrightarrow> simulates D (load_partition row columns)"
  unfolding load_partition_def Let_def by (auto intro!: sim_seq sim split: list.split)

lemma sim_rows [sim]:
  "dt_table_id t \<notin> D \<Longrightarrow> simulates D (set_table X U t)" "simulates D (set_view v)" "simulates D (set_macro m)"
  unfolding set_table_def set_view_def set_macro_def parent_of_row_def Let_def case_prod_beta
  by (auto intro!: sim_seq sim sim_update)

section \<open>Stores that agree\<close>

definition agree_at :: "i64 \<Rightarrow> i64 set \<Rightarrow> store \<Rightarrow> store \<Rightarrow> bool" where
  "agree_at n D db db' \<longleftrightarrow>
     schemas_at n db = schemas_at n db' \<and> tables_at n db = tables_at n db' \<and> views_at n db = views_at n db'
     \<and> macros_at n db = macros_at n db' \<and> alike D (fetch_groups n db) (fetch_groups n db')
     \<and> (\<forall>t\<in>set (tables_at n db). dt_table_id t \<notin> D)"

lemma agree_load:
  assumes "agree_at n D db db'"
  shows "catalog_load X U db' n = catalog_load X U db n"
proof -
  have "simulates D (load_all_rows X U n db)"
    unfolding load_all_rows_def
  proof (intro sim_seq sim_for_each sim)
    show "simulates D (on_table fst (\<lambda>f p. (f (fst p), snd p)) m)" for m :: "unit catalog_op"
      by (auto intro!: simulatesI simp: on_table_def Let_def case_prod_beta)
  qed (use assms in \<open>auto simp: agree_at_def\<close>)
  moreover have "load_all_rows X U n db' = load_all_rows X U n db"
    using assms by (simp add: load_all_rows_def agree_at_def)
  moreover have "alike D (fetch_groups n db) (fetch_groups n db')" using assms by (simp add: agree_at_def)
  ultimately obtain c g h r where "load_all_rows X U n db (catalog_new, fetch_groups n db) = ((c, g), r)"
    "load_all_rows X U n db' (catalog_new, fetch_groups n db') = ((c, h), r)"
    unfolding simulates_def by metis
  then show ?thesis by (simp add: catalog_load_def)
qed

end
