(* ===== verification/Scan.thy ===== *)
theory Scan
  imports Load TableStats Commit Transactions
begin

text \<open>
  \<open>scan/\<close>: the files and the inlined rows that make up a table at a snapshot, and the lookup of the
  snapshot of a schema version (\<open>caches/snapshot.rs\<close>). The statements of a scan run concurrently on
  one state of the database; here they run in their order. Reading the rows of an inlined table into an
  Arrow batch and matching batches to a schema are parameters.
\<close>

section \<open>Results of a scan\<close>

record scan_data_file =
  sdf_path :: string
  sdf_encryption_key :: "string option"
  sdf_statistics :: data_file_statistics
  sdf_delete_files :: "scan_delete_file list"
  sdf_inline_deletes :: "i64 list option"

record scan_result =
  scr_data_files :: "scan_data_file list"
  scr_inline_data :: "record_batch list"

record table_scan =
  tsc_result :: scan_result
  tsc_file_partition_ids :: "(i64 \<times> i64 option) list"

record table_transfer_scan =
  tts_result :: scan_result
  tts_partition_values :: "string option list option list"

record scan_env =
  sc_text :: ext_text
  sc_urls :: url_ops
  sc_read_inline :: "inline_table \<Rightarrow> string list \<Rightarrow> i64 \<Rightarrow> schema \<Rightarrow> record_batch result"
  sc_match_to_schema :: "record_batch \<Rightarrow> schema \<Rightarrow> record_batch result"
  sc_num_rows :: "record_batch \<Rightarrow> nat"

text \<open>\<open>as usize\<close> on an \<open>i64\<close>.\<close>

definition i64_as_usize :: "i64 \<Rightarrow> usize" where
  "i64_as_usize i = nat (i mod 2 ^ 64)"

section \<open>Parsing\<close>

definition parse_bound :: "ext_text \<Rightarrow> data_type \<Rightarrow> string option \<Rightarrow> value option result" where
  "parse_bound X t v = (case v of None \<Rightarrow> Ok None | Some s \<Rightarrow> value_parse X t s)"

definition parse_column_stats ::
  "ext_text \<Rightarrow> (i64, data_type) imap \<Rightarrow> ducklake_file_column_stats \<Rightarrow> file_column_stats option result"
where
  "parse_column_stats X dtypes row =
     (case im_get dtypes (dfcs_column_id row) of
        None \<Rightarrow> Ok None
      | Some t \<Rightarrow>
          and_then (parse_bound X t (dfcs_min_value row)) (\<lambda>lo.
          and_then (parse_bound X t (dfcs_max_value row)) (\<lambda>hi.
            Ok (Some \<lparr>fcs_size_bytes = map_option i64_as_usize (dfcs_column_size_bytes row), fcs_min_value = lo,
                     fcs_max_value = hi, fcs_null_count = map_option i64_as_usize (dfcs_null_count row),
                     fcs_contains_nan = dfcs_contains_nan row\<rparr>))))"

definition parse_data_file ::
  "ext_text \<Rightarrow> url_ops \<Rightarrow> ducklake_data_file \<Rightarrow> ducklake_file_column_stats list option \<Rightarrow> (i64, data_type) imap
    \<Rightarrow> ducklake_path \<Rightarrow> (string \<times> data_file_statistics) result"
where
  "parse_data_file X U row stats dtypes base =
     and_then (path_new U (ddf_path row) (ddf_path_is_relative row)) (\<lambda>path.
     and_then (collect (\<lambda>s. and_then (parse_column_stats X dtypes s) (\<lambda>c. Ok (dfcs_column_id s, c)))
                (case stats of None \<Rightarrow> [] | Some rows \<Rightarrow> rows)) (\<lambda>parsed.
     and_then (path_join U base path) (\<lambda>full.
       Ok (path_as_str full,
           \<lparr>dfs_num_rows = i64_as_usize (ddf_record_count row),
            dfs_file_size_bytes = map_option i64_as_usize (ddf_file_size_bytes row),
            dfs_footer_size_bytes = map_option i64_as_usize (ddf_footer_size row),
            dfs_column_stats = fold (\<lambda>(i, c) m. case c of None \<Rightarrow> m | Some c \<Rightarrow> im_insert i c m) parsed []\<rparr>))))"

definition parse_delete_file :: "url_ops \<Rightarrow> ducklake_delete_file \<Rightarrow> ducklake_path \<Rightarrow> scan_delete_file result" where
  "parse_delete_file U row base =
     (if ddel_format row \<noteq> ''parquet''
      then Panic (''not implemented: Encountered unsupported delete file format '' @ ddel_format row)
      else and_then (path_new U (ddel_path row) (ddel_path_is_relative row)) (\<lambda>path.
           and_then (path_join U base path) (\<lambda>full.
             Ok \<lparr>sdel_path = path_as_str full, sdel_encryption_key = ddel_encryption_key row,
                 sdel_num_deletes = i64_as_usize (case ddel_delete_count row of None \<Rightarrow> 0 | Some k \<Rightarrow> k),
                 sdel_file_size_bytes = map_option i64_as_usize (ddel_file_size_bytes row),
                 sdel_footer_size_bytes = map_option i64_as_usize (ddel_footer_size row)\<rparr>)))"

section \<open>Queries\<close>

definition data_files_query :: "i64 \<Rightarrow> i64 \<Rightarrow> store \<Rightarrow> ducklake_data_file list" where
  "data_files_query table n db =
     filter (\<lambda>r. ddf_table_id r = table \<and> visible_at (ddf_begin_snapshot r) (ddf_end_snapshot r) n) (db_data_files db)"

definition partition_values_query :: "i64 \<Rightarrow> store \<Rightarrow> ducklake_file_partition_value list" where
  "partition_values_query table db = filter (\<lambda>r. dfpv_table_id r = table) (db_partition_values db)"

definition column_stats_query :: "i64 \<Rightarrow> i64 \<Rightarrow> store \<Rightarrow> ducklake_file_column_stats list" where
  "column_stats_query table n db =
     [s. s \<leftarrow> db_file_column_stats db, r \<leftarrow> db_data_files db, dfcs_data_file_id s = ddf_data_file_id r,
         dfcs_table_id s = table \<and> visible_at (ddf_begin_snapshot r) (ddf_end_snapshot r) n]"

definition delete_files_query :: "i64 \<Rightarrow> i64 \<Rightarrow> store \<Rightarrow> ducklake_delete_file list" where
  "delete_files_query table n db =
     filter (\<lambda>r. ddel_table_id r = table \<and> visible_at (ddel_begin_snapshot r) (ddel_end_snapshot r) n) (db_delete_files db)"

definition inlined_data_tables_query :: "i64 \<Rightarrow> store \<Rightarrow> ducklake_inlined_data_tables list" where
  "inlined_data_tables_query table db = filter (\<lambda>r. didt_table_id r = table) (db_inlined_data_tables db)"

text \<open>A missing table of inlined deletes is an empty one.\<close>

definition inlined_deletes_query :: "i64 \<Rightarrow> i64 \<Rightarrow> store \<Rightarrow> ducklake_inlined_delete list" where
  "inlined_deletes_query table n db =
     filter (\<lambda>r. did_begin_snapshot r \<le> n) (group_of (db_inline_deletes db) (inlined_delete_table_name table))"

definition no_rows :: ducklake_error where
  "no_rows = Database \<lparr>de_unique_violation = False, de_table_already_exists = False, de_message = ''no rows returned''\<rparr>"

definition inlined_data_query :: "scan_env \<Rightarrow> string \<Rightarrow> string list \<Rightarrow> i64 \<Rightarrow> schema \<Rightarrow> store \<Rightarrow> record_batch result" where
  "inlined_data_query S name columns n sch db =
     (case im_get (db_inline_tables db) name of
        None \<Rightarrow> Err (Database \<lparr>de_unique_violation = False, de_table_already_exists = False, de_message = ''no such table''\<rparr>)
      | Some t \<Rightarrow> sc_read_inline S t columns n sch)"

section \<open>Snapshots by schema version\<close>

definition load_for_schema_version :: "i64 \<Rightarrow> store \<Rightarrow> snapshot_info option" where
  "load_for_schema_version v db =
     map_option snapshot_info_of (latest_of (filter (\<lambda>s. dsn_schema_version s = v) (db_snapshots db)))"

text \<open>The earliest snapshot at which the schema version is recorded; the clock starts at the epoch.\<close>

definition synthesize_for_schema_version :: "date_time_utc \<Rightarrow> i64 \<Rightarrow> store \<Rightarrow> snapshot_info result" where
  "synthesize_for_schema_version epoch v db =
     (case map dsv_begin_snapshot (filter (\<lambda>r. dsv_schema_version r = v) (db_schema_versions db)) of
        [] \<Rightarrow> Err no_rows
      | bs \<Rightarrow> Ok \<lparr>sni_id = Min (set bs), sni_time = epoch, sni_schema_version = v, sni_next_catalog_id = - 1, sni_next_file_id = - 1\<rparr>)"

definition get_for_schema_version :: "date_time_utc \<Rightarrow> snapshot_info \<Rightarrow> i64 \<Rightarrow> store \<Rightarrow> snapshot_info result" where
  "get_for_schema_version epoch current v db =
     (if sni_schema_version current = v then Ok current
      else case load_for_schema_version v db of
             Some info \<Rightarrow> Ok info
           | None \<Rightarrow> synthesize_for_schema_version epoch v db)"

section \<open>Scanning a table\<close>

definition scan_inlined_table ::
  "scan_env \<Rightarrow> date_time_utc \<Rightarrow> snapshot_info \<Rightarrow> store \<Rightarrow> i64 \<Rightarrow> i64 \<Rightarrow> schema \<Rightarrow> ducklake_inlined_data_tables \<Rightarrow> record_batch result"
where
  "scan_inlined_table S epoch current db table n target row =
     and_then (get_for_schema_version epoch current (didt_schema_version row) db) (\<lambda>info.
     and_then (catalog_load (sc_text S) (sc_urls S) db (sni_id info)) (\<lambda>c.
     and_then (table_by_id c table) (\<lambda>r.
     and_then (table_schema c r) (\<lambda>sch.
     and_then (inlined_data_query S (didt_table_name row) (im_keys sch) n sch db) (\<lambda>batch.
       sc_match_to_schema S batch target)))))"

definition scan_file ::
  "scan_env \<Rightarrow> (i64, data_type) imap \<Rightarrow> ducklake_path \<Rightarrow> (i64, ducklake_file_column_stats list) imap
    \<Rightarrow> (i64, ducklake_delete_file list) imap \<Rightarrow> (i64, i64 list) imap \<Rightarrow> ducklake_data_file \<Rightarrow> scan_data_file result"
where
  "scan_file S dtypes base stats deletes inline row =
     (let i = ddf_data_file_id row in
      and_then (parse_data_file (sc_text S) (sc_urls S) row (im_get stats i) dtypes base) (\<lambda>(path, statistics).
      and_then (collect (\<lambda>d. parse_delete_file (sc_urls S) d base) (group_of deletes i)) (\<lambda>ds.
        Ok \<lparr>sdf_path = path, sdf_encryption_key = ddf_encryption_key row, sdf_statistics = statistics,
            sdf_delete_files = ds, sdf_inline_deletes = im_get inline i\<rparr>)))"

definition scan_table_inner ::
  "scan_env \<Rightarrow> date_time_utc \<Rightarrow> snapshot_info \<Rightarrow> store \<Rightarrow> i64 \<Rightarrow> i64 \<Rightarrow> ducklake_path \<Rightarrow> table_scan result"
where
  "scan_table_inner S epoch current db table n base =
     and_then (catalog_load (sc_text S) (sc_urls S) db n) (\<lambda>c.
     and_then (table_by_id c table) (\<lambda>r.
     and_then (table_inner c r) (\<lambda>t.
     and_then (column_data_types (ct_columns t)) (\<lambda>dtypes.
     and_then (table_schema c r) (\<lambda>target.
     and_then (collect (scan_inlined_table S epoch current db table n target) (inlined_data_tables_query table db)) (\<lambda>batches.
       let files = data_files_query table n db;
           stats = group_map_by dfcs_data_file_id (column_stats_query table n db);
           deletes = group_map_by ddel_data_file_id (delete_files_query table n db);
           inline = fold (\<lambda>d. group_push (did_file_id d) (did_row_id d)) (inlined_deletes_query table n db) [] in
       and_then (collect (scan_file S dtypes base stats deletes inline) files) (\<lambda>scanned.
         Ok \<lparr>tsc_result = \<lparr>scr_data_files = scanned, scr_inline_data = filter (\<lambda>b. sc_num_rows S b > 0) batches\<rparr>,
             tsc_file_partition_ids = map (\<lambda>f. (ddf_data_file_id f, ddf_partition_id f)) files\<rparr>)))))))"

definition scan_table ::
  "scan_env \<Rightarrow> date_time_utc \<Rightarrow> snapshot_info \<Rightarrow> store \<Rightarrow> i64 \<Rightarrow> i64 \<Rightarrow> ducklake_path \<Rightarrow> scan_result result"
where
  "scan_table S epoch current db table n base =
     and_then (scan_table_inner S epoch current db table n base) (\<lambda>s. Ok (tsc_result s))"

text \<open>The values of the files of the current partitioning; a group is used once.\<close>

fun take_partition_values ::
  "i64 option \<Rightarrow> (i64 \<times> i64 option) list \<Rightarrow> (i64, ducklake_file_partition_value list) imap \<Rightarrow> string option list option list"
where
  "take_partition_values current [] groups = []"
| "take_partition_values current ((file, part) # fs) groups =
     (if part \<noteq> None \<and> part = current
      then Some (map dfpv_partition_value (sort_key dfpv_partition_key_index (group_of groups file)))
             # take_partition_values current fs (im_remove file groups)
      else None # take_partition_values current fs groups)"

definition scan_table_for_transfer ::
  "scan_env \<Rightarrow> date_time_utc \<Rightarrow> snapshot_info \<Rightarrow> store \<Rightarrow> i64 \<Rightarrow> i64 \<Rightarrow> ducklake_path \<Rightarrow> table_transfer_scan result"
where
  "scan_table_for_transfer S epoch current db table n base =
     and_then (catalog_load (sc_text S) (sc_urls S) db n) (\<lambda>c.
     and_then (table_by_id c table) (\<lambda>r.
     and_then (partition_id c r) (\<lambda>part.
     and_then (scan_table_inner S epoch current db table n base) (\<lambda>s.
       Ok \<lparr>tts_result = tsc_result s,
           tts_partition_values = take_partition_values part (tsc_file_partition_ids s)
             (group_map_by dfpv_data_file_id (partition_values_query table db))\<rparr>))))"

end
