(* ===== verification/Expiry_Safety.thy ===== *)
theory Expiry_Safety
  imports Maintenance Load_Simulation Scan
begin

text \<open>
  What expiring snapshots leaves: the remaining snapshots load to the same catalogs and reach the same
  files, and the files that are scheduled for deletion are the ones no remaining snapshot reaches.
\<close>

section \<open>Runs of the statements\<close>

lemma delete_from_app: "delete_from put cond l = (put (filter (\<lambda>r. \<not> cond l r)) l, Ok ())"
  by (simp add: delete_from_def update_def)

lemma lookup_table_Ok [simp]: "lookup_table_new d ids = Ok ids"
proof -
  have "insert_rows d 1 (\<lambda>_. True) ids [] = (ids, Ok ())"
    using insert_rows_whole [of 1 d "\<lambda>_. True" ids "[]"] by (cases d) (simp_all add: max_bind_params_def)
  then show ?thesis by (simp add: lookup_table_new_def)
qed

lemma insert_scheduled [simp]: "insert_entities d 4 rows t = (t @ rows, Ok ())"
  unfolding insert_entities_def by (rule insert_rows_whole) (cases d; simp add: max_bind_params_def)+

lemma drop_tables_run:
  "for_each drop_inlined_data_table names l = (l', Ok ()) \<Longrightarrow> \<exists>ts. l' = l\<lparr>lk_db := (lk_db l)\<lparr>db_inline_tables := ts\<rparr>\<rparr>"
proof (induction names arbitrary: l)
  case Nil
  then show ?case by (auto simp: ret_def intro!: exI [of _ "db_inline_tables (lk_db l)"])
next
  case (Cons n ns)
  then obtain l1 where first: "drop_inlined_data_table n l = (l1, Ok ())" and rest: "for_each drop_inlined_data_table ns l1 = (l', Ok ())"
    by (auto elim!: seq_OkE)
  from first have "l1 = l\<lparr>lk_db := (lk_db l)\<lparr>db_inline_tables := im_remove n (db_inline_tables (lk_db l))\<rparr>\<rparr>"
    by (auto simp: drop_inlined_data_table_def seq_app update_def raise_def in_db_def split: if_splits)
  with Cons.IH [OF rest] show ?case by auto
qed

lemma delete_tables_fields:
  assumes "delete_tables T l = (l', Ok ())"
  shows "db_tables (lk_db l') = filter (\<lambda>r. dt_table_id r \<notin> set T) (db_tables (lk_db l))"
    and "db_columns (lk_db l') = filter (\<lambda>r. dc_table_id r \<notin> set T) (db_columns (lk_db l))"
    and "db_column_tags (lk_db l') = filter (\<lambda>r. dct_table_id r \<notin> set T) (db_column_tags (lk_db l))"
    and "db_partition_info (lk_db l') = filter (\<lambda>r. dpi_table_id r \<notin> set T) (db_partition_info (lk_db l))"
    and "db_partition_columns (lk_db l') = filter (\<lambda>r. dpc_table_id r \<notin> set T) (db_partition_columns (lk_db l))"
    and "db_sort_info (lk_db l') = filter (\<lambda>r. dsi_table_id r \<notin> set T) (db_sort_info (lk_db l))"
    and "db_sort_expressions (lk_db l') = filter (\<lambda>r. dse_table_id r \<notin> set T) (db_sort_expressions (lk_db l))"
    and "db_snapshots (lk_db l') = db_snapshots (lk_db l)" "db_schemas (lk_db l') = db_schemas (lk_db l)"
    and "db_views (lk_db l') = db_views (lk_db l)" "db_macros (lk_db l') = db_macros (lk_db l)"
    and "db_macro_impls (lk_db l') = db_macro_impls (lk_db l)" "db_macro_parameters (lk_db l') = db_macro_parameters (lk_db l)"
    and "db_tags (lk_db l') = db_tags (lk_db l)" "db_data_files (lk_db l') = db_data_files (lk_db l)"
    and "db_delete_files (lk_db l') = db_delete_files (lk_db l)" "lk_scheduled l' = lk_scheduled l"
    and "db_file_column_stats (lk_db l') = db_file_column_stats (lk_db l)"
    and "db_partition_values (lk_db l') = db_partition_values (lk_db l)"
proof -
  from assms obtain l1 where drops: "for_each drop_inlined_data_table
      (map didt_table_name (filter (\<lambda>r. condition_is_in T (didt_table_id r)) (db_inlined_data_tables (lk_db l)))) l = (l1, Ok ())"
    by (auto simp: delete_tables_def Let_def elim!: seq_OkE)
  with drop_tables_run obtain ts where l1: "l1 = l\<lparr>lk_db := (lk_db l)\<lparr>db_inline_tables := ts\<rparr>\<rparr>" by blast
  note run = assms [unfolded delete_tables_def Let_def seq_app query_app fst_conv snd_conv res.case condition_is_in_def
      drops [unfolded condition_is_in_def] delete_from_app in_db_def l1, symmetric]
  note l' = arg_cong [OF run, of fst, unfolded fst_conv]
  show "db_tables (lk_db l') = filter (\<lambda>r. dt_table_id r \<notin> set T) (db_tables (lk_db l))"
    "db_columns (lk_db l') = filter (\<lambda>r. dc_table_id r \<notin> set T) (db_columns (lk_db l))"
    "db_column_tags (lk_db l') = filter (\<lambda>r. dct_table_id r \<notin> set T) (db_column_tags (lk_db l))"
    "db_partition_info (lk_db l') = filter (\<lambda>r. dpi_table_id r \<notin> set T) (db_partition_info (lk_db l))"
    "db_partition_columns (lk_db l') = filter (\<lambda>r. dpc_table_id r \<notin> set T) (db_partition_columns (lk_db l))"
    "db_sort_info (lk_db l') = filter (\<lambda>r. dsi_table_id r \<notin> set T) (db_sort_info (lk_db l))"
    "db_sort_expressions (lk_db l') = filter (\<lambda>r. dse_table_id r \<notin> set T) (db_sort_expressions (lk_db l))"
    "db_snapshots (lk_db l') = db_snapshots (lk_db l)" "db_schemas (lk_db l') = db_schemas (lk_db l)"
    "db_views (lk_db l') = db_views (lk_db l)" "db_macros (lk_db l') = db_macros (lk_db l)"
    "db_macro_impls (lk_db l') = db_macro_impls (lk_db l)" "db_macro_parameters (lk_db l') = db_macro_parameters (lk_db l)"
    "db_tags (lk_db l') = db_tags (lk_db l)" "db_data_files (lk_db l') = db_data_files (lk_db l)"
    "db_delete_files (lk_db l') = db_delete_files (lk_db l)" "lk_scheduled l' = lk_scheduled l"
    "db_file_column_stats (lk_db l') = db_file_column_stats (lk_db l)"
    "db_partition_values (lk_db l') = db_partition_values (lk_db l)"
    unfolding l' by simp_all
qed

lemma mark_fields:
  assumes "mark_data_files_for_deletion M c l = (l', Ok ())"
  defines "files \<equiv> expired_data_files l @ expired_delete_files l"
  shows "db_data_files (lk_db l') = filter (\<lambda>r. ddf_data_file_id r \<notin> fst ` set files) (db_data_files (lk_db l))"
    and "db_delete_files (lk_db l') = filter (\<lambda>r. ddel_delete_file_id r \<notin> fst ` set files) (db_delete_files (lk_db l))"
    and "\<exists>paths rows. collect (\<lambda>i. and_then (table_data_path M c (lk_db l) i) (\<lambda>p. Ok (i, p))) (unique (map (\<lambda>f. fst (snd f)) files)) = Ok paths
      \<and> collect (file_scheduled M paths) files = Ok rows \<and> lk_scheduled l' = lk_scheduled l @ rows"
    and "l' = l\<lparr>lk_scheduled := lk_scheduled l', lk_db := (lk_db l)\<lparr>db_data_files := db_data_files (lk_db l'),
      db_delete_files := db_delete_files (lk_db l')\<rparr>\<rparr>"
proof -
  from assms(1) obtain paths rows where paths: "collect (\<lambda>i. and_then (table_data_path M c (lk_db l) i) (\<lambda>p. Ok (i, p)))
      (unique (map (\<lambda>f. fst (snd f)) files)) = Ok paths" and rows: "collect (file_scheduled M paths) files = Ok rows"
    by (auto simp: mark_data_files_for_deletion_def files_def lift_res_def elim!: seq_OkE)
  note run = assms(1) [unfolded mark_data_files_for_deletion_def seq_app query_app fst_conv snd_conv res.case
      files_def [symmetric] paths lift_res_def rows on_table_def Let_def case_prod_beta insert_scheduled lookup_table_Ok delete_from_app
      in_db_def condition_is_in_def set_map, symmetric]
  note l' = arg_cong [OF run, of fst, unfolded fst_conv]
  show "db_data_files (lk_db l') = filter (\<lambda>r. ddf_data_file_id r \<notin> fst ` set files) (db_data_files (lk_db l))"
    "db_delete_files (lk_db l') = filter (\<lambda>r. ddel_delete_file_id r \<notin> fst ` set files) (db_delete_files (lk_db l))"
    unfolding l' by simp_all
  have "lk_scheduled l' = lk_scheduled l @ rows" unfolding l' by simp
  with paths rows show "\<exists>paths rows. collect (\<lambda>i. and_then (table_data_path M c (lk_db l) i) (\<lambda>p. Ok (i, p))) (unique (map (\<lambda>f. fst (snd f)) files)) = Ok paths
      \<and> collect (file_scheduled M paths) files = Ok rows \<and> lk_scheduled l' = lk_scheduled l @ rows"
    by blast
  show "l' = l\<lparr>lk_scheduled := lk_scheduled l', lk_db := (lk_db l)\<lparr>db_data_files := db_data_files (lk_db l'),
      db_delete_files := db_delete_files (lk_db l')\<rparr>\<rparr>"
    unfolding l' by (cases l; cases "lk_db l") simp
qed

lemma no_reference: "condition_not_exists_in_reference k (map f xs) \<longleftrightarrow> k \<notin> f ` set xs"
  by (auto simp: condition_not_exists_in_reference_def list_ex_iff)

lemma objects_run:
  assumes "delete_expired_catalog_objects l = (l', Ok ())"
  shows "db_schemas (lk_db l') = filter (\<lambda>r. \<not> inactive l (dsc_begin_snapshot r) (dsc_end_snapshot r)) (db_schemas (lk_db l))
    \<and> db_tags (lk_db l') = filter (\<lambda>r. \<not> inactive l (dtg_begin_snapshot r) (dtg_end_snapshot r)) (db_tags (lk_db l))
    \<and> db_macros (lk_db l') = filter (\<lambda>r. \<not> inactive l (dma_begin_snapshot r) (dma_end_snapshot r)) (db_macros (lk_db l))
    \<and> db_views (lk_db l') = filter (\<lambda>r. \<not> inactive l (dv_begin_snapshot r) (dv_end_snapshot r)) (db_views (lk_db l))
    \<and> db_macro_impls (lk_db l') = filter (\<lambda>r. dmi_macro_id r \<in> dma_macro_id ` set (db_macros (lk_db l'))) (db_macro_impls (lk_db l))
    \<and> db_macro_parameters (lk_db l') = filter (\<lambda>r. dmp_macro_id r \<in> dma_macro_id ` set (db_macros (lk_db l'))) (db_macro_parameters (lk_db l))
    \<and> db_snapshots (lk_db l') = db_snapshots (lk_db l)
    \<and> db_tables (lk_db l') = db_tables (lk_db l)
    \<and> db_columns (lk_db l') = db_columns (lk_db l)
    \<and> db_column_tags (lk_db l') = db_column_tags (lk_db l)
    \<and> db_partition_info (lk_db l') = db_partition_info (lk_db l)
    \<and> db_partition_columns (lk_db l') = db_partition_columns (lk_db l)
    \<and> db_sort_info (lk_db l') = db_sort_info (lk_db l)
    \<and> db_sort_expressions (lk_db l') = db_sort_expressions (lk_db l)
    \<and> db_data_files (lk_db l') = db_data_files (lk_db l)
    \<and> db_delete_files (lk_db l') = db_delete_files (lk_db l)
    \<and> lk_scheduled l' = lk_scheduled l
    \<and> db_file_column_stats (lk_db l') = filter (\<lambda>r. dfcs_data_file_id r \<in> ddf_data_file_id ` set (db_data_files (lk_db l))) (db_file_column_stats (lk_db l))
    \<and> db_partition_values (lk_db l') = filter (\<lambda>r. dfpv_data_file_id r \<in> ddf_data_file_id ` set (db_data_files (lk_db l))) (db_partition_values (lk_db l))"
  using assms
  by (auto simp: delete_expired_catalog_objects_def seq_app delete_from_app in_db_def inactive_def no_reference simp del: set_filter)

lemma objects_fields:
  assumes "delete_expired_catalog_objects l = (l', Ok ())"
  shows "db_schemas (lk_db l') = filter (\<lambda>r. \<not> inactive l (dsc_begin_snapshot r) (dsc_end_snapshot r)) (db_schemas (lk_db l))"
    and "db_tags (lk_db l') = filter (\<lambda>r. \<not> inactive l (dtg_begin_snapshot r) (dtg_end_snapshot r)) (db_tags (lk_db l))"
    and "db_macros (lk_db l') = filter (\<lambda>r. \<not> inactive l (dma_begin_snapshot r) (dma_end_snapshot r)) (db_macros (lk_db l))"
    and "db_views (lk_db l') = filter (\<lambda>r. \<not> inactive l (dv_begin_snapshot r) (dv_end_snapshot r)) (db_views (lk_db l))"
    and "db_macro_impls (lk_db l') = filter (\<lambda>r. dmi_macro_id r \<in> dma_macro_id ` set (db_macros (lk_db l'))) (db_macro_impls (lk_db l))"
    and "db_macro_parameters (lk_db l') = filter (\<lambda>r. dmp_macro_id r \<in> dma_macro_id ` set (db_macros (lk_db l'))) (db_macro_parameters (lk_db l))"
    and "db_snapshots (lk_db l') = db_snapshots (lk_db l)" "db_tables (lk_db l') = db_tables (lk_db l)"
    and "db_columns (lk_db l') = db_columns (lk_db l)" "db_column_tags (lk_db l') = db_column_tags (lk_db l)"
    and "db_partition_info (lk_db l') = db_partition_info (lk_db l)" "db_partition_columns (lk_db l') = db_partition_columns (lk_db l)"
    and "db_sort_info (lk_db l') = db_sort_info (lk_db l)" "db_sort_expressions (lk_db l') = db_sort_expressions (lk_db l)"
    and "db_data_files (lk_db l') = db_data_files (lk_db l)" "db_delete_files (lk_db l') = db_delete_files (lk_db l)"
    and "lk_scheduled l' = lk_scheduled l"
    and "db_file_column_stats (lk_db l') = filter (\<lambda>r. dfcs_data_file_id r \<in> ddf_data_file_id ` set (db_data_files (lk_db l))) (db_file_column_stats (lk_db l))"
    and "db_partition_values (lk_db l') = filter (\<lambda>r. dfpv_data_file_id r \<in> ddf_data_file_id ` set (db_data_files (lk_db l))) (db_partition_values (lk_db l))"
  using objects_run [OF assms] by - (elim conjE, assumption)+

section \<open>An expiry\<close>

definition remaining :: "i64 list \<Rightarrow> lake \<Rightarrow> ducklake_snapshot list" where
  "remaining ids l = filter (\<lambda>s. dsn_snapshot_id s \<notin> set ids) (db_snapshots (lk_db l))"

text \<open>A visible row is reached by a remaining snapshot, so it is not deleted.\<close>

lemma visible_not_gone:
  "n \<in> dsn_snapshot_id ` set ss \<Longrightarrow> visible_at b e n \<Longrightarrow> \<not> condition_inactive_snapshot ss b e"
  by (auto simp: visible_at_def condition_inactive_snapshot_def list_ex_iff split: option.splits)

lemma filter_visible:
  assumes n: "n \<in> dsn_snapshot_id ` set ss"
  shows "filter (\<lambda>r. visible_at (b r) (e r) n) (filter (\<lambda>r. \<not> condition_inactive_snapshot ss (b r) (e r)) rows)
      = filter (\<lambda>r. visible_at (b r) (e r) n) rows"
  using visible_not_gone [OF n] by (induction rows) auto

lemma expire_steps:
  assumes "expire_snapshot_ids M c ids l = (l', Ok ())"
  obtains l1 T l2 l3 where "l1 = l\<lparr>lk_db := (lk_db l)\<lparr>db_snapshots := remaining ids l\<rparr>\<rparr>"
    and "find_expired_tables (mt_dialect M) l1 = Ok T" and "mark_data_files_for_deletion M c l1 = (l2, Ok ())"
    and "delete_tables T l2 = (l3, Ok ())" and "delete_expired_catalog_objects l3 = (l', Ok ())"
proof -
  from assms obtain l1 T l2 l3 where steps: "delete_snapshots ids l = (l1, Ok ())"
    "find_expired_tables (mt_dialect M) l1 = Ok T" "mark_data_files_for_deletion M c l1 = (l2, Ok ())"
    "delete_tables T l2 = (l3, Ok ())" "delete_expired_catalog_objects l3 = (l', Ok ())"
    by (auto simp: expire_snapshot_ids_def elim!: seq_OkE)
  from steps(1) have "l1 = l\<lparr>lk_db := (lk_db l)\<lparr>db_snapshots := remaining ids l\<rparr>\<rparr>"
    by (cases l; cases "lk_db l") (auto simp: delete_snapshots_def delete_from_app in_db_def condition_is_in_def remaining_def)
  with steps(2-) that show thesis by blast
qed

lemma expired_tables_gone:
  assumes "find_expired_tables d l = Ok T" and "t \<in> set (db_tables (lk_db l))" and "dt_table_id t \<in> set T"
  shows "inactive l (dt_begin_snapshot t) (dt_end_snapshot t)"
  using assms by (auto simp: find_expired_tables_def Let_def list_ex_iff)

lemma expire_snapshots_left:
  assumes "expire_snapshot_ids M c ids l = (l', Ok ())"
  shows "db_snapshots (lk_db l') = remaining ids l"
proof -
  from assms obtain l1 T l2 l3 where l1: "l1 = l\<lparr>lk_db := (lk_db l)\<lparr>db_snapshots := remaining ids l\<rparr>\<rparr>"
    and mark: "mark_data_files_for_deletion M c l1 = (l2, Ok ())"
    and del: "delete_tables T l2 = (l3, Ok ())" and obj: "delete_expired_catalog_objects l3 = (l', Ok ())"
    by (rule expire_steps)
  from arg_cong [OF mark_fields(4) [OF mark], of lk_db] obtain X Y where
    "lk_db l2 = (lk_db l1)\<lparr>db_data_files := X, db_delete_files := Y\<rparr>" by simp
  then show ?thesis by (simp add: objects_fields [OF obj] delete_tables_fields [OF del] l1)
qed

lemma expire_agrees:
  assumes run: "expire_snapshot_ids M c ids l = (l', Ok ())" and n: "n \<in> dsn_snapshot_id ` set (remaining ids l)"
  shows "\<exists>D. agree_at n D (lk_db l) (lk_db l')"
proof -
  from run obtain l1 T l2 l3 where l1: "l1 = l\<lparr>lk_db := (lk_db l)\<lparr>db_snapshots := remaining ids l\<rparr>\<rparr>"
    and T: "find_expired_tables (mt_dialect M) l1 = Ok T" and mark: "mark_data_files_for_deletion M c l1 = (l2, Ok ())"
    and del: "delete_tables T l2 = (l3, Ok ())" and obj: "delete_expired_catalog_objects l3 = (l', Ok ())"
    by (rule expire_steps)
  have l2: "l2 = l1\<lparr>lk_scheduled := lk_scheduled l2, lk_db := (lk_db l1)\<lparr>db_data_files := db_data_files (lk_db l2),
      db_delete_files := db_delete_files (lk_db l2)\<rparr>\<rparr>"
    by (rule mark_fields(4) [OF mark])
  from arg_cong [OF l2, of lk_db] obtain X Y where rest: "lk_db l2 = (lk_db l1)\<lparr>db_data_files := X, db_delete_files := Y\<rparr>"
    by simp
  note fields = objects_fields [OF obj] delete_tables_fields [OF del]
  have snaps: "db_snapshots (lk_db l3) = remaining ids l" by (simp add: fields rest l1)
  have gone: "inactive l3 = condition_inactive_snapshot (remaining ids l)" "inactive l1 = condition_inactive_snapshot (remaining ids l)"
    by (simp_all add: inactive_def snaps l1)
  note vis = filter_visible [OF n]
  have dbt: "db_tables (lk_db l1) = db_tables (lk_db l)" by (simp add: l1)
  have tabs: "dt_table_id t \<notin> set T" if "t \<in> set (db_tables (lk_db l))" "visible_at (dt_begin_snapshot t) (dt_end_snapshot t) n" for t
    using expired_tables_gone [OF T, of t] visible_not_gone [OF n] that by (auto simp: dbt gone)
  have macros: "macros_at n (lk_db l') = macros_at n (lk_db l)" by (simp add: macros_at_def fields gone vis rest l1 del: filter_filter)
  have "dma_macro_id ` set (macros_at n (lk_db l)) \<subseteq> dma_macro_id ` set (db_macros (lk_db l'))"
    unfolding macros [symmetric] by (auto simp: macros_at_def)
  then have impls: "filter (\<lambda>r. f r \<in> dma_macro_id ` set (macros_at n (lk_db l))) (filter (\<lambda>r. f r \<in> dma_macro_id ` set (db_macros (lk_db l'))) rs)
      = filter (\<lambda>r. f r \<in> dma_macro_id ` set (macros_at n (lk_db l))) rs" for f and rs :: "'z list"
    by (auto intro!: filter_cong)
  have "db_macro_impls (lk_db l3) = db_macro_impls (lk_db l)" "db_macro_parameters (lk_db l3) = db_macro_parameters (lk_db l)"
    by (simp_all add: fields rest l1)
  note impls' = objects_fields(5,6) [OF obj, unfolded this]
  have "alike (set T) (fetch_groups n (lk_db l)) (fetch_groups n (lk_db l'))"
  proof -
    have by_table: "filter (\<lambda>r. f r = k) (filter P (filter (\<lambda>r. f r \<notin> set T) rs)) = filter (\<lambda>r. f r = k) (filter P rs)"
      if "k \<notin> set T" for k P and f :: "'z \<Rightarrow> i64" and rs
      using that by (induction rs) auto
    have own: "filter (\<lambda>r. f r = k) (filter (\<lambda>r. f r \<notin> set T) rs) = filter (\<lambda>r. f r = k) rs"
      if "k \<notin> set T" for k and f :: "'z \<Rightarrow> i64" and rs
      using that by (induction rs) auto
    have sorts: "filter (\<lambda>e. dse_sort_id e = s) (filter (\<lambda>e. dse_table_id e = k) (filter (\<lambda>e. dse_sort_id e \<in> S) es))
        = filter (\<lambda>e. dse_sort_id e = s) (filter (\<lambda>e. dse_table_id e = k) (filter (\<lambda>e. dse_sort_id e \<in> S') (filter (\<lambda>e. dse_table_id e \<notin> set T) es)))"
      if "k \<notin> set T" "s \<in> S" "s \<in> S'" for k s S S' es
      using that by (induction es) auto
    show ?thesis
      unfolding alike_def
    proof (intro conjI allI impI ballI)
      fix k i assume k: "k \<notin> set T" and i: "i \<in> set (group_of (lg_sort_infos (fetch_groups n (lk_db l))) k)"
      show "filter (\<lambda>e. dse_sort_id e = dsi_sort_id i) (group_of (lg_sort_expressions (fetch_groups n (lk_db l))) k)
          = filter (\<lambda>e. dse_sort_id e = dsi_sort_id i) (group_of (lg_sort_expressions (fetch_groups n (lk_db l'))) k)"
        using i k by (simp add: fetch_groups_def Let_def fields rest l1 del: filter_filter, intro sorts)
          (auto simp: sort_infos_at_def fields rest l1 simp del: filter_filter)
    qed (simp_all add: fetch_groups_def Let_def macros impls' impls by_table own
        objects_fields(1,2,4,7-19) [OF obj] delete_tables_fields [OF del] rest l1 sort_infos_at_def gone vis del: filter_filter)
  qed
  moreover have "tables_at n (lk_db l') = tables_at n (lk_db l)"
    using tabs by (auto simp: tables_at_def fields rest l1 intro!: filter_cong)
  ultimately show "\<exists>D. agree_at n D (lk_db l) (lk_db l')"
    using tabs by (intro exI [of _ "set T"])
      (auto simp: agree_at_def macros schemas_at_def views_at_def tables_at_def fields gone vis rest l1 simp del: filter_filter)
qed

section \<open>Files\<close>

definition file_ids_ok :: "store \<Rightarrow> bool" where
  "file_ids_ok db \<longleftrightarrow> distinct (map ddf_data_file_id (db_data_files db) @ map ddel_delete_file_id (db_delete_files db))"

lemma filter_by_ids:
  assumes "distinct (map f xs)" and "S \<inter> f ` set xs = {}"
  shows "filter (\<lambda>x. f x \<notin> f ` set (filter P xs) \<union> S) xs = filter (\<lambda>x. \<not> P x) xs"
  using assms by (auto intro!: filter_cong simp: distinct_map dest: inj_onD)

lemma file_scheduled_id: "file_scheduled M paths f = Ok row \<Longrightarrow> dfsd_data_file_id row = fst f"
  by (cases f) (auto simp: file_scheduled_def elim!: and_then.elims dest: sym)

lemma scheduled_ids: "collect (file_scheduled M paths) files = Ok rows \<Longrightarrow> map dfsd_data_file_id rows = map fst files"
  by (induction files arbitrary: rows) (auto elim!: and_then.elims dest!: sym [of "Ok _"] file_scheduled_id)

lemma expire_files:
  fixes l
  assumes run: "expire_snapshot_ids M c ids l = (l', Ok ())" and ids: "file_ids_ok (lk_db l)"
  defines "gone \<equiv> condition_inactive_snapshot (remaining ids l)"
  shows "db_data_files (lk_db l') = filter (\<lambda>r. \<not> gone (ddf_begin_snapshot r) (ddf_end_snapshot r)) (db_data_files (lk_db l))"
    and "db_delete_files (lk_db l') = filter (\<lambda>r. \<not> gone (ddel_begin_snapshot r) (ddel_end_snapshot r)) (db_delete_files (lk_db l))"
    and "db_file_column_stats (lk_db l') = filter (\<lambda>r. dfcs_data_file_id r \<in> ddf_data_file_id ` set (db_data_files (lk_db l'))) (db_file_column_stats (lk_db l))"
    and "db_partition_values (lk_db l') = filter (\<lambda>r. dfpv_data_file_id r \<in> ddf_data_file_id ` set (db_data_files (lk_db l'))) (db_partition_values (lk_db l))"
    and "\<exists>rows. lk_scheduled l' = lk_scheduled l @ rows \<and> map dfsd_data_file_id rows =
       map ddf_data_file_id (filter (\<lambda>r. gone (ddf_begin_snapshot r) (ddf_end_snapshot r)) (db_data_files (lk_db l)))
       @ map ddel_delete_file_id (filter (\<lambda>r. gone (ddel_begin_snapshot r) (ddel_end_snapshot r)) (db_delete_files (lk_db l)))"
proof -
  from run obtain l1 T l2 l3 where l1: "l1 = l\<lparr>lk_db := (lk_db l)\<lparr>db_snapshots := remaining ids l\<rparr>\<rparr>"
    and mark: "mark_data_files_for_deletion M c l1 = (l2, Ok ())"
    and del: "delete_tables T l2 = (l3, Ok ())" and obj: "delete_expired_catalog_objects l3 = (l', Ok ())"
    by (rule expire_steps)
  let ?D = "db_data_files (lk_db l)" and ?E = "db_delete_files (lk_db l)"
  let ?d = "filter (\<lambda>r. gone (ddf_begin_snapshot r) (ddf_end_snapshot r)) ?D"
  let ?e = "filter (\<lambda>r. gone (ddel_begin_snapshot r) (ddel_end_snapshot r)) ?E"
  have files: "map fst (expired_data_files l1) = map ddf_data_file_id ?d" "map fst (expired_delete_files l1) = map ddel_delete_file_id ?e"
    by (simp_all add: expired_data_files_def expired_delete_files_def inactive_def gone_def l1 comp_def)
  then have set_files: "fst ` set (expired_data_files l1) = ddf_data_file_id ` set ?d" "fst ` set (expired_delete_files l1) = ddel_delete_file_id ` set ?e"
    by (metis list.set_map)+
  from ids have dist: "distinct (map ddf_data_file_id ?D)" "distinct (map ddel_delete_file_id ?E)"
    and sep: "ddel_delete_file_id ` set ?e \<inter> ddf_data_file_id ` set ?D = {}" "ddf_data_file_id ` set ?d \<inter> ddel_delete_file_id ` set ?E = {}"
    by (auto simp: file_ids_ok_def)
  have same: "db_data_files (lk_db l1) = ?D" "db_delete_files (lk_db l1) = ?E" by (simp_all add: l1)
  have D: "db_data_files (lk_db l2) = filter (\<lambda>r. \<not> gone (ddf_begin_snapshot r) (ddf_end_snapshot r)) ?D"
    unfolding mark_fields(1) [OF mark] same set_append image_Un set_files by (rule filter_by_ids [OF dist(1) sep(1)])
  have E: "db_delete_files (lk_db l2) = filter (\<lambda>r. \<not> gone (ddel_begin_snapshot r) (ddel_end_snapshot r)) ?E"
    unfolding mark_fields(2) [OF mark] same set_append image_Un set_files
    by (subst Un_commute) (rule filter_by_ids [OF dist(2) sep(2)])
  from arg_cong [OF mark_fields(4) [OF mark], of lk_db] obtain X Y where
    rest: "lk_db l2 = (lk_db l1)\<lparr>db_data_files := X, db_delete_files := Y\<rparr>" by simp
  have rest_scheduled: "lk_scheduled l1 = lk_scheduled l" by (simp add: l1)
  note fields = objects_fields [OF obj] delete_tables_fields [OF del]
  have files': "db_data_files (lk_db l') = db_data_files (lk_db l2)" by (simp add: fields)
  with D show "db_data_files (lk_db l') = filter (\<lambda>r. \<not> gone (ddf_begin_snapshot r) (ddf_end_snapshot r)) ?D" by simp
  show "db_delete_files (lk_db l') = filter (\<lambda>r. \<not> gone (ddel_begin_snapshot r) (ddel_end_snapshot r)) ?E"
    using E by (simp add: fields)
  have "db_file_column_stats (lk_db l3) = db_file_column_stats (lk_db l)" "db_partition_values (lk_db l3) = db_partition_values (lk_db l)"
    by (simp_all add: fields rest l1)
  moreover have "db_data_files (lk_db l3) = db_data_files (lk_db l')" by (simp add: fields)
  ultimately show "db_file_column_stats (lk_db l') = filter (\<lambda>r. dfcs_data_file_id r \<in> ddf_data_file_id ` set (db_data_files (lk_db l'))) (db_file_column_stats (lk_db l))"
    "db_partition_values (lk_db l') = filter (\<lambda>r. dfpv_data_file_id r \<in> ddf_data_file_id ` set (db_data_files (lk_db l'))) (db_partition_values (lk_db l))"
    using objects_fields(18,19) [OF obj] by simp_all
  from mark_fields(3) [OF mark] obtain paths rows where
    rows: "collect (file_scheduled M paths) (expired_data_files l1 @ expired_delete_files l1) = Ok rows"
    "lk_scheduled l2 = lk_scheduled l1 @ rows" by blast
  with scheduled_ids [OF rows(1)] show "\<exists>rows. lk_scheduled l' = lk_scheduled l @ rows
      \<and> map dfsd_data_file_id rows = map ddf_data_file_id ?d @ map ddel_delete_file_id ?e"
    unfolding map_append files by (intro exI [of _ rows] conjI) (simp_all add: fields rest_scheduled)
qed

text \<open>What a scan of a table at a remaining snapshot reads.\<close>

lemma expire_scans:
  assumes run: "expire_snapshot_ids M c ids l = (l', Ok ())" and ids: "file_ids_ok (lk_db l)"
    and n: "n \<in> dsn_snapshot_id ` set (remaining ids l)"
  shows "data_files_query t n (lk_db l') = data_files_query t n (lk_db l)"
    and "delete_files_query t n (lk_db l') = delete_files_query t n (lk_db l)"
    and "column_stats_query t n (lk_db l') = column_stats_query t n (lk_db l)"
proof -
  note files = expire_files [OF run ids] and vis = filter_visible [OF n]
  have at: "filter (\<lambda>r. f r = t \<and> visible_at (b r) (e r) n) (filter (\<lambda>r. \<not> condition_inactive_snapshot (remaining ids l) (b r) (e r)) rows)
      = filter (\<lambda>r. f r = t \<and> visible_at (b r) (e r) n) rows" for f b e and rows :: "'z list"
    using visible_not_gone [OF n] by (induction rows) auto
  show "data_files_query t n (lk_db l') = data_files_query t n (lk_db l)" "delete_files_query t n (lk_db l') = delete_files_query t n (lk_db l)"
    by (simp_all only: data_files_query_def delete_files_query_def files at)
  have inner: "concat (map (\<lambda>r. if k = ddf_data_file_id r then if t' \<and> visible_at (ddf_begin_snapshot r) (ddf_end_snapshot r) n then [s] else [] else [])
        (filter (\<lambda>r. \<not> condition_inactive_snapshot (remaining ids l) (ddf_begin_snapshot r) (ddf_end_snapshot r)) rows))
      = concat (map (\<lambda>r. if k = ddf_data_file_id r then if t' \<and> visible_at (ddf_begin_snapshot r) (ddf_end_snapshot r) n then [s] else [] else []) rows)"
    for k t' rows and s :: ducklake_file_column_stats
    using visible_not_gone [OF n] by (induction rows) auto
  have outer: "concat (map (\<lambda>s. concat (map (\<lambda>r. if dfcs_data_file_id s = ddf_data_file_id r then g s r else []) rows))
        (filter (\<lambda>r. dfcs_data_file_id r \<in> ddf_data_file_id ` set rows) ss))
      = concat (map (\<lambda>s. concat (map (\<lambda>r. if dfcs_data_file_id s = ddf_data_file_id r then g s r else []) rows)) ss)"
    for g :: "ducklake_file_column_stats \<Rightarrow> ducklake_data_file \<Rightarrow> ducklake_file_column_stats list" and rows ss
    by (induction ss) (auto simp: image_iff)
  have "column_stats_query t n (lk_db l') = concat (map (\<lambda>s. concat (map (\<lambda>r. if dfcs_data_file_id s = ddf_data_file_id r
      then if dfcs_table_id s = t \<and> visible_at (ddf_begin_snapshot r) (ddf_end_snapshot r) n then [s] else [] else [])
        (db_data_files (lk_db l')))) (db_file_column_stats (lk_db l)))"
    unfolding column_stats_query_def files(3) outer ..
  also have "\<dots> = column_stats_query t n (lk_db l)" by (simp only: column_stats_query_def files(1) inner)
  finally show "column_stats_query t n (lk_db l') = column_stats_query t n (lk_db l)" .
qed

section \<open>The public operation\<close>

lemma expire_filtered_Ok:
  assumes "expire_snapshots_filtered M f DryRunNo latest commit_error l = (l', Ok xs)"
  obtains c snapshots where "latest = Ok c" and "find_expired_snapshots M f l = Ok snapshots"
    and "expire_snapshot_ids M c (map dsn_snapshot_id snapshots) l = (l', Ok ())"
    and "xs = map (\<lambda>s. \<lparr>sm_id = dsn_snapshot_id s, sm_timestamp = dsn_snapshot_time s\<rparr>) snapshots"
proof -
  from assms obtain c where c: "latest = Ok c"
    by (cases latest) (simp_all add: expire_snapshots_filtered_def)
  with assms have "seq (query (find_expired_snapshots M f)) (\<lambda>snapshots.
      seq (seq (lift_res (Ok c)) (\<lambda>c. seq (lift_res (lookup_table_new (mt_dialect M) (map dsn_snapshot_id snapshots))) (\<lambda>ids.
        expire_snapshot_ids M c ids))) (\<lambda>_.
      ret (map (\<lambda>s. \<lparr>sm_id = dsn_snapshot_id s, sm_timestamp = dsn_snapshot_time s\<rparr>) snapshots))) l = (l', Ok xs)"
    by (auto simp: expire_snapshots_filtered_def Let_def split: prod.splits res.splits option.splits)
  with c that show thesis by (auto simp: lift_res_def ret_def elim!: seq_OkE)
qed

lemma expire_filtered_restores:
  assumes "expire_snapshots_filtered M f dry latest commit_error l = (l', r)" and "dry = DryRunYes \<or> \<not> is_ok r"
  shows "l' = l"
  using assms by (auto simp: expire_snapshots_filtered_def Let_def split: prod.splits res.splits option.splits dry_run.splits if_splits)

lemma latest_not_expired:
  assumes "find_expired_snapshots M f l = Ok snapshots" and "s \<in> set (db_snapshots (lk_db l))"
    and "\<forall>s'\<in>set (db_snapshots (lk_db l)). dsn_snapshot_id s' \<le> dsn_snapshot_id s"
  shows "dsn_snapshot_id s \<notin> set (map dsn_snapshot_id snapshots)"
proof -
  have "Max (set (map dsn_snapshot_id (db_snapshots (lk_db l)))) = dsn_snapshot_id s"
    using assms(2,3) by (intro Max_eqI) auto
  with assms(1) show ?thesis by (auto simp: find_expired_snapshots_def Let_def elim!: and_then.elims)
qed

end
