(* ===== verification/Retention.thy ===== *)
theory Retention
  imports Metadata Cleanup Expiry_Safety
begin

text \<open>
  The maintenance operations with the ages of the configuration: \<open>Ducklake::expire_snapshots\<close>,
  \<open>cleanup_old_files\<close> and \<open>delete_orphaned_files\<close>. Subtracting an interval from a time is an operation
  of \<open>chrono\<close>, the parameter \<open>before\<close>, which panics when the time is out of range.
\<close>

type_synonym time_minus = "date_time_utc \<Rightarrow> interval \<Rightarrow> date_time_utc result"

definition expire_snapshots_older_than ::
  "maintenance_env \<Rightarrow> date_time_utc \<Rightarrow> dry_run \<Rightarrow> catalog result \<Rightarrow> ducklake_error option \<Rightarrow> snapshot_metadata list lake_op"
where
  "expire_snapshots_older_than M t = expire_snapshots_filtered M (OlderThan t)"

definition expire_snapshots_versions ::
  "maintenance_env \<Rightarrow> i64 list \<Rightarrow> dry_run \<Rightarrow> catalog result \<Rightarrow> ducklake_error option \<Rightarrow> snapshot_metadata list lake_op"
where
  "expire_snapshots_versions M vs = expire_snapshots_filtered M (Versions vs)"

definition expire_snapshots ::
  "maintenance_env \<Rightarrow> ext_text \<Rightarrow> time_minus \<Rightarrow> metadata \<Rightarrow> dry_run \<Rightarrow> catalog result \<Rightarrow> ducklake_error option
    \<Rightarrow> snapshot_metadata list lake_op"
where
  "expire_snapshots M X before m dry latest commit_error =
     seq (lift_res (expire_older_than X m)) (\<lambda>interval.
       case interval of
         None \<Rightarrow> ret []
       | Some i \<Rightarrow> seq (lift_res (before (mt_now M) i)) (\<lambda>t. expire_snapshots_older_than M t dry latest commit_error))"

definition cleanup_old_files :: "cleanup_env \<Rightarrow> ext_text \<Rightarrow> time_minus \<Rightarrow> metadata \<Rightarrow> dry_run \<Rightarrow> string list cleanup_op" where
  "cleanup_old_files C X before m dry =
     seq (lift_res (delete_older_than X m)) (\<lambda>i.
     seq (lift_res (before (mt_now (cu_maintenance C)) i)) (\<lambda>t. cleanup_old_files_filtered C (CleanupOlderThan t) dry))"

definition cleanup_old_files_older_than :: "cleanup_env \<Rightarrow> date_time_utc \<Rightarrow> dry_run \<Rightarrow> string list cleanup_op" where
  "cleanup_old_files_older_than C t = cleanup_old_files_filtered C (CleanupOlderThan t)"

definition cleanup_all_old_files :: "cleanup_env \<Rightarrow> dry_run \<Rightarrow> string list cleanup_op" where
  "cleanup_all_old_files C = cleanup_old_files_filtered C CleanupAll"

definition delete_orphaned_files ::
  "cleanup_env \<Rightarrow> ext_text \<Rightarrow> time_minus \<Rightarrow> metadata \<Rightarrow> catalog result \<Rightarrow> dry_run \<Rightarrow> string list cleanup_op"
where
  "delete_orphaned_files C X before m head dry =
     seq (lift_res (delete_older_than X m)) (\<lambda>i.
     seq (lift_res (before (mt_now (cu_maintenance C)) i)) (\<lambda>t. delete_orphaned_files_filtered C head (Some t) dry))"

definition delete_orphaned_files_older_than ::
  "cleanup_env \<Rightarrow> catalog result \<Rightarrow> date_time_utc \<Rightarrow> dry_run \<Rightarrow> string list cleanup_op"
where
  "delete_orphaned_files_older_than C head t = delete_orphaned_files_filtered C head (Some t)"

definition delete_all_orphaned_files :: "cleanup_env \<Rightarrow> catalog result \<Rightarrow> dry_run \<Rightarrow> string list cleanup_op" where
  "delete_all_orphaned_files C head = delete_orphaned_files_filtered C head None"

section \<open>Durations\<close>

text \<open>Nothing of a text that names no unit the parser knows is an error: it is the empty interval.\<close>

definition no_time :: "ext_text \<Rightarrow> interval" where
  "no_time X = \<lparr>iv_months = x_months_new X 0, iv_delta = x_delta_microseconds X 0\<rparr>"

definition duration_texts :: "string list" where
  "duration_texts = [''7d'', ''30d'', ''12h'', ''1 week'', ''3 hours'', ''never'']"

lemma durations_unmatched:
  "list_all (\<lambda>s. re_search (RE_UNIT ''year'') s = None \<and> re_search (RE_UNIT ''month'') s = None
     \<and> re_search (RE_UNIT ''day'') s = None \<and> re_search RE_DELTA s = None \<and> s \<noteq> NULL_STRING) duration_texts"
  by code_simp

lemma durations_empty:
  assumes "s \<in> set duration_texts"
  shows "interval_option X s = Ok (Some (no_time X))"
proof -
  from assms durations_unmatched have "re_search (RE_UNIT ''year'') s = None" "re_search (RE_UNIT ''month'') s = None"
    "re_search (RE_UNIT ''day'') s = None" "re_search RE_DELTA s = None" "s \<noteq> NULL_STRING"
    by (auto simp: list_all_iff)
  then show ?thesis
    by (simp add: interval_option_def literal_parse_def interval_parse_def captured_number_def no_time_def i64_defs)
qed

text \<open>With such a duration all snapshots but the latest are expired.\<close>

lemma duration_expires_all:
  assumes s: "im_get (md_global m) ''expire_older_than'' = Some s" "s \<in> set duration_texts"
    and now: "before (mt_now M) (no_time X) = Ok (mt_now M)"
    and past: "list_all (\<lambda>s. cmp_date_time_utc (mt_cmp M) (dsn_snapshot_time s) (mt_now M) = Less) (db_snapshots (lk_db l))"
    and run: "expire_snapshots M X before m DryRunNo latest commit_error l = (l', Ok xs)"
  shows "db_snapshots (lk_db l') = filter (\<lambda>s. dsn_snapshot_id s = Max (set (map dsn_snapshot_id (db_snapshots (lk_db l))))) (db_snapshots (lk_db l))"
proof -
  have age: "expire_older_than X m = Ok (Some (no_time X))"
    using durations_empty [OF s(2), of X] s(1) by (simp add: expire_older_than_def)
  have "expire_snapshots M X before m DryRunNo latest commit_error l
      = expire_snapshots_filtered M (OlderThan (mt_now M)) DryRunNo latest commit_error l"
    unfolding expire_snapshots_def age seq_app lift_res_def fst_conv snd_conv res.case option.case now expire_snapshots_older_than_def ..
  with run have "expire_snapshots_filtered M (OlderThan (mt_now M)) DryRunNo latest commit_error l = (l', Ok xs)" by (simp only:)
  then obtain c snapshots where found: "find_expired_snapshots M (OlderThan (mt_now M)) l = Ok snapshots"
    and run': "expire_snapshot_ids M c (map dsn_snapshot_id snapshots) l = (l', Ok ())"
    by (rule expire_filtered_Ok)
  let ?all = "db_snapshots (lk_db l)"
  from found have snapshots: "snapshots = filter (\<lambda>s. dsn_snapshot_id s \<noteq> Max (set (map dsn_snapshot_id ?all))) ?all"
    using past by (auto simp: find_expired_snapshots_def Let_def list_all_iff intro: filter_cong)
  have "db_snapshots (lk_db l') = remaining (map dsn_snapshot_id snapshots) l"
    using expire_snapshots_left [OF run'] .
  also have "\<dots> = filter (\<lambda>s. dsn_snapshot_id s = Max (set (map dsn_snapshot_id ?all))) ?all"
    by (auto simp: remaining_def snapshots intro!: filter_cong)
  finally show ?thesis .
qed

end
