(* ===== verification/Maintenance_Examples.thy ===== *)
theory Maintenance_Examples
  imports Retention Session_Examples
begin

text \<open>
  A lake on which the properties of maintenance are applied: the table \<open>5\<close> of the schema \<open>main\<close> is
  dropped in snapshot \<open>2\<close>; its file \<open>7\<close> was replaced by the file \<open>8\<close> in snapshot \<open>1\<close>.
\<close>

section \<open>What comes from other crates\<close>

definition strip_slashes :: "string \<Rightarrow> string" where
  "strip_slashes p = rev (dropWhile (\<lambda>c. c = slash) (rev (dropWhile (\<lambda>c. c = slash) p)))"

definition bucket_urls :: url_ops where
  "bucket_urls = example_urls\<lparr>url_parse := Ok, url_join := (\<lambda>b s. Some (b @ s)), url_scheme := (\<lambda>_. ''s3''),
     url_host_str := (\<lambda>_. Some ''b''), url_path := drop 6\<rparr>"

definition bucket_path :: ducklake_path where
  "bucket_path = Absolute ''s3://b/lake/''"

definition example_maintenance :: maintenance_env where
  "example_maintenance = \<lparr>mt_dialect = Sqlite, mt_urls = bucket_urls, mt_cwd = ''/'',
     mt_cmp = example_cmp\<lparr>cmp_date_time_utc := (\<lambda>_ _. Less)\<rparr>, mt_now = example_now, mt_data_path = bucket_path\<rparr>"

definition example_cleanup :: cleanup_env where
  "example_cleanup = \<lparr>cu_maintenance = example_maintenance,
     cu_object_ops = \<lparr>oo_from_absolute_path = Some, oo_parse = (\<lambda>p. Some (strip_slashes p)),
       oo_config_key = Some, oo_lowercase = (\<lambda>s. s)\<rparr>,
     cu_writable = True, cu_fails = (\<lambda>_. None), cu_list_error = None\<rparr>"

section \<open>The lake\<close>

definition example_file_row :: "i64 \<Rightarrow> i64 \<Rightarrow> i64 \<Rightarrow> string \<Rightarrow> ducklake_data_file" where
  "example_file_row i b e path = \<lparr>ddf_data_file_id = i, ddf_table_id = 5, ddf_begin_snapshot = b, ddf_end_snapshot = Some e,
     ddf_file_order = None, ddf_path = path, ddf_path_is_relative = True, ddf_file_format = ''parquet'', ddf_record_count = 1,
     ddf_file_size_bytes = None, ddf_footer_size = None, ddf_row_id_start = None, ddf_partition_id = None,
     ddf_encryption_key = None, ddf_mapping_id = None, ddf_partial_max = None\<rparr>"

definition example_lake_db :: store where
  "example_lake_db = (store_with [example_snapshot 0, example_snapshot 1, example_snapshot 2] [])
     \<lparr>db_schemas := [\<lparr>dsc_schema_id = 3, dsc_schema_uuid = None, dsc_begin_snapshot = 0, dsc_end_snapshot = None,
        dsc_schema_name = ''main'', dsc_path = ''main/'', dsc_path_is_relative = True\<rparr>],
      db_tables := [\<lparr>dt_table_id = 5, dt_table_uuid = None, dt_begin_snapshot = 0, dt_end_snapshot = Some 2,
        dt_schema_id = 3, dt_table_name = ''t'', dt_path = ''t/'', dt_path_is_relative = True\<rparr>],
      db_data_files := [example_file_row 7 0 1 ''a.parquet'', example_file_row 8 1 2 ''b.parquet'']\<rparr>"

definition example_lake :: lake where
  "example_lake = \<lparr>lk_db = example_lake_db, lk_column_mappings = [], lk_name_mappings = [], lk_variant_stats = [],
     lk_scheduled = [], lk_metadata = [\<lparr>dmd_key = ''version'', dmd_value = ''1.0'', dmd_scope = None, dmd_scope_id = None\<rparr>]\<rparr>"

lemma example_lake_ids: "file_ids_ok (lk_db example_lake)"
  by (simp add: file_ids_ok_def example_lake_def example_lake_db_def store_with_def example_file_row_def)

section \<open>Expiry\<close>

definition example_expiry :: "lake \<times> snapshot_metadata list result" where
  "example_expiry = expire_snapshots_filtered example_maintenance (Versions [0, 2]) DryRunNo (Ok catalog_new) None example_lake"

lemmas expiry_defs = expire_snapshots_filtered_def find_expired_snapshots_def expire_snapshot_ids_def delete_snapshots_def
  find_expired_tables_def mark_data_files_for_deletion_def delete_tables_def delete_expired_catalog_objects_def
  expired_data_files_def expired_delete_files_def inactive_def condition_inactive_snapshot_def condition_is_in_def
  condition_not_exists_in_reference_def delete_from_app in_db_def on_table_def table_data_path_def query_table_data_path_def
  file_scheduled_def build_deletion_file_path_def

lemmas example_lake_defs = example_lake_def example_lake_db_def store_with_def example_snapshot_def example_file_row_def
  example_maintenance_def bucket_path_def

lemma example_paths:
  "table_by_id catalog_new 5 = Err (EntityNotFound 5)"
  "path_new bucket_urls p True = Ok (Relative p)" "path_join bucket_urls (Absolute b) (Relative s) = Ok (Absolute (b @ s))"
  by (simp_all add: table_by_id_def catalog_new_def arena_new_def path_new_def path_join_def bucket_urls_def expect_def ok_or_def arena_map_id_def)

definition example_expired :: lake where
  "example_expired = example_lake\<lparr>lk_db := example_lake_db\<lparr>db_snapshots := [example_snapshot 1, example_snapshot 2],
       db_data_files := [example_file_row 8 1 2 ''b.parquet'']\<rparr>,
     lk_scheduled := [\<lparr>dfsd_data_file_id = 7, dfsd_path = ''main/t/a.parquet'', dfsd_path_is_relative = True,
       dfsd_schedule_start = example_now\<rparr>]\<rparr>"

lemma example_expiry_run:
  "example_expiry = (example_expired, Ok [\<lparr>sm_id = 0, sm_timestamp = example_now\<rparr>])"
  unfolding example_expiry_def example_expired_def
  by (simp add: expiry_defs example_lake_defs example_paths seq_app Let_def lift_res_def unique_def expect_def path_is_absolute_def)

definition example_duration_metadata :: metadata where
  "example_duration_metadata = \<lparr>md_global = [(''expire_older_than'', ''7d'')], md_schema = [], md_table = []\<rparr>"

definition example_duration_expiry :: "lake \<times> snapshot_metadata list result" where
  "example_duration_expiry = expire_snapshots example_maintenance example_text (\<lambda>t _. Ok t) example_duration_metadata
     DryRunNo (Ok catalog_new) None example_lake"

lemma example_duration_filtered:
  "example_duration_expiry = expire_snapshots_filtered example_maintenance (OlderThan example_now) DryRunNo (Ok catalog_new) None example_lake"
  using durations_empty [of "''7d''" example_text]
  by (simp add: example_duration_expiry_def expire_snapshots_def expire_older_than_def example_duration_metadata_def duration_texts_def
      lift_res_def seq_app expire_snapshots_older_than_def example_maintenance_def)

definition example_latest_only :: lake where
  "example_latest_only = example_lake\<lparr>lk_db := example_lake_db\<lparr>db_snapshots := [example_snapshot 2], db_tables := [],
       db_data_files := []\<rparr>,
     lk_scheduled := [\<lparr>dfsd_data_file_id = 7, dfsd_path = ''main/t/a.parquet'', dfsd_path_is_relative = True,
       dfsd_schedule_start = example_now\<rparr>, \<lparr>dfsd_data_file_id = 8, dfsd_path = ''main/t/b.parquet'', dfsd_path_is_relative = True,
       dfsd_schedule_start = example_now\<rparr>]\<rparr>"

lemma example_duration_run:
  "example_duration_expiry = (example_latest_only,
     Ok [\<lparr>sm_id = 0, sm_timestamp = example_now\<rparr>, \<lparr>sm_id = 1, sm_timestamp = example_now\<rparr>])"
  unfolding example_duration_filtered example_latest_only_def
  by (simp add: expiry_defs example_lake_defs example_paths seq_app Let_def lift_res_def unique_def unique_by_def expect_def path_is_absolute_def)

section \<open>Cleanup\<close>

definition example_store_state :: cleanup_state where
  "example_store_state = \<lparr>cl_lake = example_expired\<lparr>lk_db := store_with [] []\<rparr>,
     cl_objects = [(''lake/main/t/a.parquet'', example_now), (''lake/x.parquet'', example_now)]\<rparr>"

definition example_orphan_run :: "cleanup_state \<times> string list result" where
  "example_orphan_run = delete_orphaned_files_filtered example_cleanup (Ok catalog_new) (Some example_now) DryRunNo example_store_state"

lemma example_locations:
  "resolve_location example_cleanup (Absolute ''s3://b/lake/main/t/a.parquet'') = Ok ''lake/main/t/a.parquet''"
  "path_resolve bucket_urls cwd bucket_path = Ok (S3 ''b'' ''/lake/'')"
  "io_path_location (cu_object_ops example_cleanup) (S3 ''b'' ''/lake/'') = Ok ''lake''"
  by (simp_all add: resolve_location_def path_resolve_def io_path_new_def io_path_location_def example_cleanup_def
      example_maintenance_def bucket_urls_def bucket_path_def example_urls_def expect_def strip_slashes_def)

lemma example_orphan_effect:
  "example_orphan_run = (example_store_state\<lparr>cl_objects := [(''lake/main/t/a.parquet'', example_now)]\<rparr>, Ok [''s3://b/lake/x.parquet''])"
proof -
  have parts: "cu_maintenance example_cleanup = example_maintenance" "cu_writable example_cleanup" "cu_list_error example_cleanup = None"
    "cu_fails example_cleanup = (\<lambda>_. None)" "mt_urls example_maintenance = bucket_urls" "mt_data_path example_maintenance = bucket_path"
    "cmp_date_time_utc (mt_cmp example_maintenance) a b = Less" for a b
    by (simp_all add: example_cleanup_def example_maintenance_def)
  have stored: "stored_path example_cleanup ''main/t/a.parquet'' True = Ok (Absolute ''s3://b/lake/main/t/a.parquet'')"
    by (simp add: stored_path_def parts example_paths bucket_path_def)
  have referenced: "collect_referenced_locations example_cleanup (Ok catalog_new) (cl_lake example_store_state) = Ok [''lake/main/t/a.parquet'']"
    by (simp add: collect_referenced_locations_def example_store_state_def table_files_def store_with_def example_expired_def
        stored example_locations)
  show ?thesis
    by (simp add: example_orphan_run_def delete_orphaned_files_filtered_def seq_app referenced example_locations parts
        on_table_def Let_def case_prod_beta check_writable_def lift_res_def listed_def is_orphan_def)
      (simp add: example_store_state_def seq_app lift_res_def on_table_def)
qed

text \<open>The head snapshot does not have the table of the remaining file.\<close>

lemma example_file_panics:
  "referenced_location example_cleanup catalog_new (5, path, True) = Panic ''unwrap on an Err value''"
  by (simp add: referenced_location_def example_paths example_cleanup_def example_maintenance_def unwrap_res_def)

section \<open>Options\<close>

definition example_metadata :: metadata where
  "example_metadata = \<lparr>md_global = [(''version'', ''1.0'')], md_schema = [], md_table = []\<rparr>"

definition example_option_calls :: "(option_scope \<times> string \<times> string option \<times> ducklake_error option) list" where
  "example_option_calls = [(TableScope 5, ''auto_compact'', Some ''false'', None), (SchemaScope 3, ''auto_compact'', Some ''true'', None),
     (TableScope 5, ''auto_compact'', None, None), (CatalogScope, ''version'', Some ''2'', None)]"

definition example_options :: metadata_state where
  "example_options = fold option_call example_option_calls (example_lake, example_metadata)"

lemma example_metadata_load: "metadata_load example_lake = Ok example_metadata"
  by (simp add: metadata_load_def metadata_new_def example_lake_def example_metadata_def)

lemma example_metadata_ok: "list_all entry_ok (lk_metadata example_lake)"
  by (auto simp: example_lake_def entry_ok_def intro: exI [of _ CatalogScope])

end
