(* ===== verification/Spec2Isabelle.thy ===== *)
theory Spec2Isabelle
  imports Column_Growth Changes Batch Dialects TableStats Literal_Trips AppliedChanges Examples Panics
    Table_Trip Table_Changes Sessions Session_Examples Lost_Work Maintenance_Examples
begin

text \<open>
  Verification library for \<open>ducklake\<close>, the Rust crate under \<open>src/crates/ducklake/\<close> (paths below are
  relative to its \<open>src/\<close>). The crate keeps the catalog of a data lake in an SQL database: snapshots,
  schemas, tables with their columns, partitioning, sort order and tags, views, macros, and the data
  files of the tables with their statistics. A transaction works on a copy of the catalog of one
  snapshot and records its changes; \<open>commit\<close> turns them into rows, writes them in one database
  transaction as the next snapshot, and retries when another writer took the snapshot ID, after
  checking that the changes of the snapshots in between do not conflict with its own.

  \<^bold>\<open>Theories and code.\<close>

  \<^item> \<open>Prelude\<close>, \<open>Strings\<close>, \<open>Types\<close>: results with errors and panics, operations that pass a state,
    \<open>i64\<close> arithmetic with its wrap-around, \<open>IndexMap\<close> and \<open>HashMap\<close> as association lists without
    repeated keys, text functions of the standard library, opaque values of other crates.
  \<^item> \<open>Regex\<close>, \<open>Identifiers\<close>: a backtracking matcher for the patterns the code uses and
    \<open>utils/identifier.rs\<close>; the printed identifiers parse back.
  \<^item> \<open>Codec\<close>, \<open>Errors\<close>, \<open>Datatypes\<close>: a contract of printers and parsers, \<open>error.rs\<close>,
    \<open>typedefs/name.rs\<close>, data types, columns, schemas, tags, partitionings, sort orders.
  \<^item> \<open>Literals\<close>, \<open>Values\<close>, \<open>Literal_Trips\<close>: the text of values in the metadata tables, \<open>spec/literals/\<close> and
    \<open>typedefs/value/\<close>.
  \<^item> \<open>Columns\<close> and \<open>Column_*\<close>: \<open>catalog/typedefs/columns.rs\<close>, the arena of the columns of a table. A
    column refers to its parent and children by index; the lemmas give its layout for a schema, the
    invariant \<open>columns_wf\<close> and that every operation keeps it.
  \<^item> \<open>Catalog\<close> and \<open>Catalog_*\<close>: \<open>catalog/\<close>, the arenas of schemas, tables, views and macros and the
    name lookups; the invariant \<open>names_wf\<close>, the maps from names to objects that the lookups refine,
    and the effect of every operation on them.
  \<^item> \<open>AppliedChanges\<close>: \<open>transaction/changes/applied_change.rs\<close>, the text of the changes of a snapshot
    and the conflicts between them.
  \<^item> \<open>Changes\<close>, \<open>TableStats\<close>, \<open>CommitState\<close>: the changes a transaction records and their set without
    repetitions, the statistics of tables, the IDs drawn during a commit.
  \<^item> \<open>Entities\<close>, \<open>Dialects\<close>, \<open>Batch\<close>, \<open>Store\<close>: the rows of the metadata tables, the column types for
    inlined data, statements split into batches, the store as one list of rows per table.
  \<^item> \<open>Persist\<close>, \<open>Persist_History\<close>: \<open>transaction/transaction_changes.rs\<close>, all statements of a commit, and
    what they leave of the earlier snapshots.
  \<^item> \<open>Executors\<close>, \<open>Executors_Rows\<close>, \<open>Data_Writes\<close>, \<open>Panics\<close>: \<open>transaction/executors/\<close> and
    \<open>Change::apply\<close>, the rows every change becomes, the row IDs of data files, and two sequences of
    operations that panic.
  \<^item> \<open>Column_Load\<close>, \<open>Load\<close>: \<open>catalog/load.rs\<close> and the \<open>from_ducklake\<close> functions, the catalog of a snapshot
    from the rows visible at it; \<open>Column_Load_Trip\<close>, \<open>Created_Tables\<close>, \<open>Table_Trip\<close>, \<open>Macro_Trip\<close>: what is
    written for new columns, tables and macros loads back.
  \<^item> \<open>Transactions\<close>, \<open>Table_Changes\<close>, \<open>Macros\<close>: \<open>transaction/schema.rs\<close>, \<open>view.rs\<close>, \<open>table.rs\<close> and \<open>macro_.rs\<close>, the
    operations that check their arguments, change the catalog of the transaction and record a change.
  \<^item> \<open>Commit\<close>, \<open>Commit_Safety\<close>, \<open>Examples\<close>: \<open>Transaction::commit\<close> with its retry loop, its guarantees
    and concrete values they are applied to.

  \<^item> \<open>Schema_Cascade\<close>, \<open>Catalog_Steps\<close>, \<open>Sessions\<close>, \<open>Lost_Work\<close>, \<open>Session_Examples\<close>: deleting a schema with its
    objects, arbitrary sequences of calls on a transaction with their invariant, inline writes that are
    lost, and concrete transactions.
  \<^item> \<open>Scan\<close>: \<open>scan/\<close>, the files of a table at a snapshot with their statistics, and the inlined rows; the
    lookup of old schemas in \<open>caches/snapshot.rs\<close>.
  \<^item> \<open>Maintenance\<close>, \<open>Load_Simulation\<close>, \<open>Expiry_Safety\<close>: \<open>maintenance/expire_snapshots.rs\<close> on the whole
    database; the remaining snapshots load as before and reach the same files.
  \<^item> \<open>Cleanup\<close>: \<open>maintenance/cleanup_old_files.rs\<close> and \<open>delete_orphaned_files.rs\<close>, the locations of files and
    the cache of object stores; only unreferenced files are deleted.
  \<^item> \<open>Metadata\<close>, \<open>Retention\<close>, \<open>Maintenance_Examples\<close>: \<open>caches/metadata.rs\<close>, the options of the catalog, of
    schemas and of tables, whose cache stays equal to the database; the maintenance operations with the
    ages that the options give, and concrete values.

  \<^bold>\<open>Conventions.\<close> An operation on a state is a function to the new state and a result, which is \<open>Ok\<close>,
  \<open>Err\<close> (an error value of the code) or \<open>Panic\<close> (an out-of-range index, \<open>expect\<close>, \<open>todo!\<close>,
  \<open>unimplemented!\<close>). \<open>i64\<close> values are integers and every addition on them wraps explicitly; \<open>usize\<close> values
  are natural numbers. A \<open>HashSet\<close> is a list without repetitions and a \<open>HashMap\<close> an association list in
  insertion order; the code's iteration order is arbitrary, so nothing here depends on it beyond the
  order of rows in a batch.

  \<^bold>\<open>Bounds and fuel.\<close> The traversals of the column arena take fuel; \<open>arena_fuel\<close>, the number of columns
  plus one, is enough on every well-formed arena (theorem \<open>column_traversals_total\<close>). The retry loop ends
  by its counter (eleven rounds). All other recursions are structural or have a measure.

  \<^bold>\<open>Parameters.\<close> What the code gets from outside is an argument of the model: the texts and comparisons of
  the types of \<open>rust_decimal\<close>, \<open>chrono\<close> and \<open>uuid\<close>, the Arrow batches (number of rows, added columns),
  the collation of the database, the generated UUIDs, the clock. The database is a store of rows on
  which one transaction works alone and is rolled back when a statement or its \<open>COMMIT\<close> fails; what
  other writers do between two accesses is the \<open>schedule\<close>, one store per access, without any assumption
  except those a theorem states.

  \<^bold>\<open>Not modelled.\<close> Connection pools and the encoding of rows by \<open>sqlx\<close> and \<open>sea_query\<close> (the statements
  are modelled by their effect on the rows); creating and upgrading the metadata tables, which are fixed
  statements without logic; reading and writing Parquet and Arrow data; the clients of object stores (a
  store is a list of objects); rewriting SQL views, which walks the syntax trees of a third-party parser;
  the public handle, which only forwards to the modelled operations; background polling; the Python
  bindings and the polars integration; derive macros; tests.
\<close>

section \<open>Commits\<close>

text \<open>
  C1: one attempt to commit writes everything or nothing. When it fails, with an error or a
  panic, the store is as before. When it succeeds, it took a snapshot ID that was free,
  recorded the snapshot and the text of its changes, a reader of the new snapshot sees exactly
  the tables of the one before without the dropped ones, with the renamed ones under their new
  names and with the new ones, and a reader of any earlier snapshot sees what it saw before,
  but for the files of tables whose files were detached.
\<close>

theorem commit_is_atomic:
  "case apply_changes E now commit_error cs author (db, st) of
     ((db', st'), r) \<Rightarrow> (\<not> is_ok r \<and> db' = db) \<or> (\<exists>info. r = Ok info \<and> commit_error = None \<and> written E cs st db db' info)"
  using apply_changes_cases [of E now commit_error cs author db st] by (auto split: prod.splits)

text \<open>
  C2: when a commit succeeds, the changes of every snapshot that other writers committed
  between the start of the transaction and the new snapshot were read and found not to conflict
  with the changes of the transaction: no conflict is missed, however the attempts interleave
  with the other commits. The store must still hold the snapshot the transaction started from
  and all snapshots since, and the changes of a snapshot must be visible together with it.
\<close>

theorem concurrent_changes_are_checked:
  assumes "commit A W cache changes = (cache', Some (j, db), r)"
    and "0 \<le> sni_id (ca_start A)" "sni_id (ca_start A) < i64_max"
    and "sees_start (sni_id (ca_start A)) W" and "keeps_changes W (at_tx W j)"
    and "gapless (sni_id (ca_start A)) (at_tx W j)"
    and "row \<in> recorded_since (sni_id (ca_start A)) (at_tx W j)"
  shows "\<exists>theirs ours st. parse_applied_set (dsnc_changes_made row) = Ok theirs
    \<and> snd (change_set_applied (change_set_new changes) st) = Ok ours
    \<and> check_set_conflict ours theirs (ca_catalog A) = Ok ()"
  using assms by (rule commit_checks_all)

theorem concurrent_changes_are_checked_witness:
  "\<exists>theirs ours st. parse_applied_set (applied_set_to_string (applied_set_new [CreatedSchema ''other''])) = Ok theirs
    \<and> snd (change_set_applied (change_set_new example_changes) st) = Ok ours
    \<and> check_set_conflict ours theirs example_catalog = Ok ()"
proof -
  let ?row = "example_made 1 (applied_set_to_string (applied_set_new [CreatedSchema ''other'']))"
  note defs = example_args_def example_schedule_def snapshot_info_of_def example_snapshot_def example_store_def
    store_with_def example_made_def i64_defs
  obtain cache db where "commit example_args example_schedule (example_info 0) example_changes = (cache, Some (1, db), Ok ())"
    using example_commit_wrote by (auto simp: example_commit_def)
  from concurrent_changes_are_checked [OF this, of ?row] show ?thesis
    by (simp add: sees_start_def ids_bounded_def keeps_changes_def gapless_def recorded_since_def defs)
qed

text \<open>
  C3: a commit ends after at most eleven attempts, and reports success exactly when it wrote,
  or had nothing to write; what it wrote is one atomic attempt, made on the snapshot the
  transaction started from or, after a retry, on the latest snapshot at the time of a passed
  conflict check. The head of the snapshot cache never goes back.
\<close>

theorem commit_reports_the_truth:
  "case commit A W cache changes of
     (cache', w, r) \<Rightarrow> sni_id cache \<le> sni_id cache' \<and>
       (case w of
          None \<Rightarrow> is_ok r = (change_set_new changes = [])
        | Some (j, db) \<Rightarrow> r = Ok () \<and> j \<le> 10 \<and>
            (\<exists>latest. wrote (A\<lparr>ca_changes := change_set_new changes\<rparr>) W j latest db \<and>
              (if j = 0 then latest = ca_start A
               else checked (A\<lparr>ca_changes := change_set_new changes\<rparr>) W (j - 1) latest)))"
proof -
  obtain cache' w r where run: "commit A W cache changes = (cache', w, r)" by (metis prod.exhaust)
  note outcome = commit_outcome [OF run, unfolded max_retry_count_def]
  show ?thesis
  proof (cases w)
    case None
    have "change_set_new changes = [] \<Longrightarrow> is_ok r" using run by (auto simp: commit_def)
    with outcome have "sni_id cache \<le> sni_id cache'" "is_ok r = (change_set_new changes = [])"
      unfolding None option.case by blast+
    then show ?thesis unfolding run None prod.case option.case by blast
  next
    case (Some p)
    with outcome show ?thesis unfolding run by (cases p) (simp only: option.case prod.case)
  qed
qed

text \<open>
  C4: whatever changes a transaction makes, every row it collects begins with the snapshot it
  commits, every new table is still live, and a table is renamed at most once.
\<close>

theorem written_rows_begin_now:
  assumes "collect_changes E cs st = (st', Ok c)"
  shows "changes_from (st_snapshot_id st) c \<and> list_all (\<lambda>r. dt_end_snapshot r = None) (tc_new_tables c)
    \<and> distinct (im_keys (tc_renamed_tables c)) \<and> st_snapshot_id st' = st_snapshot_id st"
  using collect_changes_ok [OF assms] by (simp add: collected_ok_def list_all_iff)

theorem written_rows_begin_now_witness:
  "changes_from 1 (tx_changes_default\<lparr>tc_new_schemas := [example_row 0]\<rparr>)
    \<and> list_all (\<lambda>r. dt_end_snapshot r = None) (tc_new_tables (tx_changes_default\<lparr>tc_new_schemas := [example_row 0]\<rparr>))
    \<and> distinct (im_keys (tc_renamed_tables (tx_changes_default\<lparr>tc_new_schemas := [example_row 0]\<rparr>)))
    \<and> st_snapshot_id (example_state_after 0) = 1"
  using written_rows_begin_now [OF example_collect, of 0]
  by (simp add: example_state_def commit_state_new_def snapshot_info_of_def example_snapshot_def i64_defs)

text \<open>
  C5: the data files a transaction writes to a table get consecutive file IDs (a file is
  followed by its delete files) and ranges of row IDs that follow each other without gap or
  overlap, starting at the next row ID of the table, which moves past them; nothing is written
  for files before them.
\<close>

theorem row_ids_are_consecutive:
  assumes "write_table_data E r fs (c, st) = ((c', st'), Ok u)" and "state_table_id r st = (st0, Ok i)"
    and "0 \<le> next_row st i" "next_row st i + total_rows fs \<le> i64_max"
    and "0 \<le> st_next_file_id st" "st_next_file_id st + total_files fs \<le> i64_max"
  shows "\<exists>new. fch_data_files (tc_files c') = fch_data_files (tc_files c) @ new \<and>
    new_files i (st_next_file_id st) (next_row st i) fs new \<and>
    sorted_wrt (\<lambda>a b. the (ddf_row_id_start a) + ddf_record_count a \<le> the (ddf_row_id_start b)) new \<and>
    next_row st' i = next_row st i + total_rows fs \<and> st_next_file_id st' = st_next_file_id st + total_files fs"
proof -
  from write_table_data_run [OF assms] obtain new where new:
    "fch_data_files (tc_files c') = fch_data_files (tc_files c) @ new"
    "new_files i (st_next_file_id st) (next_row st i) fs new"
    "next_row st' i = next_row st i + total_rows fs" "st_next_file_id st' = st_next_file_id st + total_files fs" by blast
  with new_files_disjoint [OF new(2)] show ?thesis by blast
qed

text \<open>Two files of three and two rows, the first with a delete file, for table \<open>0\<close>.\<close>

definition example_file :: "nat \<Rightarrow> commit_delete_file list \<Rightarrow> commit_data_file" where
  "example_file rows deletes = \<lparr>cdf_path = Relative ''f'', cdf_encryption_key = None, cdf_partition_values = None,
     cdf_num_rows = rows, cdf_file_size_bytes = Some 10, cdf_footer_size_bytes = None, cdf_column_stats = [],
     cdf_delete_files = deletes, cdf_inline_deletes = []\<rparr>"

definition example_files :: "commit_data_file list" where
  "example_files = [example_file 3 [\<lparr>cdel_path = Relative ''d'', cdel_encryption_key = None, cdel_num_deletes = 1,
     cdel_file_size_bytes = None, cdel_footer_size_bytes = None\<rparr>], example_file 2 []]"

definition example_writing :: commit_state where
  "example_writing = commit_state_new (example_info 0) (fst example_added) True (Some [])"

definition example_written :: "(tx_changes \<times> commit_state) \<times> unit result" where
  "example_written = write_table_data example_env 0 example_files (tx_changes_default, example_writing)"

lemma example_written_run: "is_ok (snd example_written) \<and> snd (state_table_id 0 example_writing) = Ok 0
    \<and> next_row example_writing 0 = 0 \<and> st_next_file_id example_writing = 0"
  unfolding example_written_def example_writing_def by code_simp

theorem row_ids_are_consecutive_witness:
  "\<exists>new. fch_data_files (tc_files (fst (fst example_written))) = new \<and> new_files 0 0 0 example_files new
    \<and> sorted_wrt (\<lambda>a b. the (ddf_row_id_start a) + ddf_record_count a \<le> the (ddf_row_id_start b)) new
    \<and> next_row (snd (fst example_written)) 0 = 5 \<and> st_next_file_id (snd (fst example_written)) = 3"
proof -
  obtain c' st' u where run: "example_written = ((c', st'), Ok u)"
    using example_written_run unfolding is_ok_iff by (metis prod.collapse)
  obtain st0 where id: "state_table_id 0 example_writing = (st0, Ok 0)"
    using example_written_run by (metis prod.collapse)
  have totals: "total_rows example_files = 5" "total_files example_files = 3"
    by (simp_all add: example_files_def example_file_def total_rows_def total_files_def)
  from row_ids_are_consecutive [OF run [unfolded example_written_def] id] example_written_run totals
  show ?thesis by (simp add: run tx_changes_default_def i64_max_def)
qed








section \<open>Transactions\<close>



text \<open>
  C9: deleting an existing schema with \<open>cascade\<close> always succeeds, whatever the
  schema contains: the schema and exactly its tables, views and macros disappear from the
  catalog, the others stay, and the transaction records one deletion for every object of the
  schema, then the deletion of the schema.
\<close>

theorem cascading_delete_succeeds:
  assumes "catalog_ok (tn_catalog t)" and "im_get (schemas (tn_catalog t)) n = Some s"
  shows "\<exists>c' ds. delete_schema n True strategy t = (t\<lparr>tn_catalog := c', tn_changes := tn_changes t @ ds @ [DeleteSchema s]\<rparr>, Ok ())
    \<and> names_wf c' \<and> im_get (schemas c') = (im_get (schemas (tn_catalog t)))(n := None)
    \<and> tables_of c' = (\<lambda>q. if qn_schema q = n then None else tables_of (tn_catalog t) q)
    \<and> views_of c' = (\<lambda>q. if qn_schema q = n then None else views_of (tn_catalog t) q)
    \<and> macros_of c' = (\<lambda>q ty. if qn_schema q = n then None else macros_of (tn_catalog t) q ty)
    \<and> set ds = deletions (tn_catalog t) n"
  using assms by (rule cascade_deletes)

theorem cascading_delete_succeeds_witness:
  "\<exists>c' ds. delete_schema ''main'' True Fail example_tx
      = (example_tx\<lparr>tn_catalog := c', tn_changes := tn_changes example_tx @ ds @ [DeleteSchema 0]\<rparr>, Ok ())
    \<and> names_wf c' \<and> im_get (schemas c') = (im_get (schemas (tn_catalog example_tx)))(''main'' := None)
    \<and> tables_of c' = (\<lambda>q. if qn_schema q = ''main'' then None else tables_of (tn_catalog example_tx) q)
    \<and> views_of c' = (\<lambda>q. if qn_schema q = ''main'' then None else views_of (tn_catalog example_tx) q)
    \<and> macros_of c' = (\<lambda>q ty. if qn_schema q = ''main'' then None else macros_of (tn_catalog example_tx) q ty)
    \<and> set ds = deletions (tn_catalog example_tx) ''main''"
  by (rule cascading_delete_succeeds [OF example_tx_ok example_tx_schema])

text \<open>
  C10: whatever a client calls on a transaction, in whatever order and whichever calls return
  errors, the catalog of the transaction stays well formed (every name refers to an object that
  bears it, no name is used twice, tables and views share a name space) and the changes
  recorded so far are never altered or dropped.
\<close>

theorem sessions_keep_invariant:
  assumes "session V M t u" and "catalog_ok (tn_catalog t)"
  shows "catalog_ok (tn_catalog u) \<and> prefix (tn_changes t) (tn_changes u)"
  using session_invariant [OF assms] by (simp add: in_session_def)

theorem sessions_keep_invariant_witness:
  "catalog_ok (tn_catalog (fst example_deleted)) \<and> prefix (tn_changes example_tx) (tn_changes (fst example_deleted))"
proof (rule sessions_keep_invariant [OF _ example_tx_ok])
  have "run_call example_tx_env example_macro_env (DeleteTableCall example_name Fail) example_tx = (fst example_deleted, Ok ())"
    using example_deleted_eq by (simp only: example_deleted_def)
  then show "session example_tx_env example_macro_env example_tx (fst example_deleted)"
    by (rule session_call [OF session_start]) simp
qed

text \<open>
  C11: a call of a transaction's operation that fails or panics records no change, so that a
  client that goes on after the error commits only the calls that succeeded; this holds for the
  operations that make several changes, which are rolled back as a whole.
\<close>

theorem failed_calls_record_nothing:
  assumes "catalog_ok (tn_catalog t)" and "run_call V M call t = (t', r)" and "\<not> is_ok r"
  shows "tn_changes t' = tn_changes t"
  using assms by (rule failed_call)

theorem failed_calls_record_nothing_witness:
  "tn_changes (fst (run_call example_tx_env example_macro_env (DeleteTableCall example_name Fail) (fst example_deleted)))
    = tn_changes (fst example_deleted)"
proof (rule failed_calls_record_nothing [where V = example_tx_env and M = example_macro_env and
      call = "DeleteTableCall example_name Fail" and r = "Err (table_not_found example_name)"])
  have "run_call example_tx_env example_macro_env (DeleteTableCall example_name Fail) example_tx = (fst example_deleted, Ok ())"
    using example_deleted_eq by (simp only: example_deleted_def)
  then have "session example_tx_env example_macro_env example_tx (fst example_deleted)"
    by (rule session_call [OF session_start]) simp
  from session_invariant [OF this example_tx_ok] show "catalog_ok (tn_catalog (fst example_deleted))"
    by (simp add: in_session_def)
qed (simp_all add: prod_eq_iff example_deleted_again del: run_call.simps)

text \<open>
  C12: a macro that a transaction accepts loads back: the rows that its commit writes for the
  implementations and their parameters, read in any order, give the normalized implementations
  that the transaction recorded, under the name and kind it was given.
\<close>

theorem created_macros_load_back:
  assumes "create_macro_tx M name ty is Fail t = (t', Ok ())" and "last (tn_changes t') = CreateMacro m"
    and "length (crm_implementations m) < 2 ^ 63" and "list_all (\<lambda>j. length (mi_parameters j) < 2 ^ 63) (crm_implementations m)"
    and "tc_new_macro_impls (fst p) = []" "tc_new_macro_parameters (fst p) = []"
    and "create_macro_rows m p = (p', Ok ())"
    and "mset I = mset (tc_new_macro_impls (fst p'))" "mset P = mset (tc_new_macro_parameters (fst p'))"
  shows "snd (macro_from_ducklake (dma_macro_id (last (tc_new_macros (fst p')))) name I
      (group_map_by (\<lambda>r. (dmp_macro_id r, dmp_impl_id r)) P))
    = Ok \<lparr>cm_id = Some (dma_macro_id (last (tc_new_macros (fst p')))), cm_name = name, cm_macro_type = ty,
        cm_implementations = crm_implementations m\<rparr>"
  using assms by (rule created_macro_loads)

theorem created_macros_load_back_witness:
  "snd (macro_from_ducklake (dma_macro_id (last (tc_new_macros (fst (fst example_macro_rows))))) \<lparr>qn_schema = ''main'', qn_name = ''m''\<rparr>
      (rev (tc_new_macro_impls (fst (fst example_macro_rows))))
      (group_map_by (\<lambda>r. (dmp_macro_id r, dmp_impl_id r)) (rev (tc_new_macro_parameters (fst (fst example_macro_rows))))))
    = Ok \<lparr>cm_id = Some (dma_macro_id (last (tc_new_macros (fst (fst example_macro_rows))))),
        cm_name = \<lparr>qn_schema = ''main'', qn_name = ''m''\<rparr>, cm_macro_type = Scalar, cm_implementations = crm_implementations example_macro\<rparr>"
  using example_macro_call_eq example_macro_rows_eq
  by (intro created_macros_load_back [OF _ example_macro_change]; (simp only: example_macro_call_def example_macro_rows_def)?)
    (simp_all add: example_macro_implementations example_macros_def example_parameter_def tx_changes_default_def)

section \<open>Maintenance\<close>

text \<open>
  C13: expiring snapshots does not change what the remaining ones show: at every remaining
  snapshot the catalog loads as before, and a scan of any table is given the same data files,
  delete files and column statistics.
\<close>

theorem expiry_keeps_remaining_snapshots:
  assumes run: "expire_snapshots_filtered M f DryRunNo latest commit_error l = (l', Ok xs)" and ids: "file_ids_ok (lk_db l)"
    and n: "n \<in> dsn_snapshot_id ` set (db_snapshots (lk_db l'))"
  shows "catalog_load X U (lk_db l') n = catalog_load X U (lk_db l) n
    \<and> data_files_query t n (lk_db l') = data_files_query t n (lk_db l)
    \<and> delete_files_query t n (lk_db l') = delete_files_query t n (lk_db l)
    \<and> column_stats_query t n (lk_db l') = column_stats_query t n (lk_db l)"
proof -
  obtain c ids where expire: "expire_snapshot_ids M c ids l = (l', Ok ())" by (rule expire_filtered_Ok [OF run])
  from n have n': "n \<in> dsn_snapshot_id ` set (remaining ids l)" by (simp add: expire_snapshots_left [OF expire])
  from expire_agrees [OF expire n'] obtain D where "agree_at n D (lk_db l) (lk_db l')" by blast
  with agree_load [OF this] expire_scans [OF expire ids n'] show ?thesis by simp
qed

theorem expiry_keeps_remaining_snapshots_witness:
  "catalog_load example_text bucket_urls (lk_db example_expired) 1 = catalog_load example_text bucket_urls (lk_db example_lake) 1
    \<and> data_files_query 5 1 (lk_db example_expired) = data_files_query 5 1 (lk_db example_lake)
    \<and> delete_files_query 5 1 (lk_db example_expired) = delete_files_query 5 1 (lk_db example_lake)
    \<and> column_stats_query 5 1 (lk_db example_expired) = column_stats_query 5 1 (lk_db example_lake)"
  by (rule expiry_keeps_remaining_snapshots [OF example_expiry_run [unfolded example_expiry_def] example_lake_ids])
    (simp add: example_expired_def example_snapshot_def)

text \<open>
  C14: an expiry deletes exactly the snapshots that it returns, never the latest one, and
  exactly the rows of the data and delete files that no remaining snapshot reaches; each of
  these files is scheduled for deletion once, in that order, and nothing else is.
\<close>

theorem expired_files_are_scheduled:
  assumes run: "expire_snapshots_filtered M f DryRunNo latest commit_error l = (l', Ok xs)" and ids: "file_ids_ok (lk_db l)"
  defines "gone \<equiv> condition_inactive_snapshot (db_snapshots (lk_db l'))"
  shows "db_snapshots (lk_db l') = filter (\<lambda>s. dsn_snapshot_id s \<notin> set (map sm_id xs)) (db_snapshots (lk_db l))
    \<and> (db_snapshots (lk_db l) \<noteq> [] \<longrightarrow> Max (dsn_snapshot_id ` set (db_snapshots (lk_db l))) \<notin> set (map sm_id xs))
    \<and> db_data_files (lk_db l') = filter (\<lambda>r. \<not> gone (ddf_begin_snapshot r) (ddf_end_snapshot r)) (db_data_files (lk_db l))
    \<and> db_delete_files (lk_db l') = filter (\<lambda>r. \<not> gone (ddel_begin_snapshot r) (ddel_end_snapshot r)) (db_delete_files (lk_db l))
    \<and> (\<exists>rows. lk_scheduled l' = lk_scheduled l @ rows \<and> map dfsd_data_file_id rows =
        map ddf_data_file_id (filter (\<lambda>r. gone (ddf_begin_snapshot r) (ddf_end_snapshot r)) (db_data_files (lk_db l)))
        @ map ddel_delete_file_id (filter (\<lambda>r. gone (ddel_begin_snapshot r) (ddel_end_snapshot r)) (db_delete_files (lk_db l))))"
proof -
  obtain c snapshots where found: "find_expired_snapshots M f l = Ok snapshots"
    and expire: "expire_snapshot_ids M c (map dsn_snapshot_id snapshots) l = (l', Ok ())"
    and xs: "map sm_id xs = map dsn_snapshot_id snapshots"
    by (rule expire_filtered_Ok [OF run]) (simp add: comp_def)
  have "Max (dsn_snapshot_id ` set (db_snapshots (lk_db l))) \<notin> set (map sm_id xs)"
    using found unfolding xs by (auto simp: find_expired_snapshots_def Let_def elim!: and_then.elims)
  with expire_files [OF expire ids] show ?thesis
    unfolding gone_def xs expire_snapshots_left [OF expire] by (simp add: remaining_def)
qed

theorem expired_files_are_scheduled_witness:
  "Max (dsn_snapshot_id ` set (db_snapshots (lk_db example_lake))) \<notin> {0}
    \<and> (\<exists>rows. lk_scheduled example_expired = lk_scheduled example_lake @ rows \<and> map dfsd_data_file_id rows = [7])"
  using expired_files_are_scheduled [OF example_expiry_run [unfolded example_expiry_def] example_lake_ids]
  by (simp add: example_expired_def example_lake_defs condition_inactive_snapshot_def)





text \<open>
  C17: deleting orphaned files panics, and deletes nothing, whenever a data file still belongs
  to a table that the head snapshot no longer has: after a table is dropped, the operation does
  not work until the snapshots that have the table are expired.
\<close>

theorem orphan_cleanup_panics:
  assumes "f \<in> set (db_data_files (lk_db (cl_lake s)))" and "table_by_id c (ddf_table_id f) = Err e"
    and "path_new (mt_urls (cu_maintenance C)) (ddf_path f) (ddf_path_is_relative f) = Ok p"
    and "\<And>x e. x \<in> set (table_files (cl_lake s)) \<Longrightarrow> referenced_location C c x \<noteq> Err e"
  shows "\<exists>m. delete_orphaned_files_filtered C (Ok c) max_age dry s = (s, Panic m)"
  using assms by (rule orphans_panic)

theorem orphan_cleanup_panics_witness:
  "\<exists>m. delete_orphaned_files_filtered example_cleanup (Ok catalog_new) None DryRunYes \<lparr>cl_lake = example_expired, cl_objects = []\<rparr>
    = (\<lparr>cl_lake = example_expired, cl_objects = []\<rparr>, Panic m)"
proof (rule orphan_cleanup_panics [where f = "example_file_row 8 1 2 ''b.parquet''" and p = "Relative ''b.parquet''" and e = "EntityNotFound 5"])
  fix x e
  assume "x \<in> set (table_files (cl_lake \<lparr>cl_lake = example_expired, cl_objects = []\<rparr>))"
  then have "x = (5, ''b.parquet'', True)"
    by (simp add: table_files_def example_expired_def example_lake_defs)
  then show "referenced_location example_cleanup catalog_new x \<noteq> Err e" by (simp add: example_file_panics)
qed (simp_all add: example_expired_def example_lake_defs example_paths example_cleanup_def)

text \<open>
  C18: after any sequence of setting and unsetting options of the catalog, of schemas and of
  tables, with any of the calls failing, loading the options anew from the database succeeds
  and answers every lookup of an option, with its fallback from table to schema to catalog, as
  the updated cache does.
\<close>

theorem options_survive_reload:
  assumes "list_all entry_ok (lk_metadata l)" and "metadata_load l = Ok m" and "fold option_call calls (l, m) = (l', m')"
  shows "\<exists>m''. metadata_load l' = Ok m'' \<and> get_key m' key schema_id table_id = get_key m'' key schema_id table_id"
  using reload_agrees [OF assms] by (metis (no_types, lifting) get_key_same)

theorem options_survive_reload_witness:
  "\<exists>m. metadata_load (fst example_options) = Ok m
    \<and> get_key (snd example_options) ''auto_compact'' (Some 3) (Some 5) = get_key m ''auto_compact'' (Some 3) (Some 5)"
  by (rule options_survive_reload [OF _ example_metadata_load, where calls = example_option_calls])
    (simp_all add: example_metadata_ok example_options_def)

text \<open>
  C19: a duration such as '7d', the form that the documentation of the option gives, is read as
  the empty interval: with it as the age limit, expiring deletes every snapshot but the latest.
\<close>

theorem durations_expire_everything:
  assumes "im_get (md_global m) ''expire_older_than'' = Some d" "d \<in> {''7d'', ''30d'', ''12h'', ''1 week''}"
    and "before (mt_now M) (no_time X) = Ok (mt_now M)"
    and "list_all (\<lambda>s. cmp_date_time_utc (mt_cmp M) (dsn_snapshot_time s) (mt_now M) = Less) (db_snapshots (lk_db l))"
    and "expire_snapshots M X before m DryRunNo latest commit_error l = (l', Ok xs)"
  shows "db_snapshots (lk_db l')
    = filter (\<lambda>s. dsn_snapshot_id s = Max (set (map dsn_snapshot_id (db_snapshots (lk_db l))))) (db_snapshots (lk_db l))"
proof (rule duration_expires_all [OF assms(1) _ assms(3-)])
  show "d \<in> set duration_texts" using assms(2) by (auto simp: duration_texts_def)
qed

theorem durations_expire_everything_witness:
  "map dsn_snapshot_id (db_snapshots (lk_db example_latest_only)) = [2]"
proof -
  have "db_snapshots (lk_db example_latest_only)
      = filter (\<lambda>s. dsn_snapshot_id s = Max (set (map dsn_snapshot_id (db_snapshots (lk_db example_lake))))) (db_snapshots (lk_db example_lake))"
  proof (rule durations_expire_everything [of example_duration_metadata "''7d''"])
    show "expire_snapshots example_maintenance example_text (\<lambda>t _. Ok t) example_duration_metadata DryRunNo (Ok catalog_new) None example_lake
        = (example_latest_only, Ok [\<lparr>sm_id = 0, sm_timestamp = example_now\<rparr>, \<lparr>sm_id = 1, sm_timestamp = example_now\<rparr>])"
      using example_duration_run by (simp only: example_duration_expiry_def)
  qed (simp_all add: example_duration_metadata_def example_lake_defs)
  then show ?thesis by (simp add: example_lake_defs)
qed

section \<open>The columns of a table\<close>

definition example_columns :: "column list" where
  "example_columns =
     [Column ''id'' DInt64 False [] None (Literal None) None,
      Column ''s'' (DStruct [Column ''x'' DInt32 True [] None (Literal None) None,
         Column ''xs'' (DList (Column ''element'' DVarchar True [] None (Literal None) None)) True [] None (Literal None) None])
        True [] None (Literal None) None]"

lemma example_columns_ok:
  "distinct (map col_name example_columns)" "\<And>x. x \<in> set (nodes example_columns) \<Longrightarrow> struct_ok x"
  "length (nodes example_columns) = 5"
  by (auto simp: example_columns_def preorder.simps col_children_def struct_ok_def)

text \<open>A table with two plain columns.\<close>

definition plain_column :: "i64 \<Rightarrow> string \<Rightarrow> catalog_column" where
  "plain_column i n = \<lparr>cc_id = i, cc_name = n, cc_dtype = CPrimitive DInt64, cc_parent_column = None,
     cc_nullable = True, cc_tags = [], cc_initial_default = None, cc_default_value = Literal None\<rparr>"

definition example_arena :: catalog_columns where
  "example_arena = \<lparr>cs_arena = [plain_column 1 ''a'', plain_column 2 ''b''], cs_by_id = [(1, 0), (2, 1)],
     cs_root_columns = [(''a'', 0), (''b'', 1)], cs_next_column_id = Some 3\<rparr>"

lemma example_arena_wf: "columns_wf example_arena"
  by (auto simp: columns_wf_def forest_wf_def roots_wf_def column_ids_wf_def example_arena_def plain_column_def
      nth_Cons' less_Suc_eq split: if_splits)

text \<open>
  C20: storing the columns of a new table in the catalog arena and reading them back gives the
  same columns, with the field IDs 1, 2, 3, ... assigned in preorder; the arena is well formed
  and the next free ID is the one after the last.
\<close>

theorem columns_schema_round_trip:
  assumes "distinct (map col_name cols)" and "\<And>x. x \<in> set (nodes cols) \<Longrightarrow> struct_ok x"
    and "int (length (nodes cols)) < i64_max"
  shows "\<exists>cs. columns_from_schema (schema_of cols) None = Ok cs \<and> columns_wf cs
    \<and> schema_from_columns cs = Ok (schema_of (with_ids cols (\<lambda>i. 1 + int i)))
    \<and> cs_next_column_id cs = Some (1 + int (length (nodes cols)))"
proof -
  have "ids_available False 1 (nodes cols)" using assms(3) by (simp add: ids_available_def i64_min_def)
  with columns_from_schema_inv [OF assms(1,2), of None]
  obtain cs where cs: "columns_from_schema (schema_of cols) None = Ok cs"
    and inv: "root_inv False 1 (ids_for False 1 (nodes cols)) cols cs" by auto
  from inv have "cs_next_column_id cs = Some (1 + int (length (nodes cols)))" by (simp add: root_inv_def)
  with fresh_columns [OF assms cs] cs show ?thesis by blast
qed

theorem columns_schema_round_trip_witness:
  "\<exists>cs. columns_from_schema (schema_of example_columns) None = Ok cs \<and> columns_wf cs
    \<and> schema_from_columns cs = Ok (schema_of (with_ids example_columns (\<lambda>i. 1 + int i)))
    \<and> cs_next_column_id cs = Some (1 + int (length (nodes example_columns)))"
  by (rule columns_schema_round_trip [OF example_columns_ok(1,2)])
    (simp_all add: example_columns_ok(3) i64_max_def)



text \<open>
  C22: on a well-formed arena the recursive traversals end without a panic: the depth of the
  arena (its length plus one) is enough for every root and every column.
\<close>

theorem column_traversals_total:
  assumes "columns_wf cs" and "idx < length (cs_arena cs)"
  shows "(\<exists>r. root_column_indices cs = Ok r) \<and> (\<exists>r. column_data_types cs = Ok r)
    \<and> (\<exists>c. schema_column_from_arena_index (arena_fuel cs) cs idx = Ok c)"
  using root_column_indices_total [OF assms(1)] column_data_types_total [OF assms(1)]
    schema_column_total [of cs idx "arena_fuel cs"] assms
  by (auto simp: columns_wf_def)

theorem column_traversals_total_witness:
  "(\<exists>r. root_column_indices example_arena = Ok r) \<and> (\<exists>r. column_data_types example_arena = Ok r)
    \<and> (\<exists>c. schema_column_from_arena_index (arena_fuel example_arena) example_arena 1 = Ok c)"
  by (rule column_traversals_total [OF example_arena_wf]) (simp add: example_arena_def)

section \<open>The catalog\<close>

text \<open>
  C23: a successful \<open>add_table\<close> registers the new table under its name and nothing
  else: the map from qualified names to tables gains exactly this entry (the name was free
  among tables and views), views, macros and schemas are unchanged, and the catalog's name
  invariant still holds.
\<close>

theorem add_table_registers:
  assumes "names_wf c" and "add_table info path next_id c = (c', Ok (s, t, cols, parts))"
  shows "names_wf c' \<and> tables_of c (ti_name info) = None \<and> views_of c (ti_name info) = None
    \<and> tables_of c' = (tables_of c)(ti_name info \<mapsto> t) \<and> views_of c' = views_of c
    \<and> macros_of c' = macros_of c \<and> schemas c' = schemas c \<and> table_by_name c' (ti_name info) = Ok t"
proof -
  have wf': "names_wf c'" using add_table_wf [OF assms(1), of info path next_id] assms(2) by simp
  note eff = add_table_effect [OF assms]
  have "im_get (schemas c') (qn_schema (ti_name info)) \<noteq> None" using eff(6,7) by simp
  then have "table_by_name c' (ti_name info) = Ok t"
    using table_by_name_eq [OF names_wf_schemas [OF wf'], of "ti_name info"] by (simp add: eff(3))
  with wf' eff show ?thesis by blast
qed

theorem add_table_registers_witness:
  "names_wf (fst example_added) \<and> tables_of example_catalog (ti_name example_table) = None
    \<and> views_of example_catalog (ti_name example_table) = None
    \<and> tables_of (fst example_added) = (tables_of example_catalog)(ti_name example_table \<mapsto> 0)
    \<and> views_of (fst example_added) = views_of example_catalog
    \<and> macros_of (fst example_added) = macros_of example_catalog \<and> schemas (fst example_added) = schemas example_catalog
    \<and> table_by_name (fst example_added) (ti_name example_table) = Ok 0"
  by (rule add_table_registers [OF example_catalog_wf example_added_run])

text \<open>
  C24: the information of a new table reads back from the catalog as it was given, with the
  field IDs 1, 2, 3, ... filled in: name, schema, partitioning, sort order and tags.
\<close>

theorem new_table_reads_back:
  assumes "names_wf c" and "distinct (map col_name cols)" and "\<And>x. x \<in> set (nodes cols) \<Longrightarrow> struct_ok x"
    and "int (length (nodes cols)) < i64_max" and "ti_schema info = schema_of cols"
    and "add_table info path None c = (c', Ok (s, t, refs, parts))"
  shows "get_table_info c' t = Ok (info\<lparr>ti_schema := schema_of (with_ids cols (\<lambda>i. 1 + int i))\<rparr>)"
  using assms by (rule new_table_info)

theorem new_table_reads_back_witness:
  "get_table_info (fst example_added) 0 = Ok (example_table\<lparr>ti_schema :=
     schema_of (with_ids [Column ''a'' DInt64 True [] None (Literal None) None] (\<lambda>i. 1 + int i))\<rparr>)"
  by (rule new_table_reads_back [OF example_catalog_wf _ _ _ _ example_added_run])
    (auto simp: example_table_def preorder.simps col_children_def struct_ok_def i64_max_def)

text \<open>
  C25: renaming a registered table moves its entry to the new name in the same schema; it
  fails, changing nothing, exactly when a table or a view already has the new name.
\<close>

theorem table_rename_moves_name:
  assumes "names_wf c" and "tables_of c q = Some t"
  shows "if tables_of c (q\<lparr>qn_name := n\<rparr>) \<noteq> None
      then table_rename t n c = (c, Err (table_already_exists (q\<lparr>qn_name := n\<rparr>)))
    else if views_of c (q\<lparr>qn_name := n\<rparr>) \<noteq> None
      then table_rename t n c = (c, Err (view_already_exists (q\<lparr>qn_name := n\<rparr>)))
    else snd (table_rename t n c) = Ok () \<and> names_wf (fst (table_rename t n c))
      \<and> tables_of (fst (table_rename t n c)) = (tables_of c)(q := None, q\<lparr>qn_name := n\<rparr> \<mapsto> t)
      \<and> views_of (fst (table_rename t n c)) = views_of c \<and> macros_of (fst (table_rename t n c)) = macros_of c"
  using table_rename_cases [OF assms, of n] by auto

theorem table_rename_moves_name_witness:
  "tables_of (fst (table_rename 0 ''u'' (fst example_added))) \<lparr>qn_schema = ''main'', qn_name = ''u''\<rparr> = Some 0"
proof -
  have t: "tables_of (fst example_added) = (tables_of example_catalog)(ti_name example_table \<mapsto> 0)"
    and v: "views_of (fst example_added) = views_of example_catalog"
    using add_table_effect(3,4) [OF example_catalog_wf example_added_run] by auto
  show ?thesis
    using table_rename_moves_name [OF example_added_wf example_added_table, of "''u''"]
    by (simp add: t v example_catalog_objects example_table_def)
qed

text \<open>
  C26: deleting a table (or a view) that is registered succeeds, removes exactly its name and
  keeps the name invariant.
\<close>

theorem objects_deleted_by_name:
  assumes "names_wf c"
  shows "(tables_of c q = Some t \<longrightarrow> snd (table_delete t c) = Ok () \<and> names_wf (fst (table_delete t c))
      \<and> tables_of (fst (table_delete t c)) = (tables_of c)(q := None)
      \<and> views_of (fst (table_delete t c)) = views_of c)
    \<and> (views_of c q = Some v \<longrightarrow> snd (view_delete v c) = Ok () \<and> names_wf (fst (view_delete v c))
      \<and> views_of (fst (view_delete v c)) = (views_of c)(q := None)
      \<and> tables_of (fst (view_delete v c)) = tables_of c)"
  using table_delete_effect [OF assms, of q t] view_delete_effect [OF assms, of q v] by blast

theorem objects_deleted_by_name_witness:
  "snd (table_delete 0 (fst example_added)) = Ok ()
    \<and> tables_of (fst (table_delete 0 (fst example_added))) \<lparr>qn_schema = ''main'', qn_name = ''t''\<rparr> = None"
  using objects_deleted_by_name [OF example_added_wf, of "\<lparr>qn_schema = ''main'', qn_name = ''t''\<rparr>" 0] example_added_table
  by simp





section \<open>Change sets and statistics\<close>

text \<open>
  C29: the change set of a transaction holds, in the order of the transaction, the last change
  of every key whose object is neither created and deleted in the same transaction nor, for
  tables, deleted by it.
\<close>

theorem change_set_contract:
  "change_set_new cs = filter (\<lambda>c. \<not> cancelled cs c) (last_by change_key cs)"
  by (rule change_set_filter)

text \<open>
  C30: removing duplicates from the changes of a transaction does not change what the tag edits
  of a table amount to: replaying the change set gives every tag key the value that replaying
  all changes gives it, unless the transaction deletes the table.
\<close>

theorem change_set_same_tags:
  assumes "HDeleteTable r \<notin> change_key ` set cs"
  shows "im_get (fold (replay_tag r) (change_set_new cs) ts) = im_get (fold (replay_tag r) cs ts)"
  using assms by (rule change_set_keeps_tags)

theorem change_set_same_tags_witness:
  "im_get (fold (replay_tag 0) (change_set_new
       [AddTableTag 0 \<lparr>tag_key = ''k'', tag_value = ''1''\<rparr>, RemoveTableTag 0 ''k'', AddTableTag 0 \<lparr>tag_key = ''k'', tag_value = ''2''\<rparr>]) [])
     = im_get (fold (replay_tag 0)
       [AddTableTag 0 \<lparr>tag_key = ''k'', tag_value = ''1''\<rparr>, RemoveTableTag 0 ''k'', AddTableTag 0 \<lparr>tag_key = ''k'', tag_value = ''2''\<rparr>] [])"
  by (rule change_set_same_tags) simp

text \<open>
  C31: when every file gives a minimum and a maximum and all these values are comparable, the
  stored minimum and maximum of the column are among the given ones and bound all of them.
\<close>

theorem statistics_bounds:
  assumes "totally_ordered X (set los)" and "totally_ordered X (set his)"
  shows "lower_bound X (set los) (cst_min_value (fold (\<lambda>v. update_min_value X (Some v)) los column_stats_default))
    \<and> upper_bound X (set his) (cst_max_value (fold (\<lambda>v. update_max_value X (Some v)) his column_stats_default))"
proof -
  have "cst_min_value (fold (\<lambda>v. update_min_value X (Some v)) vs c) = fold (\<lambda>v acc. min_update X acc (Some v)) vs (cst_min_value c)"
    for vs c by (induction vs arbitrary: c) (simp_all add: update_min_value_def)
  moreover have "cst_max_value (fold (\<lambda>v. update_max_value X (Some v)) vs c) = fold (\<lambda>v acc. max_update X acc (Some v)) vs (cst_max_value c)"
    for vs c by (induction vs arbitrary: c) (simp_all add: update_max_value_def)
  ultimately show ?thesis
    using bounds_fold [OF assms(1), of "{}" los None None] bounds_fold [OF assms(2), of "{}" his None None]
    by (simp add: column_stats_default_def lower_bound_def upper_bound_def)
qed

theorem statistics_bounds_witness:
  "lower_bound example_cmp (set [VInt64 4, VInt64 (- 2)])
       (cst_min_value (fold (\<lambda>v. update_min_value example_cmp (Some v)) [VInt64 4, VInt64 (- 2)] column_stats_default))
    \<and> upper_bound example_cmp (set [VInt64 9, VInt64 7])
       (cst_max_value (fold (\<lambda>v. update_max_value example_cmp (Some v)) [VInt64 9, VInt64 7] column_stats_default))"
  by (rule statistics_bounds) (rule totally_ordered_subset [OF totally_ordered_int64]; simp)+

section \<open>Database batches\<close>

text \<open>
  C32: when every single item fits, splitting the items of a statement into batches loses and
  reorders nothing, and every batch is non-empty, has at most the given number of items and at
  most as many bind parameters as the database allows.
\<close>

theorem batches_respect_limit:
  assumes "0 < max_items" and "\<And>x. x \<in> set items \<Longrightarrow> binds [x] \<le> max_bind_params d"
  shows "\<exists>bs. batch_queries binds (max_bind_params d) max_items items = map Ok bs \<and> concat bs = items
    \<and> (\<forall>b\<in>set bs. b \<noteq> [] \<and> length b \<le> max_items \<and> binds b \<le> max_bind_params d)"
  using assms by (rule batch_queries_ok)

theorem batches_respect_limit_witness:
  "\<exists>bs. batch_queries (\<lambda>b. 20000 * length b) (max_bind_params Sqlite) 256 [1 :: int, 2, 3] = map Ok bs
    \<and> concat bs = [1, 2, 3]
    \<and> (\<forall>b\<in>set bs. b \<noteq> [] \<and> length b \<le> 256 \<and> 20000 * length b \<le> max_bind_params Sqlite)"
  by (rule batches_respect_limit) (simp_all add: max_bind_params_def)

text \<open>
  C33: updating rows by key in batches has the effect of one statement over all rows: each row
  gets the values of the one key that matches it.
\<close>

theorem batched_updates_equal_one:
  assumes "0 < nkeys" and "value_columns * (nkeys + 1) + nkeys \<le> max_bind_params d"
    and "\<And>v r. key_of (assign v r) = key_of r" and "keys_separate keq (map fst rows)"
  shows "update_rows d nkeys key_of keq value_columns assign rows t
    = (map (replace_by key_of keq assign rows) t, Ok ())"
  using assms by (rule update_rows_whole)

theorem batched_updates_equal_one_witness:
  "update_rows Sqlite 1 fst (=) 1 (\<lambda>v r. (fst r, v)) [(1 :: int, ''x''), (3, ''z'')] [(1, ''a''), (2, ''b''), (3, ''c'')]
    = (map (replace_by fst (=) (\<lambda>v r. (fst r, v)) [(1, ''x''), (3, ''z'')]) [(1, ''a''), (2, ''b''), (3, ''c'')], Ok ())"
  by (rule batched_updates_equal_one) (auto simp: max_bind_params_def keys_separate_def)

section \<open>Changes and conflicts\<close>



text \<open>
  C35: the changes of a snapshot, printed into its \<open>changes_made\<close> text, parse back
  to the same set, when no name contains a comma.
\<close>

theorem changes_made_round_trip:
  assumes "cs \<noteq> []" and "\<forall>c\<in>set cs. change_ok c \<and> comma \<notin> set (change_param c)"
  shows "parse_applied_set (applied_set_to_string (applied_set_new cs)) = Ok (applied_set_new cs)"
  using assms by (rule parse_applied_set_to_string)

theorem changes_made_round_trip_witness:
  "parse_applied_set (applied_set_to_string (applied_set_new [CreatedSchema ''s'', DroppedTable 42, DroppedTable 42]))
     = Ok (applied_set_new [CreatedSchema ''s'', DroppedTable 42, DroppedTable 42])"
proof (rule changes_made_round_trip)
  have "comma \<notin> set (show_int 42)" by (rule show_int_not_in) simp_all
  then show "\<forall>c\<in>set [CreatedSchema ''s'', DroppedTable 42, DroppedTable 42]. change_ok c \<and> comma \<notin> set (change_param c)"
    by (simp add: in_i64_def i64_min_def i64_max_def schema_name_to_string_def format_identifier_def quoted_def)
qed simp


section \<open>Work that is lost\<close>

text \<open>
  C37: two inline writes to one table in a transaction both succeed, but the change set that
  the commit works with is the one of a transaction without the first write: its rows are lost.
\<close>

theorem inline_writes_overwrite:
  assumes "write_table_inline_data_tx V q as t = (t1, Ok ())" and "write_table_inline_data_tx V q bs t1 = (t2, Ok ())"
  shows "\<exists>r xs ys. length xs = length as \<and> length ys = length bs
    \<and> tn_changes t2 = tn_changes t @ [WriteTableInlineData r xs, WriteTableInlineData r ys]
    \<and> change_set_new (tn_changes t2) = change_set_new (tn_changes t @ [WriteTableInlineData r ys])"
  using assms by (rule second_inline_write)

theorem inline_writes_overwrite_witness:
  "\<exists>r xs ys. length xs = length [example_batch] \<and> length ys = length [example_batch, example_batch]
    \<and> tn_changes (fst example_second_write) = tn_changes example_tx @ [WriteTableInlineData r xs, WriteTableInlineData r ys]
    \<and> change_set_new (tn_changes (fst example_second_write)) = change_set_new (tn_changes example_tx @ [WriteTableInlineData r ys])"
  by (rule inline_writes_overwrite [OF example_first_write_run example_second_write_run])

text \<open>
  C38: making a nullable column of a table non-nullable panics when the table was created in
  the same transaction: the check for nulls in its statistics asks for the ID the table does
  not have yet.
\<close>

theorem new_table_nullability_panics:
  assumes "names_wf (tn_catalog t)" and "create_table_tx V name cols parts sorts path tags Fail t = (t', Ok ())"
    and "column_of name col (tn_catalog t') = Ok r" "column_inner (tn_catalog t') r = Ok x" "cc_nullable x"
    and "xe_table_stats V = Ok stats"
  shows "update_table_column_nullability V name col False t' = (t', Panic ''unwrap on None'')"
  using assms by (rule new_table_nullability)

theorem new_table_nullability_panics_witness:
  "update_table_column_nullability example_tx_env \<lparr>qn_schema = ''main'', qn_name = ''u''\<rparr> [''s''] False (fst example_create)
    = (fst example_create, Panic ''unwrap on None'')"
proof (rule new_table_nullability_panics [OF catalog_okD(1) [OF example_tx_ok]])
  show "create_table_tx example_tx_env \<lparr>qn_schema = ''main'', qn_name = ''u''\<rparr> example_new_columns None None None None Fail example_tx
      = (fst example_create, Ok ())"
    using example_create_eq by (simp only: example_create_def)
qed (rule example_new_column, rule example_new_column, simp_all add: example_tx_env_def)

section \<open>Names and types\<close>

text \<open>
  C39: an identifier printed by \<open>format_identifier\<close> parses back to its components,
  whatever characters they contain, and so does a comma-separated list of identifiers, as it is
  stored for the column aliases of a view; the empty list is the empty text.
\<close>

theorem identifier_round_trip:
  assumes "xs \<noteq> []" and "[] \<notin> set xs" and "[] \<notin> set ys"
  shows "parse_identifier (format_identifier xs) = Some xs
    \<and> parse_identifier_list (format_identifier_list ys) = Some ys"
  using parse_format_identifier [OF assms(1,2)] parse_format_identifier_list [OF assms(3)] by (rule conjI)

theorem identifier_round_trip_witness:
  "parse_identifier (format_identifier [''a.b'', [dquote], ''c'']) = Some [''a.b'', [dquote], ''c'']
    \<and> parse_identifier_list (format_identifier_list [''a,b'', ''c'']) = Some [''a,b'', ''c'']"
  by (rule identifier_round_trip) simp_all



end
